(* ===== verification/Prelude.thy ===== *)
theory Prelude
  imports Main "HOL-Library.Word"
begin

text \<open>
  Shared vocabulary of the development: the machine integers the C sources use, the ways
  a tool invocation can end other than by returning, the alignment macro of
  \<^verbatim>\<open>user/shared/drbdmeta.h\<close>, and the generic facts on words, lists and byte
  positions that the component theories rest on.
\<close>

unbundle bit_operations_syntax

section \<open>Types\<close>

type_synonym u8 = "8 word"
type_synonym u16 = "16 word"
type_synonym u32 = "32 word"
type_synonym u64 = "64 word"
type_synonym bytes = "8 word list"

text \<open>
  A C function that calls \<^verbatim>\<open>exit\<close>, fails an \<^verbatim>\<open>ASSERT\<close> (and so aborts) or
  accesses memory outside an array does not return. These are values of type
  \<open>stop\<close>; a computation that may stop has a result of type \<open>stop + 'a\<close>.
\<close>

datatype stop = Exit nat | Abort | OutOfBounds

type_synonym 'a res = "stop + 'a"

definition bind_res :: "'a res \<Rightarrow> ('a \<Rightarrow> 'b res) \<Rightarrow> 'b res" where
  "bind_res r f = (case r of Inl e \<Rightarrow> Inl e | Inr a \<Rightarrow> f a)"

definition assert_res :: "bool \<Rightarrow> 'a res \<Rightarrow> 'a res" where
  "assert_res b r = (if b then r else Inl Abort)"

lemma bind_res_simps [simp]:
  "bind_res (Inl e) f = Inl e"
  "bind_res (Inr a) f = f a"
  by (simp_all add: bind_res_def)

lemma bind_res_Inr_iff: "bind_res r f = Inr b \<longleftrightarrow> (\<exists>a. r = Inr a \<and> f a = Inr b)"
  by (cases r) simp_all

lemma assert_res_Inr_iff [simp]: "assert_res b r = Inr a \<longleftrightarrow> b \<and> r = Inr a"
  by (simp add: assert_res_def)

section \<open>Checked arrays\<close>

text \<open>C arrays of a fixed size: an index outside of them is a value of its own, not a default element.\<close>

definition array_get :: "'a list \<Rightarrow> nat \<Rightarrow> 'a res" where
  "array_get xs i = (if i < length xs then Inr (xs ! i) else Inl OutOfBounds)"

definition array_put :: "'a list \<Rightarrow> nat \<Rightarrow> 'a \<Rightarrow> 'a list res" where
  "array_put xs i x = (if i < length xs then Inr (xs[i := x]) else Inl OutOfBounds)"

text \<open>A loop over indices whose body may stop.\<close>

primrec fold_res :: "('a \<Rightarrow> 'b \<Rightarrow> 'b res) \<Rightarrow> 'a list \<Rightarrow> 'b \<Rightarrow> 'b res" where
  "fold_res f [] y = Inr y"
| "fold_res f (x # xs) y = bind_res (f x y) (fold_res f xs)"

lemma fold_res_append: "fold_res f (xs @ ys) y = bind_res (fold_res f xs y) (fold_res f ys)"
proof (induction xs arbitrary: y)
  case (Cons x xs)
  then show ?case by (cases "f x y") simp_all
qed simp

lemma fold_res_fold:
  assumes "\<And>x y. x \<in> set xs \<Longrightarrow> I y \<Longrightarrow> f x y = Inr (g x y) \<and> I (g x y)"
  shows "I y \<Longrightarrow> fold_res f xs y = Inr (fold g xs y) \<and> I (fold g xs y)"
  using assms by (induction xs arbitrary: y) simp_all

section \<open>Alignment\<close>

named_theorems align_simps \<open>facts that read the alignment macro as arithmetic\<close>

text \<open>
  \<^verbatim>\<open>#define __ALIGN_MASK(x, mask) (((x) + (mask)) & ~(mask))\<close> with
  \<^verbatim>\<open>mask = (__typeof__(x))(a) - 1\<close>: the macro computes in the type of \<open>x\<close>.
\<close>

definition ALIGN :: "'a::len word \<Rightarrow> 'a word \<Rightarrow> 'a word" where
  "ALIGN x a = (x + (a - 1)) AND NOT (a - 1)"

text \<open>Rounding up to a multiple on the natural numbers: what the macro means.\<close>

definition align_up :: "nat \<Rightarrow> nat \<Rightarrow> nat" where
  "align_up x a = (x + a - 1) div a * a"

lemma and_not_mask: "(x::'a::len word) AND NOT (2 ^ k - 1) = push_bit k (drop_bit k x)"
  by (rule bit_eqI) (auto simp: bit_simps mask_eq_exp_minus_1 [symmetric])

lemma unat_and_not_mask:
  "unat ((x::'a::len word) AND NOT (2 ^ k - 1)) = unat x div 2 ^ k * 2 ^ k"
proof -
  have le: "unat x div 2 ^ k * 2 ^ k < 2 ^ LENGTH('a)"
    by (meson div_times_less_eq_dividend order_le_less_trans unsigned_less)
  have "unat (push_bit k (drop_bit k x)) = take_bit LENGTH('a) (push_bit k (unat (drop_bit k x)))"
    by (simp only: unsigned_push_bit_eq)
  also have "\<dots> = take_bit LENGTH('a) (unat x div 2 ^ k * 2 ^ k)"
    by (simp only: unsigned_drop_bit_eq push_bit_eq_mult)
      (simp add: drop_bit_eq_div take_bit_nat_eq_self)
  also have "\<dots> = unat x div 2 ^ k * 2 ^ k"
    using le by (rule take_bit_nat_eq_self)
  finally show ?thesis by (simp only: and_not_mask)
qed

lemma unat_exp2: "k < LENGTH('a) \<Longrightarrow> unat ((2::'a::len word) ^ k) = 2 ^ k"
  by (metis of_nat_numeral of_nat_power power_strict_increasing rel_simps(49) one_less_numeral_iff
      take_bit_nat_eq_self unsigned_of_nat of_nat_id semiring_norm(76))

lemma unat_ALIGN:
  assumes k: "k < LENGTH('a)" and nowrap: "unat (x::'a::len word) + 2 ^ k - 1 < 2 ^ LENGTH('a)"
  shows "unat (ALIGN x (2 ^ k)) = align_up (unat x) (2 ^ k)"
proof -
  have "unat ((2::'a word) ^ k) = 2 ^ k"
    using k by (rule unat_exp2)
  then have m: "unat ((2::'a word) ^ k - 1) = 2 ^ k - 1"
    using k by (simp add: unat_minus_one)
  have "unat (x + (2 ^ k - 1)) = unat x + (2 ^ k - 1)"
    using nowrap by (simp add: m unat_add_lem [THEN iffD1])
  then show ?thesis
    by (simp only: ALIGN_def unat_and_not_mask align_up_def) (simp add: add_diff_assoc)
qed

lemma align_up_split: "x + a - 1 = align_up x a + (x + a - 1) mod a"
  by (simp add: align_up_def)

lemma align_up_ge: "0 < a \<Longrightarrow> x \<le> align_up x a"
  using align_up_split [of x a] mod_less_divisor [of a "x + a - 1"] by linarith

lemma align_up_less: "0 < a \<Longrightarrow> align_up x a < x + a"
  using align_up_split [of x a] by linarith

lemma dvd_align_up [simp, intro]: "a dvd align_up x a"
  by (simp add: align_up_def)

lemma align_up_dvd_id:
  assumes "a dvd x" and "0 < a"
  shows "align_up x a = x"
proof -
  from assms(1) obtain q where x: "x = a * q" by (rule dvdE)
  have "(a - 1 + a * q) div a = q"
    using assms(2) by (simp only: div_mult_self2) simp
  then show ?thesis using assms(2) by (simp add: align_up_def x add.commute)
qed

lemma align_up_mono: "x \<le> y \<Longrightarrow> align_up x a \<le> align_up y a"
  by (simp add: align_up_def div_le_mono)

section \<open>Words read as natural numbers\<close>

lemma unat_less: "unat (x :: 'a::len word) < 2 ^ LENGTH('a)"
  by (rule unsigned_less)

lemma ucast_u32_u64 [simp]: "unat (ucast (x :: u32) :: u64) = unat x"
proof -
  have "unat x < 2 ^ 64" using unat_less [of x] by simp
  then show ?thesis by (simp add: unsigned_ucast_eq take_bit_nat_eq_self)
qed

lemma unat_drop_bit: "unat (drop_bit n (x :: 'a::len word)) = unat x div 2 ^ n"
proof -
  have "unat (drop_bit n x) = drop_bit n (take_bit LENGTH('a) (unat x))"
    by (rule unsigned_drop_bit_eq)
  then show ?thesis
    by (simp add: drop_bit_eq_div take_bit_nat_eq_self [OF unat_less])
qed

lemma unat_word_mult: "unat (x::u64) * unat y < 2 ^ 64 \<Longrightarrow> unat (x * y) = unat x * unat y"
  by (simp add: unat_mult_lem [THEN iffD1])

lemma unat_word_add: "unat (x::u64) + unat y < 2 ^ 64 \<Longrightarrow> unat (x + y) = unat x + unat y"
  by (simp add: unat_add_lem [THEN iffD1])

lemma unat_of_nat_u64: "n < 2 ^ 64 \<Longrightarrow> unat (of_nat n :: u64) = n"
  by (simp add: unsigned_of_nat take_bit_nat_eq_self)

lemma unat_of_nat_u32: "n < 2 ^ 32 \<Longrightarrow> unat (of_nat n :: u32) = n"
  by (simp add: unsigned_of_nat take_bit_nat_eq_self)

lemma word_eq_of_nat: "unat (w :: 'a::len word) = n \<Longrightarrow> w = of_nat n"
  by auto

text \<open>Conversions between the widths, on words given by an integer.\<close>

lemma ucast_of_int_u32: "(ucast (of_int k :: u64) :: u32) = of_int k"
  by transfer (simp add: take_bit_take_bit)

lemma sint_of_int_u32:
  assumes "- (2 ^ 31) \<le> k" and "k < 2 ^ 31"
  shows "sint (of_int k :: u32) = k"
proof -
  have "sint (of_int k :: u32) = signed_take_bit 31 k"
    by transfer simp
  then show ?thesis using assms by (simp add: signed_take_bit_int_eq_self)
qed

lemma scast_of_int_u64:
  assumes "- (2 ^ 31) \<le> k" and "k < 2 ^ 31"
  shows "(scast (of_int k :: u32) :: u64) = of_int k"
  using sint_of_int_u32 [OF assms] by (metis of_int_sint)

lemma unat_diff_of_nat:
  "\<lbrakk>m \<le> n; n < 2 ^ 64\<rbrakk> \<Longrightarrow> unat (of_nat n + of_int (- int m) :: u64) = n - m"
  by (simp add: unat_of_nat_u64 flip: of_nat_diff)

section \<open>Byte positions in a word\<close>

lemma byte_cases:
  assumes "n < (64::nat)"
    and "\<And>m. m < 8 \<Longrightarrow> P m" "\<And>m. m < 8 \<Longrightarrow> P (8 + m)" "\<And>m. m < 8 \<Longrightarrow> P (16 + m)"
    and "\<And>m. m < 8 \<Longrightarrow> P (24 + m)" "\<And>m. m < 8 \<Longrightarrow> P (32 + m)" "\<And>m. m < 8 \<Longrightarrow> P (40 + m)"
    and "\<And>m. m < 8 \<Longrightarrow> P (48 + m)" "\<And>m. m < 8 \<Longrightarrow> P (56 + m)"
  shows "P n"
proof -
  define q m where "q = n div 8" and "m = n mod 8"
  then have n: "n = 8 * q + m" and m: "m < 8" by simp_all
  have "q < 8" using assms(1) by (simp add: q_def)
  then consider "q = 0" | "q = 1" | "q = 2" | "q = 3" | "q = 4" | "q = 5" | "q = 6" | "q = 7"
    by arith
  then show ?thesis unfolding n by cases (use assms(2-) m in simp_all)
qed

lemma byte_masks:
  "0xff = (mask 8 :: 'a::len word)"
  "0xff00 = (push_bit 8 (mask 8) :: 'a::len word)"
  "0xff0000 = (push_bit 16 (mask 8) :: 'a::len word)"
  "0xff000000 = (push_bit 24 (mask 8) :: 'a::len word)"
  "0xff00000000 = (push_bit 32 (mask 8) :: 'a::len word)"
  "0xff0000000000 = (push_bit 40 (mask 8) :: 'a::len word)"
  "0xff000000000000 = (push_bit 48 (mask 8) :: 'a::len word)"
  "0xff00000000000000 = (push_bit 56 (mask 8) :: 'a::len word)"
  by (simp_all add: mask_eq_exp_minus_1 push_bit_eq_mult)

end
