(* ===== verification/Crc32c.thy ===== *)
theory Crc32c
  imports Prelude
begin

text \<open>
  \<^verbatim>\<open>crc32c\<close> of \<^verbatim>\<open>user/v9/drbdtool_common.c\<close>, the check sum of the activity log
  transactions: the byte-wise table, the loop over the buffer, and the reference they are
  compared with, the bit-serial division by the reflected Castagnoli polynomial.
\<close>

unbundle bit_operations_syntax

section \<open>The code\<close>

definition crc32c_table :: "u32 list" where
  "crc32c_table = [
    0x00000000, 0xF26B8303, 0xE13B70F7, 0x1350F3F4,
    0xC79A971F, 0x35F1141C, 0x26A1E7E8, 0xD4CA64EB,
    0x8AD958CF, 0x78B2DBCC, 0x6BE22838, 0x9989AB3B,
    0x4D43CFD0, 0xBF284CD3, 0xAC78BF27, 0x5E133C24,
    0x105EC76F, 0xE235446C, 0xF165B798, 0x030E349B,
    0xD7C45070, 0x25AFD373, 0x36FF2087, 0xC494A384,
    0x9A879FA0, 0x68EC1CA3, 0x7BBCEF57, 0x89D76C54,
    0x5D1D08BF, 0xAF768BBC, 0xBC267848, 0x4E4DFB4B,
    0x20BD8EDE, 0xD2D60DDD, 0xC186FE29, 0x33ED7D2A,
    0xE72719C1, 0x154C9AC2, 0x061C6936, 0xF477EA35,
    0xAA64D611, 0x580F5512, 0x4B5FA6E6, 0xB93425E5,
    0x6DFE410E, 0x9F95C20D, 0x8CC531F9, 0x7EAEB2FA,
    0x30E349B1, 0xC288CAB2, 0xD1D83946, 0x23B3BA45,
    0xF779DEAE, 0x05125DAD, 0x1642AE59, 0xE4292D5A,
    0xBA3A117E, 0x4851927D, 0x5B016189, 0xA96AE28A,
    0x7DA08661, 0x8FCB0562, 0x9C9BF696, 0x6EF07595,
    0x417B1DBC, 0xB3109EBF, 0xA0406D4B, 0x522BEE48,
    0x86E18AA3, 0x748A09A0, 0x67DAFA54, 0x95B17957,
    0xCBA24573, 0x39C9C670, 0x2A993584, 0xD8F2B687,
    0x0C38D26C, 0xFE53516F, 0xED03A29B, 0x1F682198,
    0x5125DAD3, 0xA34E59D0, 0xB01EAA24, 0x42752927,
    0x96BF4DCC, 0x64D4CECF, 0x77843D3B, 0x85EFBE38,
    0xDBFC821C, 0x2997011F, 0x3AC7F2EB, 0xC8AC71E8,
    0x1C661503, 0xEE0D9600, 0xFD5D65F4, 0x0F36E6F7,
    0x61C69362, 0x93AD1061, 0x80FDE395, 0x72966096,
    0xA65C047D, 0x5437877E, 0x4767748A, 0xB50CF789,
    0xEB1FCBAD, 0x197448AE, 0x0A24BB5A, 0xF84F3859,
    0x2C855CB2, 0xDEEEDFB1, 0xCDBE2C45, 0x3FD5AF46,
    0x7198540D, 0x83F3D70E, 0x90A324FA, 0x62C8A7F9,
    0xB602C312, 0x44694011, 0x5739B3E5, 0xA55230E6,
    0xFB410CC2, 0x092A8FC1, 0x1A7A7C35, 0xE811FF36,
    0x3CDB9BDD, 0xCEB018DE, 0xDDE0EB2A, 0x2F8B6829,
    0x82F63B78, 0x709DB87B, 0x63CD4B8F, 0x91A6C88C,
    0x456CAC67, 0xB7072F64, 0xA457DC90, 0x563C5F93,
    0x082F63B7, 0xFA44E0B4, 0xE9141340, 0x1B7F9043,
    0xCFB5F4A8, 0x3DDE77AB, 0x2E8E845F, 0xDCE5075C,
    0x92A8FC17, 0x60C37F14, 0x73938CE0, 0x81F80FE3,
    0x55326B08, 0xA759E80B, 0xB4091BFF, 0x466298FC,
    0x1871A4D8, 0xEA1A27DB, 0xF94AD42F, 0x0B21572C,
    0xDFEB33C7, 0x2D80B0C4, 0x3ED04330, 0xCCBBC033,
    0xA24BB5A6, 0x502036A5, 0x4370C551, 0xB11B4652,
    0x65D122B9, 0x97BAA1BA, 0x84EA524E, 0x7681D14D,
    0x2892ED69, 0xDAF96E6A, 0xC9A99D9E, 0x3BC21E9D,
    0xEF087A76, 0x1D63F975, 0x0E330A81, 0xFC588982,
    0xB21572C9, 0x407EF1CA, 0x532E023E, 0xA145813D,
    0x758FE5D6, 0x87E466D5, 0x94B49521, 0x66DF1622,
    0x38CC2A06, 0xCAA7A905, 0xD9F75AF1, 0x2B9CD9F2,
    0xFF56BD19, 0x0D3D3E1A, 0x1E6DCDEE, 0xEC064EED,
    0xC38D26C4, 0x31E6A5C7, 0x22B65633, 0xD0DDD530,
    0x0417B1DB, 0xF67C32D8, 0xE52CC12C, 0x1747422F,
    0x49547E0B, 0xBB3FFD08, 0xA86F0EFC, 0x5A048DFF,
    0x8ECEE914, 0x7CA56A17, 0x6FF599E3, 0x9D9E1AE0,
    0xD3D3E1AB, 0x21B862A8, 0x32E8915C, 0xC083125F,
    0x144976B4, 0xE622F5B7, 0xF5720643, 0x07198540,
    0x590AB964, 0xAB613A67, 0xB831C993, 0x4A5A4A90,
    0x9E902E7B, 0x6CFBAD78, 0x7FAB5E8C, 0x8DC0DD8F,
    0xE330A81A, 0x115B2B19, 0x020BD8ED, 0xF0605BEE,
    0x24AA3F05, 0xD6C1BC06, 0xC5914FF2, 0x37FACCF1,
    0x69E9F0D5, 0x9B8273D6, 0x88D28022, 0x7AB90321,
    0xAE7367CA, 0x5C18E4C9, 0x4F48173D, 0xBD23943E,
    0xF36E6F75, 0x0105EC76, 0x12551F82, 0xE03E9C81,
    0x34F4F86A, 0xC69F7B69, 0xD5CF889D, 0x27A40B9E,
    0x79B737BA, 0x8BDCB4B9, 0x988C474D, 0x6AE7C44E,
    0xBE2DA0A5, 0x4C4623A6, 0x5F16D052, 0xAD7D5351]"

text \<open>
  \<^verbatim>\<open>*data\<close> is promoted to the width of \<^verbatim>\<open>crc\<close>; the index is masked to eight bits, so
  it is inside the table.
\<close>

definition crc32c_step :: "u32 \<Rightarrow> u8 \<Rightarrow> u32" where
  "crc32c_step crc d = crc32c_table ! unat ((crc XOR ucast d) AND 0xFF) XOR drop_bit 8 crc"

fun crc32c :: "u32 \<Rightarrow> bytes \<Rightarrow> u32" where
  "crc32c crc [] = crc"
| "crc32c crc (d # data) = crc32c (crc32c_step crc d) data"

section \<open>The reference\<close>

text \<open>One step of the division: shift right, subtract the polynomial when a one falls out.\<close>

definition crc_bit :: "u32 \<Rightarrow> u32" where
  "crc_bit c = (if bit c 0 then drop_bit 1 c XOR 0x82F63B78 else drop_bit 1 c)"

definition crc_serial :: "u32 \<Rightarrow> bytes \<Rightarrow> u32" where
  "crc_serial = foldl (\<lambda>crc d. (crc_bit ^^ 8) (crc XOR ucast d))"

section \<open>The table\<close>

lemma length_crc32c_table [simp]: "length crc32c_table = 256"
  by (simp add: crc32c_table_def)

section \<open>The division is linear\<close>

lemma crc_bit_xor: "crc_bit (x XOR y) = crc_bit x XOR crc_bit y"
  by (auto simp: crc_bit_def bit_simps drop_bit_xor intro!: bit_eqI)

lemma crc_bits_xor: "(crc_bit ^^ n) (x XOR y) = (crc_bit ^^ n) x XOR (crc_bit ^^ n) y"
  by (induction n) (simp_all add: crc_bit_xor)

text \<open>
  The division is linear, so the results for the powers of two determine the rest: the
  table doubles with every further bit of the index.
\<close>

fun crc_span :: "u32 list \<Rightarrow> u32 list" where
  "crc_span [] = [0]"
| "crc_span (b # bs) = crc_span bs @ map (\<lambda>x. x XOR b) (crc_span bs)"

lemma crc_bits_zero [simp]: "(crc_bit ^^ n) 0 = 0"
  by (induction n) (simp_all add: crc_bit_def)

lemma add_power_xor:
  assumes "i < 2 ^ k"
  shows "(of_nat (i + 2 ^ k) :: u32) = of_nat i XOR of_nat (2 ^ k)"
proof -
  have "take_bit k i = i"
    using assms by (rule take_bit_nat_eq_self)
  then have "\<not> bit i k"
    by (metis bit_take_bit_iff less_irrefl)
  then have "(of_nat i :: u32) AND of_nat (2 ^ k) = 0"
    by (auto simp: bit_simps intro!: bit_eqI)
  then show ?thesis
    by (simp add: disjunctive_add_eq_xor)
qed

lemma upt_double: "[0..<n + n] = [0..<n] @ map (\<lambda>i. i + n) [0..<n]"
  using upt_add_eq_append [of 0 n n] by (simp only: map_add_upt zero_le simp_thms)

lemma crc_span_eq:
  "crc_span (map (\<lambda>j. (crc_bit ^^ n) (of_nat (2 ^ j))) (rev [0..<k]))
    = map (\<lambda>i. (crc_bit ^^ n) (of_nat i)) [0..<2 ^ k]"
proof (induction k)
  case (Suc k)
  let ?f = "\<lambda>i. (crc_bit ^^ n) (of_nat i)"
  have "?f i XOR ?f (2 ^ k) = ?f (i + 2 ^ k)" if "i < 2 ^ k" for i
    using that by (simp only: add_power_xor crc_bits_xor)
  then have "map (\<lambda>x. x XOR ?f (2 ^ k)) (map ?f [0..<2 ^ k]) = map ?f (map (\<lambda>i. i + 2 ^ k) [0..<2 ^ k])"
    by (simp only: map_map o_def) (rule map_cong, simp_all only: set_upt atLeastLessThan_iff)
  moreover have "[0..<2 ^ Suc k] = [0..<2 ^ k] @ map (\<lambda>i. i + 2 ^ k) [0..<2 ^ k]"
    by (simp only: power_Suc mult_2 upt_double)
  ultimately show ?case
    using Suc.IH by (simp only: upt_Suc zero_le if_True rev_append rev.simps append.simps list.map
        crc_span.simps map_append)
qed simp

lemma crc_bit_numeral:
  "crc_bit (numeral n) = (if odd (numeral n :: u32) then drop_bit 1 (numeral n) XOR 0x82F63B78
     else drop_bit 1 (numeral n))"
  "crc_bit 1 = 0x82F63B78"
  by (simp_all add: crc_bit_def bit_0)

lemma funpow_8: "(f ^^ 8) x = f (f (f (f (f (f (f (f x)))))))"
  by (simp add: numeral_eq_Suc)

lemma upt_8: "[0..<8] = [0, 1, 2, 3, 4, 5, 6, 7::nat]"
  by (simp add: upt_rec)

lemma crc_basis: "map (\<lambda>j. (crc_bit ^^ 8) (of_nat (2 ^ j))) (rev [0..<8])
    = [0x82F63B78, 0x417B1DBC, 0x20BD8EDE, 0x105EC76F, 0x8AD958CF, 0xC79A971F, 0xE13B70F7, 0xF26B8303]"
  by (simp add: funpow_8 upt_8 crc_bit_numeral)

lemma crc32c_table_eq: "crc32c_table = map (\<lambda>i. (crc_bit ^^ 8) (of_nat i)) [0..<256]"
  using crc_span_eq [of 8 8] unfolding crc_basis by (simp add: crc32c_table_def)

lemma crc32c_table_nth: "i < 256 \<Longrightarrow> crc32c_table ! i = (crc_bit ^^ 8) (of_nat i)"
  by (simp add: crc32c_table_eq)

lemma crc_bits_shift: "(\<forall>i<n. \<not> bit x i) \<Longrightarrow> (crc_bit ^^ n) x = drop_bit n x"
proof (induction n)
  case (Suc n)
  then have "(crc_bit ^^ Suc n) x = crc_bit (drop_bit n x)" by simp
  also have "\<dots> = drop_bit (Suc n) x"
    using Suc.prems by (simp add: crc_bit_def bit_simps)
  finally show ?case .
qed simp

lemma crc_byte_split: "(crc_bit ^^ 8) c = (crc_bit ^^ 8) (c AND 0xFF) XOR drop_bit 8 c"
proof -
  have "c = (c AND 0xFF) XOR (c AND NOT 0xFF)"
    by (rule bit_eqI) (auto simp: bit_simps)
  then have "(crc_bit ^^ 8) c = (crc_bit ^^ 8) (c AND 0xFF) XOR (crc_bit ^^ 8) (c AND NOT 0xFF)"
    by (metis crc_bits_xor)
  also have "(crc_bit ^^ 8) (c AND NOT 0xFF) = drop_bit 8 (c AND NOT 0xFF)"
    by (rule crc_bits_shift) (simp add: byte_masks(1) bit_simps del: mask_eq_exp_minus_1)
  also have "\<dots> = drop_bit 8 c"
    by (rule bit_eqI) (auto simp: byte_masks(1) bit_simps dest: bit_imp_le_length)
  finally show ?thesis .
qed

lemma crc32c_step_serial: "crc32c_step crc d = (crc_bit ^^ 8) (crc XOR ucast d)"
proof -
  let ?c = "crc XOR ucast d"
  have "?c AND 0xFF = take_bit 8 ?c"
    by (simp add: byte_masks(1) take_bit_eq_mask)
  then have "unat (?c AND 0xFF) < 256"
    using take_bit_nat_less_exp [of 8 "unat ?c"] by (simp only: unsigned_take_bit_eq) simp
  then have "crc32c_table ! unat (?c AND 0xFF) = (crc_bit ^^ 8) (?c AND 0xFF)"
    by (simp add: crc32c_table_nth)
  moreover have "drop_bit 8 ?c = drop_bit 8 crc"
    by (rule bit_eqI) (auto simp: bit_simps dest: bit_imp_le_length)
  ultimately show ?thesis
    by (simp add: crc32c_step_def crc_byte_split [of ?c])
qed

text \<open>
  C34. The table driven loop of \<^verbatim>\<open>crc32c\<close> computes, for every start value and every
  buffer, the bit-serial CRC with the reflected Castagnoli polynomial: all 256 table
  entries and the index and shift arithmetic of the loop are right.
\<close>

theorem crc32c_eq_serial: "crc32c crc data = crc_serial crc data"
  by (induction data arbitrary: crc) (simp_all add: crc_serial_def crc32c_step_serial)

text \<open>
  The check sum may be computed piecewise, as the activity log reader does: running over a concatenation is running over the parts.
\<close>

lemma crc32c_append: "crc32c crc (xs @ ys) = crc32c (crc32c crc xs) ys"
  by (induction xs arbitrary: crc) simp_all

end
