(* ===== verification/Cstring.thy ===== *)
theory Cstring
  imports Prelude
begin

text \<open>
  What the tools use of the C library's string functions: character classes of the C locale,
  \<^verbatim>\<open>strtoul\<close>, \<^verbatim>\<open>strtol\<close> and the conversions of \<^verbatim>\<open>sscanf\<close> and \<^verbatim>\<open>printf\<close>
  that occur in the sources, and \<^verbatim>\<open>strsep\<close>. A C string is a list of characters without
  the terminating zero. Numbers that were printed read back.
\<close>

section \<open>Character classes\<close>

abbreviation code :: "char \<Rightarrow> nat" where "code \<equiv> of_char"

definition isspace :: "char \<Rightarrow> bool" where "isspace c \<longleftrightarrow> code c = 32 \<or> 9 \<le> code c \<and> code c \<le> 13"
definition isdigit :: "char \<Rightarrow> bool" where "isdigit c \<longleftrightarrow> 48 \<le> code c \<and> code c \<le> 57"
definition isgraph :: "char \<Rightarrow> bool" where "isgraph c \<longleftrightarrow> 33 \<le> code c \<and> code c \<le> 126"
definition isprint :: "char \<Rightarrow> bool" where "isprint c \<longleftrightarrow> 32 \<le> code c \<and> code c \<le> 126"

section \<open>Reading numbers\<close>

definition digit_value :: "char \<Rightarrow> nat" where
  "digit_value c =
    (let n = code c in
     if 48 \<le> n \<and> n \<le> 57 then n - 48
     else if 65 \<le> n \<and> n \<le> 90 then n - 55
     else if 97 \<le> n \<and> n \<le> 122 then n - 87
     else 36)"

fun scan_digits :: "nat \<Rightarrow> nat \<Rightarrow> string \<Rightarrow> nat \<times> string" where
  "scan_digits b acc [] = (acc, [])"
| "scan_digits b acc (c # cs) =
    (if digit_value c < b then scan_digits b (acc * b + digit_value c) cs else (acc, c # cs))"

definition scan_sign :: "string \<Rightarrow> bool \<times> string" where
  "scan_sign s = (case s of
     c # cs \<Rightarrow> if c = CHR ''-'' then (True, cs) else if c = CHR ''+'' then (False, cs) else (False, s)
   | [] \<Rightarrow> (False, s))"

text \<open>A prefix \<^verbatim>\<open>0x\<close> counts only in front of a hexadecimal digit.\<close>

definition scan_base :: "nat \<Rightarrow> string \<Rightarrow> nat \<times> string" where
  "scan_base base s = (case s of
     c # x # d # ds \<Rightarrow>
       if (base = 0 \<or> base = 16) \<and> c = CHR ''0'' \<and> (x = CHR ''x'' \<or> x = CHR ''X'') \<and> digit_value d < 16
       then (16, d # ds)
       else (if base \<noteq> 0 then base else if c = CHR ''0'' then 8 else 10, s)
   | c # cs \<Rightarrow> (if base \<noteq> 0 then base else if c = CHR ''0'' then 8 else 10, s)
   | [] \<Rightarrow> (if base \<noteq> 0 then base else 10, s))"

text \<open>
  Sign, absolute value and rest of the string; \<open>None\<close> when there is no digit, in which case
  the end pointer of the C functions is the start of the string.
\<close>

definition scan_number :: "nat \<Rightarrow> string \<Rightarrow> (bool \<times> nat \<times> string) option" where
  "scan_number base s =
    (let (neg, s) = scan_sign (dropWhile isspace s); (b, s) = scan_base base s
     in case s of
          [] \<Rightarrow> None
        | c # cs \<Rightarrow> if digit_value c < b
            then let (n, rest) = scan_digits b 0 s in Some (neg, n, rest) else None)"

text \<open>Result, rest of the string and whether \<^verbatim>\<open>errno\<close> is \<^verbatim>\<open>ERANGE\<close>.\<close>

definition strtoul :: "nat \<Rightarrow> string \<Rightarrow> u64 \<times> string \<times> bool" where
  "strtoul base s = (case scan_number base s of
     None \<Rightarrow> (0, s, False)
   | Some (neg, n, rest) \<Rightarrow>
       if n > 2 ^ 64 - 1 then (-1, rest, True)
       else (if neg then - of_nat n else of_nat n, rest, False))"

definition strtol :: "nat \<Rightarrow> string \<Rightarrow> int \<times> string \<times> bool" where
  "strtol base s = (case scan_number base s of
     None \<Rightarrow> (0, s, False)
   | Some (neg, n, rest) \<Rightarrow>
       if neg then (if n > 2 ^ 63 then (- (2 ^ 63), rest, True) else (- int n, rest, False))
       else (if n > 2 ^ 63 - 1 then (2 ^ 63 - 1, rest, True) else (int n, rest, False)))"

section \<open>Printing numbers\<close>

definition digit_char :: "bool \<Rightarrow> nat \<Rightarrow> char" where
  "digit_char upper d = char_of (if d < 10 then 48 + d else if upper then 55 + d else 87 + d)"

fun show_base :: "bool \<Rightarrow> nat \<Rightarrow> nat \<Rightarrow> string" where
  "show_base u b n = (if n < b \<or> b < 2 then [digit_char u n] else show_base u b (n div b) @ [digit_char u (n mod b)])"

declare show_base.simps [simp del]

definition pad_zero :: "nat \<Rightarrow> string \<Rightarrow> string" where
  "pad_zero w s = replicate (w - length s) (CHR ''0'') @ s"

text \<open>\<^verbatim>\<open>%u\<close>, \<^verbatim>\<open>%d\<close> and \<^verbatim>\<open>%0NX\<close>.\<close>

definition show_nat :: "nat \<Rightarrow> string" where "show_nat n = show_base False 10 n"

definition show_int :: "int \<Rightarrow> string" where
  "show_int i = (if i < 0 then CHR ''-'' # show_nat (nat (- i)) else show_nat (nat i))"

definition show_hex :: "nat \<Rightarrow> nat \<Rightarrow> string" where "show_hex w n = pad_zero w (show_base True 16 n)"

section \<open>Splitting\<close>

text \<open>
  \<^verbatim>\<open>strsep\<close> with a single delimiter: the token, if any, and the new position, which is
  \<^verbatim>\<open>NULL\<close> after the last token.
\<close>

definition strsep :: "char \<Rightarrow> string option \<Rightarrow> string option \<times> string option" where
  "strsep d p = (case p of
     None \<Rightarrow> (None, None)
   | Some s \<Rightarrow> (Some (takeWhile (\<lambda>c. c \<noteq> d) s),
       case dropWhile (\<lambda>c. c \<noteq> d) s of [] \<Rightarrow> None | c # cs \<Rightarrow> Some cs))"

section \<open>Printed numbers read back\<close>

lemma code_char_of [simp]: "n < 256 \<Longrightarrow> code (char_of n) = n"
  by simp

lemma digit_value_char [simp]: "d < 16 \<Longrightarrow> digit_value (digit_char u d) = d"
  by (auto simp: digit_value_def digit_char_def Let_def)

lemma scan_digits_append:
  "\<forall>c\<in>set ds. digit_value c < b \<Longrightarrow>
    scan_digits b acc (ds @ rest) = scan_digits b (foldl (\<lambda>a c. a * b + digit_value c) acc ds) rest"
  by (induction ds arbitrary: acc) auto

lemma scan_digits_stop: "rest = [] \<or> b \<le> digit_value (hd rest) \<Longrightarrow> scan_digits b acc rest = (acc, rest)"
  by (cases rest) auto

lemma show_base_digits: "\<lbrakk>2 \<le> b; b \<le> 16\<rbrakk> \<Longrightarrow> \<forall>c\<in>set (show_base u b n). digit_value c < b"
proof (induction n rule: less_induct)
  case (less n)
  show ?case
  proof (cases "n < b")
    case True
    then show ?thesis using less.prems by (simp add: show_base.simps [of u b n])
  next
    case False
    then have "n div b < n" using less.prems by (intro div_less_dividend) auto
    moreover have "n mod b < b" "n mod b < 16" using less.prems
      by (auto intro: order_less_le_trans [OF mod_less_divisor])
    moreover have "\<forall>c\<in>set (show_base u b (n div b)). digit_value c < b"
      using less.IH [OF \<open>n div b < n\<close>] less.prems by simp
    ultimately show ?thesis using False less.prems by (subst show_base.simps) auto
  qed
qed

lemma show_base_value:
  "\<lbrakk>2 \<le> b; b \<le> 16\<rbrakk> \<Longrightarrow> foldl (\<lambda>a c. a * b + digit_value c) 0 (show_base u b n) = n"
proof (induction n rule: less_induct)
  case (less n)
  show ?case
  proof (cases "n < b")
    case True
    then show ?thesis using less.prems by (simp add: show_base.simps [of u b n])
  next
    case False
    then have "n div b < n" using less.prems by (intro div_less_dividend) auto
    moreover have "n mod b < 16" using less.prems by (auto intro: order_less_le_trans [OF mod_less_divisor])
    ultimately show ?thesis using less False by (subst show_base.simps) simp
  qed
qed

lemma show_base_not_Nil [simp]: "show_base u b n \<noteq> []"
  by (subst show_base.simps) simp

lemma pad_zero_value:
  "foldl (\<lambda>a c. a * b + digit_value c) 0 (pad_zero w s) = foldl (\<lambda>a c. a * b + digit_value c) 0 s"
proof -
  have z: "digit_value (CHR ''0'') = 0" by (simp add: digit_value_def)
  have "foldl (\<lambda>a c. a * b + digit_value c) 0 (replicate k (CHR ''0'')) = 0" for k
    by (induction k) (simp_all add: z)
  then show ?thesis by (simp add: pad_zero_def)
qed

lemma pad_zero_digits: "\<lbrakk>0 < b; \<forall>c\<in>set s. digit_value c < b\<rbrakk> \<Longrightarrow> \<forall>c\<in>set (pad_zero w s). digit_value c < b"
  by (auto simp: pad_zero_def digit_value_def)

lemma pad_zero_not_Nil [simp]: "s \<noteq> [] \<Longrightarrow> pad_zero w s \<noteq> []"
  by (simp add: pad_zero_def)

text \<open>A string of digits, followed by something else, is read as its value.\<close>

lemma digit_not_special:
  assumes "digit_value c < 16"
  shows "\<not> isspace c" "c \<noteq> CHR ''-''" "c \<noteq> CHR ''+''" "c \<noteq> CHR ''x''" "c \<noteq> CHR ''X''" "c \<noteq> CHR '':''"
  using assms by (auto simp: isspace_def digit_value_def Let_def split: if_splits)

lemma scan_number_digits:
  assumes ds: "ds \<noteq> []" "\<forall>c\<in>set ds. digit_value c < b" and b: "b \<le> 16" "0 < b"
    and stop: "rest = [] \<or> b \<le> digit_value (hd rest)"
    and x: "b = 16 \<Longrightarrow> rest = [] \<or> hd rest \<noteq> CHR ''x'' \<and> hd rest \<noteq> CHR ''X''"
    and base: "base = b \<or> base = 0 \<and> b = 10 \<and> hd ds \<noteq> CHR ''0''"
  shows "scan_number base (ds @ rest) = Some (False, foldl (\<lambda>a c. a * b + digit_value c) 0 ds, rest)"
proof -
  obtain c cs where c: "ds = c # cs" using ds(1) by (cases ds) auto
  have cd: "digit_value c < 16" using ds(2) b c by auto
  note nsp = digit_not_special [OF cd]
  have sign: "scan_sign (dropWhile isspace (ds @ rest)) = (False, ds @ rest)"
    using nsp by (simp add: c scan_sign_def)
  have sb: "scan_base base (ds @ rest) = (b, ds @ rest)"
  proof (cases "cs @ rest")
    case Nil
    then show ?thesis using base b by (auto simp: c scan_base_def)
  next
    case (Cons y ys)
    have "b = 16 \<Longrightarrow> y \<noteq> CHR ''x'' \<and> y \<noteq> CHR ''X''"
    proof (cases cs)
      case Nil
      with Cons x show "b = 16 \<Longrightarrow> y \<noteq> CHR ''x'' \<and> y \<noteq> CHR ''X''" by auto
    next
      case (Cons z zs)
      with \<open>cs @ rest = y # ys\<close> ds(2) c b have "digit_value y < 16" by auto
      then show ?thesis using digit_not_special by blast
    qed
    then show ?thesis using Cons base b by (cases ys) (auto simp: c scan_base_def)
  qed
  have "scan_digits b 0 (ds @ rest) = (foldl (\<lambda>a c. a * b + digit_value c) 0 ds, rest)"
    using scan_digits_append [OF ds(2), of 0 rest] scan_digits_stop [OF stop] by simp
  then show ?thesis using ds(2) by (simp add: scan_number_def sign sb) (simp add: c)
qed

lemma show_base_hd:
  "\<lbrakk>2 \<le> b; b \<le> 16; 0 < n\<rbrakk> \<Longrightarrow> hd (show_base u b n) \<noteq> CHR ''0''"
proof (induction n rule: less_induct)
  case (less n)
  show ?case
  proof (cases "n < b")
    case True
    have "digit_value (digit_char u n) = n" using True less.prems by simp
    then have "digit_char u n \<noteq> CHR ''0''" using less.prems by (auto simp: digit_value_def)
    then show ?thesis using True by (simp add: show_base.simps [of u b n])
  next
    case False
    then have "n div b < n" "0 < n div b" using less.prems by (auto intro: div_less_dividend simp: div_greater_zero_iff)
    then have "hd (show_base u b (n div b)) \<noteq> CHR ''0''" using less by blast
    then show ?thesis using False less.prems by (subst show_base.simps) simp
  qed
qed

text \<open>What follows a printed number in the texts of the program: nothing, or a separator.\<close>

definition number_end :: "string \<Rightarrow> bool" where
  "number_end rest \<longleftrightarrow> rest = [] \<or> digit_value (hd rest) = 36"

lemma number_end_simps [simp]:
  "number_end []" "number_end (CHR '':'' # cs)" "number_end (CHR ''.'' # cs)" "number_end (CHR 0x0A # cs)"
  "number_end (CHR 0x09 # cs)"
  by (simp_all add: number_end_def digit_value_def)

lemma number_end_not_x: "number_end rest \<Longrightarrow> rest = [] \<or> hd rest \<noteq> CHR ''x'' \<and> hd rest \<noteq> CHR ''X''"
  by (auto simp: number_end_def digit_value_def)

lemma scan_number_hex:
  assumes "number_end rest"
  shows "scan_number 16 (show_hex w n @ rest) = Some (False, n, rest)"
proof -
  have "\<forall>c\<in>set (show_hex w n). digit_value c < 16"
    unfolding show_hex_def by (intro pad_zero_digits show_base_digits) simp_all
  moreover have "show_hex w n \<noteq> []" by (simp add: show_hex_def)
  moreover have "rest = [] \<or> 16 \<le> digit_value (hd rest)" using assms by (auto simp: number_end_def)
  ultimately have "scan_number 16 (show_hex w n @ rest) =
      Some (False, foldl (\<lambda>a c. a * 16 + digit_value c) 0 (show_hex w n), rest)"
    using number_end_not_x [OF assms] by (intro scan_number_digits) auto
  then show ?thesis by (simp add: show_hex_def pad_zero_value show_base_value)
qed

lemma scan_number_dec:
  assumes "number_end rest" and base: "base = 10 \<or> base = 0"
  shows "scan_number base (show_nat n @ rest) = Some (False, n, rest)"
proof (cases "n = 0 \<and> base = 0")
  case True
  then have s: "n = 0" "base = 0" by simp_all
  have s0: "show_nat 0 = ''0''" by (simp add: show_nat_def show_base.simps digit_char_def char_of_def bit_iff_odd)
  have v: "digit_value (CHR ''0'') = 0" "\<not> isspace (CHR ''0'')" by (simp_all add: digit_value_def isspace_def)
  have x: "rest = y # ys \<Longrightarrow> y \<noteq> CHR ''x'' \<and> y \<noteq> CHR ''X''" for y ys using number_end_not_x [OF assms(1)] by auto
  have "scan_base 0 (CHR ''0'' # rest) = (8, CHR ''0'' # rest)"
    using x by (cases rest; cases "tl rest") (auto simp: scan_base_def)
  moreover have "scan_digits 8 0 rest = (0, rest)"
    using assms(1) by (intro scan_digits_stop) (auto simp: number_end_def)
  ultimately show ?thesis using v by (simp add: s s0 scan_number_def scan_sign_def)
next
  case False
  have d: "\<forall>c\<in>set (show_nat n). digit_value c < 10" unfolding show_nat_def by (rule show_base_digits) simp_all
  have "base = 10 \<or> base = 0 \<and> (10::nat) = 10 \<and> hd (show_nat n) \<noteq> CHR ''0''"
    using False base show_base_hd [of 10 n False] by (auto simp: show_nat_def)
  moreover have "rest = [] \<or> 10 \<le> digit_value (hd rest)" using assms by (auto simp: number_end_def)
  ultimately have "scan_number base (show_nat n @ rest) =
      Some (False, foldl (\<lambda>a c. a * 10 + digit_value c) 0 (show_nat n), rest)"
    using d by (intro scan_number_digits) (auto simp: show_nat_def)
  then show ?thesis by (simp add: show_nat_def show_base_value)
qed

lemma scan_number_10:
  assumes "rest = [] \<or> 10 \<le> digit_value (hd rest)"
  shows "scan_number 10 (show_nat n @ rest) = Some (False, n, rest)"
proof -
  have "\<forall>c\<in>set (show_nat n). digit_value c < 10" unfolding show_nat_def by (rule show_base_digits) simp_all
  with assms have "scan_number 10 (show_nat n @ rest) =
      Some (False, foldl (\<lambda>a c. a * 10 + digit_value c) 0 (show_nat n), rest)"
    by (intro scan_number_digits) (auto simp: show_nat_def)
  then show ?thesis by (simp add: show_nat_def show_base_value)
qed

lemma length_show_base:
  "\<lbrakk>2 \<le> b; n < b ^ k; 0 < k\<rbrakk> \<Longrightarrow> length (show_base u b n) \<le> k"
proof (induction k arbitrary: n)
  case (Suc k)
  show ?case
  proof (cases "n < b")
    case False
    then have "k \<noteq> 0" using Suc.prems by (cases k) auto
    moreover have "n div b < b ^ k" using Suc.prems by (simp add: div_less_iff_less_mult mult.commute)
    ultimately have "length (show_base u b (n div b)) \<le> k" using Suc by simp
    then show ?thesis by (subst show_base.simps) simp
  qed (simp add: show_base.simps [of u b n])
qed simp

lemma strtoul_dec:
  "\<lbrakk>number_end rest; base = 10 \<or> base = 0; n < 2 ^ 64\<rbrakk> \<Longrightarrow> strtoul base (show_nat n @ rest) = (of_nat n, rest, False)"
  by (simp add: strtoul_def scan_number_dec)

lemma strtoul_hex:
  "\<lbrakk>number_end rest; n < 2 ^ 64\<rbrakk> \<Longrightarrow> strtoul 16 (show_hex w n @ rest) = (of_nat n, rest, False)"
  by (simp add: strtoul_def scan_number_hex)

lemma strtol_dec:
  "\<lbrakk>number_end rest; base = 10 \<or> base = 0; n < 2 ^ 63\<rbrakk> \<Longrightarrow> strtol base (show_nat n @ rest) = (int n, rest, False)"
  by (simp add: strtol_def scan_number_dec)

section \<open>Printed numbers contain no separator\<close>

lemma show_hex_no_colon: "CHR '':'' \<notin> set (show_hex w n)"
  using pad_zero_digits [OF _ show_base_digits [of 16 True n], of w] digit_not_special(6)
  by (force simp: show_hex_def)

lemma show_nat_digits: "c \<in> set (show_nat n) \<Longrightarrow> isdigit c"
proof -
  assume "c \<in> set (show_nat n)"
  then have "digit_value c < 10" using show_base_digits [of 10 False n] by (auto simp: show_nat_def)
  then show "isdigit c" by (auto simp: isdigit_def digit_value_def Let_def split: if_splits)
qed

lemma show_nat_no_colon: "CHR '':'' \<notin> set (show_nat n)"
  using show_nat_digits by (fastforce simp: isdigit_def)

lemma show_not_Nil [simp]: "show_nat n \<noteq> []" "show_hex w n \<noteq> []"
  by (simp_all add: show_nat_def show_hex_def)

lemma strsep_append:
  "d \<notin> set t \<Longrightarrow> strsep d (Some (t @ d # rest)) = (Some t, Some rest)"
  by (auto simp: strsep_def takeWhile_append dropWhile_append)

lemma strsep_last: "d \<notin> set t \<Longrightarrow> strsep d (Some t) = (Some t, None)"
proof -
  assume "d \<notin> set t"
  then have "dropWhile (\<lambda>c. c \<noteq> d) t = []" "takeWhile (\<lambda>c. c \<noteq> d) t = t"
    by (auto simp: dropWhile_eq_Nil_conv takeWhile_eq_all_conv)
  then show ?thesis unfolding strsep_def by (simp only: option.case list.case)
qed

lemma strsep_None [simp]: "strsep d None = (None, None)"
  by (simp add: strsep_def)

end
