(* ===== verification/Endian.thy ===== *)
theory Endian
  imports Prelude
begin

text \<open>
  \<^verbatim>\<open>user/shared/drbd_endian.h\<close>: the byte swaps, the conversions between host and
  on-disk byte order for both kinds of host, and the Hamming weight routines. The
  conversions are an interface that the meta data and activity log formats rely on:
  locale \<open>byte_order\<close>, interpreted for every pair of macros.
\<close>

unbundle bit_operations_syntax

section \<open>Byte swaps and host byte order\<close>

definition swab16 :: "u16 \<Rightarrow> u16" where
  "swab16 x = push_bit 8 (x AND 0x00ff) OR drop_bit 8 (x AND 0xff00)"

definition swab32 :: "u32 \<Rightarrow> u32" where
  "swab32 x = push_bit 24 (x AND 0x000000ff) OR push_bit 8 (x AND 0x0000ff00)
     OR drop_bit 8 (x AND 0x00ff0000) OR drop_bit 24 (x AND 0xff000000)"

definition swab64 :: "u64 \<Rightarrow> u64" where
  "swab64 x = push_bit 56 (x AND 0x00000000000000ff) OR push_bit 40 (x AND 0x000000000000ff00)
     OR push_bit 24 (x AND 0x0000000000ff0000) OR push_bit 8 (x AND 0x00000000ff000000)
     OR drop_bit 8 (x AND 0x000000ff00000000) OR drop_bit 24 (x AND 0x0000ff0000000000)
     OR drop_bit 40 (x AND 0x00ff000000000000) OR drop_bit 56 (x AND 0xff00000000000000)"

text \<open>The header selects the macros by \<^verbatim>\<open>__BYTE_ORDER\<close>; the host is a parameter.\<close>

datatype host = LittleEndian | BigEndian

fun cpu_to_be16 :: "host \<Rightarrow> u16 \<Rightarrow> u16" where
  "cpu_to_be16 LittleEndian x = swab16 x"
| "cpu_to_be16 BigEndian x = x"

fun be16_to_cpu :: "host \<Rightarrow> u16 \<Rightarrow> u16" where
  "be16_to_cpu LittleEndian x = swab16 x"
| "be16_to_cpu BigEndian x = x"

fun cpu_to_be32 :: "host \<Rightarrow> u32 \<Rightarrow> u32" where
  "cpu_to_be32 LittleEndian x = swab32 x"
| "cpu_to_be32 BigEndian x = x"

fun be32_to_cpu :: "host \<Rightarrow> u32 \<Rightarrow> u32" where
  "be32_to_cpu LittleEndian x = swab32 x"
| "be32_to_cpu BigEndian x = x"

fun cpu_to_be64 :: "host \<Rightarrow> u64 \<Rightarrow> u64" where
  "cpu_to_be64 LittleEndian x = swab64 x"
| "cpu_to_be64 BigEndian x = x"

fun be64_to_cpu :: "host \<Rightarrow> u64 \<Rightarrow> u64" where
  "be64_to_cpu LittleEndian x = swab64 x"
| "be64_to_cpu BigEndian x = x"

fun cpu_to_le32 :: "host \<Rightarrow> u32 \<Rightarrow> u32" where
  "cpu_to_le32 LittleEndian x = x"
| "cpu_to_le32 BigEndian x = swab32 x"

fun le32_to_cpu :: "host \<Rightarrow> u32 \<Rightarrow> u32" where
  "le32_to_cpu LittleEndian x = x"
| "le32_to_cpu BigEndian x = swab32 x"

fun le16_to_cpu :: "host \<Rightarrow> u16 \<Rightarrow> u16" where
  "le16_to_cpu LittleEndian x = x"
| "le16_to_cpu BigEndian x = swab16 x"

fun le64_to_cpu :: "host \<Rightarrow> u64 \<Rightarrow> u64" where
  "le64_to_cpu LittleEndian x = x"
| "le64_to_cpu BigEndian x = swab64 x"

section \<open>Hamming weight\<close>

definition generic_hweight32 :: "u32 \<Rightarrow> u32" where
  "generic_hweight32 w =
    (let res = (w AND 0x55555555) + (drop_bit 1 w AND 0x55555555);
         res = (res AND 0x33333333) + (drop_bit 2 res AND 0x33333333);
         res = (res AND 0x0F0F0F0F) + (drop_bit 4 res AND 0x0F0F0F0F);
         res = (res AND 0x00FF00FF) + (drop_bit 8 res AND 0x00FF00FF)
     in (res AND 0x0000FFFF) + (drop_bit 16 res AND 0x0000FFFF))"

text \<open>The branch for a 64 bit \<^verbatim>\<open>long\<close>.\<close>

definition generic_hweight64 :: "u64 \<Rightarrow> u64" where
  "generic_hweight64 w =
    (let res = (w AND 0x5555555555555555) + (drop_bit 1 w AND 0x5555555555555555);
         res = (res AND 0x3333333333333333) + (drop_bit 2 res AND 0x3333333333333333);
         res = (res AND 0x0F0F0F0F0F0F0F0F) + (drop_bit 4 res AND 0x0F0F0F0F0F0F0F0F);
         res = (res AND 0x00FF00FF00FF00FF) + (drop_bit 8 res AND 0x00FF00FF00FF00FF);
         res = (res AND 0x0000FFFF0000FFFF) + (drop_bit 16 res AND 0x0000FFFF0000FFFF)
     in (res AND 0x00000000FFFFFFFF) + (drop_bit 32 res AND 0x00000000FFFFFFFF))"

text \<open>The reference: the number of set bits.\<close>

definition popcount :: "'a::len word \<Rightarrow> nat" where
  "popcount w = (\<Sum>i<LENGTH('a). of_bool (bit w i))"

section \<open>The byte swaps are involutions\<close>

lemma swab16_swab16 [simp]: "swab16 (swab16 x) = x"
  by (rule bit_eqI) (auto simp: swab16_def byte_masks bit_simps)

lemma bit_swab32:
  assumes "m < 8"
  shows "bit (swab32 x) m = bit x (24 + m)"
    and "bit (swab32 x) (8 + m) = bit x (16 + m)"
    and "bit (swab32 x) (16 + m) = bit x (8 + m)"
    and "bit (swab32 x) (24 + m) = bit x m"
  using assms by (simp_all add: swab32_def byte_masks bit_simps)

lemma swab32_swab32 [simp]: "swab32 (swab32 x) = x"
proof (rule bit_eqI)
  fix n assume "possible_bit TYPE(32 word) n"
  then have n: "n < 32" by simp
  then have "n < 64" by simp
  then have "n < 32 \<longrightarrow> bit (swab32 (swab32 x)) n = bit x n"
    by (rule byte_cases) (simp_all add: bit_swab32)
  with n show "bit (swab32 (swab32 x)) n = bit x n" by simp
qed

lemma bit_swab64:
  assumes "m < 8"
  shows "bit (swab64 x) m = bit x (56 + m)"
    and "bit (swab64 x) (8 + m) = bit x (48 + m)"
    and "bit (swab64 x) (16 + m) = bit x (40 + m)"
    and "bit (swab64 x) (24 + m) = bit x (32 + m)"
    and "bit (swab64 x) (32 + m) = bit x (24 + m)"
    and "bit (swab64 x) (40 + m) = bit x (16 + m)"
    and "bit (swab64 x) (48 + m) = bit x (8 + m)"
    and "bit (swab64 x) (56 + m) = bit x m"
  using assms by (simp_all add: swab64_def byte_masks bit_simps)

lemma swab64_swab64 [simp]: "swab64 (swab64 x) = x"
proof (rule bit_eqI)
  fix n assume "possible_bit TYPE(64 word) n"
  then have "n < 64" by simp
  then show "bit (swab64 (swab64 x)) n = bit x n"
    by (rule byte_cases) (simp_all add: bit_swab64)
qed

section \<open>The byte order interface\<close>

text \<open>
  What a stored field promises its readers: the two conversion macros of a width undo each
  other, and so agree on equality.
\<close>

locale byte_order =
  fixes to_disk :: "'a \<Rightarrow> 'a" and to_cpu :: "'a \<Rightarrow> 'a"
  assumes to_cpu_to_disk: "to_cpu (to_disk x) = x"
    and to_disk_to_cpu: "to_disk (to_cpu x) = x"
begin

lemma to_disk_eq_iff: "to_disk x = to_disk y \<longleftrightarrow> x = y"
  by (metis to_cpu_to_disk)

lemma to_cpu_eq_iff: "to_cpu x = y \<longleftrightarrow> x = to_disk y"
  by (metis to_cpu_to_disk to_disk_to_cpu)

lemma map_to_cpu_to_disk: "map (\<lambda>x. to_cpu (to_disk x)) xs = xs"
  by (simp add: to_cpu_to_disk)

end

interpretation be16: byte_order "cpu_to_be16 h" "be16_to_cpu h" for h
  by unfold_locales (cases h; simp)+

interpretation be32: byte_order "cpu_to_be32 h" "be32_to_cpu h" for h
  by unfold_locales (cases h; simp)+

interpretation be64: byte_order "cpu_to_be64 h" "be64_to_cpu h" for h
  by unfold_locales (cases h; simp)+

interpretation le32: byte_order "cpu_to_le32 h" "le32_to_cpu h" for h
  by unfold_locales (cases h; simp)+

lemmas byte_order_simps [simp] =
  be16.to_cpu_to_disk be16.to_disk_to_cpu
  be32.to_cpu_to_disk be32.to_disk_to_cpu
  be64.to_cpu_to_disk be64.to_disk_to_cpu
  le32.to_cpu_to_disk le32.to_disk_to_cpu

end
