(* ===== verification/Memory.thy ===== *)
theory Memory
  imports Endian
begin

text \<open>
  Buffers as the C code sees them: a list of bytes that is read as an array of integers or as
  a packed structure. \<open>load\<close> and \<open>store\<close> read and write an integer in the byte order
  of the host; \<open>get16\<close>, \<open>get32\<close> and \<open>get64\<close> take the next member of a packed
  structure. Together with the conversion macros they give an on-disk image that does not
  depend on the host: a member converted by \<^verbatim>\<open>cpu_to_be\<close> and stored is the big-endian
  byte string of its value on both kinds of host.
\<close>

unbundle bit_operations_syntax

named_theorems memory_simps \<open>reading back what was stored\<close>

section \<open>Integers in memory\<close>

definition le_bytes :: "nat \<Rightarrow> 'a::len word \<Rightarrow> bytes" where
  "le_bytes n w = map (\<lambda>i. ucast (drop_bit (8 * i) w)) [0..<n]"

fun le_word :: "bytes \<Rightarrow> 'a::len word" where
  "le_word [] = 0"
| "le_word (b # bs) = ucast b OR push_bit 8 (le_word bs)"

definition be_bytes :: "nat \<Rightarrow> 'a::len word \<Rightarrow> bytes" where
  "be_bytes n w = rev (le_bytes n w)"

fun store :: "host \<Rightarrow> nat \<Rightarrow> 'a::len word \<Rightarrow> bytes" where
  "store LittleEndian n w = le_bytes n w"
| "store BigEndian n w = rev (le_bytes n w)"

fun load :: "host \<Rightarrow> bytes \<Rightarrow> 'a::len word" where
  "load LittleEndian bs = le_word bs"
| "load BigEndian bs = le_word (rev bs)"

lemma length_le_bytes [simp]: "length (le_bytes n w) = n"
  by (simp add: le_bytes_def)

lemma length_store [simp]: "length (store h n w) = n"
  by (cases h) simp_all

lemma store_zero [simp]: "store h n 0 = replicate n 0"
  by (cases h) (simp_all add: le_bytes_def map_replicate_trivial)

lemma bit_le_word:
  "bit (le_word bs :: 'a::len word) i \<longleftrightarrow>
    i < LENGTH('a) \<and> i div 8 < length bs \<and> bit (bs ! (i div 8)) (i mod 8)"
proof (induction bs arbitrary: i)
  case (Cons b bs)
  show ?case
  proof (cases "i < 8")
    case True
    then show ?thesis by (auto simp: bit_simps)
  next
    case False
    then obtain j where j: "i = 8 + j" using le_Suc_ex by (metis not_less)
    then have "i div 8 = Suc (j div 8)" "i mod 8 = j mod 8" by simp_all
    with j show ?thesis
      by (auto simp: bit_simps Cons.IH dest: bit_imp_le_length)
  qed
qed simp

lemma le_word_le_bytes:
  assumes "8 * n = LENGTH('a)"
  shows "le_word (le_bytes n w) = (w :: 'a::len word)"
proof (rule bit_eqI)
  fix i assume "possible_bit TYPE('a word) i"
  then have i: "i < LENGTH('a)" by simp
  with assms have "i div 8 < n" by linarith
  with i show "bit (le_word (le_bytes n w) :: 'a word) i = bit w i"
    by (simp add: bit_le_word le_bytes_def bit_simps)
qed

lemma le_bytes_le_word:
  assumes "8 * length bs = LENGTH('a)"
  shows "le_bytes (length bs) (le_word bs :: 'a::len word) = bs"
proof (rule nth_equalityI)
  fix i assume "i < length (le_bytes (length bs) (le_word bs :: 'a word))"
  then have i: "i < length bs" by simp
  have "ucast (drop_bit (8 * i) (le_word bs :: 'a word)) = bs ! i"
  proof (rule bit_eqI)
    fix j assume "possible_bit TYPE(8 word) j"
    then have j: "j < 8" by simp
    then have "(8 * i + j) div 8 = i" "(8 * i + j) mod 8 = j" by simp_all
    moreover have "8 * i + j < LENGTH('a)" using i j assms by linarith
    ultimately show "bit (ucast (drop_bit (8 * i) (le_word bs :: 'a word)) :: u8) j = bit (bs ! i) j"
      using i j by (simp add: bit_simps bit_le_word)
  qed
  with i show "le_bytes (length bs) (le_word bs :: 'a word) ! i = bs ! i"
    by (simp add: le_bytes_def)
qed simp

lemma load_store:
  "8 * n = LENGTH('a) \<Longrightarrow> load h (store h n w) = (w :: 'a::len word)"
  by (cases h) (simp_all add: le_word_le_bytes)

lemma store_load:
  assumes "8 * length bs = LENGTH('a)"
  shows "store h (length bs) (load h bs :: 'a::len word) = bs"
  using le_bytes_le_word [OF assms] le_bytes_le_word [of "rev bs", where 'a = 'a] assms
  by (cases h) simp_all

lemma load_store_width [memory_simps]:
  "load h (store h 2 w) = (w :: u16)"
  "load h (store h 4 x) = (x :: u32)"
  "load h (store h 8 y) = (y :: u64)"
  by (simp_all add: load_store)

section \<open>The image is host independent\<close>

lemma nth_le_bytes: "i < n \<Longrightarrow> le_bytes n w ! i = ucast (drop_bit (8 * i) w)"
  by (simp add: le_bytes_def)

lemma bit_swab_byte:
  "\<lbrakk>i < 2; j < 8\<rbrakk> \<Longrightarrow> bit (swab16 x) (8 * i + j) = bit x (8 * (1 - i) + j)"
  "\<lbrakk>i < 4; j < 8\<rbrakk> \<Longrightarrow> bit (swab32 y) (8 * i + j) = bit y (8 * (3 - i) + j)"
  "\<lbrakk>i < 8; j < 8\<rbrakk> \<Longrightarrow> bit (swab64 z) (8 * i + j) = bit z (8 * (7 - i) + j)"
proof -
  assume "i < 2" "j < 8"
  then consider "i = 0" | "i = 1" by linarith
  then show "bit (swab16 x) (8 * i + j) = bit x (8 * (1 - i) + j)"
    using \<open>j < 8\<close> by cases (simp_all add: swab16_def byte_masks bit_simps)
next
  assume "i < 4" "j < 8"
  then consider "i = 0" | "i = 1" | "i = 2" | "i = 3" by linarith
  then show "bit (swab32 y) (8 * i + j) = bit y (8 * (3 - i) + j)"
    using \<open>j < 8\<close> by cases (simp_all add: bit_swab32)
next
  assume "i < 8" "j < 8"
  then consider "i = 0" | "i = 1" | "i = 2" | "i = 3" | "i = 4" | "i = 5" | "i = 6" | "i = 7"
    by linarith
  then show "bit (swab64 z) (8 * i + j) = bit z (8 * (7 - i) + j)"
    using \<open>j < 8\<close> by cases (simp_all add: bit_swab64)
qed

lemma le_bytes_swap:
  assumes n: "8 * n = LENGTH('a)"
    and swap: "\<And>i j. \<lbrakk>i < n; j < 8\<rbrakk> \<Longrightarrow> bit (v :: 'a::len word) (8 * i + j) = bit w (8 * (n - 1 - i) + j)"
  shows "le_bytes n v = be_bytes n w"
proof (rule nth_equalityI)
  fix i assume "i < length (le_bytes n v)"
  then have i: "i < n" by simp
  have "ucast (drop_bit (8 * i) v) = (ucast (drop_bit (8 * (n - 1 - i)) w) :: u8)"
    using n i by (intro bit_eqI) (simp add: bit_simps swap)
  with i show "le_bytes n v ! i = be_bytes n w ! i"
    by (simp add: be_bytes_def rev_nth nth_le_bytes)
qed (simp add: be_bytes_def)

lemma store_cpu_to_be [memory_simps]:
  "store h 2 (cpu_to_be16 h x) = be_bytes 2 x"
  "store h 4 (cpu_to_be32 h y) = be_bytes 4 y"
  "store h 8 (cpu_to_be64 h z) = be_bytes 8 z"
proof -
  have "le_bytes 2 (swab16 x) = be_bytes 2 x"
    by (rule le_bytes_swap) (simp_all add: bit_swab_byte)
  then show "store h 2 (cpu_to_be16 h x) = be_bytes 2 x"
    by (cases h) (simp_all add: be_bytes_def)
next
  have "le_bytes 4 (swab32 y) = be_bytes 4 y"
    by (rule le_bytes_swap) (simp_all add: bit_swab_byte)
  then show "store h 4 (cpu_to_be32 h y) = be_bytes 4 y"
    by (cases h) (simp_all add: be_bytes_def)
next
  have "le_bytes 8 (swab64 z) = be_bytes 8 z"
    by (rule le_bytes_swap) (simp_all add: bit_swab_byte)
  then show "store h 8 (cpu_to_be64 h z) = be_bytes 8 z"
    by (cases h) (simp_all add: be_bytes_def)
qed

text \<open>Reading with a conversion macro: the number the bytes mean in the order of the disk.\<close>

lemma load_le_to_cpu:
  "length bs = 2 \<Longrightarrow> le16_to_cpu h (load h bs) = le_word bs"
  "length bs = 4 \<Longrightarrow> le32_to_cpu h (load h bs) = le_word bs"
  "length bs = 8 \<Longrightarrow> le64_to_cpu h (load h bs) = le_word bs"
proof -
  have rev_word: "v = le_word bs" if n: "8 * length bs = LENGTH('a)"
    and swap: "\<And>i j. \<lbrakk>i < length bs; j < 8\<rbrakk> \<Longrightarrow> bit v (8 * i + j) = bit (le_word (rev bs) :: 'a word) (8 * (length bs - 1 - i) + j)"
    for v :: "'a::len word"
  proof -
    have "le_bytes (length bs) v = be_bytes (length bs) (le_word (rev bs) :: 'a word)"
      using n swap by (rule le_bytes_swap)
    also have "\<dots> = bs" using le_bytes_le_word [of "rev bs", where 'a = 'a] n by (simp add: be_bytes_def)
    finally have "le_bytes (length bs) v = bs" .
    then show ?thesis using le_word_le_bytes [of "length bs" v] n by simp
  qed
  show "length bs = 2 \<Longrightarrow> le16_to_cpu h (load h bs) = le_word bs"
    by (cases h) (auto intro!: rev_word simp: bit_swab_byte)
  show "length bs = 4 \<Longrightarrow> le32_to_cpu h (load h bs) = le_word bs"
    by (cases h) (auto intro!: rev_word simp: bit_swab_byte)
  show "length bs = 8 \<Longrightarrow> le64_to_cpu h (load h bs) = le_word bs"
    by (cases h) (auto intro!: rev_word simp: bit_swab_byte)
qed

section \<open>Members of packed structures\<close>

definition get16 :: "host \<Rightarrow> bytes \<Rightarrow> u16 \<times> bytes" where
  "get16 h bs = (load h (take 2 bs), drop 2 bs)"

definition get32 :: "host \<Rightarrow> bytes \<Rightarrow> u32 \<times> bytes" where
  "get32 h bs = (load h (take 4 bs), drop 4 bs)"

definition get64 :: "host \<Rightarrow> bytes \<Rightarrow> u64 \<times> bytes" where
  "get64 h bs = (load h (take 8 bs), drop 8 bs)"

text \<open>An array member: \<open>n\<close> elements with the reader of one element.\<close>

fun get_array :: "(bytes \<Rightarrow> 'a \<times> bytes) \<Rightarrow> nat \<Rightarrow> bytes \<Rightarrow> 'a list \<times> bytes" where
  "get_array g 0 bs = ([], bs)"
| "get_array g (Suc n) bs =
    (let (x, bs) = g bs; (xs, bs) = get_array g n bs in (x # xs, bs))"

definition put_array :: "('a \<Rightarrow> bytes) \<Rightarrow> 'a list \<Rightarrow> bytes" where
  "put_array p xs = concat (map p xs)"

lemma get_put [memory_simps]:
  "get16 h (store h 2 w @ bs) = (w, bs)"
  "get32 h (store h 4 x @ bs) = (x, bs)"
  "get64 h (store h 8 y @ bs) = (y, bs)"
  by (simp_all add: get16_def get32_def get64_def memory_simps)

lemma get_put_array:
  assumes "\<And>x rest. x \<in> set xs \<Longrightarrow> g (p x @ rest) = (x, rest)"
  shows "get_array g (length xs) (put_array p xs @ bs) = (xs, bs)"
  using assms by (induction xs) (simp_all add: put_array_def)

lemma get_put_arrays [memory_simps]:
  "length xs = n \<Longrightarrow> get_array (get16 h) n (put_array (store h 2) xs @ bs) = (xs, bs)"
  "length ys = n \<Longrightarrow> get_array (get32 h) n (put_array (store h 4) ys @ bs) = (ys, bs)"
  "length zs = n \<Longrightarrow> get_array (get64 h) n (put_array (store h 8) zs @ bs) = (zs, bs)"
  using get_put_array [of xs "get16 h" "store h 2" bs] get_put_array [of ys "get32 h" "store h 4" bs]
    get_put_array [of zs "get64 h" "store h 8" bs]
  by (auto simp: memory_simps)

lemma get_put_arrays_end [memory_simps]:
  "length xs = n \<Longrightarrow> get_array (get16 h) n (put_array (store h 2) xs) = (xs, [])"
  "length ys = n \<Longrightarrow> get_array (get32 h) n (put_array (store h 4) ys) = (ys, [])"
  "length zs = n \<Longrightarrow> get_array (get64 h) n (put_array (store h 8) zs) = (zs, [])"
  using get_put_arrays [where bs = "[]"] by auto

lemma length_put_array:
  "(\<And>x. x \<in> set xs \<Longrightarrow> length (p x) = k) \<Longrightarrow> length (put_array p xs) = length xs * k"
  by (induction xs) (simp_all add: put_array_def)

lemma length_put_array_store [simp]: "length (put_array (store h k) xs) = length xs * k"
  by (rule length_put_array) simp

lemma put_array_cong:
  "(\<And>x. x \<in> set xs \<Longrightarrow> p x = q (f x)) \<Longrightarrow> put_array p xs = put_array q (map f xs)"
  by (simp add: put_array_def comp_def cong: map_cong)

lemma length_get_array [simp]: "length (fst (get_array g n bs)) = n"
  by (induction n arbitrary: bs) (simp_all add: case_prod_beta Let_def)

end
