(* ===== verification/Shared_Tool.thy ===== *)
theory Shared_Tool
  imports Cstring Memory
begin

text \<open>
  Helpers of \<^verbatim>\<open>user/shared/shared_tool.c\<close> that all tools use: sizes with units in both
  directions, the tokenizer for version strings, minor numbers of device names, comparison of
  addresses and the hex dump. Library functions that are not part of the sources
  (\<^verbatim>\<open>inet_pton\<close>, \<^verbatim>\<open>stat\<close>) are parameters.
\<close>

unbundle bit_operations_syntax

section \<open>Sizes for people\<close>

definition units :: string where "units = ''KMGTPE''"

function ppsize_loop :: "nat \<Rightarrow> nat \<Rightarrow> nat \<times> nat" where
  "ppsize_loop sz base =
    (if sz \<ge> 10000 \<and> base < length units - 1
     then ppsize_loop (sz div 1024 + (if bit sz 9 then 1 else 0)) (base + 1)
     else (sz, base))"
  by pat_completeness auto
termination
  by (relation "measure (\<lambda>(sz, base). length units - base)") (auto simp: units_def)

declare ppsize_loop.simps [simp del]

definition ppsize :: "u64 \<Rightarrow> string" where
  "ppsize sz = (let (sz, base) = ppsize_loop (unat sz) 0
     in show_nat (sz mod 2 ^ 32) @ '' '' @ [units ! base] @ ''B'')"

section \<open>Numbers with units\<close>

datatype new_strtoll_errs =
  MSE_OK | MSE_DEFAULT_UNIT | MSE_MISSING_NUMBER | MSE_INVALID_NUMBER | MSE_INVALID_UNIT | MSE_OUT_OF_RANGE

definition def_unit_shift :: "char \<Rightarrow> int option" where
  "def_unit_shift u =
    (if u = CHR 0x00 \<or> u = CHR 0x01 \<or> u = CHR ''1'' then Some 0
     else if u = CHR ''K'' \<or> u = CHR ''k'' then Some (-10)
     else if u = CHR ''s'' then Some (-9)
     else None)"

definition unit_shift :: "char \<Rightarrow> int option" where
  "unit_shift u =
    (if u = CHR ''K'' \<or> u = CHR ''k'' then Some 10
     else if u = CHR ''M'' \<or> u = CHR ''m'' then Some 20
     else if u = CHR ''G'' \<or> u = CHR ''g'' then Some 30
     else if u = CHR ''s'' then Some 9
     else None)"

text \<open>
  \<^verbatim>\<open>sscanf(s, "%llu%c%c", ...)\<close>: the value, and the characters that follow it. As in
  \<^verbatim>\<open>strtoull\<close>, a value that is too large gives the largest number.
\<close>

definition new_strtoll :: "string option \<Rightarrow> char \<Rightarrow> new_strtoll_errs + u64" where
  "new_strtoll s def_unit = (case def_unit_shift def_unit of
     None \<Rightarrow> Inl MSE_DEFAULT_UNIT
   | Some shift \<Rightarrow> (case s of
       None \<Rightarrow> Inl MSE_MISSING_NUMBER
     | Some [] \<Rightarrow> Inl MSE_MISSING_NUMBER
     | Some s \<Rightarrow> (case scan_number 10 s of
         None \<Rightarrow> Inl MSE_INVALID_NUMBER
       | Some _ \<Rightarrow> (case strtoul 10 s of (rv, rest, _) \<Rightarrow> (case rest of
           [] \<Rightarrow> Inr rv
         | [unit] \<Rightarrow> (case unit_shift unit of
             None \<Rightarrow> Inl MSE_INVALID_UNIT
           | Some us \<Rightarrow>
               let shift = shift + us in
               if shift < 0 then let sh = nat (- shift) in Inr (drop_bit sh (rv + push_bit sh 1 - 1))
               else let sh = nat shift in
                 if rv > drop_bit sh (-1) then Inl MSE_OUT_OF_RANGE
                 else Inr (push_bit sh rv))
         | _ \<Rightarrow> Inl MSE_INVALID_NUMBER)))))"

fun print_strtoll_error_and_exit :: "new_strtoll_errs \<Rightarrow> stop" where
  "print_strtoll_error_and_exit MSE_OK = Exit 100"
| "print_strtoll_error_and_exit MSE_DEFAULT_UNIT = Exit 100"
| "print_strtoll_error_and_exit MSE_MISSING_NUMBER = Exit 100"
| "print_strtoll_error_and_exit MSE_INVALID_NUMBER = Exit 20"
| "print_strtoll_error_and_exit MSE_INVALID_UNIT = Exit 20"
| "print_strtoll_error_and_exit MSE_OUT_OF_RANGE = Exit 20"

definition m_strtoll :: "string option \<Rightarrow> char \<Rightarrow> u64 res" where
  "m_strtoll s def_unit = (case new_strtoll s def_unit of
     Inl err \<Rightarrow> Inl (print_strtoll_error_and_exit err) | Inr r \<Rightarrow> Inr r)"

section \<open>Option strings\<close>

datatype has_arg = no_argument | required_argument | optional_argument

text \<open>
  An option is its \<^verbatim>\<open>val\<close> and \<^verbatim>\<open>has_arg\<close>. The characters go to a static buffer of 200 bytes.
\<close>

definition optstring_of :: "int \<times> has_arg \<Rightarrow> string" where
  "optstring_of opt = (case opt of (v, arg) \<Rightarrow>
     char_of (nat v) # (case arg of no_argument \<Rightarrow> '''' | required_argument \<Rightarrow> '':'' | optional_argument \<Rightarrow> ''::''))"

fun make_optstring_loop :: "int list \<Rightarrow> string \<Rightarrow> (int \<times> has_arg) list \<Rightarrow> string res" where
  "make_optstring_loop seen c [] = (if length c \<ge> 200 then Inl OutOfBounds else Inr c)"
| "make_optstring_loop seen c (opt # opts) =
    (let v = fst opt in
     if 0 < v \<and> v < 256 then
       if v \<in> set seen then Inl Abort
       else let c = c @ optstring_of opt
            in if length c > 200 then Inl OutOfBounds else make_optstring_loop (v # seen) c opts
     else make_optstring_loop seen c opts)"

definition make_optstring :: "(int \<times> has_arg) list \<Rightarrow> string res" where
  "make_optstring options = make_optstring_loop [] [] options"

section \<open>Tokens\<close>

text \<open>
  \<^verbatim>\<open>sget_token\<close>: \<open>c\<close> is the character in hand, \<open>sz\<close> the counter that the inner
  loop decrements. The result is the token and the rest of the text; \<open>None\<close> is \<^verbatim>\<open>EOF\<close>.
\<close>

fun sget_word :: "char \<Rightarrow> int \<Rightarrow> string \<Rightarrow> string \<times> string" where
  "sget_word c sz [] = ([c], [])"
| "sget_word c sz (d # text) =
    (if isgraph d \<and> sz - 1 \<noteq> 0
     then (case sget_word d (sz - 1) text of (w, rest) \<Rightarrow> (c # w, rest))
     else ([c], text))"

definition sget_token :: "int \<Rightarrow> string \<Rightarrow> (string \<times> string) option" where
  "sget_token sz text = (case dropWhile (\<lambda>c. \<not> isgraph c) text of
     [] \<Rightarrow> None
   | c # cs \<Rightarrow> Some (sget_word c (sz - 1) cs))"

section \<open>Names\<close>

definition only_digits :: "string \<Rightarrow> bool" where
  "only_digits s \<longleftrightarrow> takeWhile isdigit s \<noteq> [] \<and> dropWhile isdigit s = []"

text \<open>
  \<open>stat_blk\<close> gives major and minor number of an existing block device node. The result of
  \<^verbatim>\<open>strtol\<close> is converted from \<^verbatim>\<open>long\<close> to \<^verbatim>\<open>int\<close>.
\<close>

definition long_to_int :: "int \<Rightarrow> int" where
  "long_to_int m = signed_take_bit 31 m"

definition dt_minor_of_dev :: "nat \<Rightarrow> (string \<Rightarrow> (nat \<times> nat) option) \<Rightarrow> string \<Rightarrow> int" where
  "dt_minor_of_dev LANANA_DRBD_MAJOR stat_blk device =
    (let parse = (\<lambda>c. case strtol 10 c of (m, _, err) \<Rightarrow> if \<not> err then long_to_int m else -1)
     in if only_digits device then parse device
        else if take 9 device = ''/dev/drbd'' \<and> only_digits (drop 9 device) then parse (drop 9 device)
        else case stat_blk device of
            Some (major, minor) \<Rightarrow> if major = LANANA_DRBD_MAJOR then int minor else -1
          | None \<Rightarrow> -1)"

definition ensure_sanity_of_res_name :: "string \<Rightarrow> unit res" where
  "ensure_sanity_of_res_name stg =
    (if stg = [] then Inl (Exit 1)
     else if list_ex (\<lambda>c. code c < 32 \<or> code c = 127) stg then Inl (Exit 1)
     else Inr ())"

section \<open>Addresses\<close>

definition tolower :: "char \<Rightarrow> char" where
  "tolower c = (if 65 \<le> code c \<and> code c \<le> 90 then char_of (code c + 32) else c)"

definition strcasecmp_eq :: "string \<Rightarrow> string \<Rightarrow> bool" where
  "strcasecmp_eq a b \<longleftrightarrow> map tolower a = map tolower b"

text \<open>The bytes of an address in network order, if the text is one.\<close>

record inet =
  pton4 :: "string \<Rightarrow> bytes option"
  pton6 :: "string \<Rightarrow> bytes option"

definition ipv4_addresses_match :: "inet \<Rightarrow> host \<Rightarrow> string \<Rightarrow> string \<Rightarrow> bool" where
  "ipv4_addresses_match N h addr_1st addr_2nd = (case (pton4 N addr_1st, pton4 N addr_2nd) of
     (Some a, Some b) \<Rightarrow> (load h a :: u32) = load h b | _ \<Rightarrow> False)"

definition ipv6_addresses_match :: "inet \<Rightarrow> string \<Rightarrow> string \<Rightarrow> bool" where
  "ipv6_addresses_match N addr_1st addr_2nd = (case (pton6 N addr_1st, pton6 N addr_2nd) of
     (Some a, Some b) \<Rightarrow> a = b | _ \<Rightarrow> False)"

definition addresses_match :: "inet \<Rightarrow> host \<Rightarrow> string \<Rightarrow> string \<Rightarrow> string \<Rightarrow> string \<Rightarrow> bool" where
  "addresses_match N h af_1st addr_1st af_2nd addr_2nd =
    (if strcasecmp_eq af_1st ''ipv4'' \<and> strcasecmp_eq af_2nd ''ipv4''
     then ipv4_addresses_match N h addr_1st addr_2nd
     else if strcasecmp_eq af_1st ''ipv6'' \<and> strcasecmp_eq af_2nd ''ipv6''
     then ipv6_addresses_match N addr_1st addr_2nd
     else af_1st = af_2nd \<and> addr_1st = addr_2nd)"

definition IN_IS_ADDR_LOOPBACK :: "host \<Rightarrow> bytes \<Rightarrow> bool" where
  "IN_IS_ADDR_LOOPBACK h a \<longleftrightarrow> cpu_to_be32 h (load h a) AND 0xff000000 = 0x7f000000"

definition addr_scope_local :: "inet \<Rightarrow> host \<Rightarrow> string \<Rightarrow> bool" where
  "addr_scope_local N h input = (case pton6 N input of
     Some a \<Rightarrow> a = replicate 15 0 @ [1]
   | None \<Rightarrow> (case pton4 N input of Some a \<Rightarrow> IN_IS_ADDR_LOOPBACK h a | None \<Rightarrow> False))"

section \<open>Hex dump\<close>

text \<open>One line of output: bytes at an offset, the mark for repeated lines, the final offset.\<close>

datatype hex_line = HexBytes nat bytes | HexSkip | HexEnd nat

text \<open>
  The loop of \<^verbatim>\<open>fprintf_hex\<close> over full lines: \<open>prev\<close> is the line before, \<open>skipped\<close>
  whether lines were left out since the last one printed.
\<close>

function fprintf_hex_loop :: "nat \<Rightarrow> bytes option \<Rightarrow> bool \<Rightarrow> bytes \<Rightarrow> hex_line list" where
  "fprintf_hex_loop off prev skipped buf =
    (if 16 < length buf then
       let c = take 16 buf; rest = drop 16 buf in
       if prev = Some c then fprintf_hex_loop (off + 16) (Some c) True rest
       else (if skipped then [HexSkip] else []) @ HexBytes off c # fprintf_hex_loop (off + 16) (Some c) False rest
     else (if skipped then [HexSkip] else [])
       @ (if buf \<noteq> [] then [HexBytes off buf] else []) @ [HexEnd (off + length buf)])"
  by pat_completeness auto
termination
  by (relation "measure (\<lambda>(off, prev, skipped, buf). length buf)") auto

declare fprintf_hex_loop.simps [simp del]

definition hex_char :: "u8 \<Rightarrow> string" where
  "hex_char b = pad_zero 2 (show_base False 16 (unat b))"

definition dot_char :: "u8 \<Rightarrow> char" where
  "dot_char b = (let c = char_of (unat b) in if isprint c then c else CHR ''.'')"

definition hex_offset :: "nat \<Rightarrow> string" where
  "hex_offset off = pad_zero 8 (show_base False 16 (off mod 2 ^ 64))"

definition show_hex_line :: "hex_line \<Rightarrow> string" where
  "show_hex_line l = (case l of
     HexSkip \<Rightarrow> [CHR ''*'', CHR 0x0A]
   | HexEnd off \<Rightarrow> hex_offset off @ [CHR 0x0A]
   | HexBytes off bs \<Rightarrow>
       hex_offset off @ '' '' @ concat (map (\<lambda>b. '' '' @ hex_char b) (take 8 bs))
       @ (if length bs > 8 then '' '' else '''') @ concat (map (\<lambda>b. '' '' @ hex_char b) (drop 8 bs))
       @ replicate ((16 - length bs) * 3 + (if length bs < 8 then 1 else 0)) (CHR '' '')
       @ ''  |'' @ map dot_char bs @ ''|'' @ [CHR 0x0A])"

definition fprintf_hex :: "nat \<Rightarrow> bytes \<Rightarrow> string" where
  "fprintf_hex file_offset buf = concat (map show_hex_line (fprintf_hex_loop file_offset None False buf))"

section \<open>Sizes for people: rounding and length\<close>

lemma bit_9: "bit (n::nat) 9 \<longleftrightarrow> 512 \<le> n mod 1024"
proof -
  have "bit n 9 \<longleftrightarrow> odd (n div 512)" by (simp add: bit_iff_odd)
  moreover have "n mod 1024 = 512 * (n div 512 mod 2) + n mod 512" using mod_mult2_eq [of n 512 2] by simp
  ultimately show ?thesis by (cases "odd (n div 512)") (simp_all add: odd_iff_mod_2_eq_one even_iff_mod_2_eq_zero)
qed

lemma ppsize_step:
  fixes n :: nat
  defines "m \<equiv> n div 1024 + (if bit n 9 then 1 else 0)"
  shows "\<bar>int n - int m * 1024\<bar> \<le> 512" and "n \<le> 2 ^ (k + 10) \<Longrightarrow> m \<le> 2 ^ k"
proof -
  define q r where "q = n div 1024" and "r = n mod 1024"
  have "n = 1024 * q + r" "r < 1024" by (simp_all add: q_def r_def)
  then have n: "int n = 1024 * int q + int r" "r < 1024" by simp_all
  have "m = q + (if 512 \<le> r then 1 else 0)" by (simp add: m_def bit_9 q_def r_def)
  then show "\<bar>int n - int m * 1024\<bar> \<le> 512" using n by (cases "512 \<le> r") auto
  assume le: "n \<le> 2 ^ (k + 10)"
  show "m \<le> 2 ^ k"
  proof (cases "n = 2 ^ (k + 10)")
    case True
    then have "n div 1024 = 2 ^ k" "n mod 1024 = 0" by (simp_all add: power_add)
    then show ?thesis by (simp add: m_def bit_9)
  next
    case False
    with le have "n < 2 ^ k * 1024" by (simp add: power_add)
    then have "n div 1024 < 2 ^ k" by (simp add: div_less_iff_less_mult)
    then show ?thesis by (simp add: m_def)
  qed
qed

lemma ppsize_loop_spec:
  assumes "base \<le> 5" and "n \<le> 2 ^ (64 - 10 * base)" and "ppsize_loop n base = (r, b)"
  shows "base \<le> b \<and> b \<le> 5 \<and> r \<le> 16384 \<and> \<bar>int n * 1024 ^ base - int r * 1024 ^ b\<bar> \<le> 1024 ^ b - 1024 ^ base"
  using assms
proof (induction n base rule: ppsize_loop.induct)
  case (1 n base)
  show ?case
  proof (cases "n \<ge> 10000 \<and> base < length units - 1")
    case False
    with "1.prems"(3) have eq: "r = n" "b = base" by (simp_all only: ppsize_loop.simps [of n base] if_False prod.inject)
    have "n \<le> 16384"
    proof (cases "n \<ge> 10000")
      case True
      with False "1.prems"(1) have "base = 5" by (simp add: units_def)
      with "1.prems"(2) show ?thesis by simp
    qed simp
    with eq "1.prems" show ?thesis by simp
  next
    case True
    then have base: "base < 5" by (simp add: units_def)
    define m where "m = n div 1024 + (if bit n 9 then 1 else 0)"
    have loop: "ppsize_loop m (base + 1) = (r, b)"
      using True "1.prems"(3) by (simp add: ppsize_loop.simps [of n base] m_def)
    define k where "k = 64 - 10 * (base + 1)"
    have "64 - 10 * base = k + 10" using base by (simp add: k_def)
    with "1.prems"(2) have "n \<le> 2 ^ (k + 10)" by metis
    then have "m \<le> 2 ^ (64 - 10 * (base + 1))" unfolding m_def k_def by (rule ppsize_step(2))
    moreover have "base + 1 \<le> 5" using base by simp
    ultimately have IH: "base + 1 \<le> b" "b \<le> 5" "r \<le> 16384"
        "\<bar>int m * 1024 ^ (base + 1) - int r * 1024 ^ b\<bar> \<le> 1024 ^ b - 1024 ^ (base + 1)"
      using "1.IH" [OF True, folded m_def] loop by blast+
    have "\<bar>int n - int m * 1024\<bar> * 1024 ^ base \<le> 512 * 1024 ^ base"
      using ppsize_step(1) [of n] by (intro mult_right_mono) (simp_all add: m_def)
    then have "\<bar>int n * 1024 ^ base - int m * 1024 ^ (base + 1)\<bar> \<le> 512 * 1024 ^ base"
      by (simp add: abs_mult flip: left_diff_distrib mult.assoc)
    with IH(4) have "\<bar>int n * 1024 ^ base - int r * 1024 ^ b\<bar> \<le> 512 * 1024 ^ base + (1024 ^ b - 1024 ^ (base + 1))"
      by linarith
    moreover have "(0::int) \<le> 1024 ^ base" "(1024::int) ^ (base + 1) = 1024 * 1024 ^ base" by simp_all
    ultimately have "\<bar>int n * 1024 ^ base - int r * 1024 ^ b\<bar> \<le> 1024 ^ b - 1024 ^ base" by linarith
    with IH show ?thesis by simp
  qed
qed

section \<open>Numbers with units\<close>

lemma unit_not_digit: "unit_shift u = Some us \<Longrightarrow> 10 \<le> digit_value u"
  by (auto simp: unit_shift_def digit_value_def split: if_splits)

lemma drop_bit_minus_one: "sh < 64 \<Longrightarrow> unat (drop_bit sh (-1 :: u64)) = (2 ^ 64 - 1) div 2 ^ sh"
proof -
  have "unat (-1 :: u64) = 2 ^ 64 - 1" by (simp add: unsigned_minus_1_eq_mask mask_eq_exp_minus_1)
  then show ?thesis by (simp only: unat_drop_bit)
qed

lemma overflow_iff: "n > (2 ^ 64 - 1) div 2 ^ sh \<longleftrightarrow> n * 2 ^ sh \<ge> (2::nat) ^ 64"
proof -
  have "n > (2 ^ 64 - 1) div 2 ^ sh \<longleftrightarrow> \<not> n \<le> (2 ^ 64 - 1) div 2 ^ sh" by linarith
  also have "\<dots> \<longleftrightarrow> \<not> n * 2 ^ sh \<le> (2::nat) ^ 64 - 1"
    by (simp only: less_eq_div_iff_mult_less_eq [of "2 ^ sh"] zero_less_power zero_less_numeral)
  also have "\<not> a \<le> (2::nat) ^ 64 - 1 \<longleftrightarrow> 2 ^ 64 \<le> a" for a by auto
  finally show ?thesis .
qed

lemma new_strtoll_unit:
  assumes n: "n < 2 ^ 64" and d: "def_unit_shift d = Some ds" and u: "unit_shift u = Some us"
  shows "new_strtoll (Some (show_nat n @ [u])) d =
    (let shift = ds + us in
     if shift < 0 then let sh = nat (- shift) in Inr (drop_bit sh (of_nat n + push_bit sh 1 - 1))
     else let sh = nat shift in
       if of_nat n > drop_bit sh (-1 :: u64) then Inl MSE_OUT_OF_RANGE else Inr (push_bit sh (of_nat n)))"
proof -
  have "scan_number 10 (show_nat n @ [u]) = Some (False, n, [u])"
    by (rule scan_number_10) (use unit_not_digit [OF u] in simp)
  moreover have "show_nat n @ [u] \<noteq> []" by simp
  then obtain c cs where "show_nat n @ [u] = c # cs" by (cases "show_nat n @ [u]") auto
  ultimately show ?thesis
    using n d u by (simp add: new_strtoll_def strtoul_def)
qed

text \<open>The scale of a unit relative to the default unit.\<close>

lemma shift_cases:
  assumes "def_unit_shift d = Some ds" and "unit_shift u = Some us"
  shows "ds + us \<ge> 0 \<and> nat (ds + us) < 64 \<or> ds + us = -1"
  using assms by (auto simp: def_unit_shift_def unit_shift_def split: if_splits)

lemma unat_push_bit:
  assumes "n * 2 ^ sh < 2 ^ 64"
  shows "push_bit sh (of_nat n :: u64) = of_nat (n * 2 ^ sh)"
  by (simp add: push_bit_eq_mult)

text \<open>
  C38. Sizes with a unit: for every 64 bit number and every supported pair of unit and default
  unit, \<^verbatim>\<open>new_strtoll\<close> returns the exact value in the default unit, rounded up where the
  unit is smaller, and reports a range error exactly when the value does not fit into 64 bits.
  The one exception is the largest number in sectors with default unit KiB, where the rounding
  wraps around and the result is 0.
\<close>

theorem new_strtoll_units:
  assumes "n < 2 ^ 64" and "def_unit_shift d = Some ds" and "unit_shift u = Some us"
  shows "new_strtoll (Some (show_nat n @ [u])) d =
    (if ds + us = -1 then Inr (if n = 2 ^ 64 - 1 then 0 else of_nat ((n + 1) div 2))
     else if n * 2 ^ nat (ds + us) < 2 ^ 64 then Inr (of_nat (n * 2 ^ nat (ds + us)))
     else Inl MSE_OUT_OF_RANGE)"
proof (cases "ds + us = -1")
  case True
  have "drop_bit 1 (of_nat n + push_bit 1 1 - 1 :: u64) = (if n = 2 ^ 64 - 1 then 0 else of_nat ((n + 1) div 2))"
  proof (cases "n = 2 ^ 64 - 1")
    case False
    then have n: "n + 1 < 2 ^ 64" using assms(1) by linarith
    have "of_nat n + push_bit 1 1 - 1 = (of_nat (n + 1) :: u64)" by simp
    moreover have "unat (drop_bit 1 (of_nat (n + 1) :: u64)) = (n + 1) div 2"
      by (simp only: unat_drop_bit unat_of_nat_u64 [OF n]) simp
    ultimately have "unat (drop_bit 1 (of_nat n + push_bit 1 1 - 1 :: u64)) = (n + 1) div 2" by metis
    with False show ?thesis using word_eq_of_nat by (metis (full_types))
  next
    case True
    have "(of_nat n :: u64) = -1" unfolding True by simp
    then show ?thesis using True by simp
  qed
  then show ?thesis using new_strtoll_unit [OF assms] True by simp
next
  case False
  then have s: "ds + us \<ge> 0" "nat (ds + us) < 64" using shift_cases [OF assms(2,3)] by auto
  have "(of_nat n :: u64) > drop_bit (nat (ds + us)) (-1) \<longleftrightarrow> n * 2 ^ nat (ds + us) \<ge> 2 ^ 64"
    unfolding word_less_nat_alt drop_bit_minus_one [OF s(2)] unat_of_nat_u64 [OF assms(1)] by (rule overflow_iff)
  then show ?thesis using new_strtoll_unit [OF assms] False s by (auto simp: Let_def unat_push_bit not_less)
qed

theorem new_strtoll_units_witness:
  "new_strtoll (Some (show_nat 3 @ ''s'')) (CHR ''k'') = Inr 2 \<and> new_strtoll (Some (show_nat 5 @ ''M'')) (CHR ''1'') = Inr 5242880"
  using new_strtoll_units [of 3 "CHR ''k''" "-10" "CHR ''s''" 9] new_strtoll_units [of 5 "CHR ''1''" 0 "CHR ''M''" 20]
  by (simp add: def_unit_shift_def unit_shift_def)

section \<open>Properties of the size printer\<close>

text \<open>
  \<^verbatim>\<open>ppsize\<close> prints every 64 bit number of KiB in at most 8 characters, so that the
  buffers of 9 and 10 bytes of its callers suffice, and the printed number differs from the
  true size by less than one of the printed unit (not at all when the unit is KiB).
\<close>

theorem ppsize_spec:
  "\<exists>r b. ppsize sz = show_nat r @ '' '' @ [units ! b] @ ''B'' \<and> b < length units \<and> length (ppsize sz) \<le> 8
    \<and> \<bar>int (unat sz) - int r * 1024 ^ b\<bar> \<le> 1024 ^ b - 1"
proof -
  obtain r b where l: "ppsize_loop (unat sz) 0 = (r, b)" by fastforce
  have "unat sz \<le> 2 ^ (64 - 10 * 0)" using unat_less [of sz] by simp
  from ppsize_loop_spec [OF _ this l] have r: "b \<le> 5" "r \<le> 16384"
      "\<bar>int (unat sz) - int r * 1024 ^ b\<bar> \<le> 1024 ^ b - 1" by simp_all
  have pp: "ppsize sz = show_nat r @ '' '' @ [units ! b] @ ''B''" using l r by (simp add: ppsize_def)
  have "length (show_nat r) \<le> 5" unfolding show_nat_def by (rule length_show_base) (use r in simp_all)
  then have "length (ppsize sz) \<le> 8" by (simp add: pp)
  with pp r show ?thesis by (intro exI [of _ r] exI [of _ b]) (simp add: units_def)
qed

section \<open>Tokens\<close>

lemma sget_word_eq:
  assumes "1 \<le> sz"
  shows "sget_word c sz t =
    (c # take (nat sz - 1) (takeWhile isgraph t),
     drop (Suc (min (length (takeWhile isgraph t)) (nat sz - 1))) t)"
  using assms
proof (induction c sz t rule: sget_word.induct)
  case (2 c sz d t)
  show ?case
  proof (cases "isgraph d \<and> sz - 1 \<noteq> 0")
    case True
    then have "1 \<le> sz - 1" using "2.prems" by simp
    from "2.IH" [OF True this] have IH: "sget_word d (sz - 1) t =
      (d # take (nat (sz - 1) - 1) (takeWhile isgraph t),
       drop (Suc (min (length (takeWhile isgraph t)) (nat (sz - 1) - 1))) t)" .
    have "2 \<le> sz" using \<open>1 \<le> sz - 1\<close> by simp
    then obtain k where "sz = 2 + int k" using zle_iff_zadd by blast
    then have k: "nat sz - 1 = Suc k" "nat (sz - 1) - 1 = k" by simp_all
    show ?thesis using True IH unfolding k by simp
  next
    case False
    then show ?thesis by (cases "isgraph d") auto
  qed
qed simp

text \<open>
  \<^verbatim>\<open>sget_token\<close> with a buffer of at least two bytes: it skips to the next word, returns
  its first \<open>size - 1\<close> characters, which together with the zero fit the buffer, and always
  consumes one character more: the separator after a word that fits, but the first character
  that does not fit of a longer word, which no call ever returns.
\<close>

theorem sget_token_spec:
  assumes "2 \<le> sz"
  shows "sget_token sz t =
    (let t' = dropWhile (\<lambda>c. \<not> isgraph c) t; word = takeWhile isgraph t' in
     if t' = [] then None
     else Some (take (nat sz - 1) word, drop (Suc (min (length word) (nat sz - 1))) t'))"
proof (cases "dropWhile (\<lambda>c. \<not> isgraph c) t")
  case Nil
  then show ?thesis unfolding sget_token_def Let_def by (simp only: list.case) simp
next
  case (Cons c cs)
  then have c: "isgraph c" by (metis hd_dropWhile list.sel(1) list.distinct(1))
  obtain k where "sz = 2 + int k" using assms zle_iff_zadd by blast
  then have k: "nat sz - 1 = Suc k" "nat (sz - 1) - 1 = k" by simp_all
  have "sget_word c (sz - 1) cs = (c # take k (takeWhile isgraph cs), drop (Suc (min (length (takeWhile isgraph cs)) k)) cs)"
    using sget_word_eq [of "sz - 1" c cs, unfolded k] assms by simp
  then show ?thesis unfolding sget_token_def Cons Let_def k using c by simp
qed

theorem sget_token_spec_witness:
  "sget_token 4 '' abcdef g'' = Some (''abc'', ''ef g'')"
  using sget_token_spec [of 4 "'' abcdef g''"] by (simp add: isgraph_def Let_def)

section \<open>Minor numbers\<close>

lemma only_digits_show: "only_digits (show_nat n)"
proof -
  have "takeWhile isdigit (show_nat n) = show_nat n" "dropWhile isdigit (show_nat n) = []"
    using show_nat_digits by (auto simp: takeWhile_eq_all_conv dropWhile_eq_Nil_conv)
  then show ?thesis by (simp only: only_digits_def) simp
qed

lemma not_only_digits_dev: "\<not> only_digits (''/dev/drbd'' @ s)"
  by (simp add: only_digits_def isdigit_def)

text \<open>
  \<^verbatim>\<open>dt_minor_of_dev\<close> of \<^verbatim>\<open>/dev/drbdN\<close> and of plain \<^verbatim>\<open>N\<close> is \<open>N\<close> for every
  \<open>N\<close> below \<open>2^31\<close>, without looking at the file system; larger numbers are cut to 32 bits,
  so that \<^verbatim>\<open>/dev/drbd4294967297\<close> names minor 1.
\<close>

theorem dt_minor_of_dev_spec:
  assumes "n < 2 ^ 63"
  shows "dt_minor_of_dev M st (''/dev/drbd'' @ show_nat n) = signed_take_bit 31 (int n)
    \<and> dt_minor_of_dev M st (show_nat n) = signed_take_bit 31 (int n)
    \<and> (n < 2 ^ 31 \<longrightarrow> signed_take_bit 31 (int n) = int n)"
proof -
  have "strtol 10 (show_nat n) = (int n, [], False)" using strtol_dec [of "[]" 10 n] assms by simp
  then show ?thesis
    using not_only_digits_dev [of "show_nat n"] only_digits_show [of n]
    by (simp add: dt_minor_of_dev_def Let_def long_to_int_def signed_take_bit_int_eq_self)
qed

theorem dt_minor_of_dev_spec_witness:
  "dt_minor_of_dev 147 (\<lambda>_. None) (''/dev/drbd'' @ show_nat 4294967297) = 1"
proof -
  have "signed_take_bit 31 (4294967297::int) = 1" by (simp add: signed_take_bit_eq_take_bit_shift take_bit_eq_mod)
  then show ?thesis using dt_minor_of_dev_spec [of 4294967297 147 "\<lambda>_. None"] by simp
qed

section \<open>Addresses\<close>

text \<open>\<^verbatim>\<open>inet_pton\<close> fills a structure of 4 or 16 bytes.\<close>

definition inet_ok :: "inet \<Rightarrow> bool" where
  "inet_ok N \<longleftrightarrow> (\<forall>s a. pton4 N s = Some a \<longrightarrow> length a = 4) \<and> (\<forall>s a. pton6 N s = Some a \<longrightarrow> length a = 16)"

lemma load_inj: "\<lbrakk>length a = 4; length b = 4\<rbrakk> \<Longrightarrow> (load h a :: u32) = load h b \<longleftrightarrow> a = b"
proof -
  assume "length a = 4" "length b = 4"
  then have "store h 4 (load h a :: u32) = a" "store h 4 (load h b :: u32) = b"
    using store_load [where 'a = 32, of a h] store_load [where 'a = 32, of b h] by simp_all
  then show ?thesis by metis
qed

lemma ipv4_match: "inet_ok N \<Longrightarrow> ipv4_addresses_match N h x y \<longleftrightarrow> pton4 N x \<noteq> None \<and> pton4 N x = pton4 N y"
  by (auto simp: ipv4_addresses_match_def inet_ok_def load_inj split: option.splits)

lemma ipv6_match: "ipv6_addresses_match N x y \<longleftrightarrow> pton6 N x \<noteq> None \<and> pton6 N x = pton6 N y"
  by (auto simp: ipv6_addresses_match_def split: option.splits)

lemma ipv4_not_ipv6: "\<not> (strcasecmp_eq f ''ipv4'' \<and> strcasecmp_eq f ''ipv6'')"
proof -
  have "map tolower ''ipv4'' \<noteq> map tolower ''ipv6''" by (simp add: tolower_def)
  then show ?thesis unfolding strcasecmp_eq_def by metis
qed

text \<open>What is compared: the address for the IP families, otherwise the texts.\<close>

definition address_key :: "inet \<Rightarrow> string \<Rightarrow> string \<Rightarrow> (nat \<times> string \<times> string \<times> bytes) option" where
  "address_key N f a =
    (if strcasecmp_eq f ''ipv4'' then map_option (\<lambda>b. (4, [], [], b)) (pton4 N a)
     else if strcasecmp_eq f ''ipv6'' then map_option (\<lambda>b. (6, [], [], b)) (pton6 N a)
     else Some (0, f, a, []))"

lemma addresses_match_key:
  assumes "inet_ok N"
  shows "addresses_match N h f1 a1 f2 a2 \<longleftrightarrow> address_key N f1 a1 \<noteq> None \<and> address_key N f1 a1 = address_key N f2 a2"
proof -
  note defs = addresses_match_def address_key_def ipv4_match [OF assms] ipv6_match
  note no46 = ipv4_not_ipv6 [of f1] ipv4_not_ipv6 [of f2]
  consider "strcasecmp_eq f1 ''ipv4''" | "strcasecmp_eq f1 ''ipv6''" | "\<not> strcasecmp_eq f1 ''ipv4''" "\<not> strcasecmp_eq f1 ''ipv6''"
    by blast
  then show ?thesis
  proof cases
    case 1
    with no46 show ?thesis unfolding defs
      by (cases "strcasecmp_eq f2 ''ipv4''"; cases "pton4 N a1"; cases "pton4 N a2"; cases "pton6 N a2") auto
  next
    case 2
    with no46 show ?thesis unfolding defs
      by (cases "strcasecmp_eq f2 ''ipv6''"; cases "pton6 N a1"; cases "pton4 N a2"; cases "pton6 N a2") auto
  next
    case 3
    with no46 show ?thesis unfolding defs
      by (cases "strcasecmp_eq f2 ''ipv4''"; cases "strcasecmp_eq f2 ''ipv6''"; cases "pton4 N a2"; cases "pton6 N a2") auto
  qed
qed

text \<open>
  \<^verbatim>\<open>addresses_match\<close> is symmetric and transitive on all texts, does not depend on the
  byte order of the host, and for two addresses of the same IP family compares the addresses
  and not their spelling; a text that is no address of its family matches nothing.
\<close>

theorem addresses_match_equivalence:
  assumes "inet_ok N"
  shows "(addresses_match N h f1 a1 f2 a2 \<longleftrightarrow> addresses_match N h' f2 a2 f1 a1)
    \<and> (addresses_match N h f1 a1 f2 a2 \<and> addresses_match N h f2 a2 f3 a3 \<longrightarrow> addresses_match N h f1 a1 f3 a3)
    \<and> (strcasecmp_eq f1 ''ipv4'' \<and> strcasecmp_eq f2 ''ipv4'' \<longrightarrow>
        (addresses_match N h f1 a1 f2 a2 \<longleftrightarrow> pton4 N a1 \<noteq> None \<and> pton4 N a1 = pton4 N a2))"
proof -
  have "strcasecmp_eq f1 ''ipv4'' \<and> strcasecmp_eq f2 ''ipv4'' \<longrightarrow>
      (addresses_match N h f1 a1 f2 a2 \<longleftrightarrow> pton4 N a1 \<noteq> None \<and> pton4 N a1 = pton4 N a2)"
    using ipv4_match [OF assms] by (simp add: addresses_match_def)
  then show ?thesis unfolding addresses_match_key [OF assms] by (metis (no_types))
qed

definition example_inet :: inet where
  "example_inet = \<lparr>pton4 = (\<lambda>s. if s = ''10.0.0.1'' then Some [10, 0, 0, 1] else None), pton6 = (\<lambda>_. None)\<rparr>"

theorem addresses_match_equivalence_witness:
  "addresses_match example_inet LittleEndian ''ipv4'' ''10.0.0.1'' ''IPV4'' ''10.0.0.1''"
proof -
  have "inet_ok example_inet" by (auto simp: inet_ok_def example_inet_def split: if_splits)
  moreover have "strcasecmp_eq ''ipv4'' ''ipv4''" "strcasecmp_eq ''IPV4'' ''ipv4''"
    by (simp_all add: strcasecmp_eq_def tolower_def char_of_def bit_iff_odd)
  moreover have "pton4 example_inet ''10.0.0.1'' \<noteq> None" by (simp add: example_inet_def)
  ultimately show ?thesis
    using addresses_match_equivalence [of example_inet LittleEndian "''ipv4''" "''10.0.0.1''" "''IPV4''" "''10.0.0.1''" LittleEndian]
    by blast
qed

section \<open>The hex dump shows the whole buffer\<close>

text \<open>
  How a reader restores the buffer: repeated lines are filled in from the line before, up to
  the offset of the next line.
\<close>

fun undump :: "nat \<Rightarrow> bytes \<Rightarrow> hex_line list \<Rightarrow> bytes" where
  "undump off prev [] = []"
| "undump off prev (HexSkip # ls) = undump off prev ls"
| "undump off prev (HexBytes p bs # ls) =
    concat (replicate ((p - off) div 16) prev) @ bs @ undump (p + length bs) bs ls"
| "undump off prev (HexEnd p # ls) = concat (replicate ((p - off) div 16) prev)"

lemma concat_replicate_Suc: "concat (replicate (Suc k) p) = concat (replicate k p) @ p"
  by (induction k) simp_all

lemma undump_loop:
  assumes "prev = Some p" and "length p = 16"
  shows "undump off p (fprintf_hex_loop (off + 16 * k) prev skipped buf) = concat (replicate k p) @ buf"
  using assms
proof (induction "length buf" arbitrary: buf off p k prev skipped rule: less_induct)
  case less
  show ?case
  proof (cases "16 < length buf")
    case False
    show ?thesis
    proof (cases "buf = []")
      case True
      then show ?thesis by (simp add: fprintf_hex_loop.simps)
    next
      case False
      then show ?thesis using \<open>\<not> 16 < length buf\<close> by (simp add: fprintf_hex_loop.simps [of _ _ _ buf])
    qed
  next
    case True
    let ?c = "take 16 buf" and ?rest = "drop 16 buf"
    have len: "length ?rest < length buf" "length ?c = 16" using True by simp_all
    show ?thesis
    proof (cases "prev = Some ?c")
      case same: True
      then have p: "p = ?c" using less.prems by simp
      have "undump off p (fprintf_hex_loop (off + 16 * Suc k) (Some p) True ?rest) = concat (replicate (Suc k) p) @ ?rest"
        by (rule less.hyps [OF len(1)]) (use less.prems in simp_all)
      moreover have "concat (replicate (Suc k) p) @ ?rest = concat (replicate k p) @ buf"
        unfolding concat_replicate_Suc using p by simp
      ultimately show ?thesis
        using True same p by (subst fprintf_hex_loop.simps) (simp add: add.commute add.left_commute)
    next
      case diff: False
      have "undump (off + 16 * k + 16) ?c (fprintf_hex_loop ((off + 16 * k + 16) + 16 * 0) (Some ?c) False ?rest)
          = concat (replicate 0 ?c) @ ?rest"
        by (rule less.hyps [OF len(1)]) (use len in simp_all)
      then show ?thesis using True diff len by (subst fprintf_hex_loop.simps) (simp add: Let_def)
    qed
  qed
qed

text \<open>
  The hex dump is complete: although repeated lines are left out, the printed lines and
  offsets determine every byte of the buffer.
\<close>

theorem fprintf_hex_complete:
  "undump off [] (fprintf_hex_loop off None False buf) = buf"
proof (cases "16 < length buf")
  case True
  then have "undump (off + 16) (take 16 buf) (fprintf_hex_loop (off + 16 + 16 * 0) (Some (take 16 buf)) False (drop 16 buf))
      = concat (replicate 0 (take 16 buf)) @ drop 16 buf"
    by (intro undump_loop) simp_all
  then show ?thesis using True by (subst fprintf_hex_loop.simps) (simp add: Let_def)
qed (subst fprintf_hex_loop.simps, simp)

end
