(* ===== verification/Version.thy ===== *)
theory Version
  imports Shared_Tool
begin

text \<open>
  Version strings, from \<^verbatim>\<open>user/v9/drbdtool_common.c\<close>: dotted version numbers, the build tag
  with its source revision, and which version the tools assume for the driver. The text that
  \<^verbatim>\<open>/proc/drbd\<close>, the build tag or the environment supply is an argument.
\<close>

unbundle bit_operations_syntax

definition GIT_HASH_BYTE :: nat where "GIT_HASH_BYTE = 20"
definition SRCVERSION_BYTE :: nat where "SRCVERSION_BYTE = 12"
definition SRCVERSION_PAD :: nat where "SRCVERSION_PAD = GIT_HASH_BYTE - SRCVERSION_BYTE"

record version =
  svn_revision :: u32
  git_hash :: bytes
  version_major :: u32
  version_minor :: u32
  version_sublvl :: u32
  version_code :: u32
  compat_84_present :: bool

definition zero_version :: version where
  "zero_version = \<lparr>svn_revision = 0, git_hash = replicate GIT_HASH_BYTE 0, version_major = 0,
     version_minor = 0, version_sublvl = 0, version_code = 0, compat_84_present = False\<rparr>"

section \<open>Hexadecimal hashes\<close>

text \<open>
  \<^verbatim>\<open>sscanf\<close> with \<^verbatim>\<open>%1x\<close> or \<^verbatim>\<open>%2x\<close> on text without white space; the variable keeps its
  value \<open>u\<close> when nothing is converted.
\<close>

definition sscanf_hex :: "nat \<Rightarrow> int \<Rightarrow> string \<Rightarrow> int" where
  "sscanf_hex w u s = (case scan_number 16 (take w s) of
     None \<Rightarrow> u | Some (neg, n, _) \<Rightarrow> if neg then - int n else int n)"

text \<open>What is written to the destination; \<open>n\<close> is the room left in it.\<close>

fun read_hex_loop :: "nat \<Rightarrow> int \<Rightarrow> string \<Rightarrow> bytes" where
  "read_hex_loop 0 u s = []"
| "read_hex_loop (Suc n) u [] = []"
| "read_hex_loop (Suc n) u [c] = [of_int (sscanf_hex 1 u [c] * 16)]"
| "read_hex_loop (Suc n) u (c # d # cs) =
    (let u = sscanf_hex 2 u (c # d # cs) in of_int u # read_hex_loop n u cs)"

definition read_hex :: "int \<Rightarrow> bytes \<Rightarrow> string \<Rightarrow> bytes" where
  "read_hex junk dst src = (let w = read_hex_loop (length dst) junk src in w @ drop (length w) dst)"

section \<open>Version numbers\<close>

definition version_from_str :: "version \<Rightarrow> string \<Rightarrow> version" where
  "version_from_str rel token =
    (case strtol 10 token of (maj, dot, _) \<Rightarrow>
     (case dot of
        c # cs \<Rightarrow> if c \<noteq> CHR ''.'' then rel else
          (case strtol 10 cs of (minor, dot, _) \<Rightarrow>
           (case dot of
              d # ds \<Rightarrow> if d \<noteq> CHR ''.'' then rel else
                (case strtol 10 ds of (sub, _, _) \<Rightarrow>
                   rel\<lparr>version_major := of_int maj, version_minor := of_int minor, version_sublvl := of_int sub,
                     version_code := of_int (maj * 2 ^ 16 + minor * 2 ^ 8 + sub)\<rparr>)
            | [] \<Rightarrow> rel))
      | [] \<Rightarrow> rel))"

section \<open>Build tags\<close>

datatype expect = BEGIN | F_VER | F_SVN | F_REV | F_GIT | F_SRCV

text \<open>The case \<^verbatim>\<open>BEGIN\<close> of the switch.\<close>

definition begin_token :: "string \<Rightarrow> expect" where
  "begin_token token =
    (if token = ''version:'' then F_VER
     else if token = ''SVN'' then F_SVN
     else if token = ''GIT-hash:'' then F_GIT
     else if token = ''srcversion:'' then F_SRCV
     else BEGIN)"

definition atol :: "string \<Rightarrow> int" where
  "atol s = fst (strtol 10 s)"

lemma sget_word_shorter: "length (snd (sget_word c sz t)) \<le> length t"
  by (induction c sz t rule: sget_word.induct) (auto split: prod.splits)

lemma sget_token_shorter: "sget_token sz t = Some (tok, rest) \<Longrightarrow> length rest < length t"
proof -
  assume "sget_token sz t = Some (tok, rest)"
  then obtain c cs where c: "dropWhile (\<lambda>c. \<not> isgraph c) t = c # cs" and w: "sget_word c (sz - 1) cs = (tok, rest)"
    unfolding sget_token_def by (cases "dropWhile (\<lambda>c. \<not> isgraph c) t") auto
  have "length rest \<le> length cs" using sget_word_shorter [of c "sz - 1" cs] w by simp
  moreover have "length (c # cs) \<le> length t" unfolding c [symmetric] by (rule length_dropWhile_le)
  ultimately show ?thesis by simp
qed

function parse_version_loop :: "int \<Rightarrow> expect \<Rightarrow> bool \<Rightarrow> version \<Rightarrow> string \<Rightarrow> version" where
  "parse_version_loop junk ex with_plus rel t =
    (case sget_token 80 t of
       None \<Rightarrow> rel
     | Some (token, t) \<Rightarrow> (case ex of
         BEGIN \<Rightarrow> parse_version_loop junk (begin_token token) with_plus rel t
       | F_VER \<Rightarrow>
           if token = ''plus'' then parse_version_loop junk F_VER True rel t
           else parse_version_loop junk BEGIN with_plus (version_from_str rel token) t
       | F_SVN \<Rightarrow> parse_version_loop junk (if token = ''Revision:'' then F_REV else F_SVN) with_plus rel t
       | F_REV \<Rightarrow> rel\<lparr>svn_revision := of_int (atol token * 10) + (if with_plus then 1 else 0),
             git_hash := replicate GIT_HASH_BYTE 0\<rparr>
       | F_GIT \<Rightarrow> rel\<lparr>git_hash := read_hex junk (git_hash rel) token, svn_revision := 0\<rparr>
       | F_SRCV \<Rightarrow> rel\<lparr>git_hash := replicate SRCVERSION_PAD 0
             @ read_hex junk (drop SRCVERSION_PAD (git_hash rel)) token, svn_revision := 0\<rparr>))"
  by pat_completeness auto
termination
  by (relation "measure (\<lambda>(junk, ex, with_plus, rel, t). length t)") (auto dest: sget_token_shorter)

declare parse_version_loop.simps [simp del]

definition parse_version :: "int \<Rightarrow> version \<Rightarrow> string \<Rightarrow> version" where
  "parse_version junk rel t = parse_version_loop junk BEGIN False rel t"

section \<open>Which version is in use\<close>

text \<open>
  The cached versions, and what the surroundings say: the environment variable
  \<^verbatim>\<open>DRBD_DRIVER_VERSION_OVERRIDE\<close>, the version of the running driver, the version and the
  build tag of the tools.
\<close>

record version_env =
  override :: "string option"
  kernel_driver_version :: "version option"
  PACKAGE_VERSION :: string
  drbd_buildtag :: string

datatype driver_version_policy = STRICT | FALLBACK_TO_UTILS

definition drbd_utils_version :: "version_env \<Rightarrow> int \<Rightarrow> version \<Rightarrow> version" where
  "drbd_utils_version E junk cached =
    (if version_code cached = 0
     then parse_version junk (version_from_str cached (PACKAGE_VERSION E)) (drbd_buildtag E)
     else cached)"

text \<open>The result and the new contents of the two caches, driver and tools.\<close>

definition drbd_driver_version ::
  "version_env \<Rightarrow> int \<Rightarrow> driver_version_policy \<Rightarrow> version \<times> version \<Rightarrow> version option \<times> version \<times> version" where
  "drbd_driver_version E junk fallback caches = (case caches of (driver, utils) \<Rightarrow>
     if version_code driver \<noteq> 0 then (Some driver, driver, utils)
     else
       let driver = (case override E of None \<Rightarrow> driver | Some s \<Rightarrow> version_from_str driver s) in
       if override E \<noteq> None \<and> version_code driver \<noteq> 0 then (Some driver, driver, utils)
       else case kernel_driver_version E of
           Some v \<Rightarrow> (Some v, driver, utils)
         | None \<Rightarrow>
             if fallback = FALLBACK_TO_UTILS
             then let utils = drbd_utils_version E junk utils in (Some utils, driver, utils)
             else (None, driver, utils))"

definition version_code_kernel :: "version_env \<Rightarrow> int \<Rightarrow> version \<times> version \<Rightarrow> u32" where
  "version_code_kernel E junk caches =
    (case fst (drbd_driver_version E junk STRICT caches) of Some v \<Rightarrow> version_code v | None \<Rightarrow> 0)"

definition version_code_userland :: "version_env \<Rightarrow> int \<Rightarrow> version \<times> version \<Rightarrow> u32" where
  "version_code_userland E junk caches = version_code (drbd_utils_version E junk (snd caches))"

definition version_equal :: "version \<Rightarrow> version \<Rightarrow> bool" where
  "version_equal rev1 rev2 =
    (if svn_revision rev1 \<noteq> 0 \<or> svn_revision rev2 \<noteq> 0 then svn_revision rev1 = svn_revision rev2
     else take GIT_HASH_BYTE (git_hash rev1) = take GIT_HASH_BYTE (git_hash rev2))"

section \<open>The search path\<close>

definition add_component_to_path :: "string option \<Rightarrow> string \<Rightarrow> string" where
  "add_component_to_path old path = (case old of
     None \<Rightarrow> path
   | Some p \<Rightarrow> p @ (if p \<noteq> [] \<and> last p \<noteq> CHR '':'' then '':'' else '''') @ path)"

section \<open>Version numbers read back and compare like versions\<close>

lemma strtol_10:
  "\<lbrakk>rest = [] \<or> 10 \<le> digit_value (hd rest); n < 2 ^ 63\<rbrakk> \<Longrightarrow> strtol 10 (show_nat n @ rest) = (int n, rest, False)"
  by (simp add: strtol_def scan_number_10)

lemma dot_no_digit [simp]: "10 \<le> digit_value (CHR ''.'')"
  by (simp add: digit_value_def)

lemma version_from_str_show:
  assumes "a < 2 ^ 63" "b < 2 ^ 63" "c < 2 ^ 63" and "rest = [] \<or> 10 \<le> digit_value (hd rest)"
  shows "version_from_str rel (show_nat a @ ''.'' @ show_nat b @ ''.'' @ show_nat c @ rest) =
    rel\<lparr>version_major := of_nat a, version_minor := of_nat b, version_sublvl := of_nat c,
      version_code := of_nat (a * 2 ^ 16 + b * 2 ^ 8 + c)\<rparr>"
  using assms by (simp add: version_from_str_def strtol_10)

lemma code_bound: "\<lbrakk>a < 2 ^ 16; b < 2 ^ 8; c < 2 ^ 8\<rbrakk> \<Longrightarrow> a * 2 ^ 16 + b * 2 ^ 8 + c < (2::nat) ^ 32"
  by simp

lemma code_less_iff:
  assumes "b < 2 ^ 8" "c < 2 ^ 8" "b' < 2 ^ 8" "c' < (2::nat) ^ 8"
  shows "a * 2 ^ 16 + b * 2 ^ 8 + c < a' * 2 ^ 16 + b' * 2 ^ 8 + c' \<longleftrightarrow>
    a < a' \<or> a = a' \<and> (b < b' \<or> b = b' \<and> c < c')"
  using assms by auto

text \<open>
  \<^verbatim>\<open>version_from_str\<close> reads \<open>a.b.c\<close>, also with a tag after it, into its three numbers,
  and the version codes computed from two such strings compare as unsigned numbers exactly like
  the versions do, component by component.
\<close>

theorem version_code_order:
  assumes "a < 2 ^ 16" "b < 2 ^ 8" "c < 2 ^ 8" "a' < 2 ^ 16" "b' < 2 ^ 8" "c' < 2 ^ 8"
    and "rest = [] \<or> \<not> isdigit (hd rest) \<and> 10 \<le> digit_value (hd rest)"
  shows "let v = version_from_str rel (show_nat a @ ''.'' @ show_nat b @ ''.'' @ show_nat c @ rest);
      v' = version_from_str rel' (show_nat a' @ ''.'' @ show_nat b' @ ''.'' @ show_nat c')
    in version_major v = of_nat a \<and> version_minor v = of_nat b \<and> version_sublvl v = of_nat c
    \<and> (version_code v < version_code v' \<longleftrightarrow> a < a' \<or> a = a' \<and> (b < b' \<or> b = b' \<and> c < c'))"
proof -
  define v where "v = version_from_str rel (show_nat a @ ''.'' @ show_nat b @ ''.'' @ show_nat c @ rest)"
  define v' where "v' = version_from_str rel' (show_nat a' @ ''.'' @ show_nat b' @ ''.'' @ show_nat c')"
  have v: "v = rel\<lparr>version_major := of_nat a, version_minor := of_nat b, version_sublvl := of_nat c,
      version_code := of_nat (a * 2 ^ 16 + b * 2 ^ 8 + c)\<rparr>"
    unfolding v_def by (rule version_from_str_show) (use assms in auto)
  have v': "v' = rel'\<lparr>version_major := of_nat a', version_minor := of_nat b', version_sublvl := of_nat c',
      version_code := of_nat (a' * 2 ^ 16 + b' * 2 ^ 8 + c')\<rparr>"
    unfolding v'_def using version_from_str_show [of a' b' c' "[]" rel'] assms by simp
  have "version_code v < version_code v' \<longleftrightarrow> a * 2 ^ 16 + b * 2 ^ 8 + c < a' * 2 ^ 16 + b' * 2 ^ 8 + c'"
  proof -
    have "version_code v = of_nat (a * 2 ^ 16 + b * 2 ^ 8 + c)" "version_code v' = of_nat (a' * 2 ^ 16 + b' * 2 ^ 8 + c')"
      by (simp_all add: v v')
    then show ?thesis unfolding word_less_nat_alt
      by (simp only: unat_of_nat_u32 [OF code_bound [OF assms(1-3)]] unat_of_nat_u32 [OF code_bound [OF assms(4-6)]])
  qed
  then have "version_major v = of_nat a \<and> version_minor v = of_nat b \<and> version_sublvl v = of_nat c
      \<and> (version_code v < version_code v' \<longleftrightarrow> a < a' \<or> a = a' \<and> (b < b' \<or> b = b' \<and> c < c'))"
    using code_less_iff [OF assms(2,3,5,6)] by (simp add: v)
  then show ?thesis unfolding v_def v'_def Let_def .
qed

theorem version_code_order_witness:
  "version_code (version_from_str zero_version (show_nat 9 @ ''.'' @ show_nat 0 @ ''.'' @ show_nat 27 @ ''-1''))
    < version_code (version_from_str zero_version (show_nat 9 @ ''.'' @ show_nat 1 @ ''.'' @ show_nat 4))"
proof -
  have "''-1'' = [] \<or> \<not> isdigit (hd ''-1'') \<and> 10 \<le> digit_value (hd ''-1'')"
    by (simp add: isdigit_def digit_value_def)
  from version_code_order [OF _ _ _ _ _ _ this, of 9 0 27 9 1 4 zero_version zero_version] show ?thesis by (simp add: Let_def)
qed

section \<open>Build tags\<close>

lemma sget_token_word:
  assumes "w \<noteq> []" and "list_all isgraph w" and "\<not> isgraph sep" and "int (length w) < sz"
  shows "sget_token sz (w @ sep # t) = Some (w, t)"
proof -
  obtain c cs where w: "w = c # cs" using assms(1) by (cases w) auto
  have tw: "takeWhile isgraph (cs @ sep # t) = cs" 
    using assms w by (auto simp: takeWhile_append list_all_iff)
  have "1 \<le> sz - 1" "length cs \<le> nat (sz - 1) - 1" using assms(4) w by auto
  then have "sget_word c (sz - 1) (cs @ sep # t) = (c # cs, t)"
    using sget_word_eq [of "sz - 1" c "cs @ sep # t"] by (simp add: tw)
  moreover have "isgraph c" using assms(2) w by simp
  ultimately show ?thesis by (simp add: sget_token_def w)
qed

definition hex_of_bytes :: "bytes \<Rightarrow> string" where
  "hex_of_bytes bs = concat (map (\<lambda>b. pad_zero 2 (show_base False 16 (unat b))) bs)"

lemma hex_byte_two: "length (pad_zero 2 (show_base False 16 (unat (b::u8)))) = 2"
proof -
  have "length (show_base False 16 (unat b)) \<le> 2"
    by (rule length_show_base) (use unat_less [of b] in simp_all)
  then show ?thesis by (simp add: pad_zero_def)
qed

lemma sscanf_hex_byte:
  assumes "pad_zero 2 (show_base False 16 (unat b)) = [c, d]"
  shows "sscanf_hex 2 u (c # d # cs) = int (unat b)"
proof -
  have "\<forall>x\<in>set [c, d]. digit_value x < 16"
    unfolding assms [symmetric] by (intro pad_zero_digits show_base_digits) simp_all
  then have "scan_number 16 ([c, d] @ []) = Some (False, foldl (\<lambda>a c. a * 16 + digit_value c) 0 [c, d], [])"
    by (intro scan_number_digits) simp_all
  moreover have "foldl (\<lambda>a c. a * 16 + digit_value c) 0 [c, d] = unat b"
    unfolding assms [symmetric] pad_zero_value by (rule show_base_value) simp_all
  ultimately show ?thesis by (simp add: sscanf_hex_def)
qed

lemma read_hex_loop_bytes: "length bs \<le> n \<Longrightarrow> read_hex_loop n u (hex_of_bytes bs) = bs"
proof (induction bs arbitrary: n u)
  case Nil
  then show ?case by (cases n) (simp_all add: hex_of_bytes_def)
next
  case (Cons b bs)
  obtain c d where cd: "pad_zero 2 (show_base False 16 (unat b)) = [c, d]"
    using hex_byte_two [of b] by (metis (no_types) length_0_conv length_Suc_conv numeral_2_eq_2)
  obtain m where "n = Suc m" "length bs \<le> m" using Cons.prems by (cases n) auto
  with Cons.IH show ?case
    by (simp add: hex_of_bytes_def cd sscanf_hex_byte [OF cd])
qed

lemma hex_of_bytes_graph: "list_all isgraph (hex_of_bytes bs)"
proof -
  have "isgraph c" if "digit_value c < 16" for c
    using that by (auto simp: isgraph_def digit_value_def Let_def split: if_splits)
  moreover have "\<forall>c\<in>set (pad_zero 2 (show_base False 16 n)). digit_value c < 16" for n
    by (intro pad_zero_digits show_base_digits) simp_all
  ultimately show ?thesis by (auto simp: list_all_iff hex_of_bytes_def)
qed

lemma length_hex_of_bytes [simp]: "length (hex_of_bytes bs) = 2 * length bs"
  by (induction bs) (simp_all add: hex_of_bytes_def hex_byte_two)

text \<open>
  The build tag that names a version and a commit: \<^verbatim>\<open>parse_version\<close> reads the version
  number and all 20 bytes of the commit hash, clears the Subversion revision, and does not look
  at what follows; what the uninitialised variable of \<^verbatim>\<open>read_hex\<close> held does not matter.
\<close>

theorem parse_version_buildtag:
  assumes "a < 2 ^ 63" "b < 2 ^ 63" "c < 2 ^ 63" and "length hash = GIT_HASH_BYTE" and "length (git_hash rel) = GIT_HASH_BYTE"
    and "length (show_nat a @ ''.'' @ show_nat b @ ''.'' @ show_nat c) < 80"
  shows "parse_version junk rel
      (''version: '' @ show_nat a @ ''.'' @ show_nat b @ ''.'' @ show_nat c @ CHR 0x0A # ''GIT-hash: '' @ hex_of_bytes hash @ '' '' @ tail)
    = rel\<lparr>version_major := of_nat a, version_minor := of_nat b, version_sublvl := of_nat c,
        version_code := of_nat (a * 2 ^ 16 + b * 2 ^ 8 + c), git_hash := hash, svn_revision := 0\<rparr>"
proof -
  let ?v = "show_nat a @ ''.'' @ show_nat b @ ''.'' @ show_nat c"
  let ?rel = "rel\<lparr>version_major := of_nat a, version_minor := of_nat b, version_sublvl := of_nat c,
      version_code := of_nat (a * 2 ^ 16 + b * 2 ^ 8 + c)\<rparr>"
  have dig: "isdigit x \<Longrightarrow> isgraph x" for x by (simp add: isdigit_def isgraph_def)
  have "list_all isgraph ?v"
    using show_nat_digits dig by (auto simp: list_all_iff isgraph_def [of "CHR ''.''"])
  then have s2: "sget_token 80 (?v @ CHR 0x0A # t) = Some (?v, t)" for t
    by (rule sget_token_word [rotated]) (use assms(6) in \<open>simp_all add: isgraph_def\<close>)
  have s1: "sget_token 80 (''version:'' @ CHR '' '' # t) = Some (''version:'', t)"
    and s3: "sget_token 80 (''GIT-hash:'' @ CHR '' '' # t) = Some (''GIT-hash:'', t)" for t
    by (rule sget_token_word; simp add: isgraph_def)+
  have s4: "sget_token 80 (hex_of_bytes hash @ CHR '' '' # tail) = Some (hex_of_bytes hash, tail)"
    by (rule sget_token_word)
      (use assms(4) hex_of_bytes_graph in \<open>auto simp: GIT_HASH_BYTE_def isgraph_def dest: arg_cong [of _ _ length]\<close>)
  have bt: "begin_token ''GIT-hash:'' = F_GIT" "begin_token ''version:'' = F_VER" by (simp_all add: begin_token_def)
  have np: "?v \<noteq> ''plus''"
    using show_nat_digits [of "hd (show_nat a)" a] by (cases "show_nat a") (auto simp: isdigit_def)
  have vs: "version_from_str rel ?v = ?rel" using version_from_str_show [of a b c "[]" rel] assms by simp
  have "read_hex junk (git_hash rel) (hex_of_bytes hash) = hash"
    using assms by (simp add: read_hex_def read_hex_loop_bytes)
  then have 4: "parse_version_loop junk F_GIT False ?rel (hex_of_bytes hash @ CHR '' '' # tail)
      = ?rel\<lparr>git_hash := hash, svn_revision := 0\<rparr>"
    by (subst parse_version_loop.simps) (simp add: s4)
  have 3: "parse_version_loop junk BEGIN False ?rel (''GIT-hash:'' @ CHR '' '' # hex_of_bytes hash @ CHR '' '' # tail)
      = ?rel\<lparr>git_hash := hash, svn_revision := 0\<rparr>"
    by (subst parse_version_loop.simps) (simp only: s3 option.case prod.case expect.case bt 4)
  have 2: "parse_version_loop junk F_VER False rel (?v @ CHR 0x0A # ''GIT-hash:'' @ CHR '' '' # hex_of_bytes hash @ CHR '' '' # tail)
      = ?rel\<lparr>git_hash := hash, svn_revision := 0\<rparr>"
    by (subst parse_version_loop.simps)
      (use np in \<open>simp only: s2 option.case prod.case expect.case if_False vs 3\<close>)
  have "parse_version_loop junk BEGIN False rel (''version:'' @ CHR '' '' # ?v @ CHR 0x0A # ''GIT-hash:'' @ CHR '' '' # hex_of_bytes hash @ CHR '' '' # tail)
      = ?rel\<lparr>git_hash := hash, svn_revision := 0\<rparr>"
    by (subst parse_version_loop.simps) (simp only: s1 option.case prod.case expect.case bt 2)
  then show ?thesis by (simp add: parse_version_def)
qed

theorem parse_version_buildtag_witness:
  "version_code (parse_version 0 zero_version
      (''version: '' @ show_nat 9 @ ''.'' @ show_nat 2 @ ''.'' @ show_nat 1 @ CHR 0x0A # ''GIT-hash: '' @ hex_of_bytes (replicate 20 0xab) @ '' '' @ ''build by x''))
    = 590337"
proof -
  have "length (show_nat 9 @ ''.'' @ show_nat 2 @ ''.'' @ show_nat 1) < 80"
    using length_show_base [of 10 9 1 False] length_show_base [of 10 2 1 False] length_show_base [of 10 1 1 False]
    by (simp add: show_nat_def)
  from parse_version_buildtag [OF _ _ _ _ _ this, of "replicate 20 0xab" zero_version 0 "''build by x''"]
  show ?thesis by (simp add: GIT_HASH_BYTE_def zero_version_def)
qed

end
