(* ===== verification/Md_Types.thy ===== *)
theory Md_Types
  imports Memory
begin

text \<open>
  The data of \<^verbatim>\<open>drbdmeta\<close>: the enumerations and structures of
  \<^verbatim>\<open>user/shared/drbdmeta.h\<close>, the constants of \<^verbatim>\<open>user/shared/drbdmeta.c\<close>, and the
  interface headers. The headers are a git submodule that is not part of the repository, so
  every constant and structure layout that comes from them is a member of the record
  \<open>headers\<close>, an argument of the definitions that use it; \<open>headers_ok\<close> collects
  what the code relies on.
\<close>

unbundle bit_operations_syntax

section \<open>Enumerations\<close>

datatype md_format = DRBD_V06 | DRBD_V07 | DRBD_V08 | DRBD_V09 | DRBD_UNKNOWN

datatype md_open_rc = VALID_MD_FOUND | NO_VALID_MD_FOUND | VALID_MD_FOUND_AT_LAST_KNOWN_LOCATION

text \<open>Indices of the generation counters of v06 and v07 meta data.\<close>

definition Flags :: nat where [simp]: "Flags = 0"
definition HumanCnt :: nat where [simp]: "HumanCnt = 1"
definition TimeoutCnt :: nat where [simp]: "TimeoutCnt = 2"
definition ConnectedCnt :: nat where [simp]: "ConnectedCnt = 3"
definition ArbitraryCnt :: nat where [simp]: "ArbitraryCnt = 4"

definition GEN_CNT_SIZE :: nat where "GEN_CNT_SIZE = 5"

section \<open>Signed 32 bit members\<close>

text \<open>\<^verbatim>\<open>int32_t\<close> members keep their bits; comparisons read them as signed.\<close>

type_synonym s32 = "32 word"

section \<open>Meta data in memory\<close>

record peer_md_cpu =
  bitmap_uuid :: u64
  bitmap_dagtag :: u64
  peer_flags :: u32
  bitmap_index :: s32

record md_cpu =
  gc :: "u32 list"
  magic :: u32
  effective_size :: u64
  md_size_sect :: u32
  al_offset :: s32
  al_nr_extents :: u32
  bm_offset :: s32
  current_uuid :: u64
  history_uuids :: "u64 list"
  flags :: u32
  device_uuid :: u64
  bm_bytes_per_bit :: u32
  la_peer_max_bio_size :: u32
  max_peers :: u32
  node_id :: s32
  peers :: "peer_md_cpu list"
  al_stripes :: u32
  al_stripe_size_4k :: u32
  members :: u64

section \<open>The v09 super block as the code accesses it\<close>

record peer_dev_md_on_disk_9 =
  d9p_bitmap_uuid :: u64
  d9p_bitmap_dagtag :: u64
  d9p_flags :: u32
  d9p_bitmap_index :: u32

record meta_data_on_disk_9 =
  d9_effective_size :: u64
  d9_current_uuid :: u64
  d9_members :: u64
  d9_device_uuid :: u64
  d9_magic :: u32
  d9_flags :: u32
  d9_md_size_sect :: u32
  d9_al_offset :: u32
  d9_al_nr_extents :: u32
  d9_bm_offset :: u32
  d9_bm_bytes_per_bit :: u32
  d9_la_peer_max_bio_size :: u32
  d9_bm_max_peers :: u32
  d9_node_id :: u32
  d9_al_stripes :: u32
  d9_al_stripe_size_4k :: u32
  d9_peers :: "peer_dev_md_on_disk_9 list"
  d9_history_uuids :: "u64 list"

section \<open>An activity log transaction as the code accesses it\<close>

record al_transaction_on_disk =
  da_magic :: u32
  da_tr_number :: u32
  da_crc32c :: u32
  da_transaction_type :: u16
  da_n_updates :: u16
  da_context_size :: u16
  da_context_start_slot_nr :: u16
  da_reserved :: "u32 list"
  da_update_slot_nr :: "u16 list"
  da_update_extent_nr :: "u32 list"
  da_context :: "u32 list"

section \<open>The interface headers\<close>

record headers =
  DRBD_MAGIC :: u32
  DRBD_AL_MAGIC :: u32
  DRBD_AL_PMEM_MAGIC :: u32
  DRBD_PEERS_MAX :: nat
  DRBD_NODE_ID_MAX :: nat
  HISTORY_UUIDS :: nat
  HISTORY_UUIDS_V08 :: nat
  UI_CURRENT :: nat
  UI_BITMAP :: nat
  UI_HISTORY_START :: nat
  UI_HISTORY_END :: nat
  UI_SIZE :: nat
  UUID_JUST_CREATED :: u64
  DRBD_MD_INDEX_INTERNAL :: int
  DRBD_MD_INDEX_FLEX_EXT :: int
  DRBD_MD_INDEX_FLEX_INT :: int
  MDF_CONSISTENT :: u32
  MDF_PRIMARY_IND :: u32
  MDF_WAS_UP_TO_DATE :: u32
  MDF_CRASHED_PRIMARY :: u32
  MDF_AL_CLEAN :: u32
  MDF_AL_DISABLED :: u32
  MDF_PEER_CONNECTED :: u32
  MDF_PEER_OUTDATED :: u32
  MDF_PEER_FENCING :: u32
  MDF_PEER_FULL_SYNC :: u32
  MDF_PEER_DEVICE_SEEN :: u32
  MDF_NODE_EXISTS :: u32
  MDF_PRIMARY_LOST_QUORUM :: u32
  BM_BLOCK_SIZE_4k :: u32
  BM_BLOCK_SIZE_MIN :: u32
  BM_BLOCK_SIZE_MAX :: u32
  AL_UPDATES_PER_TRANSACTION :: nat
  AL_CONTEXT_PER_TRANSACTION :: nat
  AL_TR_UPDATE :: u16
  AL_TR_INITIALIZED :: u16
  get_md_9 :: "host \<Rightarrow> bytes \<Rightarrow> meta_data_on_disk_9"
  put_md_9 :: "host \<Rightarrow> meta_data_on_disk_9 \<Rightarrow> bytes"
  get_al :: "host \<Rightarrow> bytes \<Rightarrow> al_transaction_on_disk"
  put_al :: "host \<Rightarrow> al_transaction_on_disk \<Rightarrow> bytes"
  al_on_pmem_magic :: "host \<Rightarrow> bytes \<Rightarrow> u32"
  al_on_pmem_slot :: "host \<Rightarrow> bytes \<Rightarrow> nat \<Rightarrow> u32"

text \<open>
  What the sources rely on: the array sizes they index with literal bounds, the distinctness
  of the special indices (all negative), the powers of two, and that reading a v09 super
  block structure from memory is the inverse of writing it.
\<close>

definition wf_md_9 :: "headers \<Rightarrow> meta_data_on_disk_9 \<Rightarrow> bool" where
  "wf_md_9 H d \<longleftrightarrow> length (d9_peers d) = DRBD_NODE_ID_MAX H \<and>
     length (d9_history_uuids d) = HISTORY_UUIDS H"

definition array_sizes_ok :: "headers \<Rightarrow> bool" where
  "array_sizes_ok H \<longleftrightarrow> DRBD_PEERS_MAX H = 32 \<and> DRBD_NODE_ID_MAX H = 32 \<and> HISTORY_UUIDS H = 32 \<and>
     HISTORY_UUIDS_V08 H = 2 \<and> UI_CURRENT H = 0 \<and> UI_BITMAP H = 1 \<and> UI_HISTORY_START H = 2 \<and>
     UI_HISTORY_END H = 3 \<and> UI_SIZE H = 4"

definition md_indices_ok :: "headers \<Rightarrow> bool" where
  "md_indices_ok H \<longleftrightarrow> DRBD_MD_INDEX_INTERNAL H = -1 \<and> DRBD_MD_INDEX_FLEX_EXT H = -2 \<and>
     DRBD_MD_INDEX_FLEX_INT H = -3"

definition block_sizes_ok :: "headers \<Rightarrow> bool" where
  "block_sizes_ok H \<longleftrightarrow> BM_BLOCK_SIZE_4k H = 4096 \<and> BM_BLOCK_SIZE_MIN H = 4096 \<and>
     BM_BLOCK_SIZE_MAX H = 1048576"

definition layout_9_ok :: "headers \<Rightarrow> bool" where
  "layout_9_ok H \<longleftrightarrow> (\<forall>h d. wf_md_9 H d \<longrightarrow> get_md_9 H h (put_md_9 H h d) = d) \<and>
     (\<forall>h d. length (put_md_9 H h d) = 4096)"

text \<open>
  A transaction is a packed structure that fills a 4 KiB block: reading it from memory and
  writing it to memory are inverse, and the all-zero structure is the all-zero block.
\<close>

definition wf_al :: "headers \<Rightarrow> al_transaction_on_disk \<Rightarrow> bool" where
  "wf_al H d \<longleftrightarrow> length (da_reserved d) = 4 \<and>
     length (da_update_slot_nr d) = AL_UPDATES_PER_TRANSACTION H \<and>
     length (da_update_extent_nr d) = AL_UPDATES_PER_TRANSACTION H \<and>
     length (da_context d) = AL_CONTEXT_PER_TRANSACTION H"

definition zero_al :: "headers \<Rightarrow> al_transaction_on_disk" where
  "zero_al H = \<lparr>da_magic = 0, da_tr_number = 0, da_crc32c = 0, da_transaction_type = 0,
     da_n_updates = 0, da_context_size = 0, da_context_start_slot_nr = 0,
     da_reserved = replicate 4 0,
     da_update_slot_nr = replicate (AL_UPDATES_PER_TRANSACTION H) 0,
     da_update_extent_nr = replicate (AL_UPDATES_PER_TRANSACTION H) 0,
     da_context = replicate (AL_CONTEXT_PER_TRANSACTION H) 0\<rparr>"

definition layout_al_ok :: "headers \<Rightarrow> bool" where
  "layout_al_ok H \<longleftrightarrow> AL_UPDATES_PER_TRANSACTION H = 64 \<and> AL_CONTEXT_PER_TRANSACTION H = 919 \<and>
     (\<forall>h d. wf_al H d \<longrightarrow> get_al H h (put_al H h d) = d \<and> length (put_al H h d) = 4096) \<and>
     (\<forall>h bs. wf_al H (get_al H h bs)) \<and>
     (\<forall>h bs. length bs = 4096 \<longrightarrow> put_al H h (get_al H h bs) = bs) \<and>
     (\<forall>h. put_al H h (zero_al H) = replicate 4096 0)"

section \<open>Constants of the program\<close>

definition MD_AL_OFFSET_07 :: nat where "MD_AL_OFFSET_07 = 8"
definition MD_AL_MAX_SECT_07 :: nat where "MD_AL_MAX_SECT_07 = 64"
definition MD_BM_OFFSET_07 :: nat where "MD_BM_OFFSET_07 = MD_AL_OFFSET_07 + MD_AL_MAX_SECT_07"
definition MD_RESERVED_SECT_07 :: u64 where "MD_RESERVED_SECT_07 = push_bit 11 128"
definition MD_BM_MAX_BYTE_07 :: u64 where
  "MD_BM_MAX_BYTE_07 = (MD_RESERVED_SECT_07 - of_nat MD_BM_OFFSET_07) * 512"
definition MD_BM_MAX_BYTE_FLEX :: u64 where "MD_BM_MAX_BYTE_FLEX = push_bit (38 - 3) 1"

definition DEFAULT_BM_BLOCK_SIZE :: "headers \<Rightarrow> u32" where
  "DEFAULT_BM_BLOCK_SIZE H = BM_BLOCK_SIZE_4k H"

definition DRBD_MD_MAGIC_06 :: "headers \<Rightarrow> u32" where "DRBD_MD_MAGIC_06 H = DRBD_MAGIC H + 2"
definition DRBD_MD_MAGIC_07 :: "headers \<Rightarrow> u32" where "DRBD_MD_MAGIC_07 H = DRBD_MAGIC H + 3"
definition DRBD_MD_MAGIC_08 :: "headers \<Rightarrow> u32" where "DRBD_MD_MAGIC_08 H = DRBD_MAGIC H + 4"
definition DRBD_MD_MAGIC_84_UNCLEAN :: "headers \<Rightarrow> u32" where
  "DRBD_MD_MAGIC_84_UNCLEAN H = DRBD_MAGIC H + 5"
definition DRBD_MD_MAGIC_09 :: "headers \<Rightarrow> u32" where "DRBD_MD_MAGIC_09 H = DRBD_MAGIC H + 6"

text \<open>Flags that v08 meta data keeps in the device flags and v09 per peer.\<close>

definition MDF_CONNECTED_IND :: u32 where "MDF_CONNECTED_IND = push_bit 2 1"
definition MDF_FULL_SYNC :: u32 where "MDF_FULL_SYNC = push_bit 3 1"
definition MDF_PEER_OUT_DATED :: u32 where "MDF_PEER_OUT_DATED = push_bit 5 1"

lemmas md_magic_defs = DRBD_MD_MAGIC_06_def DRBD_MD_MAGIC_07_def DRBD_MD_MAGIC_08_def
  DRBD_MD_MAGIC_84_UNCLEAN_def DRBD_MD_MAGIC_09_def

lemma md_magics_distinct:
  "DRBD_MD_MAGIC_07 H \<noteq> DRBD_MD_MAGIC_06 H" "DRBD_MD_MAGIC_08 H \<noteq> DRBD_MD_MAGIC_07 H"
  "DRBD_MD_MAGIC_84_UNCLEAN H \<noteq> DRBD_MD_MAGIC_08 H" "DRBD_MD_MAGIC_09 H \<noteq> DRBD_MD_MAGIC_08 H"
  "DRBD_MD_MAGIC_09 H \<noteq> DRBD_MD_MAGIC_84_UNCLEAN H" "DRBD_MD_MAGIC_84_UNCLEAN H \<noteq> DRBD_MD_MAGIC_07 H"
  "DRBD_MD_MAGIC_09 H \<noteq> DRBD_MD_MAGIC_07 H"
  by (simp_all add: md_magic_defs)

section \<open>Zeroed structures\<close>

definition zero_peer :: peer_md_cpu where
  "zero_peer = \<lparr>bitmap_uuid = 0, bitmap_dagtag = 0, peer_flags = 0, bitmap_index = 0\<rparr>"

text \<open>\<^verbatim>\<open>memset(cpu, 0, sizeof(*cpu))\<close>.\<close>

definition zero_md :: "headers \<Rightarrow> md_cpu" where
  "zero_md H = \<lparr>gc = replicate GEN_CNT_SIZE 0, magic = 0, effective_size = 0, md_size_sect = 0,
     al_offset = 0, al_nr_extents = 0, bm_offset = 0, current_uuid = 0,
     history_uuids = replicate (HISTORY_UUIDS H) 0, flags = 0, device_uuid = 0,
     bm_bytes_per_bit = 0, la_peer_max_bio_size = 0, max_peers = 0, node_id = 0,
     peers = replicate (DRBD_PEERS_MAX H) zero_peer, al_stripes = 0, al_stripe_size_4k = 0,
     members = 0\<rparr>"

text \<open>The arrays of the structure have their declared sizes.\<close>

definition wf_md :: "headers \<Rightarrow> md_cpu \<Rightarrow> bool" where
  "wf_md H md \<longleftrightarrow> length (gc md) = GEN_CNT_SIZE \<and> length (history_uuids md) = HISTORY_UUIDS H \<and>
     length (peers md) = DRBD_PEERS_MAX H"

lemma wf_zero_md [simp]: "wf_md H (zero_md H)"
  by (simp add: wf_md_def zero_md_def)

section \<open>Loops that fill an array\<close>

text \<open>\<^verbatim>\<open>for (i = 0; i < n; i++) a[i] = f(i);\<close>\<close>

definition fill_array :: "nat \<Rightarrow> (nat \<Rightarrow> 'a) \<Rightarrow> 'a list \<Rightarrow> 'a list" where
  "fill_array n f xs = fold (\<lambda>i xs. xs[i := f i]) [0..<n] xs"

lemma length_fill_array [simp]: "length (fill_array n f xs) = length xs"
  by (induction n) (simp_all add: fill_array_def)

lemma nth_fill_array:
  "i < length xs \<Longrightarrow> fill_array n f xs ! i = (if i < n then f i else xs ! i)"
proof (induction n)
  case (Suc n)
  have "fill_array (Suc n) f xs = (fill_array n f xs)[n := f n]"
    by (simp add: fill_array_def)
  with Suc show ?case
    by (auto simp: nth_list_update less_Suc_eq)
qed (simp add: fill_array_def)

lemma fill_array_eq: "n \<le> length xs \<Longrightarrow> fill_array n f xs = map f [0..<n] @ drop n xs"
  by (rule nth_equalityI) (auto simp: nth_fill_array nth_append)

lemma fill_array_all: "length xs = n \<Longrightarrow> fill_array n f xs = map f [0..<n]"
  by (simp add: fill_array_eq)

lemma map_nth_upt: "length xs = n \<Longrightarrow> map (\<lambda>i. xs ! i) [0..<n] = xs"
  using map_nth [of xs] by simp

section \<open>A concrete instance of the headers\<close>

text \<open>
  The values of the published interface headers, with a packed layout of the v09 structure.
  Only the concrete examples use this instance.
\<close>

definition example_get_peer :: "host \<Rightarrow> bytes \<Rightarrow> peer_dev_md_on_disk_9 \<times> bytes" where
  "example_get_peer h bs =
    (let (u, bs) = get64 h bs; (d, bs) = get64 h bs; (f, bs) = get32 h bs; (i, bs) = get32 h bs
     in (\<lparr>d9p_bitmap_uuid = u, d9p_bitmap_dagtag = d, d9p_flags = f, d9p_bitmap_index = i\<rparr>, bs))"

definition example_put_peer :: "host \<Rightarrow> peer_dev_md_on_disk_9 \<Rightarrow> bytes" where
  "example_put_peer h p = store h 8 (d9p_bitmap_uuid p) @ store h 8 (d9p_bitmap_dagtag p)
     @ store h 4 (d9p_flags p) @ store h 4 (d9p_bitmap_index p)"

definition example_get_9 :: "host \<Rightarrow> bytes \<Rightarrow> meta_data_on_disk_9" where
  "example_get_9 h bs =
    (let (es, bs) = get64 h bs; (cu, bs) = get64 h bs; (m, bs) = get64 h bs; (du, bs) = get64 h bs;
         (mg, bs) = get32 h bs; (fl, bs) = get32 h bs; (ms, bs) = get32 h bs; (ao, bs) = get32 h bs;
         (an, bs) = get32 h bs; (bo, bs) = get32 h bs; (bb, bs) = get32 h bs; (la, bs) = get32 h bs;
         (mp, bs) = get32 h bs; (ni, bs) = get32 h bs; (st, bs) = get32 h bs; (ss, bs) = get32 h bs;
         (ps, bs) = get_array (example_get_peer h) 32 bs; (hs, bs) = get_array (get64 h) 32 bs
     in \<lparr>d9_effective_size = es, d9_current_uuid = cu, d9_members = m, d9_device_uuid = du,
         d9_magic = mg, d9_flags = fl, d9_md_size_sect = ms, d9_al_offset = ao,
         d9_al_nr_extents = an, d9_bm_offset = bo, d9_bm_bytes_per_bit = bb,
         d9_la_peer_max_bio_size = la, d9_bm_max_peers = mp, d9_node_id = ni, d9_al_stripes = st,
         d9_al_stripe_size_4k = ss, d9_peers = ps, d9_history_uuids = hs\<rparr>)"

definition example_members_9 :: "host \<Rightarrow> meta_data_on_disk_9 \<Rightarrow> bytes" where
  "example_members_9 h d = store h 8 (d9_effective_size d) @ store h 8 (d9_current_uuid d)
     @ store h 8 (d9_members d) @ store h 8 (d9_device_uuid d) @ store h 4 (d9_magic d)
     @ store h 4 (d9_flags d) @ store h 4 (d9_md_size_sect d) @ store h 4 (d9_al_offset d)
     @ store h 4 (d9_al_nr_extents d) @ store h 4 (d9_bm_offset d)
     @ store h 4 (d9_bm_bytes_per_bit d) @ store h 4 (d9_la_peer_max_bio_size d)
     @ store h 4 (d9_bm_max_peers d) @ store h 4 (d9_node_id d) @ store h 4 (d9_al_stripes d)
     @ store h 4 (d9_al_stripe_size_4k d) @ put_array (example_put_peer h) (d9_peers d)
     @ put_array (store h 8) (d9_history_uuids d)"

definition example_put_9 :: "host \<Rightarrow> meta_data_on_disk_9 \<Rightarrow> bytes" where
  "example_put_9 h d = take 4096 (example_members_9 h d @ replicate 4096 0)"

definition example_get_al :: "host \<Rightarrow> bytes \<Rightarrow> al_transaction_on_disk" where
  "example_get_al h bs =
    (let (mg, bs) = get32 h bs; (tr, bs) = get32 h bs; (cr, bs) = get32 h bs;
         (ty, bs) = get16 h bs; (nu, bs) = get16 h bs; (cs, bs) = get16 h bs; (st, bs) = get16 h bs;
         (rs, bs) = get_array (get32 h) 4 bs; (us, bs) = get_array (get16 h) 64 bs;
         (ue, bs) = get_array (get32 h) 64 bs; (cx, bs) = get_array (get32 h) 919 bs
     in \<lparr>da_magic = mg, da_tr_number = tr, da_crc32c = cr, da_transaction_type = ty,
         da_n_updates = nu, da_context_size = cs, da_context_start_slot_nr = st,
         da_reserved = rs, da_update_slot_nr = us, da_update_extent_nr = ue, da_context = cx\<rparr>)"

definition example_put_al :: "host \<Rightarrow> al_transaction_on_disk \<Rightarrow> bytes" where
  "example_put_al h d = store h 4 (da_magic d) @ store h 4 (da_tr_number d) @ store h 4 (da_crc32c d)
     @ store h 2 (da_transaction_type d) @ store h 2 (da_n_updates d)
     @ store h 2 (da_context_size d) @ store h 2 (da_context_start_slot_nr d)
     @ put_array (store h 4) (da_reserved d) @ put_array (store h 2) (da_update_slot_nr d)
     @ put_array (store h 4) (da_update_extent_nr d) @ put_array (store h 4) (da_context d)"

definition example_headers :: headers where
  "example_headers = \<lparr>DRBD_MAGIC = 0x83740267, DRBD_AL_MAGIC = 0x69cb65a2,
     DRBD_AL_PMEM_MAGIC = 0x6aad6b74, DRBD_PEERS_MAX = 32, DRBD_NODE_ID_MAX = 32,
     HISTORY_UUIDS = 32, HISTORY_UUIDS_V08 = 2, UI_CURRENT = 0, UI_BITMAP = 1,
     UI_HISTORY_START = 2, UI_HISTORY_END = 3, UI_SIZE = 4, UUID_JUST_CREATED = 4,
     DRBD_MD_INDEX_INTERNAL = -1, DRBD_MD_INDEX_FLEX_EXT = -2, DRBD_MD_INDEX_FLEX_INT = -3,
     MDF_CONSISTENT = 1, MDF_PRIMARY_IND = 2, MDF_WAS_UP_TO_DATE = 16, MDF_CRASHED_PRIMARY = 64,
     MDF_AL_CLEAN = 128, MDF_AL_DISABLED = 256, MDF_PEER_CONNECTED = 1, MDF_PEER_OUTDATED = 2,
     MDF_PEER_FENCING = 4, MDF_PEER_FULL_SYNC = 8, MDF_PEER_DEVICE_SEEN = 16,
     MDF_NODE_EXISTS = 65536, MDF_PRIMARY_LOST_QUORUM = 512, BM_BLOCK_SIZE_4k = 4096,
     BM_BLOCK_SIZE_MIN = 4096, BM_BLOCK_SIZE_MAX = 1048576, AL_UPDATES_PER_TRANSACTION = 64,
     AL_CONTEXT_PER_TRANSACTION = 919, AL_TR_UPDATE = 0, AL_TR_INITIALIZED = 0xffff,
     get_md_9 = example_get_9, put_md_9 = example_put_9, get_al = example_get_al,
     put_al = example_put_al, al_on_pmem_magic = (\<lambda>h bs. fst (get32 h bs)),
     al_on_pmem_slot = (\<lambda>h bs i. fst (get32 h (drop (4096 + 4 * i) bs)))\<rparr>"

lemma example_headers_simps [simp]:
  "DRBD_MAGIC example_headers = 0x83740267"
  "DRBD_AL_MAGIC example_headers = 0x69cb65a2"
  "DRBD_AL_PMEM_MAGIC example_headers = 0x6aad6b74"
  "DRBD_PEERS_MAX example_headers = 32"
  "DRBD_NODE_ID_MAX example_headers = 32"
  "HISTORY_UUIDS example_headers = 32"
  "HISTORY_UUIDS_V08 example_headers = 2"
  "UI_CURRENT example_headers = 0"
  "UI_BITMAP example_headers = 1"
  "UI_HISTORY_START example_headers = 2"
  "UI_HISTORY_END example_headers = 3"
  "UI_SIZE example_headers = 4"
  "UUID_JUST_CREATED example_headers = 4"
  "DRBD_MD_INDEX_INTERNAL example_headers = -1"
  "DRBD_MD_INDEX_FLEX_EXT example_headers = -2"
  "DRBD_MD_INDEX_FLEX_INT example_headers = -3"
  "MDF_CONSISTENT example_headers = 1"
  "MDF_PRIMARY_IND example_headers = 2"
  "MDF_WAS_UP_TO_DATE example_headers = 16"
  "MDF_CRASHED_PRIMARY example_headers = 64"
  "MDF_AL_CLEAN example_headers = 128"
  "MDF_AL_DISABLED example_headers = 256"
  "MDF_PEER_CONNECTED example_headers = 1"
  "MDF_PEER_OUTDATED example_headers = 2"
  "MDF_PEER_FENCING example_headers = 4"
  "MDF_PEER_FULL_SYNC example_headers = 8"
  "MDF_PEER_DEVICE_SEEN example_headers = 16"
  "MDF_NODE_EXISTS example_headers = 65536"
  "MDF_PRIMARY_LOST_QUORUM example_headers = 512"
  "BM_BLOCK_SIZE_4k example_headers = 4096"
  "BM_BLOCK_SIZE_MIN example_headers = 4096"
  "BM_BLOCK_SIZE_MAX example_headers = 1048576"
  "AL_UPDATES_PER_TRANSACTION example_headers = 64"
  "AL_CONTEXT_PER_TRANSACTION example_headers = 919"
  "AL_TR_UPDATE example_headers = 0"
  "AL_TR_INITIALIZED example_headers = 0xffff"
  "get_md_9 example_headers = example_get_9"
  "put_md_9 example_headers = example_put_9" "get_al example_headers = example_get_al"
  "put_al example_headers = example_put_al"
  by (simp_all add: example_headers_def)

lemma example_headers_ok [simp]:
  "array_sizes_ok example_headers" "md_indices_ok example_headers" "block_sizes_ok example_headers"
  by (simp_all add: array_sizes_ok_def md_indices_ok_def block_sizes_ok_def)

lemma example_get_put_peer [memory_simps]:
  "example_get_peer h (example_put_peer h p @ bs) = (p, bs)"
  by (simp add: example_get_peer_def example_put_peer_def memory_simps)

lemma example_get_put_peers [memory_simps]:
  "length ps = n \<Longrightarrow> get_array (example_get_peer h) n (put_array (example_put_peer h) ps @ bs) = (ps, bs)"
  using get_put_array [of ps "example_get_peer h" "example_put_peer h" bs] by (auto simp: memory_simps)

lemma example_layout_9_ok [simp]: "layout_9_ok example_headers"
proof -
  have "length (put_array (example_put_peer h) ps) = 24 * length ps" for h ps
    using length_put_array [of ps "example_put_peer h" 24]
    by (simp add: example_put_peer_def mult.commute)
  then have "length (example_members_9 h d) \<le> 4096" if "wf_md_9 example_headers d" for h d
    using that by (simp add: example_members_9_def wf_md_9_def)
  then have "example_get_9 h (example_put_9 h d) = d" if "wf_md_9 example_headers d" for h d
    using that by (simp add: example_put_9_def wf_md_9_def)
      (simp add: example_members_9_def example_get_9_def memory_simps)
  moreover have "length (example_put_9 h d) = 4096" for h d
    by (simp only: example_put_9_def length_take length_append length_replicate)
  ultimately show ?thesis
    by (simp add: layout_9_ok_def)
qed

lemma store_get [memory_simps]:
  "2 \<le> length bs \<Longrightarrow> store h 2 (fst (get16 h bs)) = take 2 bs"
  "4 \<le> length bs \<Longrightarrow> store h 4 (fst (get32 h bs)) = take 4 bs"
  "8 \<le> length bs \<Longrightarrow> store h 8 (fst (get64 h bs)) = take 8 bs"
  using store_load [of "take 2 bs" h, where 'a = 16] store_load [of "take 4 bs" h, where 'a = 32]
    store_load [of "take 8 bs" h, where 'a = 64]
  by (simp_all add: get16_def get32_def get64_def)

lemma snd_get [simp]:
  "snd (get16 h bs) = drop 2 bs" "snd (get32 h bs) = drop 4 bs" "snd (get64 h bs) = drop 8 bs"
  by (simp_all add: get16_def get32_def get64_def)

lemma put_get_array:
  assumes "\<And>bs. k \<le> length bs \<Longrightarrow> p (fst (g bs)) = take k bs" and "\<And>bs. snd (g bs) = drop k bs"
    and "n * k \<le> length bs"
  shows "put_array p (fst (get_array g n bs)) = take (n * k) bs \<and> snd (get_array g n bs) = drop (n * k) bs"
  using assms(3)
proof (induction n arbitrary: bs)
  case (Suc n)
  then have "put_array p (fst (get_array g n (drop k bs))) = take (n * k) (drop k bs)
      \<and> snd (get_array g n (drop k bs)) = drop (n * k) (drop k bs)" by simp
  then show ?case
    using Suc.prems assms(1) [of bs] assms(2) [of bs]
    by (auto simp: case_prod_beta Let_def put_array_def take_add add.commute)
qed (simp add: put_array_def)

lemma put_get_arrays:
  "n * 2 \<le> length bs \<Longrightarrow> put_array (store h 2) (fst (get_array (get16 h) n bs)) = take (n * 2) bs"
  "n * 4 \<le> length bs \<Longrightarrow> put_array (store h 4) (fst (get_array (get32 h) n bs)) = take (n * 4) bs"
  "n * 2 \<le> length bs \<Longrightarrow> snd (get_array (get16 h) n bs) = drop (n * 2) bs"
  "n * 4 \<le> length bs \<Longrightarrow> snd (get_array (get32 h) n bs) = drop (n * 4) bs"
  using put_get_array [of 2 "store h 2" "get16 h" n bs] put_get_array [of 4 "store h 4" "get32 h" n bs]
  by (simp_all add: memory_simps)

lemma append_take_next: "take a bs @ take b (drop a bs) @ rest = take (a + b) bs @ rest"
  by (simp add: take_add)

lemma example_put_get_al:
  assumes "length bs = 4096"
  shows "example_put_al h (example_get_al h bs) = bs"
  using assms
  by (simp add: example_put_al_def example_get_al_def case_prod_beta Let_def memory_simps put_get_arrays
      append_take_next)

lemma put_array_zero: "put_array (store h k) (replicate n 0) = replicate (n * k) 0"
  by (induction n) (simp_all add: put_array_def replicate_add)

lemma example_layout_al_ok [simp]: "layout_al_ok example_headers"
proof -
  have "example_put_al h (zero_al example_headers) = replicate 4096 0" for h
    by (simp add: example_put_al_def zero_al_def put_array_zero flip: replicate_add)
  moreover have "example_get_al h (example_put_al h d) = d \<and> length (example_put_al h d) = 4096"
    if "wf_al example_headers d" for h d
    using that by (simp add: wf_al_def example_get_al_def example_put_al_def memory_simps)
  moreover have "wf_al example_headers (example_get_al h bs)" for h bs
    by (simp add: wf_al_def example_get_al_def case_prod_beta Let_def)
  ultimately show ?thesis by (simp add: layout_al_ok_def example_put_get_al)
qed

end
