(* ===== verification/Md_Layout.thy ===== *)
theory Md_Layout
  imports Md_Types
begin

text \<open>
  Where the parts of the meta data are: \<^verbatim>\<open>bm_bytes\<close>, \<^verbatim>\<open>is_valid_md\<close>,
  \<^verbatim>\<open>max_usable_sectors\<close>, \<^verbatim>\<open>re_initialize_md_offsets\<close> and
  \<^verbatim>\<open>v07_style_md_get_byte_offset\<close> of \<^verbatim>\<open>user/shared/drbdmeta.c\<close>, in the widths of the
  source. The abstract specification is a layout on natural numbers; what is shown is that the
  word arithmetic implements it for every supported device and peer count, that the areas do
  not overlap, and that the result passes the program's own validity check.
\<close>

unbundle bit_operations_syntax

section \<open>The configuration of one invocation\<close>

record bdev_info =
  lk_bd_size :: u64
  lk_bd_uuid :: u64
  lk_bd_name :: "string option"

record format_cfg =
  ops :: md_format
  md_hard_sect_size :: u64
  md_index :: int
  cfg_bm_bytes :: u64
  bits_set :: u64
  update_lk_bdev :: bool
  cfg_md :: md_cpu
  md_offset :: u64
  cfg_al_offset :: u64
  cfg_bm_offset :: u64
  wipe_fixed :: u64
  wipe_flex :: u64
  wipe_resize :: u64
  bd_size :: u64
  max_usable_sect :: u64
  lk_bd :: bdev_info

text \<open>The position of a format in the enumeration; the C code compares them with \<open><\<close>.\<close>

fun format_version :: "md_format \<Rightarrow> nat" where
  "format_version DRBD_V06 = 0"
| "format_version DRBD_V07 = 1"
| "format_version DRBD_V08 = 2"
| "format_version DRBD_V09 = 3"
| "format_version DRBD_UNKNOWN = 4"

section \<open>Bitmap size\<close>

definition is_power_of_2 :: "u64 \<Rightarrow> bool" where
  "is_power_of_2 n \<longleftrightarrow> n \<noteq> 0 \<and> n AND (n - 1) = 0"

definition bm_bytes :: "headers \<Rightarrow> md_cpu \<Rightarrow> u64 \<Rightarrow> u64 res" where
  "bm_bytes H md sectors =
    (let sectors_per_bit = ucast (drop_bit 9 (bm_bytes_per_bit md)) :: u64 in
     assert_res (sectors \<le> push_bit (50 - 9) 1) (
     assert_res (bm_bytes_per_bit md \<ge> BM_BLOCK_SIZE_MIN H) (
     assert_res (bm_bytes_per_bit md \<le> BM_BLOCK_SIZE_MAX H) (
     assert_res (is_power_of_2 (ucast (bm_bytes_per_bit md))) (
     let bm_bits = (sectors + sectors_per_bit - 1) div sectors_per_bit;
         bm_bits = ALIGN bm_bits 64
     in Inr (ALIGN (bm_bits div 8 * ucast (max_peers md)) 4096))))))"

section \<open>The validity check\<close>

definition al_size_sect :: "md_cpu \<Rightarrow> s32" where
  "al_size_sect md = al_stripes md * al_stripe_size_4k md * 8"

definition magic_matches :: "headers \<Rightarrow> md_format \<Rightarrow> u32 \<Rightarrow> bool" where
  "magic_matches H f m \<longleftrightarrow>
    \<not> ((f = DRBD_V07 \<and> m \<noteq> DRBD_MD_MAGIC_07 H)
     \<or> (f = DRBD_V08 \<and> m \<noteq> DRBD_MD_MAGIC_08 H \<and> m \<noteq> DRBD_MD_MAGIC_84_UNCLEAN H)
     \<or> (f = DRBD_V09 \<and> m \<noteq> DRBD_MD_MAGIC_09 H))"

definition is_valid_md :: "headers \<Rightarrow> md_format \<Rightarrow> md_cpu \<Rightarrow> int \<Rightarrow> u64 \<Rightarrow> bool res" where
  "is_valid_md H f md idx ll_size =
    assert_res (f = DRBD_V07 \<or> f = DRBD_V08 \<or> f = DRBD_V09) (
    if \<not> magic_matches H f (magic md) then Inr False
    else if max_peers md < 1 \<or> max_peers md > of_nat (DRBD_PEERS_MAX H - 1) then Inr False
    else if sint (node_id md) < -1 \<or> sint (node_id md) > int (DRBD_PEERS_MAX H) - 1 then Inr False
    else if \<exists>n\<in>set [0..<unat (max_peers md)].
        sint (bitmap_index (peers md ! n)) < -1
        \<or> sint (bitmap_index (peers md ! n)) > int (DRBD_PEERS_MAX H) - 1 then Inr False
    else if idx = DRBD_MD_INDEX_FLEX_INT H then
      (if al_offset md \<noteq> - al_size_sect md then Inr False
       else bind_res (bm_bytes H md (drop_bit 9 ll_size)) (\<lambda>bytes.
         let md_size = ALIGN (drop_bit 9 bytes) 8;
             md_size = md_size + scast (of_nat MD_AL_OFFSET_07 + al_size_sect md)
         in if (scast (bm_offset md) :: u64) \<noteq> - md_size + of_nat MD_AL_OFFSET_07 then Inr False
            else if ucast (md_size_sect md) \<noteq> md_size \<and> f \<noteq> DRBD_V07 then Inr False
            else Inr True))
    else
      (if al_offset md \<noteq> of_nat MD_AL_OFFSET_07 then Inr False
       else if bm_offset md \<noteq> of_nat MD_AL_OFFSET_07 + al_size_sect md then Inr False
       else Inr True))"

section \<open>Offsets\<close>

definition max_usable_sectors :: "headers \<Rightarrow> format_cfg \<Rightarrow> u64 res" where
  "max_usable_sectors H cfg =
    (if md_index cfg = DRBD_MD_INDEX_INTERNAL H \<or> md_index cfg = DRBD_MD_INDEX_FLEX_INT H
     then Inr (drop_bit 9 (min (min (md_offset cfg) (cfg_al_offset cfg)) (cfg_bm_offset cfg)))
     else
       let bpb = bm_bytes_per_bit (cfg_md cfg);
           sectors = ucast (md_size_sect (cfg_md cfg) - bm_offset (cfg_md cfg)) :: u64;
           result = sectors * 512 * 8 div 64 div ucast (max_peers (cfg_md cfg)) * 64 * ucast bpb div 512
       in if format_version (ops cfg) < format_version DRBD_V09 \<or> md_index cfg \<ge> 0
          then assert_res (bpb = BM_BLOCK_SIZE_4k H) (Inr result)
          else assert_res (is_power_of_2 (ucast bpb)) (
               assert_res (bpb \<ge> BM_BLOCK_SIZE_MIN H) (
               assert_res (bpb \<le> BM_BLOCK_SIZE_MAX H) (Inr result))))"

text \<open>
  \<^verbatim>\<open>re_initialize_md_offsets\<close>: \<open>ensure_sane_defaults\<close> is its first part,
  \<open>bitmap_and_al_offsets\<close> the switch over the meta data index, the rest are the byte
  offsets. \<open>bm_block_size_opt\<close> is the option \<^verbatim>\<open>--bitmap-block-size\<close>, zero when absent.
\<close>

definition ensure_sane_defaults :: "headers \<Rightarrow> u32 \<Rightarrow> md_cpu \<Rightarrow> md_cpu" where
  "ensure_sane_defaults H bm_block_size_opt md =
    (let md = (if bm_bytes_per_bit md = 0
               then md\<lparr>bm_bytes_per_bit :=
                 if bm_block_size_opt \<noteq> 0 then bm_block_size_opt else DEFAULT_BM_BLOCK_SIZE H\<rparr>
               else md)
     in if max_peers md = 0 then md\<lparr>max_peers := 1\<rparr> else md)"

definition set_area_bm_bytes :: "format_cfg \<Rightarrow> format_cfg" where
  "set_area_bm_bytes cfg =
    cfg\<lparr>cfg_bm_bytes := 512 * ucast (md_size_sect (cfg_md cfg) - bm_offset (cfg_md cfg))\<rparr>"

definition bitmap_and_al_offsets :: "headers \<Rightarrow> format_cfg \<Rightarrow> format_cfg res" where
  "bitmap_and_al_offsets H cfg =
    (let m = cfg_md cfg; al = al_size_sect m in
     if md_index cfg = DRBD_MD_INDEX_FLEX_EXT H then
       Inr (set_area_bm_bytes (cfg\<lparr>cfg_md := m\<lparr>
         md_size_sect := ucast (drop_bit 9 (bd_size cfg)),
         al_offset := of_nat MD_AL_OFFSET_07,
         bm_offset := of_nat MD_AL_OFFSET_07 + al\<rparr>\<rparr>))
     else if md_index cfg = DRBD_MD_INDEX_INTERNAL H then
       Inr (set_area_bm_bytes (cfg\<lparr>cfg_md := m\<lparr>
         md_size_sect := ucast MD_RESERVED_SECT_07,
         al_offset := of_nat MD_AL_OFFSET_07,
         bm_offset := of_nat MD_BM_OFFSET_07\<rparr>\<rparr>))
     else if md_index cfg = DRBD_MD_INDEX_FLEX_INT H then
       bind_res (bm_bytes H m (drop_bit 9 (bd_size cfg))) (\<lambda>bytes.
         let md_size = ALIGN (drop_bit 9 bytes) 8 in
         if md_size > drop_bit 9 MD_BM_MAX_BYTE_FLEX * ucast (max_peers m) then Inl (Exit 10)
         else let md_size = md_size + scast (of_nat MD_AL_OFFSET_07 + al) in
           Inr (cfg\<lparr>cfg_bm_bytes := bytes, cfg_md := m\<lparr>
             al_offset := - al,
             md_size_sect := ucast md_size,
             bm_offset := ucast (- md_size + of_nat MD_AL_OFFSET_07)\<rparr>\<rparr>))
     else
       Inr (set_area_bm_bytes (cfg\<lparr>cfg_md := m\<lparr>
         md_size_sect := ucast MD_RESERVED_SECT_07,
         al_offset := of_nat MD_AL_OFFSET_07,
         bm_offset := of_nat MD_AL_OFFSET_07 + al\<rparr>\<rparr>)))"

definition re_initialize_md_offsets :: "headers \<Rightarrow> u32 \<Rightarrow> format_cfg \<Rightarrow> format_cfg res" where
  "re_initialize_md_offsets H bm_block_size_opt cfg =
    bind_res (bitmap_and_al_offsets H (cfg\<lparr>cfg_md := ensure_sane_defaults H bm_block_size_opt (cfg_md cfg)\<rparr>))
      (\<lambda>cfg. let cfg = cfg\<lparr>
           cfg_al_offset := md_offset cfg + scast (al_offset (cfg_md cfg)) * 512,
           cfg_bm_offset := md_offset cfg + scast (bm_offset (cfg_md cfg)) * 512\<rparr>
         in bind_res (max_usable_sectors H cfg) (\<lambda>s. Inr (cfg\<lparr>max_usable_sect := s\<rparr>)))"

definition v07_style_md_get_byte_offset :: "headers \<Rightarrow> int \<Rightarrow> u64 \<Rightarrow> u64" where
  "v07_style_md_get_byte_offset H idx sz =
    (if idx = DRBD_MD_INDEX_INTERNAL H then (sz AND NOT 4095) - MD_RESERVED_SECT_07 * 512
     else if idx = DRBD_MD_INDEX_FLEX_INT H then (sz - 4096) AND NOT 4095
     else if idx = DRBD_MD_INDEX_FLEX_EXT H then 0
     else MD_RESERVED_SECT_07 * of_int idx * 512)"

section \<open>Powers of two\<close>

lemma and_pred_nat: "(n::nat) \<noteq> 0 \<Longrightarrow> n AND (n - 1) = 0 \<longleftrightarrow> (\<exists>k. n = 2 ^ k)"
proof (induction n rule: less_induct)
  case (less n)
  show ?case
  proof (cases "even n")
    case True
    then obtain m where m: "n = 2 * m" by (rule evenE)
    with less.prems have "m \<noteq> 0" "m < n" by simp_all
    moreover have "n AND (n - 1) = 2 * (m AND (m - 1))"
    proof -
      have "n - 1 = 2 * (m - 1) + 1" using \<open>m \<noteq> 0\<close> m by simp
      then show ?thesis unfolding m
        by (subst and_rec) simp
    qed
    moreover have "(\<exists>k. n = 2 ^ k) \<longleftrightarrow> (\<exists>k. m = 2 ^ k)"
    proof
      assume "\<exists>k. n = 2 ^ k"
      then obtain k where k: "2 * m = 2 ^ k" using m by auto
      then show "\<exists>k. m = 2 ^ k" by (cases k) auto
    next
      assume "\<exists>k. m = 2 ^ k"
      then show "\<exists>k. n = 2 ^ k" unfolding m by (metis power_Suc)
    qed
    ultimately show ?thesis using less.IH [of m] by simp
  next
    case False
    then obtain m where m: "n = 2 * m + 1" by (rule oddE)
    then have "n AND (n - 1) = 2 * m" by (subst and_rec) simp
    moreover have "(\<exists>k. n = 2 ^ k) \<longleftrightarrow> m = 0"
    proof
      assume "\<exists>k. n = 2 ^ k"
      then obtain k where "n = 2 ^ k" ..
      then show "m = 0" using m by (cases k) (simp_all, presburger)
    qed (use m in \<open>auto intro: exI [of _ 0]\<close>)
    ultimately show ?thesis by simp
  qed
qed

lemma is_power_of_2_iff: "is_power_of_2 n \<longleftrightarrow> (\<exists>k. unat n = 2 ^ k)"
proof (cases "n = 0")
  case False
  then have n: "unat n \<noteq> 0" by (simp add: unat_eq_0)
  have "n AND (n - 1) = 0 \<longleftrightarrow> unat (n AND (n - 1)) = 0" by (simp add: unat_eq_0)
  also have "\<dots> \<longleftrightarrow> unat n AND (unat n - 1) = 0"
    by (simp only: unsigned_and_eq unat_minus_one [OF False])
  finally show ?thesis using and_pred_nat [OF n] False by (simp add: is_power_of_2_def)
qed (simp add: is_power_of_2_def)

section \<open>The specification of the bitmap size\<close>

text \<open>
  One bit per block and peer, the bits of a peer in whole 64 bit words, the whole in 4 KiB
  blocks.
\<close>

definition bits_needed :: "nat \<Rightarrow> nat \<Rightarrow> nat" where
  "bits_needed sectors sectors_per_bit = (sectors + sectors_per_bit - 1) div sectors_per_bit"

definition bitmap_size :: "nat \<Rightarrow> nat \<Rightarrow> nat \<Rightarrow> nat" where
  "bitmap_size sectors bytes_per_bit npeers =
    align_up (align_up (bits_needed sectors (bytes_per_bit div 512)) 64 div 8 * npeers) 4096"

text \<open>What the assertions of \<^verbatim>\<open>bm_bytes\<close> ask for.\<close>

definition supported :: "headers \<Rightarrow> md_cpu \<Rightarrow> u64 \<Rightarrow> bool" where
  "supported H md sectors \<longleftrightarrow> sectors \<le> 2 ^ 41 \<and> bm_bytes_per_bit md \<ge> BM_BLOCK_SIZE_MIN H \<and>
     bm_bytes_per_bit md \<le> BM_BLOCK_SIZE_MAX H \<and> is_power_of_2 (ucast (bm_bytes_per_bit md))"

lemma bm_bytes_abort: "\<not> supported H md sectors \<Longrightarrow> bm_bytes H md sectors = Inl Abort"
  by (auto simp: bm_bytes_def supported_def assert_res_def Let_def)

lemma bits_needed_mult: "0 < spb \<Longrightarrow> s \<le> bits_needed s spb * spb"
  using align_up_ge [of spb s] by (simp add: align_up_def bits_needed_def)

lemma bits_needed_le:
  assumes "8 \<le> spb" and "s \<le> 2 ^ 41"
  shows "bits_needed s spb \<le> 2 ^ 38"
proof -
  have "bits_needed s spb * spb < s + spb"
    using align_up_less [of spb s] assms by (simp add: align_up_def bits_needed_def)
  moreover have "s + spb \<le> (2 ^ 38 + 1) * spb"
    using assms by simp
  ultimately have "bits_needed s spb * spb < (2 ^ 38 + 1) * spb"
    by (rule less_le_trans)
  then have "bits_needed s spb < 2 ^ 38 + 1"
    using mult_less_cancel2 by blast
  then show ?thesis by simp
qed

lemma align_64_bound: "x \<le> 2 ^ 38 \<Longrightarrow> align_up x 64 \<le> 2 ^ 38"
  using align_up_mono [of x "2 ^ 38" 64] align_up_dvd_id [of 64 "2 ^ 38"] by simp

lemma bm_bytes_eq:
  assumes sup: "supported H md sectors" and H: "block_sizes_ok H" and peers: "max_peers md \<le> 31"
  obtains b where "bm_bytes H md sectors = Inr b"
    and "unat b = bitmap_size (unat sectors) (unat (bm_bytes_per_bit md)) (unat (max_peers md))"
proof -
  define spb where "spb = (ucast (drop_bit 9 (bm_bytes_per_bit md)) :: u64)"
  define bits where "bits = (sectors + spb - 1) div spb"
  define words where "words = ALIGN bits 64"
  have spb: "unat spb = unat (bm_bytes_per_bit md) div 512"
    by (simp add: spb_def unat_drop_bit)
  have bpb: "4096 \<le> unat (bm_bytes_per_bit md)" "unat (bm_bytes_per_bit md) \<le> 1048576"
    using sup H by (simp_all add: supported_def block_sizes_ok_def word_le_nat_alt)
  then have spb8: "8 \<le> unat spb" "unat spb \<le> 2048" by (simp_all add: spb)
  have s: "unat sectors \<le> 2 ^ 41"
    using sup by (simp add: supported_def word_le_nat_alt unat_exp2)
  have "unat (sectors + spb) = unat sectors + unat spb"
    using s spb8 by (intro unat_word_add) simp
  moreover have "unat (sectors + spb - 1) = unat (sectors + spb) - 1"
    using calculation spb8 by (intro unat_minus_one) (auto simp: unat_eq_0 [symmetric])
  ultimately have bits: "unat bits = bits_needed (unat sectors) (unat spb)"
    by (simp add: bits_def bits_needed_def unat_div)
  then have bits_le: "unat bits \<le> 2 ^ 38"
    using bits_needed_le s spb8 by simp
  have "unat (ALIGN bits (2 ^ 6)) = align_up (unat bits) (2 ^ 6)"
    using bits_le by (intro unat_ALIGN) simp_all
  then have words: "unat words = align_up (unat bits) 64" by (simp add: words_def)
  then have words_le: "unat words \<le> 2 ^ 38" using align_64_bound bits_le by simp
  have "unat (words div 8) = unat words div 8" by (simp add: unat_div)
  moreover have "unat (max_peers md) \<le> 31" using peers by (simp add: word_le_nat_alt)
  moreover have "unat words div 8 * unat (max_peers md) \<le> 2 ^ 35 * 31"
    using words_le calculation(2) by (intro mult_le_mono) simp_all
  ultimately have total: "unat (words div 8 * ucast (max_peers md)) = unat words div 8 * unat (max_peers md)"
    and total_le: "unat words div 8 * unat (max_peers md) \<le> 2 ^ 35 * 31"
    using unat_word_mult [of "words div 8" "ucast (max_peers md)"] by simp_all
  have "unat (ALIGN (words div 8 * ucast (max_peers md)) (2 ^ 12))
      = align_up (unat words div 8 * unat (max_peers md)) (2 ^ 12)"
    using total total_le by (subst unat_ALIGN) simp_all
  then have "unat (ALIGN (words div 8 * ucast (max_peers md)) 4096)
      = bitmap_size (unat sectors) (unat (bm_bytes_per_bit md)) (unat (max_peers md))"
    by (simp add: bitmap_size_def words bits spb)
  moreover have "bm_bytes H md sectors = Inr (ALIGN (words div 8 * ucast (max_peers md)) 4096)"
    using sup by (simp add: bm_bytes_def supported_def assert_res_def Let_def words_def bits_def spb_def)
  ultimately show ?thesis using that by blast
qed

section \<open>Facts about the specification\<close>

lemma bitmap_size_dvd [simp]: "4096 dvd bitmap_size s bpb p"
  by (simp add: bitmap_size_def)

lemma bitmap_size_enough:
  assumes "512 \<le> bpb"
  shows "p * s \<le> 8 * bitmap_size s bpb p * (bpb div 512)"
proof -
  let ?spb = "bpb div 512" and ?bits = "bits_needed s (bpb div 512)"
  have "0 < ?spb" using assms by simp
  then have s: "s \<le> ?bits * ?spb" by (rule bits_needed_mult)
  have "?bits \<le> align_up ?bits 64" by (rule align_up_ge) simp
  moreover have "8 dvd align_up ?bits 64"
    by (rule dvd_trans [of 8 64]) simp_all
  ultimately have "?bits * p \<le> 8 * (align_up ?bits 64 div 8 * p)"
    by (simp add: mult.assoc [symmetric])
  also have "\<dots> \<le> 8 * bitmap_size s bpb p"
    unfolding bitmap_size_def by (intro mult_le_mono2 align_up_ge) simp
  finally have "?bits * p * ?spb \<le> 8 * bitmap_size s bpb p * ?spb" by simp
  moreover have "p * s \<le> ?bits * p * ?spb"
    using mult_le_mono2 [OF s, of p] by (simp add: mult_ac)
  ultimately show ?thesis by (rule le_trans [rotated])
qed

lemma bitmap_size_tight: "bitmap_size s bpb p < (bits_needed s (bpb div 512) + 64) div 8 * p + 4096"
proof -
  let ?bits = "bits_needed s (bpb div 512)"
  have "align_up ?bits 64 \<le> ?bits + 64"
    using align_up_less [of 64 ?bits] by simp
  then have "align_up ?bits 64 div 8 * p \<le> (?bits + 64) div 8 * p"
    by (intro mult_le_mono1 div_le_mono)
  moreover have "bitmap_size s bpb p < align_up ?bits 64 div 8 * p + 4096"
    unfolding bitmap_size_def by (rule align_up_less) simp
  ultimately show ?thesis by linarith
qed

lemma bitmap_size_mono: "s \<le> t \<Longrightarrow> bitmap_size s bpb p \<le> bitmap_size t bpb p"
  unfolding bitmap_size_def bits_needed_def
  by (intro align_up_mono mult_le_mono1 div_le_mono) simp

lemma bitmap_size_bound:
  assumes "s \<le> 2 ^ 41" and "4096 \<le> bpb"
  shows "bitmap_size s bpb p \<le> 2 ^ 35 * p"
proof -
  have "bits_needed s (bpb div 512) \<le> 2 ^ 38"
    using assms by (intro bits_needed_le) simp_all
  then have "align_up (bits_needed s (bpb div 512)) 64 \<le> 2 ^ 38" by (rule align_64_bound)
  then have "align_up (bits_needed s (bpb div 512)) 64 div 8 * p \<le> 2 ^ 35 * p"
    using assms by (intro mult_le_mono) simp_all
  then have "bitmap_size s bpb p \<le> align_up (2 ^ 35 * p) 4096"
    unfolding bitmap_size_def by (rule align_up_mono)
  also have "\<dots> = 2 ^ 35 * p"
    by (rule align_up_dvd_id) (simp_all add: dvd_mult2)
  finally show ?thesis .
qed

section \<open>The internal layout\<close>

text \<open>Size of the activity log in 4 KiB blocks.\<close>

definition al_blocks :: "md_cpu \<Rightarrow> nat" where
  "al_blocks md = unat (al_stripes md) * unat (al_stripe_size_4k md)"

lemma al_size_sect_of_nat: "al_size_sect md = of_nat (8 * al_blocks md)"
  by (simp add: al_size_sect_def al_blocks_def mult_ac)

lemma bm_sectors:
  assumes "4096 dvd unat (b :: u64)"
  shows "ALIGN (drop_bit 9 b) 8 = of_nat (unat b div 512)"
proof -
  have d: "unat (drop_bit 9 b) = unat b div 512" by (simp add: unat_drop_bit)
  have b: "unat b < 2 ^ 64" using unat_less [of b] by simp
  obtain q where "unat b = 4096 * q" using assms by (rule dvdE)
  then have "8 dvd unat b div 512" by simp
  then have "align_up (unat (drop_bit 9 b)) (2 ^ 3) = unat b div 512"
    by (simp add: d align_up_dvd_id)
  moreover have "unat (ALIGN (drop_bit 9 b) (2 ^ 3)) = align_up (unat (drop_bit 9 b)) (2 ^ 3)"
    using b by (intro unat_ALIGN) (simp_all add: d)
  ultimately have "unat (ALIGN (drop_bit 9 b) 8) = unat b div 512" by simp
  then show ?thesis by (rule word_eq_of_nat)
qed

text \<open>
  The hypotheses of the layout theorems: internal flexible meta data, a device of at most one
  PiB with a valid block size, one to 31 bitmap slots, and an activity log of at most 4 GiB.
\<close>

definition internal_ok :: "headers \<Rightarrow> format_cfg \<Rightarrow> bool" where
  "internal_ok H cfg \<longleftrightarrow> md_index cfg = DRBD_MD_INDEX_FLEX_INT H \<and>
     supported H (cfg_md cfg) (drop_bit 9 (bd_size cfg)) \<and>
     1 \<le> max_peers (cfg_md cfg) \<and> max_peers (cfg_md cfg) \<le> 31 \<and> al_blocks (cfg_md cfg) \<le> 2 ^ 20"

definition cfg_bitmap_size :: "format_cfg \<Rightarrow> nat" where
  "cfg_bitmap_size cfg = bitmap_size (unat (bd_size cfg) div 512)
     (unat (bm_bytes_per_bit (cfg_md cfg))) (unat (max_peers (cfg_md cfg)))"

lemma cfg_bitmap_size_bound:
  assumes "internal_ok H cfg" and "block_sizes_ok H"
  shows "cfg_bitmap_size cfg \<le> 2 ^ 35 * unat (max_peers (cfg_md cfg))"
  unfolding cfg_bitmap_size_def
  using assms by (intro bitmap_size_bound)
    (auto simp: internal_ok_def supported_def block_sizes_ok_def word_le_nat_alt unat_drop_bit unat_exp2)

text \<open>The word arithmetic of the internal layout, resolved to numbers.\<close>

lemma internal_arith:
  assumes ok: "internal_ok H cfg" and H: "block_sizes_ok H" "md_indices_ok H"
  shows "bm_bytes H (cfg_md cfg) (drop_bit 9 (bd_size cfg)) = Inr (of_nat (cfg_bitmap_size cfg))"
    and "ALIGN (drop_bit 9 (of_nat (cfg_bitmap_size cfg))) 8 = (of_nat (cfg_bitmap_size cfg div 512) :: u64)"
    and "(scast (of_nat MD_AL_OFFSET_07 + al_size_sect (cfg_md cfg)) :: u64) = of_nat (8 + 8 * al_blocks (cfg_md cfg))"
    and "cfg_bitmap_size cfg div 512 + 8 * al_blocks (cfg_md cfg) + 8 < 2 ^ 31"
proof -
  let ?m = "cfg_md cfg"
  have sup: "supported H ?m (drop_bit 9 (bd_size cfg))" and mp: "max_peers ?m \<le> 31"
    and al: "al_blocks ?m \<le> 2 ^ 20"
    using ok by (simp_all add: internal_ok_def)
  from bm_bytes_eq [OF sup H(1) mp] obtain b
    where b: "bm_bytes H ?m (drop_bit 9 (bd_size cfg)) = Inr b" and ub: "unat b = cfg_bitmap_size cfg"
    by (auto simp: cfg_bitmap_size_def unat_drop_bit)
  have b': "b = of_nat (cfg_bitmap_size cfg)" using ub by (rule word_eq_of_nat)
  then show "bm_bytes H ?m (drop_bit 9 (bd_size cfg)) = Inr (of_nat (cfg_bitmap_size cfg))"
    using b by simp
  show "ALIGN (drop_bit 9 (of_nat (cfg_bitmap_size cfg))) 8 = (of_nat (cfg_bitmap_size cfg div 512) :: u64)"
    using bm_sectors [of b] ub b' by (simp add: cfg_bitmap_size_def)
  show "(scast (of_nat MD_AL_OFFSET_07 + al_size_sect ?m) :: u64) = of_nat (8 + 8 * al_blocks ?m)"
    using scast_of_int_u64 [of "int (8 + 8 * al_blocks ?m)"] al
    by (simp add: al_size_sect_of_nat MD_AL_OFFSET_07_def)
  show "cfg_bitmap_size cfg div 512 + 8 * al_blocks ?m + 8 < 2 ^ 31"
    using cfg_bitmap_size_bound [OF ok H(1)] mp al by (simp add: word_le_nat_alt)
qed

definition internal_md :: "format_cfg \<Rightarrow> md_cpu" where
  "internal_md cfg = (cfg_md cfg)\<lparr>
      al_offset := of_int (- int (8 * al_blocks (cfg_md cfg))),
      md_size_sect := of_int (int (cfg_bitmap_size cfg div 512 + (8 + 8 * al_blocks (cfg_md cfg)))),
      bm_offset := of_int (- int (cfg_bitmap_size cfg div 512 + 8 * al_blocks (cfg_md cfg)))\<rparr>"

lemma bitmap_and_al_offsets_internal:
  assumes ok: "internal_ok H cfg" and H: "block_sizes_ok H" "md_indices_ok H"
  shows "bitmap_and_al_offsets H cfg
    = Inr (cfg\<lparr>cfg_bm_bytes := of_nat (cfg_bitmap_size cfg), cfg_md := internal_md cfg\<rparr>)"
proof -
  let ?m = "cfg_md cfg" and ?B = "cfg_bitmap_size cfg div 512" and ?A = "8 * al_blocks (cfg_md cfg)"
  have idx: "md_index cfg = -3" and mp: "max_peers ?m \<le> 31"
    using ok H by (simp_all add: internal_ok_def md_indices_ok_def)
  have p: "unat (max_peers ?m) \<le> 31" using mp by (simp add: word_le_nat_alt)
  have B: "?B \<le> 2 ^ 26 * unat (max_peers ?m)" using cfg_bitmap_size_bound [OF ok H(1)] by simp
  have "drop_bit 9 MD_BM_MAX_BYTE_FLEX = 2 ^ 26"
    by (simp add: MD_BM_MAX_BYTE_FLEX_def)
  then have "unat (drop_bit 9 MD_BM_MAX_BYTE_FLEX * ucast (max_peers ?m)) = 2 ^ 26 * unat (max_peers ?m)"
    using p unat_word_mult [of "2 ^ 26" "ucast (max_peers ?m)"] by (simp add: unat_exp2)
  then have "\<not> (of_nat ?B :: u64) > drop_bit 9 MD_BM_MAX_BYTE_FLEX * ucast (max_peers ?m)"
    using B p by (simp add: word_less_nat_alt not_less unat_of_nat_u64)
  then show ?thesis
    using idx H(2) internal_arith [OF ok H]
      ucast_of_int_u32 [of "int (?B + (8 + ?A))"] ucast_of_int_u32 [of "- int (?B + ?A)"]
    by (simp add: bitmap_and_al_offsets_def internal_md_def md_indices_ok_def Let_def
        al_size_sect_of_nat MD_AL_OFFSET_07_def)
qed

lemma sane_defaults_internal:
  assumes "internal_ok H cfg" and "block_sizes_ok H"
  shows "cfg\<lparr>cfg_md := ensure_sane_defaults H opt (cfg_md cfg)\<rparr> = cfg"
proof -
  have "bm_bytes_per_bit (cfg_md cfg) \<noteq> 0" "max_peers (cfg_md cfg) \<noteq> 0"
    using assms by (auto simp: internal_ok_def supported_def block_sizes_ok_def)
  then show ?thesis by (simp add: ensure_sane_defaults_def Let_def)
qed

text \<open>Room for the super block, the activity log and the bitmap in front of \<open>md_offset\<close>.\<close>

definition internal_room :: "format_cfg \<Rightarrow> bool" where
  "internal_room cfg \<longleftrightarrow> cfg_bitmap_size cfg + 4096 * al_blocks (cfg_md cfg) \<le> unat (md_offset cfg)"

lemma byte_offset_back:
  assumes "k * 512 \<le> unat off" and "k < 2 ^ 31"
  shows "unat (off + scast (of_int (- int k) :: u32) * 512 :: u64) = unat off - k * 512"
proof -
  have "(scast (of_int (- int k) :: u32) :: u64) = of_int (- int k)"
    using assms by (intro scast_of_int_u64) simp_all
  then have "off + scast (of_int (- int k) :: u32) * 512 = of_nat (unat off) + of_int (- int (k * 512))"
    by simp
  then show ?thesis
    using unat_diff_of_nat [OF assms(1)] unat_less [of off] by simp
qed

lemma re_initialize_internal:
  assumes ok: "internal_ok H cfg" and H: "block_sizes_ok H" "md_indices_ok H" and room: "internal_room cfg"
  obtains cfg' where "re_initialize_md_offsets H opt cfg = Inr cfg'"
    and "unat (cfg_al_offset cfg') = unat (md_offset cfg) - 4096 * al_blocks (cfg_md cfg)"
    and "unat (cfg_bm_offset cfg') = unat (md_offset cfg) - 4096 * al_blocks (cfg_md cfg) - cfg_bitmap_size cfg"
    and "unat (cfg_bm_bytes cfg') = cfg_bitmap_size cfg"
    and "unat (max_usable_sect cfg') = unat (cfg_bm_offset cfg') div 512"
    and "md_offset cfg' = md_offset cfg" and "cfg_md cfg' = internal_md cfg"
proof -
  let ?A = "al_blocks (cfg_md cfg)" and ?B = "cfg_bitmap_size cfg"
  let ?cfg = "cfg\<lparr>cfg_bm_bytes := of_nat ?B, cfg_md := internal_md cfg\<rparr>"
  let ?al = "md_offset cfg + scast (al_offset (internal_md cfg)) * 512"
  let ?bm = "md_offset cfg + scast (bm_offset (internal_md cfg)) * 512"
  have "512 dvd ?B"
    unfolding cfg_bitmap_size_def by (rule dvd_trans [OF _ bitmap_size_dvd]) simp
  then obtain q where q: "?B = 512 * q" by (rule dvdE)
  have A: "?A \<le> 2 ^ 20" and p: "unat (max_peers (cfg_md cfg)) \<le> 31"
    using ok by (simp_all add: internal_ok_def word_le_nat_alt)
  have B: "q \<le> 2 ^ 26 * 31" "?B \<le> 2 ^ 35 * 31"
    using cfg_bitmap_size_bound [OF ok H(1)] p by (simp_all add: q)
  have al: "unat ?al = unat (md_offset cfg) - 4096 * ?A"
    using byte_offset_back [of "8 * ?A" "md_offset cfg"] A room
    by (simp add: internal_md_def internal_room_def)
  have bm: "unat ?bm = unat (md_offset cfg) - (q + 8 * ?A) * 512"
    using byte_offset_back [of "q + 8 * ?A" "md_offset cfg"] A B room q
    by (simp add: internal_md_def internal_room_def)
  have "re_initialize_md_offsets H opt cfg
      = Inr (?cfg\<lparr>cfg_al_offset := ?al, cfg_bm_offset := ?bm,
          max_usable_sect := drop_bit 9 (min (min (md_offset cfg) ?al) ?bm)\<rparr>)"
    using ok H sane_defaults_internal [OF ok H(1)] bitmap_and_al_offsets_internal [OF ok H]
    by (simp add: re_initialize_md_offsets_def max_usable_sectors_def
        internal_ok_def Let_def)
  moreover have "?bm \<le> ?al" "?bm \<le> md_offset cfg"
    unfolding word_le_nat_alt al bm by (intro diff_le_mono2) simp_all
  then have "min (min (md_offset cfg) ?al) ?bm = ?bm"
    by (intro min_absorb2) (simp only: min.bounded_iff)
  moreover have "unat (of_nat ?B :: u64) = ?B"
    using B(2) by (intro unat_of_nat_u64) simp
  moreover have "unat ?bm = unat (md_offset cfg) - 4096 * ?A - ?B"
    using bm q by (simp add: add.commute mult.commute)
  ultimately show ?thesis
    using that [of "?cfg\<lparr>cfg_al_offset := ?al, cfg_bm_offset := ?bm, max_usable_sect := drop_bit 9 ?bm\<rparr>"] al
    by (simp add: unat_drop_bit)
qed

lemma bm_bytes_internal_md: "bm_bytes H (internal_md cfg) s = bm_bytes H (cfg_md cfg) s"
  by (simp add: bm_bytes_def internal_md_def)

lemma is_valid_internal_slots:
  assumes ok: "internal_ok H cfg" and H: "block_sizes_ok H" "md_indices_ok H" "array_sizes_ok H"
    and f: "f = DRBD_V07 \<or> f = DRBD_V08 \<or> f = DRBD_V09" "magic_matches H f (magic (cfg_md cfg))"
    and node: "sint (node_id (cfg_md cfg)) \<in> {-1..31}"
    and index: "\<And>n. n < unat (max_peers (cfg_md cfg)) \<Longrightarrow> sint (bitmap_index (peers (cfg_md cfg) ! n)) \<in> {-1..31}"
  shows "is_valid_md H f (internal_md cfg) (md_index cfg) (bd_size cfg) = Inr True"
proof -
  let ?B = "cfg_bitmap_size cfg div 512" and ?A = "8 * al_blocks (cfg_md cfg)"
  have PEERS: "DRBD_PEERS_MAX H = 32" using H by (simp add: array_sizes_ok_def)
  have mp: "\<not> max_peers (cfg_md cfg) < 1" "\<not> max_peers (cfg_md cfg) > 31"
    and idx: "md_index cfg = DRBD_MD_INDEX_FLEX_INT H"
    using ok unfolding internal_ok_def by (auto simp only: not_less)
  have index': "\<not> (\<exists>n\<in>set [0..<unat (max_peers (cfg_md cfg))].
      sint (bitmap_index (peers (cfg_md cfg) ! n)) < -1 \<or> sint (bitmap_index (peers (cfg_md cfg) ! n)) > 31)"
    using index by (fastforce simp: not_less)
  have al: "al_size_sect (internal_md cfg) = al_size_sect (cfg_md cfg)"
    by (simp add: al_size_sect_def internal_md_def)
  have bm: "(scast (bm_offset (internal_md cfg)) :: u64) = of_int (- int (?B + ?A))"
    using scast_of_int_u64 [of "- int (?B + ?A)"] internal_arith(4) [OF ok H(1,2)]
    by (simp add: internal_md_def)
  have "unat (md_size_sect (internal_md cfg)) = ?B + (8 + ?A)"
    using unat_of_nat_u32 [of "?B + (8 + ?A)"] internal_arith(4) [OF ok H(1,2)]
    by (simp add: internal_md_def)
  then have size: "(ucast (md_size_sect (internal_md cfg)) :: u64) = of_nat (?B + (8 + ?A))"
    by (intro word_eq_of_nat) simp
  have "al_offset (internal_md cfg) = - al_size_sect (internal_md cfg)"
    unfolding al by (simp add: al_size_sect_of_nat internal_md_def)
  moreover have "magic (internal_md cfg) = magic (cfg_md cfg)" "node_id (internal_md cfg) = node_id (cfg_md cfg)"
    "peers (internal_md cfg) = peers (cfg_md cfg)" "max_peers (internal_md cfg) = max_peers (cfg_md cfg)"
    by (simp_all add: internal_md_def)
  ultimately show ?thesis
    using f node mp idx index' bm size internal_arith [OF ok H(1,2)]
    by (auto simp del: set_upt simp: is_valid_md_def PEERS assert_res_def bm_bytes_internal_md al MD_AL_OFFSET_07_def Let_def)
qed

lemma is_valid_internal:
  assumes ok: "internal_ok H cfg" and H: "block_sizes_ok H" "md_indices_ok H" "array_sizes_ok H"
    and f: "f = DRBD_V07 \<or> f = DRBD_V08 \<or> f = DRBD_V09" "magic_matches H f (magic (cfg_md cfg))"
    and node: "sint (node_id (cfg_md cfg)) \<in> {-1..31}"
    and peers: "\<forall>p\<in>set (peers (cfg_md cfg)). sint (bitmap_index p) \<in> {-1..31}"
      "length (peers (cfg_md cfg)) = 32"
  shows "is_valid_md H f (internal_md cfg) (md_index cfg) (bd_size cfg) = Inr True"
proof (rule is_valid_internal_slots [OF ok H f node])
  fix n assume "n < unat (max_peers (cfg_md cfg))"
  then have "n < 32" using ok by (simp add: internal_ok_def word_le_nat_alt)
  then show "sint (bitmap_index (peers (cfg_md cfg) ! n)) \<in> {-1..31}"
    using peers by (intro bspec [OF peers(1)] nth_mem) simp
qed

section \<open>Properties\<close>

text \<open>
  C33. \<^verbatim>\<open>bm_bytes\<close> returns for every supported device a multiple of 4 KiB that has a bit
  for every block of the device and every peer, and wastes at most one 64 bit word per peer
  plus one 4 KiB block; for an unsupported size or block size it fails its assertion instead of
  wrapping around.
\<close>

theorem bm_bytes_spec:
  assumes "block_sizes_ok H" and "max_peers md \<le> 31"
  shows "if supported H md sectors
    then \<exists>b. bm_bytes H md sectors = Inr b \<and> 4096 dvd unat b
      \<and> unat (max_peers md) * unat sectors \<le> 8 * unat b * (unat (bm_bytes_per_bit md) div 512)
      \<and> unat b < (bits_needed (unat sectors) (unat (bm_bytes_per_bit md) div 512) + 64) div 8
            * unat (max_peers md) + 4096
    else bm_bytes H md sectors = Inl Abort"
proof (cases "supported H md sectors")
  case True
  from bm_bytes_eq [OF this assms] obtain b where b: "bm_bytes H md sectors = Inr b"
    "unat b = bitmap_size (unat sectors) (unat (bm_bytes_per_bit md)) (unat (max_peers md))" .
  moreover have "512 \<le> unat (bm_bytes_per_bit md)"
    using True assms by (simp add: supported_def block_sizes_ok_def word_le_nat_alt)
  ultimately show ?thesis
    using True bitmap_size_enough bitmap_size_tight by simp
qed (simp add: bm_bytes_abort)

theorem bm_bytes_spec_witness:
  "bm_bytes example_headers ((zero_md example_headers)\<lparr>bm_bytes_per_bit := 4096, max_peers := 7\<rparr>) 2097152
    \<noteq> Inl Abort"
proof -
  let ?md = "(zero_md example_headers)\<lparr>bm_bytes_per_bit := 4096, max_peers := 7\<rparr>"
  have "supported example_headers ?md 2097152"
    by (simp add: supported_def is_power_of_2_def)
  then show ?thesis
    using bm_bytes_spec [OF example_headers_ok(3), of ?md 2097152] by auto
qed

text \<open>
  C8. Internal meta data: on a supported device that has room for it,
  \<^verbatim>\<open>re_initialize_md_offsets\<close> puts the bitmap directly in front of the activity log and the
  activity log directly in front of the super block, so that the three areas do not overlap;
  the bitmap area has exactly the computed size, and all sectors in front of it, and no others,
  are offered for data.
\<close>

theorem internal_areas_adjacent:
  assumes "internal_ok H cfg" and "block_sizes_ok H" and "md_indices_ok H" and "internal_room cfg"
  shows "\<exists>cfg'. re_initialize_md_offsets H opt cfg = Inr cfg'
    \<and> unat (cfg_bm_offset cfg') + unat (cfg_bm_bytes cfg') = unat (cfg_al_offset cfg')
    \<and> unat (cfg_al_offset cfg') + 4096 * al_blocks (cfg_md cfg') = unat (md_offset cfg')
    \<and> unat (cfg_bm_bytes cfg') = cfg_bitmap_size cfg
    \<and> unat (max_usable_sect cfg') = unat (cfg_bm_offset cfg') div 512"
proof -
  obtain cfg' where "re_initialize_md_offsets H opt cfg = Inr cfg'"
    and "unat (cfg_al_offset cfg') = unat (md_offset cfg) - 4096 * al_blocks (cfg_md cfg)"
    and "unat (cfg_bm_offset cfg') = unat (md_offset cfg) - 4096 * al_blocks (cfg_md cfg) - cfg_bitmap_size cfg"
    and "unat (cfg_bm_bytes cfg') = cfg_bitmap_size cfg"
    and "unat (max_usable_sect cfg') = unat (cfg_bm_offset cfg') div 512"
    and "md_offset cfg' = md_offset cfg" and "cfg_md cfg' = internal_md cfg"
    by (rule re_initialize_internal [OF assms])
  with assms(4) show ?thesis
    by (intro exI [of _ cfg']) (auto simp: internal_room_def internal_md_def al_blocks_def)
qed

definition example_cfg :: format_cfg where
  "example_cfg = \<lparr>ops = DRBD_V09, md_hard_sect_size = 512, md_index = -3, cfg_bm_bytes = 0,
     bits_set = 0, update_lk_bdev = False,
     cfg_md = (zero_md example_headers)\<lparr>magic := DRBD_MD_MAGIC_09 example_headers,
       bm_bytes_per_bit := 4096, max_peers := 1, al_stripes := 1, al_stripe_size_4k := 8\<rparr>,
     md_offset = 1073737728, cfg_al_offset = 0, cfg_bm_offset = 0, wipe_fixed = 0, wipe_flex = 0,
     wipe_resize = 0, bd_size = 1073741824, max_usable_sect = 0,
     lk_bd = \<lparr>lk_bd_size = 0, lk_bd_uuid = 0, lk_bd_name = None\<rparr>\<rparr>"

lemma example_cfg_ok: "internal_ok example_headers example_cfg" "internal_room example_cfg"
  by (simp_all add: internal_ok_def example_cfg_def supported_def is_power_of_2_def al_blocks_def
      internal_room_def cfg_bitmap_size_def bitmap_size_def bits_needed_def align_up_def)

theorem internal_areas_adjacent_witness:
  "\<exists>cfg'. re_initialize_md_offsets example_headers 0 example_cfg = Inr cfg'
    \<and> unat (cfg_bm_offset cfg') + 32768 = unat (cfg_al_offset cfg')"
  using internal_areas_adjacent [OF example_cfg_ok(1) example_headers_ok(3,2) example_cfg_ok(2), of 0]
  by (auto simp: cfg_bitmap_size_def example_cfg_def bitmap_size_def bits_needed_def align_up_def)

text \<open>
  C11. The offsets that \<^verbatim>\<open>re_initialize_md_offsets\<close> computes for internal meta data pass
  the validity check \<^verbatim>\<open>is_valid_md\<close> that guards every later access, for v07, v08 and v09:
  no truncation to the 32 bit members of the super block makes a freshly computed layout
  look damaged, for all supported devices and peer counts.
\<close>

theorem internal_layout_is_valid:
  assumes "internal_ok H cfg" and "block_sizes_ok H" and "md_indices_ok H" and "internal_room cfg"
    and "array_sizes_ok H" and "f \<in> {DRBD_V07, DRBD_V08, DRBD_V09}"
    and "magic_matches H f (magic (cfg_md cfg))"
    and "sint (node_id (cfg_md cfg)) \<in> {-1..31}"
    and "\<forall>p\<in>set (peers (cfg_md cfg)). sint (bitmap_index p) \<in> {-1..31}"
    and "length (peers (cfg_md cfg)) = 32"
  shows "\<exists>cfg'. re_initialize_md_offsets H opt cfg = Inr cfg'
    \<and> is_valid_md H f (cfg_md cfg') (md_index cfg) (bd_size cfg) = Inr True"
proof -
  obtain cfg' where cfg': "re_initialize_md_offsets H opt cfg = Inr cfg'" "cfg_md cfg' = internal_md cfg"
    by (rule re_initialize_internal [OF assms(1-4)])
  have "is_valid_md H f (internal_md cfg) (md_index cfg) (bd_size cfg) = Inr True"
    using assms by (intro is_valid_internal) auto
  with cfg' show ?thesis by simp
qed

theorem internal_layout_is_valid_witness:
  "\<exists>cfg'. re_initialize_md_offsets example_headers 0 example_cfg = Inr cfg'
    \<and> is_valid_md example_headers DRBD_V09 (cfg_md cfg') (md_index example_cfg) (bd_size example_cfg) = Inr True"
  by (rule internal_layout_is_valid [OF example_cfg_ok(1) example_headers_ok(3,2) example_cfg_ok(2)])
    (simp_all add: example_cfg_def magic_matches_def zero_md_def zero_peer_def)

end
