(* ===== verification/Device.thy ===== *)
theory Device
  imports Md_Layout
begin

text \<open>
  The device below the meta data: \<^verbatim>\<open>pread_or_die\<close>, \<^verbatim>\<open>pwrite_or_die\<close> and
  \<^verbatim>\<open>zeroout_bitmap_fast\<close> of \<^verbatim>\<open>user/shared/drbdmeta_linux.c\<close>, the range check in
  front of every write, and the loop that fills the bitmap area. A computation gets the state
  of the world and returns its result, or how the program stopped, together with the new
  state: what was written before an \<^verbatim>\<open>exit\<close> stays on the device. The kernel's answers to
  system calls are part of the state.
\<close>

unbundle bit_operations_syntax

section \<open>Bytes on a device\<close>

type_synonym content = "nat \<Rightarrow> u8"

definition read_bytes :: "content \<Rightarrow> nat \<Rightarrow> nat \<Rightarrow> bytes" where
  "read_bytes d off n = map d [off..<off + n]"

definition write_bytes :: "content \<Rightarrow> nat \<Rightarrow> bytes \<Rightarrow> content" where
  "write_bytes d off bs = (\<lambda>i. if off \<le> i \<and> i < off + length bs then bs ! (i - off) else d i)"

text \<open>
  What the users of a byte store rely on: a range that was just written reads back, other
  bytes keep their value.
\<close>

locale byte_store =
  fixes rd :: "'s \<Rightarrow> nat \<Rightarrow> nat \<Rightarrow> bytes" and wr :: "'s \<Rightarrow> nat \<Rightarrow> bytes \<Rightarrow> 's"
  assumes length_rd: "length (rd s off n) = n"
    and nth_rd_wr: "i < n \<Longrightarrow> rd (wr s off' bs) off n ! i =
      (if off' \<le> off + i \<and> off + i < off' + length bs then bs ! (off + i - off') else rd s off n ! i)"
begin

lemma rd_wr_same: "rd (wr s off bs) off (length bs) = bs"
  by (rule nth_equalityI) (simp_all add: length_rd nth_rd_wr)

lemma rd_wr_disjoint: "off + n \<le> off' \<or> off' + length bs \<le> off \<Longrightarrow> rd (wr s off' bs) off n = rd s off n"
  by (rule nth_equalityI) (auto simp: length_rd nth_rd_wr)

lemma rd_wr_append:
  "off' = off + length bs \<Longrightarrow> rd (wr (wr s off bs) off' cs) p n = rd (wr s off (bs @ cs)) p n"
  by (rule nth_equalityI) (auto simp: length_rd nth_rd_wr nth_append)

end

interpretation store: byte_store read_bytes write_bytes
  by unfold_locales (auto simp: read_bytes_def write_bytes_def)

lemma write_bytes_append:
  "off' = off + length bs \<Longrightarrow> write_bytes (write_bytes d off bs) off' cs = write_bytes d off (bs @ cs)"
  by (rule ext) (auto simp: write_bytes_def nth_append)

lemma write_bytes_Nil [simp]: "write_bytes d off [] = d"
  by (rule ext) (auto simp: write_bytes_def)

lemma length_read_bytes [simp]: "length (read_bytes d off n) = n"
  by (rule store.length_rd)

lemma write_bytes_outside: "i < off \<or> off + length bs \<le> i \<Longrightarrow> write_bytes d off bs i = d i"
  by (auto simp: write_bytes_def)

lemma write_bytes_inside: "\<lbrakk>off \<le> i; i < off + length bs\<rbrakk> \<Longrightarrow> write_bytes d off bs i = bs ! (i - off)"
  by (simp add: write_bytes_def)

section \<open>State and computations\<close>

datatype initialize_bitmap_mode =
  IBM_ZEROOUT | IBM_ZEROOUT_IOCTL_ONLY | IBM_ZEROOUT_PWRITE | IBM_SET_ALL | IBM_SKIP

text \<open>The global variables that the command line sets.\<close>

record options =
  force :: bool
  ignore_sanity_checks :: bool
  dry_run :: bool
  option_peer_max_bio_size :: u32
  option_node_id :: int
  option_al_stripes :: u32
  option_al_stripe_size_4k :: u32
  option_bm_block_size :: u32
  option_effective_size :: u64
  option_diskful_peer_mask :: u64
  option_initialize_bitmap_mode :: initialize_bitmap_mode

text \<open>
  \<open>io_fails count offset\<close>: the kernel reports an error for this transfer.
  \<open>zeroout_fails offset len\<close>: it rejects this \<^verbatim>\<open>BLKZEROOUT\<close>.
\<close>

datatype file_kind = BlockDevice | RegularFile | OtherFile

text \<open>
  The other answers of the kernel, which stay the same during an invocation.
  \<open>open_errno excl direct\<close> is the error of \<^verbatim>\<open>open\<close> on the meta data device with these
  flags, \<open>kind\<close> what \<^verbatim>\<open>fstat\<close> says of it, \<open>sector_size\<close> and
  \<open>getsize64_errno\<close> belong to the \<^verbatim>\<open>ioctl\<close>s on it; \<open>fopen_fails path\<close>,
  \<open>fprintf_fails path\<close>, \<open>flushed path\<close> and \<open>unlink_fails path\<close> are about the last known
  information: the file cannot be opened, writing to it is reported as an error, only so many
  characters arrive in it (\<open>None\<close>: all of them), and it cannot be removed.
\<close>

record environment =
  open_errno :: "bool \<Rightarrow> bool \<Rightarrow> int option"
  kind :: "file_kind option"
  sector_size :: "u32 option"
  getsize64_errno :: "int option"
  getsize_fails :: bool
  close_fails :: bool
  fopen_fails :: "string \<Rightarrow> bool"
  fprintf_fails :: "string \<Rightarrow> bool"
  flushed :: "string \<Rightarrow> nat option"
  unlink_fails :: "string \<Rightarrow> bool"

text \<open>
  \<open>files\<close> are the small text files beside the device. \<open>answers\<close> are the lines the user
  will type, \<open>None\<close> when standard input is no terminal.
\<close>

record world =
  dev_size :: nat
  disk :: content
  io_fails :: "nat \<Rightarrow> nat \<Rightarrow> bool"
  zeroout_fails :: "nat \<Rightarrow> nat \<Rightarrow> bool"
  n_writes :: nat
  env :: environment
  files :: "string \<Rightarrow> string option"
  answers :: "string list option"
  stdout :: string

type_synonym 'a io = "world \<Rightarrow> 'a res \<times> world"

definition ret :: "'a \<Rightarrow> 'a io" where
  "ret x w = (Inr x, w)"

definition stop_io :: "stop \<Rightarrow> 'a io" where
  "stop_io e w = (Inl e, w)"

definition lift_res :: "'a res \<Rightarrow> 'a io" where
  "lift_res r w = (r, w)"

definition bind_io :: "'a io \<Rightarrow> ('a \<Rightarrow> 'b io) \<Rightarrow> 'b io" where
  "bind_io m f w = (case m w of (Inl e, w') \<Rightarrow> (Inl e, w') | (Inr x, w') \<Rightarrow> f x w')"

named_theorems io_simps \<open>execution of computations\<close>

lemma bind_io_simps [io_simps]:
  "ret x w = (Inr x, w)" "stop_io e w = (Inl e, w)" "lift_res r w = (r, w)"
  by (simp_all add: ret_def stop_io_def lift_res_def)

lemma bind_io_Inr: "m w = (Inr x, w') \<Longrightarrow> bind_io m f w = f x w'"
  by (simp add: bind_io_def)

lemma bind_io_Inl: "m w = (Inl e, w') \<Longrightarrow> bind_io m f w = (Inl e, w')"
  by (simp add: bind_io_def)

lemma bind_io_lift [io_simps]:
  "bind_io (lift_res (Inr x)) f w = f x w" "bind_io (lift_res (Inl e)) f w = (Inl e, w)"
  "bind_io (ret x) f w = f x w" "bind_io (stop_io e) f w = (Inl e, w)"
  by (simp_all add: bind_io_def ret_def stop_io_def lift_res_def)

lemma bind_io_InrE:
  assumes "bind_io m f w = (Inr y, w')"
  obtains x w1 where "m w = (Inr x, w1)" "f x w1 = (Inr y, w')"
  using assms by (auto simp: bind_io_def split: prod.splits sum.splits)

section \<open>Access to the device\<close>

text \<open>
  The kernel transfers what lies inside the device; fewer bytes than asked for, like an error,
  end the program. An offset whose top bit is set is a negative \<^verbatim>\<open>off_t\<close>, which is an error.
\<close>

definition kernel_error :: "world \<Rightarrow> nat \<Rightarrow> u64 \<Rightarrow> bool" where
  "kernel_error w count offset \<longleftrightarrow> io_fails w count (unat offset) \<or> bit offset 63"

definition pread_or_die :: "nat \<Rightarrow> u64 \<Rightarrow> bytes io" where
  "pread_or_die count offset w =
    (if kernel_error w count offset then (Inl (Exit 10), w)
     else if min count (dev_size w - unat offset) \<noteq> count then (Inl (Exit 10), w)
     else (Inr (read_bytes (disk w) (unat offset) count), w))"

text \<open>
  The range check. All three offsets are compared as unsigned numbers when the minimum is
  taken, then the minimum is a signed \<^verbatim>\<open>off_t\<close>.
\<close>

definition md_min_offset :: "format_cfg \<Rightarrow> u64" where
  "md_min_offset cfg =
    (let al = md_offset cfg + scast (al_offset (cfg_md cfg)) * 512;
         bm = md_offset cfg + scast (bm_offset (cfg_md cfg)) * 512
     in min (min (md_offset cfg) al) bm)"

definition md_max_offset :: "format_cfg \<Rightarrow> u64" where
  "md_max_offset cfg = md_min_offset cfg + ucast (md_size_sect (cfg_md cfg)) * 512"

definition validate_offsets_or_die :: "options \<Rightarrow> format_cfg \<Rightarrow> nat \<Rightarrow> u64 \<Rightarrow> unit res" where
  "validate_offsets_or_die opts cfg count offset =
    (if offset \<noteq> 0 \<and> (offset = wipe_fixed cfg \<or> offset = wipe_flex cfg \<or> offset = wipe_resize cfg)
     then Inr ()
     else if (sint offset < sint (md_min_offset cfg) \<or> offset + of_nat count > md_max_offset cfg)
       \<and> \<not> ignore_sanity_checks opts
     then Inl (Exit 10)
     else Inr ())"

text \<open>
  A write that does not fit on the device fails. A regular file is treated like a device of its
  size: that writing behind its end would extend it is not modelled.
\<close>

definition pwrite_or_die :: "options \<Rightarrow> format_cfg \<Rightarrow> bytes \<Rightarrow> u64 \<Rightarrow> unit io" where
  "pwrite_or_die opts cfg buf offset =
    bind_io (lift_res (validate_offsets_or_die opts cfg (length buf) offset)) (\<lambda>_ w.
      let w = w\<lparr>n_writes := n_writes w + 1\<rparr> in
      if dry_run opts then (Inr (), w)
      else if kernel_error w (length buf) offset then (Inl (Exit 10), w)
      else let c = min (length buf) (dev_size w - unat offset);
               w = w\<lparr>disk := write_bytes (disk w) (unat offset) (take c buf)\<rparr>
           in if c \<noteq> length buf then (Inl (Exit 10), w) else (Inr (), w))"

definition pwrite_with_limit_or_die ::
  "options \<Rightarrow> format_cfg \<Rightarrow> bytes \<Rightarrow> u64 \<Rightarrow> u64 \<Rightarrow> nat io" where
  "pwrite_with_limit_or_die opts cfg buf offset limit =
    (if sint offset \<ge> sint limit then stop_io (Exit 10)
     else let count = (if length buf > unat (limit - offset) then unat (limit - offset) else length buf)
          in bind_io (pwrite_or_die opts cfg (take count buf) offset) (\<lambda>_. ret count))"

section \<open>Filling the bitmap area\<close>

definition buffer_size :: nat where "buffer_size = 32 * 1024 * 1024"

text \<open>The loop of \<^verbatim>\<open>init_bitmap_pwrite\<close>: one buffer at a time.\<close>

function init_bitmap_loop :: "options \<Rightarrow> format_cfg \<Rightarrow> u8 \<Rightarrow> nat \<Rightarrow> u64 \<Rightarrow> unit io" where
  "init_bitmap_loop opts cfg clear_or_set bytes_left off =
    (let chunk = (if buffer_size < bytes_left then buffer_size else bytes_left) in
     bind_io (pwrite_or_die opts cfg (replicate chunk clear_or_set) off) (\<lambda>_.
       if bytes_left - chunk = 0 then ret ()
       else init_bitmap_loop opts cfg clear_or_set (bytes_left - chunk) (off + of_nat chunk)))"
  by auto
termination
  by (relation "measure (\<lambda>(opts, cfg, c, bytes_left, off). bytes_left)") (auto simp: buffer_size_def)

declare init_bitmap_loop.simps [simp del]

definition init_bitmap_pwrite :: "options \<Rightarrow> format_cfg \<Rightarrow> u8 \<Rightarrow> unit io" where
  "init_bitmap_pwrite opts cfg clear_or_set =
    init_bitmap_loop opts cfg clear_or_set (unat (ALIGN (cfg_bm_bytes cfg) (md_hard_sect_size cfg)))
      (cfg_bm_offset cfg)"

definition zeroout_bitmap_pwrite :: "options \<Rightarrow> format_cfg \<Rightarrow> unit io" where
  "zeroout_bitmap_pwrite opts cfg = init_bitmap_pwrite opts cfg 0x00"

definition set_all_bitmap_pwrite :: "options \<Rightarrow> format_cfg \<Rightarrow> unit io" where
  "set_all_bitmap_pwrite opts cfg = init_bitmap_pwrite opts cfg 0xff"

text \<open>
  \<^verbatim>\<open>zeroout_bitmap_fast\<close>: one GiB per \<^verbatim>\<open>BLKZEROOUT\<close>, which the kernel also rejects
  beyond the end of the device. The result is whether all calls succeeded.
\<close>

definition bytes_per_iteration :: nat where "bytes_per_iteration = 1024 * 1024 * 1024"

function zeroout_loop :: "nat \<Rightarrow> u64 \<Rightarrow> bool io" where
  "zeroout_loop bytes_left off w =
    (let chunk = (if bytes_per_iteration < bytes_left then bytes_per_iteration else bytes_left);
         w = w\<lparr>n_writes := n_writes w + 1\<rparr>
     in if zeroout_fails w (unat off) chunk \<or> unat off + chunk > dev_size w then (Inr False, w)
        else let w = w\<lparr>disk := write_bytes (disk w) (unat off) (replicate chunk 0)\<rparr>
             in if bytes_left - chunk = 0 then (Inr True, w)
                else zeroout_loop (bytes_left - chunk) (off + of_nat chunk) w)"
  by auto
termination
  by (relation "measure (\<lambda>(bytes_left, off, w). bytes_left)") (auto simp: bytes_per_iteration_def)

declare zeroout_loop.simps [simp del]

definition zeroout_bitmap_fast :: "format_cfg \<Rightarrow> bool io" where
  "zeroout_bitmap_fast cfg =
    zeroout_loop (unat (ALIGN (cfg_bm_bytes cfg) (md_hard_sect_size cfg))) (cfg_bm_offset cfg)"

definition initialize_bitmap :: "options \<Rightarrow> format_cfg \<Rightarrow> unit io" where
  "initialize_bitmap opts cfg =
    (case option_initialize_bitmap_mode opts of
       IBM_SKIP \<Rightarrow> ret ()
     | IBM_ZEROOUT_IOCTL_ONLY \<Rightarrow> bind_io (zeroout_bitmap_fast cfg) (\<lambda>ok.
         if ok then ret () else stop_io (Exit 10))
     | IBM_ZEROOUT \<Rightarrow> bind_io (zeroout_bitmap_fast cfg) (\<lambda>ok.
         if ok then ret () else zeroout_bitmap_pwrite opts cfg)
     | IBM_ZEROOUT_PWRITE \<Rightarrow> zeroout_bitmap_pwrite opts cfg
     | IBM_SET_ALL \<Rightarrow> set_all_bitmap_pwrite opts cfg)"

section \<open>What a write can change\<close>

text \<open>
  The state that device access must not change: the size of the device, the behaviour of the
  kernel and the files.
\<close>

definition same_env :: "world \<Rightarrow> world \<Rightarrow> bool" where
  "same_env w w' \<longleftrightarrow> dev_size w' = dev_size w \<and> io_fails w' = io_fails w \<and>
     zeroout_fails w' = zeroout_fails w \<and> env w' = env w \<and> files w' = files w"

lemma same_env_refl [simp]: "same_env w w"
  by (simp add: same_env_def)

lemma same_env_trans: "same_env w1 w2 \<Longrightarrow> same_env w2 w3 \<Longrightarrow> same_env w1 w3"
  by (simp add: same_env_def)

lemma pwrite_result:
  assumes "pwrite_or_die opts cfg buf off w = (r, w')"
  shows "same_env w w'"
    and "disk w' = disk w \<or> validate_offsets_or_die opts cfg (length buf) off = Inr () \<and>
      \<not> dry_run opts \<and> \<not> kernel_error w (length buf) off \<and>
      (\<exists>c. disk w' = write_bytes (disk w) (unat off) (take c buf))"
  using assms
  by (auto simp: pwrite_or_die_def bind_io_def lift_res_def same_env_def Let_def kernel_error_def
      split: sum.splits if_splits intro: exI [of _ "length buf"])

lemma pwrite_ok:
  assumes "validate_offsets_or_die opts cfg (length buf) off = Inr ()" and "\<not> dry_run opts"
    and "\<not> kernel_error w (length buf) off" and "unat off + length buf \<le> dev_size w"
  shows "pwrite_or_die opts cfg buf off w =
    (Inr (), w\<lparr>n_writes := n_writes w + 1, disk := write_bytes (disk w) (unat off) buf\<rparr>)"
  using assms by (simp add: pwrite_or_die_def bind_io_def lift_res_def Let_def kernel_error_def)

lemma pwrite_Inr:
  assumes "pwrite_or_die opts cfg buf off w = (Inr (), w')" and "\<not> dry_run opts"
  shows "disk w' = write_bytes (disk w) (unat off) buf" and "same_env w w'"
    and "validate_offsets_or_die opts cfg (length buf) off = Inr ()" "\<not> kernel_error w (length buf) off"
  using assms
  by (auto simp: pwrite_or_die_def bind_io_def lift_res_def Let_def kernel_error_def min_def same_env_def
      split: sum.splits if_splits)

lemma not_bit_63: "\<not> bit (x :: u64) 63 \<longleftrightarrow> unat x < 2 ^ 63"
proof -
  have "bit x 63 = bit (unat x) 63"
    by (simp add: bit_unsigned_iff)
  also have "\<dots> \<longleftrightarrow> odd (unat x div 2 ^ 63)"
    by (rule bit_iff_odd)
  finally show ?thesis
    using unat_less [of x] by (cases "unat x < 2 ^ 63") (simp_all add: le_div_geq not_less)
qed

lemma signed_take_bit_nat: "n < 2 ^ 63 \<Longrightarrow> signed_take_bit 63 (int n) = int n"
  by (rule signed_take_bit_int_eq_self) simp_all

lemma sint_unat_u64:
  assumes "unat (x :: u64) < 2 ^ 63"
  shows "sint x = int (unat x)"
proof -
  have "sint x = signed_take_bit 63 (uint x)" using sint_uint [of x] by simp
  also have "uint x = int (unat x)" by (rule uint_nat)
  also have "signed_take_bit 63 (int (unat x)) = int (unat x)" using assms by (rule signed_take_bit_nat)
  finally show ?thesis .
qed

text \<open>
  The check lets through only offsets inside the meta data area, apart from the recorded
  wipe positions.
\<close>

definition is_wipe_offset :: "format_cfg \<Rightarrow> u64 \<Rightarrow> bool" where
  "is_wipe_offset cfg off \<longleftrightarrow> off \<noteq> 0 \<and> (off = wipe_fixed cfg \<or> off = wipe_flex cfg \<or> off = wipe_resize cfg)"

lemma md_min_offset_le: "unat (md_min_offset cfg) \<le> unat (md_offset cfg)"
  by (simp add: md_min_offset_def Let_def min_def word_le_nat_alt)

lemma unat_md_max_offset:
  assumes "unat (md_offset cfg) < 2 ^ 63"
  shows "unat (md_max_offset cfg) = unat (md_min_offset cfg) + 512 * unat (md_size_sect (cfg_md cfg))"
proof -
  have "unat (md_size_sect (cfg_md cfg)) < 2 ^ 32"
    using unat_less [of "md_size_sect (cfg_md cfg)"] by simp
  then have "unat (ucast (md_size_sect (cfg_md cfg)) * 512 :: u64) = 512 * unat (md_size_sect (cfg_md cfg))"
    by (subst unat_word_mult) simp_all
  then show ?thesis
    unfolding md_max_offset_def
    using md_min_offset_le [of cfg] assms \<open>unat (md_size_sect (cfg_md cfg)) < 2 ^ 32\<close>
    by (subst unat_word_add) simp_all
qed

lemma validated_range:
  assumes v: "validate_offsets_or_die opts cfg count off = Inr ()" and "\<not> ignore_sanity_checks opts"
    and "\<not> is_wipe_offset cfg off" and md: "unat (md_offset cfg) < 2 ^ 63"
    and off: "unat off < 2 ^ 63" and count: "count < 2 ^ 63"
  shows "unat (md_min_offset cfg) \<le> unat off" and "unat off + count \<le> unat (md_max_offset cfg)"
proof -
  have "\<not> sint off < sint (md_min_offset cfg)" "\<not> off + of_nat count > md_max_offset cfg"
    using assms(1-3) by (auto simp: validate_offsets_or_die_def is_wipe_offset_def split: if_splits)
  moreover have "sint (md_min_offset cfg) = int (unat (md_min_offset cfg))"
    using md_min_offset_le [of cfg] md by (intro sint_unat_u64) (rule le_less_trans)
  moreover have "sint off = int (unat off)" using off by (rule sint_unat_u64)
  moreover have "unat (off + of_nat count) = unat off + count"
    using off count by (subst unat_word_add) (simp_all add: unat_of_nat_u64)
  ultimately show "unat (md_min_offset cfg) \<le> unat off" "unat off + count \<le> unat (md_max_offset cfg)"
    by (simp_all only: word_less_nat_alt not_less of_nat_le_iff)
qed

text \<open>
  C25. Whatever \<^verbatim>\<open>pwrite_or_die\<close> is asked to write, and however it ends, the bytes that
  change lie in the meta data area between the lowest of the three offsets and the recorded
  size, or in a block that the conversion recorded for wiping; only
  \<^verbatim>\<open>--ignore-sanity-checks\<close> lifts this.
\<close>

theorem pwrite_stays_in_md_area:
  assumes run: "pwrite_or_die opts cfg buf off w = (r, w')"
    and "\<not> ignore_sanity_checks opts" and "unat (md_offset cfg) < 2 ^ 63" and "length buf < 2 ^ 63"
    and changed: "disk w' i \<noteq> disk w i"
  shows "unat (md_min_offset cfg) \<le> i \<and> i < unat (md_max_offset cfg)
    \<or> is_wipe_offset cfg off \<and> unat off \<le> i \<and> i < unat off + length buf"
proof -
  from changed obtain c where v: "validate_offsets_or_die opts cfg (length buf) off = Inr ()"
    and k: "\<not> kernel_error w (length buf) off"
    and d: "disk w' = write_bytes (disk w) (unat off) (take c buf)"
    using pwrite_result(2) [OF run] by auto
  have i: "unat off \<le> i" "i < unat off + length buf"
    using changed unfolding d by (auto simp: write_bytes_def split: if_splits)
  have "unat off < 2 ^ 63" using k by (simp add: kernel_error_def not_bit_63)
  then show ?thesis
    using validated_range [OF v] assms i by (cases "is_wipe_offset cfg off") fastforce+
qed

definition example_options :: options where
  "example_options = \<lparr>force = False, ignore_sanity_checks = False, dry_run = False,
     option_peer_max_bio_size = 0, option_node_id = -1, option_al_stripes = 1,
     option_al_stripe_size_4k = 8, option_bm_block_size = 0, option_effective_size = 0,
     option_diskful_peer_mask = 0, option_initialize_bitmap_mode = IBM_ZEROOUT\<rparr>"

text \<open>An indexed external meta data area at the start of a 128 MiB device.\<close>

definition example_ext_cfg :: format_cfg where
  "example_ext_cfg = example_cfg\<lparr>md_index := 0, md_offset := 0, cfg_al_offset := 4096,
     cfg_bm_offset := 36864, cfg_bm_bytes := 4096, bd_size := 134217728,
     cfg_md := (cfg_md example_cfg)\<lparr>md_size_sect := 262144, al_offset := 8, bm_offset := 72\<rparr>\<rparr>"

definition example_env :: environment where
  "example_env = \<lparr>open_errno = (\<lambda>_ _. None), kind = Some BlockDevice, sector_size = Some 512,
     getsize64_errno = None, getsize_fails = False, close_fails = False, fopen_fails = (\<lambda>_. False),
     fprintf_fails = (\<lambda>_. False), flushed = (\<lambda>_. None), unlink_fails = (\<lambda>_. False)\<rparr>"

definition example_world :: world where
  "example_world = \<lparr>dev_size = 134217728, disk = (\<lambda>_. 7), io_fails = (\<lambda>_ _. False),
     zeroout_fails = (\<lambda>_ _. False), n_writes = 0, env = example_env, files = (\<lambda>_. None),
     answers = None, stdout = []\<rparr>"

lemma example_offsets [simp]:
  "md_min_offset example_ext_cfg = 0" "md_max_offset example_ext_cfg = 134217728"
  "wipe_fixed example_ext_cfg = 0" "wipe_flex example_ext_cfg = 0" "wipe_resize example_ext_cfg = 0"
  by (simp_all add: md_min_offset_def md_max_offset_def example_ext_cfg_def example_cfg_def min_def)

lemma example_pwrite:
  "pwrite_or_die example_options example_ext_cfg [1, 2] 4096 example_world =
    (Inr (), example_world\<lparr>n_writes := 1, disk := write_bytes (\<lambda>_. 7) 4096 [1, 2]\<rparr>)"
  by (subst pwrite_ok) (simp_all add: validate_offsets_or_die_def kernel_error_def not_bit_63
      example_world_def example_options_def)

theorem pwrite_stays_in_md_area_witness:
  "unat (md_min_offset example_ext_cfg) \<le> 4097 \<and> 4097 < unat (md_max_offset example_ext_cfg)
    \<or> is_wipe_offset example_ext_cfg 4096 \<and> unat (4096 :: u64) \<le> 4097 \<and> 4097 < unat (4096 :: u64) + 2"
  using pwrite_stays_in_md_area [OF example_pwrite, of 4097]
  by (simp add: example_options_def example_ext_cfg_def example_cfg_def example_world_def write_bytes_def)

section \<open>What the fill loops write\<close>

lemma init_bitmap_loop_fills:
  assumes "init_bitmap_loop opts cfg c n off w = (Inr (), w')" and "\<not> dry_run opts"
    and "unat off + n < 2 ^ 64"
  shows "disk w' = write_bytes (disk w) (unat off) (replicate n c) \<and> same_env w w'"
  using assms
proof (induction opts cfg c n off arbitrary: w rule: init_bitmap_loop.induct)
  case (1 opts cfg c n off)
  let ?chunk = "if buffer_size < n then buffer_size else n"
  have chunk: "?chunk \<le> n" by simp
  from 1(2) obtain w1 where w1: "pwrite_or_die opts cfg (replicate ?chunk c) off w = (Inr (), w1)"
    and rest: "(if n - ?chunk = 0 then ret ()
      else init_bitmap_loop opts cfg c (n - ?chunk) (off + of_nat ?chunk)) w1 = (Inr (), w')"
    by (subst (asm) init_bitmap_loop.simps) (auto simp: Let_def elim!: bind_io_InrE)
  have d1: "disk w1 = write_bytes (disk w) (unat off) (replicate ?chunk c)" "same_env w w1"
    using pwrite_Inr [OF w1 1(3)] by simp_all
  show ?case
  proof (cases "n - ?chunk = 0")
    case True
    then have "w' = w1" "?chunk = n" using rest chunk by (auto simp: ret_def)
    then show ?thesis using d1 by simp
  next
    case False
    have off: "unat (off + of_nat ?chunk) = unat off + ?chunk"
      using 1(4) chunk by (subst unat_word_add) (simp_all add: unat_of_nat_u64)
    have "disk w' = write_bytes (disk w1) (unat (off + of_nat ?chunk)) (replicate (n - ?chunk) c)
        \<and> same_env w1 w'"
      using False rest 1(3,4) off chunk by (intro 1(1)) simp_all
    then show ?thesis
      using d1 chunk
      by (auto simp: off write_bytes_append same_env_def simp flip: replicate_add)
  qed
qed

lemma zeroout_loop_fills:
  assumes "zeroout_loop n off w = (Inr True, w')" and "unat off + n < 2 ^ 64"
  shows "disk w' = write_bytes (disk w) (unat off) (replicate n 0) \<and> same_env w w'"
  using assms
proof (induction n arbitrary: off w rule: less_induct)
  case (less n)
  let ?chunk = "if bytes_per_iteration < n then bytes_per_iteration else n"
  let ?w = "w\<lparr>n_writes := n_writes w + 1\<rparr>"
  let ?w1 = "?w\<lparr>disk := write_bytes (disk w) (unat off) (replicate ?chunk 0)\<rparr>"
  have chunk: "?chunk \<le> n" by simp
  have ok: "\<not> (zeroout_fails ?w (unat off) ?chunk \<or> unat off + ?chunk > dev_size ?w)"
    and rest: "(if n - ?chunk = 0 then (Inr True, ?w1)
      else zeroout_loop (n - ?chunk) (off + of_nat ?chunk) ?w1) = (Inr True, w')"
    using less.prems(1) by (subst (asm) zeroout_loop.simps, simp add: Let_def split: if_splits)+
  show ?case
  proof (cases "n - ?chunk = 0")
    case True
    then have "w' = ?w1" "?chunk = n" using rest chunk by auto
    then show ?thesis by (simp add: same_env_def)
  next
    case False
    have off: "unat (off + of_nat ?chunk) = unat off + ?chunk"
      using less.prems(2) chunk by (subst unat_word_add) (simp_all add: unat_of_nat_u64)
    have "disk w' = write_bytes (disk ?w1) (unat (off + of_nat ?chunk)) (replicate (n - ?chunk) 0)
        \<and> same_env ?w1 w'"
      using False rest less.prems(2) off chunk
      by (intro less.IH) (simp_all add: bytes_per_iteration_def)
    then show ?thesis
      using chunk by (auto simp: off write_bytes_append same_env_def simp flip: replicate_add)
  qed
qed

lemma zeroout_loop_partial:
  assumes "zeroout_loop n off w = (Inr ok, w')" and "unat off + n < 2 ^ 64"
  shows "\<exists>k\<le>n. disk w' = write_bytes (disk w) (unat off) (replicate k 0) \<and> same_env w w'"
  using assms
proof (induction n arbitrary: off w rule: less_induct)
  case (less n)
  let ?chunk = "if bytes_per_iteration < n then bytes_per_iteration else n"
  let ?w = "w\<lparr>n_writes := n_writes w + 1\<rparr>"
  let ?w1 = "?w\<lparr>disk := write_bytes (disk w) (unat off) (replicate ?chunk 0)\<rparr>"
  have chunk: "?chunk \<le> n" by simp
  consider (fail) "w' = ?w" | (finish) "w' = ?w1"
    | (more) "n - ?chunk \<noteq> 0" "zeroout_loop (n - ?chunk) (off + of_nat ?chunk) ?w1 = (Inr ok, w')"
    using less.prems(1) by (subst (asm) zeroout_loop.simps) (auto simp: Let_def split: if_splits)
  then show ?case
  proof cases
    case fail
    then show ?thesis by (intro exI [of _ 0]) (simp add: same_env_def)
  next
    case finish
    then show ?thesis using chunk by (intro exI [of _ ?chunk]) (simp add: same_env_def)
  next
    case more
    have off: "unat (off + of_nat ?chunk) = unat off + ?chunk"
      using less.prems(2) chunk by (subst unat_word_add) (simp_all add: unat_of_nat_u64)
    have "\<exists>k\<le>n - ?chunk. disk w' = write_bytes (disk ?w1) (unat (off + of_nat ?chunk)) (replicate k 0)
        \<and> same_env ?w1 w'"
      using more less.prems(2) off chunk
      by (intro less.IH) (simp_all add: bytes_per_iteration_def)
    then obtain k where "k \<le> n - ?chunk" "same_env ?w1 w'"
      "disk w' = write_bytes (disk ?w1) (unat (off + of_nat ?chunk)) (replicate k 0)" by blast
    then show ?thesis
      using chunk by (intro exI [of _ "?chunk + k"])
        (auto simp: off write_bytes_append same_env_def replicate_add)
  qed
qed

lemma zeroout_loop_succeeds:
  assumes "\<forall>off len. \<not> zeroout_fails w off len" and "unat off + n \<le> dev_size w" and "unat off + n < 2 ^ 64"
  shows "\<exists>w'. zeroout_loop n off w = (Inr True, w')"
  using assms
proof (induction n arbitrary: off w rule: less_induct)
  case (less n)
  let ?chunk = "if bytes_per_iteration < n then bytes_per_iteration else n"
  let ?w1 = "w\<lparr>n_writes := n_writes w + 1, disk := write_bytes (disk w) (unat off) (replicate ?chunk 0)\<rparr>"
  have chunk: "?chunk \<le> n" by simp
  have off: "unat (off + of_nat ?chunk) = unat off + ?chunk"
    using less.prems(3) chunk by (subst unat_word_add) (simp_all add: unat_of_nat_u64)
  have "\<exists>w'. zeroout_loop (n - ?chunk) (off + of_nat ?chunk) ?w1 = (Inr True, w')" if "n - ?chunk \<noteq> 0"
    using that less.prems off chunk by (intro less.IH) (simp_all add: bytes_per_iteration_def)
  then show ?case
    using less.prems chunk by (subst zeroout_loop.simps) (auto simp: Let_def)
qed

definition bitmap_area :: "format_cfg \<Rightarrow> nat" where
  "bitmap_area cfg = unat (ALIGN (cfg_bm_bytes cfg) (md_hard_sect_size cfg))"

lemma write_bytes_over:
  "length bs \<le> length cs \<Longrightarrow> write_bytes (write_bytes d off bs) off cs = write_bytes d off cs"
  by (rule ext) (auto simp: write_bytes_def)

lemma write_bytes_replicate:
  "write_bytes d off (replicate n c) i = (if off \<le> i \<and> i < off + n then c else d i)"
  by (auto simp: write_bytes_def)

lemma initialize_bitmap_disk:
  assumes run: "initialize_bitmap opts cfg w = (Inr (), w')" and nd: "\<not> dry_run opts"
    and range: "unat (cfg_bm_offset cfg) + bitmap_area cfg < 2 ^ 64"
    and mode: "option_initialize_bitmap_mode opts \<noteq> IBM_SKIP"
  shows "disk w' = write_bytes (disk w) (unat (cfg_bm_offset cfg)) (replicate (bitmap_area cfg)
    (if option_initialize_bitmap_mode opts = IBM_SET_ALL then 0xff else 0))"
proof -
  have pw: "disk w2 = write_bytes (disk w1) (unat (cfg_bm_offset cfg)) (replicate (bitmap_area cfg) c)"
    if "init_bitmap_pwrite opts cfg c w1 = (Inr (), w2)" for c w1 w2
    using init_bitmap_loop_fills that nd range
    by (simp add: init_bitmap_pwrite_def bitmap_area_def)
  have fast: "\<exists>k\<le>bitmap_area cfg. disk w1 = write_bytes (disk w) (unat (cfg_bm_offset cfg)) (replicate k 0)"
    if "zeroout_bitmap_fast cfg w = (Inr ok, w1)" for ok w1
    using zeroout_loop_partial that range by (fastforce simp: zeroout_bitmap_fast_def bitmap_area_def)
  have fast': "disk w1 = write_bytes (disk w) (unat (cfg_bm_offset cfg)) (replicate (bitmap_area cfg) 0)"
    if "zeroout_bitmap_fast cfg w = (Inr True, w1)" for w1
    using zeroout_loop_fills that range by (simp add: zeroout_bitmap_fast_def bitmap_area_def)
  show ?thesis
  proof (cases "option_initialize_bitmap_mode opts")
    case IBM_ZEROOUT
    then obtain ok w1 where w1: "zeroout_bitmap_fast cfg w = (Inr ok, w1)"
      and rest: "(if ok then ret () else zeroout_bitmap_pwrite opts cfg) w1 = (Inr (), w')"
      using run by (auto simp: initialize_bitmap_def elim: bind_io_InrE)
    from fast [OF w1] obtain k where k: "k \<le> bitmap_area cfg"
      "disk w1 = write_bytes (disk w) (unat (cfg_bm_offset cfg)) (replicate k 0)" by blast
    show ?thesis
    proof (cases ok)
      case True
      then show ?thesis using w1 rest fast' IBM_ZEROOUT by (simp add: ret_def)
    next
      case False
      then show ?thesis
        using rest pw [of 0 w1 w'] k IBM_ZEROOUT by (simp add: zeroout_bitmap_pwrite_def write_bytes_over)
    qed
  next
    case IBM_ZEROOUT_IOCTL_ONLY
    then show ?thesis
      using run fast' by (auto simp: initialize_bitmap_def ret_def stop_io_def elim!: bind_io_InrE split: if_splits)
  qed (use run mode pw in \<open>simp_all add: initialize_bitmap_def zeroout_bitmap_pwrite_def set_all_bitmap_pwrite_def\<close>)
qed

text \<open>
  C28. When \<^verbatim>\<open>initialize_bitmap\<close> returns, in any mode but \<^verbatim>\<open>skip\<close>, every byte of the
  bitmap area has the fill value, also when the fast method failed half way and the fallback
  took over, and no byte outside the area changed.
\<close>

theorem initialize_bitmap_exact:
  assumes "initialize_bitmap opts cfg w = (Inr (), w')" and "\<not> dry_run opts"
    and "unat (cfg_bm_offset cfg) + bitmap_area cfg < 2 ^ 64"
    and "option_initialize_bitmap_mode opts \<noteq> IBM_SKIP"
  shows "disk w' i = (if unat (cfg_bm_offset cfg) \<le> i \<and> i < unat (cfg_bm_offset cfg) + bitmap_area cfg
    then (if option_initialize_bitmap_mode opts = IBM_SET_ALL then 0xff else 0) else disk w i)"
  using initialize_bitmap_disk [OF assms] by (simp add: write_bytes_replicate)

lemma initialize_bitmap_fast_ok:
  assumes "\<forall>off len. \<not> zeroout_fails w off len"
    and "unat (cfg_bm_offset cfg) + bitmap_area cfg \<le> dev_size w"
    and "unat (cfg_bm_offset cfg) + bitmap_area cfg < 2 ^ 64"
    and "option_initialize_bitmap_mode opts = IBM_ZEROOUT"
  obtains w' where "initialize_bitmap opts cfg w = (Inr (), w')"
    and "disk w' = write_bytes (disk w) (unat (cfg_bm_offset cfg)) (replicate (bitmap_area cfg) 0)"
proof -
  obtain w' where w': "zeroout_bitmap_fast cfg w = (Inr True, w')"
    using zeroout_loop_succeeds [of w "cfg_bm_offset cfg" "bitmap_area cfg"] assms
    by (auto simp: zeroout_bitmap_fast_def bitmap_area_def)
  moreover have "disk w' = write_bytes (disk w) (unat (cfg_bm_offset cfg)) (replicate (bitmap_area cfg) 0)"
    using w' zeroout_loop_fills [of "bitmap_area cfg" "cfg_bm_offset cfg" w w'] assms(3)
    by (simp add: zeroout_bitmap_fast_def bitmap_area_def)
  ultimately show ?thesis
    using that assms(4) by (simp add: initialize_bitmap_def bind_io_def ret_def)
qed

lemma example_bitmap_area: "bitmap_area example_ext_cfg = 4096" "unat (cfg_bm_offset example_ext_cfg) = 36864"
  by (simp_all add: bitmap_area_def example_ext_cfg_def example_cfg_def ALIGN_def)

theorem initialize_bitmap_exact_witness:
  "\<exists>w'. initialize_bitmap example_options example_ext_cfg example_world = (Inr (), w')
    \<and> disk w' 36864 = 0 \<and> disk w' 40960 = 7"
proof -
  obtain w' where w': "initialize_bitmap example_options example_ext_cfg example_world = (Inr (), w')"
    by (rule initialize_bitmap_fast_ok [of example_world example_ext_cfg example_options])
      (simp_all add: example_bitmap_area, simp_all add: example_world_def example_options_def)
  show ?thesis
    using w' initialize_bitmap_exact [OF w', of 36864] initialize_bitmap_exact [OF w', of 40960]
    by (simp add: example_bitmap_area) (simp add: example_world_def example_options_def)
qed

text \<open>
  C36. With \<^verbatim>\<open>--dry-run\<close>, \<^verbatim>\<open>pwrite_or_die\<close> writes nothing, but the default mode of
  \<^verbatim>\<open>initialize_bitmap\<close> reaches \<^verbatim>\<open>zeroout_bitmap_fast\<close>, which does not look at the
  option: on a device that supports \<^verbatim>\<open>BLKZEROOUT\<close> a dry run zeroes the bitmap area.
\<close>

theorem dry_run_zeroes_bitmap:
  assumes "dry_run opts"
  shows "(pwrite_or_die opts cfg buf off w = (r, w') \<longrightarrow> disk w' = disk w)
    \<and> (option_initialize_bitmap_mode opts = IBM_ZEROOUT
       \<and> (\<forall>off len. \<not> zeroout_fails w off len)
       \<and> unat (cfg_bm_offset cfg) + bitmap_area cfg \<le> dev_size w
       \<and> unat (cfg_bm_offset cfg) + bitmap_area cfg < 2 ^ 64
       \<longrightarrow> (\<exists>w'. initialize_bitmap opts cfg w = (Inr (), w')
          \<and> (\<forall>i. unat (cfg_bm_offset cfg) \<le> i \<and> i < unat (cfg_bm_offset cfg) + bitmap_area cfg
               \<longrightarrow> disk w' i = 0)))"
proof -
  have "disk w' = disk w" if "pwrite_or_die opts cfg buf off w = (r, w')"
    using pwrite_result(2) [OF that] assms by simp
  moreover have "\<exists>w'. initialize_bitmap opts cfg w = (Inr (), w')
      \<and> (\<forall>i. unat (cfg_bm_offset cfg) \<le> i \<and> i < unat (cfg_bm_offset cfg) + bitmap_area cfg \<longrightarrow> disk w' i = 0)"
    if "option_initialize_bitmap_mode opts = IBM_ZEROOUT" "\<forall>off len. \<not> zeroout_fails w off len"
      "unat (cfg_bm_offset cfg) + bitmap_area cfg \<le> dev_size w"
      "unat (cfg_bm_offset cfg) + bitmap_area cfg < 2 ^ 64"
  proof -
    note hyps = that
    obtain w2 where "initialize_bitmap opts cfg w = (Inr (), w2)"
      "disk w2 = write_bytes (disk w) (unat (cfg_bm_offset cfg)) (replicate (bitmap_area cfg) 0)"
      by (rule initialize_bitmap_fast_ok [OF hyps(2,3,4,1)])
    then show ?thesis by (intro exI [of _ w2]) (simp add: write_bytes_replicate)
  qed
  ultimately show ?thesis by blast
qed

theorem dry_run_zeroes_bitmap_witness:
  "\<exists>w'. initialize_bitmap (example_options\<lparr>dry_run := True\<rparr>) example_ext_cfg example_world = (Inr (), w')
    \<and> disk example_world 36864 = 7 \<and> disk w' 36864 = 0"
  using dry_run_zeroes_bitmap [of "example_options\<lparr>dry_run := True\<rparr>" example_ext_cfg "[]" 0 example_world undefined undefined]
  by (simp add: example_bitmap_area) (auto simp: example_world_def example_options_def)

end
