(* ===== verification/Activity_Log.thy ===== *)
theory Activity_Log
  imports Device Crc32c
begin

text \<open>
  The activity log: decoding of the v07 sectors and the v84 transactions, the scan for the
  oldest and the newest transaction of the ring, the replay that rebuilds the set of hot
  extents, the striped placement of the transactions on disk, and the initialisation of the
  area (\<^verbatim>\<open>user/shared/drbdmeta.c\<close>).
\<close>

unbundle bit_operations_syntax

section \<open>The v07 log\<close>

record al_sector_cpu =
  s_magic :: u32
  s_tr_number :: u32
  s_updates :: "(u32 \<times> u32) list"
  s_xor_sum :: u32

record al_sector_on_disk =
  ds_magic :: u32
  ds_tr_number :: u32
  ds_updates :: "(u32 \<times> u32) list"
  ds_xor_sum :: u32
  ds_pad :: u32

definition get_al_update :: "host \<Rightarrow> bytes \<Rightarrow> (u32 \<times> u32) \<times> bytes" where
  "get_al_update h bs = (let (pos, bs) = get32 h bs; (extent, bs) = get32 h bs in ((pos, extent), bs))"

definition get_al_sector :: "host \<Rightarrow> bytes \<Rightarrow> al_sector_on_disk" where
  "get_al_sector h bs =
    (let (magic, bs) = get32 h bs; (tr, bs) = get32 h bs; (us, bs) = get_array (get_al_update h) 62 bs;
         (xor, bs) = get32 h bs; (pad, bs) = get32 h bs
     in \<lparr>ds_magic = magic, ds_tr_number = tr, ds_updates = us, ds_xor_sum = xor, ds_pad = pad\<rparr>)"

definition v07_al_disk_to_cpu :: "headers \<Rightarrow> host \<Rightarrow> al_sector_on_disk \<Rightarrow> al_sector_cpu \<times> bool" where
  "v07_al_disk_to_cpu H h al_disk =
    (let updates = map (\<lambda>(pos, extent). (be32_to_cpu h pos, be32_to_cpu h extent)) (ds_updates al_disk);
         xor_sum = fold (\<lambda>(pos, extent) x. x XOR extent) updates 0;
         al_cpu = \<lparr>s_magic = be32_to_cpu h (ds_magic al_disk),
           s_tr_number = be32_to_cpu h (ds_tr_number al_disk), s_updates = updates,
           s_xor_sum = be32_to_cpu h (ds_xor_sum al_disk)\<rparr>
     in (al_cpu, s_magic al_cpu = DRBD_MAGIC H \<and> s_xor_sum al_cpu = xor_sum))"

section \<open>The v84 log\<close>

definition AL_EXTENTS_MAX :: nat where "AL_EXTENTS_MAX = 65534"

record al_4k_cpu =
  a_magic :: u32
  a_tr_number :: u32
  a_crc32c :: u32
  a_transaction_type :: u16
  a_n_updates :: u16
  a_context_size :: u16
  a_context_start_slot_nr :: u16
  a_update_slot_nr :: "u16 list"
  a_update_extent_nr :: "u32 list"
  a_context :: "u32 list"
  a_is_valid :: bool

text \<open>
  Decoding clears the check sum in the buffer before it computes the sum over the block; the
  changed block is returned, too.
\<close>

definition v84_al_disk_to_cpu ::
  "headers \<Rightarrow> host \<Rightarrow> al_transaction_on_disk \<Rightarrow> al_4k_cpu \<times> al_transaction_on_disk" where
  "v84_al_disk_to_cpu H h al_disk =
    (let magic = be32_to_cpu h (da_magic al_disk);
         crc = be32_to_cpu h (da_crc32c al_disk);
         al_disk' = al_disk\<lparr>da_crc32c := 0\<rparr>
     in (\<lparr>a_magic = magic, a_tr_number = be32_to_cpu h (da_tr_number al_disk), a_crc32c = crc,
          a_transaction_type = be16_to_cpu h (da_transaction_type al_disk),
          a_n_updates = be16_to_cpu h (da_n_updates al_disk),
          a_context_size = be16_to_cpu h (da_context_size al_disk),
          a_context_start_slot_nr = be16_to_cpu h (da_context_start_slot_nr al_disk),
          a_update_slot_nr = map (be16_to_cpu h) (da_update_slot_nr al_disk),
          a_update_extent_nr = map (be32_to_cpu h) (da_update_extent_nr al_disk),
          a_context = map (be32_to_cpu h) (da_context al_disk),
          a_is_valid = (magic = DRBD_AL_MAGIC H \<and> crc = crc32c 0 (put_al H h al_disk'))\<rparr>,
         al_disk'))"

section \<open>Oldest and newest transaction\<close>

text \<open>
  \<^verbatim>\<open>struct al_cursor\<close>; transaction numbers are compared by their signed difference. In C the
  difference of two \<^verbatim>\<open>int\<close>s that overflows is undefined; here it wraps, as the comparison intends
  and as the machines do that the tools are built for.
\<close>

record al_cursor =
  c_i :: nat
  c_tr :: u32

text \<open>The scan state: number of usable transactions seen, oldest, newest.\<close>

definition al_scan_step ::
  "nat \<Rightarrow> u32 \<Rightarrow> nat \<times> al_cursor \<times> al_cursor \<Rightarrow> nat \<times> al_cursor \<times> al_cursor" where
  "al_scan_step b tr = (\<lambda>(found, oldest, newest).
    if found = 0 then (1, \<lparr>c_i = b, c_tr = tr\<rparr>, \<lparr>c_i = b, c_tr = tr\<rparr>)
    else (found + 1,
      if sint (tr - c_tr oldest) < 0 then \<lparr>c_i = b, c_tr = tr\<rparr> else oldest,
      if sint (tr - c_tr newest) > 0 then \<lparr>c_i = b, c_tr = tr\<rparr> else newest))"

definition al_scan_init :: "nat \<times> al_cursor \<times> al_cursor" where
  "al_scan_init = (0, \<lparr>c_i = 0, c_tr = 0\<rparr>, \<lparr>c_i = 0, c_tr = 0\<rparr>)"

text \<open>The indices that the replay loop visits, in order: from oldest to newest, wrapping.\<close>

definition replay_order :: "nat \<Rightarrow> al_cursor \<Rightarrow> al_cursor \<Rightarrow> nat list" where
  "replay_order mx oldest newest =
    (let last = (if c_i newest < c_i oldest then c_i newest + mx else c_i newest)
     in map (\<lambda>b. b mod mx) [c_i oldest..<last + 1])"

section \<open>Replay of the v07 log\<close>

definition AL_EXTENTS_PT :: nat where "AL_EXTENTS_PT = 61"

definition al_07_mx :: "md_cpu \<Rightarrow> u32" where
  "al_07_mx md = 1 + (al_nr_extents md + of_nat AL_EXTENTS_PT - 1) div of_nat AL_EXTENTS_PT"

text \<open>
  The local arrays \<^verbatim>\<open>al_cpu\<close> and \<^verbatim>\<open>valid\<close> have \<^verbatim>\<open>MD_AL_MAX_SECT_07\<close> elements, while the number of
  sectors comes from the super block: every access is checked.
\<close>

definition replay_sector_07 :: "al_sector_cpu \<Rightarrow> u32 list \<Rightarrow> u32 list res" where
  "replay_sector_07 al_cpu = fold_res (\<lambda>i hot.
     bind_res (array_get (s_updates al_cpu) i) (\<lambda>(slot, extent).
       if extent = -1 then Inr hot
       else if unat slot \<ge> AL_EXTENTS_MAX then Inr hot
       else array_put hot (unat slot) extent))
     (rev [0..<AL_EXTENTS_PT + 1])"

definition no_sector :: "al_sector_cpu \<times> bool" where
  "no_sector = (\<lparr>s_magic = 0, s_tr_number = 0, s_updates = replicate 62 (0, 0), s_xor_sum = 0\<rparr>, False)"

definition read_sectors_07 ::
  "headers \<Rightarrow> host \<Rightarrow> bytes \<Rightarrow> nat \<Rightarrow> ((al_sector_cpu \<times> bool) list \<times> nat \<times> al_cursor \<times> al_cursor) res" where
  "read_sectors_07 H h buf mx = fold_res (\<lambda>b (al, st).
     let (al_cpu, ok) = v07_al_disk_to_cpu H h (get_al_sector h (drop (512 * b) buf))
     in bind_res (array_put al b (al_cpu, ok)) (\<lambda>al. Inr (al, if ok then al_scan_step b (s_tr_number al_cpu) st else st)))
     [0..<mx] (replicate MD_AL_MAX_SECT_07 no_sector, al_scan_init)"

definition replay_al_07 :: "headers \<Rightarrow> host \<Rightarrow> md_cpu \<Rightarrow> bytes \<Rightarrow> u32 list \<Rightarrow> (int \<times> u32 list) res" where
  "replay_al_07 H h md buf hot =
    (let mx = unat (al_07_mx md) in
     bind_res (read_sectors_07 H h buf mx) (\<lambda>(al, found, oldest, newest).
       if found = 0 then Inr (0, hot)
       else bind_res (fold_res (\<lambda>idx hot. bind_res (array_get al idx) (\<lambda>(al_cpu, ok).
           if ok then replay_sector_07 al_cpu hot else Inr hot)) (replay_order mx oldest newest) hot)
         (\<lambda>hot. Inr (int found, hot))))"

section \<open>Replay of the v84 log\<close>

definition put_hot :: "nat \<Rightarrow> u32 \<Rightarrow> u32 list \<Rightarrow> u32 list" where
  "put_hot slot extent hot = (if slot \<ge> AL_EXTENTS_MAX then hot else hot[slot := extent])"

text \<open>Unsigned 32 bit arithmetic: \<open>stripes\<close> and \<open>stripe_size_4kB\<close> come from the super block.\<close>

definition al_tr_number_to_on_disk_slot :: "md_cpu \<Rightarrow> u32 \<Rightarrow> u32 \<Rightarrow> u32" where
  "al_tr_number_to_on_disk_slot md b mx =
    (let t = b mod mx
     in (t mod al_stripes md) * al_stripe_size_4k md + t div al_stripes md)"

definition al_mx :: "md_cpu \<Rightarrow> u32" where
  "al_mx md = al_stripes md * al_stripe_size_4k md"

definition replay_context :: "headers \<Rightarrow> al_4k_cpu \<Rightarrow> u32 list \<Rightarrow> u32 list" where
  "replay_context H al_cpu hot =
    fold (\<lambda>i hot. let slot = unat (a_context_start_slot_nr al_cpu) + i in
            if a_context al_cpu ! i = -1 \<and> slot \<ge> unat (a_context_size al_cpu) then hot
            else put_hot slot (a_context al_cpu ! i) hot)
      [0..<AL_CONTEXT_PER_TRANSACTION H] hot"

definition replay_updates :: "headers \<Rightarrow> al_4k_cpu \<Rightarrow> u32 list \<Rightarrow> u32 list" where
  "replay_updates H al_cpu hot =
    fold (\<lambda>i hot. let slot = a_update_slot_nr al_cpu ! i in
            if i \<ge> unat (a_n_updates al_cpu) \<and> slot = -1 then hot
            else put_hot (unat slot) (a_update_extent_nr al_cpu ! i) hot)
      [0..<AL_UPDATES_PER_TRANSACTION H] hot"

definition replay_transaction :: "headers \<Rightarrow> al_4k_cpu \<Rightarrow> u32 list \<Rightarrow> u32 list" where
  "replay_transaction H al_cpu hot = replay_updates H al_cpu (replay_context H al_cpu hot)"

definition is_update_transaction :: "headers \<Rightarrow> al_4k_cpu \<Rightarrow> bool" where
  "is_update_transaction H al_cpu \<longleftrightarrow>
     \<not> (\<not> a_is_valid al_cpu \<or> a_transaction_type al_cpu = AL_TR_INITIALIZED H)"

text \<open>
  The first loop: convert the transactions in ring order, each from its place on disk. A place
  outside the buffer is an access out of bounds.
\<close>

definition al_decode_step ::
  "headers \<Rightarrow> host \<Rightarrow> md_cpu \<Rightarrow> nat \<Rightarrow> (al_4k_cpu list \<times> al_transaction_on_disk list) res
    \<Rightarrow> (al_4k_cpu list \<times> al_transaction_on_disk list) res" where
  "al_decode_step H h md b r = bind_res r (\<lambda>(cpus, al_disk).
    let o' = unat (al_tr_number_to_on_disk_slot md (of_nat b) (al_mx md)) in
    if o' \<ge> length al_disk then Inl OutOfBounds
    else let (c, d) = v84_al_disk_to_cpu H h (al_disk ! o') in Inr (cpus @ [c], al_disk[o' := d]))"

definition al_decode ::
  "headers \<Rightarrow> host \<Rightarrow> md_cpu \<Rightarrow> al_transaction_on_disk list
    \<Rightarrow> (al_4k_cpu list \<times> al_transaction_on_disk list) res" where
  "al_decode H h md al_disk = fold (al_decode_step H h md) [0..<unat (al_mx md)] (Inr ([], al_disk))"

definition al_scan_84 :: "headers \<Rightarrow> al_4k_cpu list \<Rightarrow> nat \<times> al_cursor \<times> al_cursor" where
  "al_scan_84 H cpus = fold (\<lambda>b st. if is_update_transaction H (cpus ! b)
      then al_scan_step b (a_tr_number (cpus ! b)) st else st) [0..<length cpus] al_scan_init"

definition ENODATA :: int where "ENODATA = 61"
definition EINVAL :: int where "EINVAL = 22"

definition replay_al_84 ::
  "headers \<Rightarrow> host \<Rightarrow> md_cpu \<Rightarrow> al_transaction_on_disk list \<Rightarrow> u32 list \<Rightarrow> (int \<times> u32 list) res" where
  "replay_al_84 H h md al_disk hot = bind_res (al_decode H h md al_disk) (\<lambda>(cpus, _).
    let mx = unat (al_mx md);
        found_valid = length (filter a_is_valid cpus);
        (found_valid_updates, oldest, newest) = al_scan_84 H cpus
    in if found_valid = 0 then Inr (- ENODATA, hot)
       else if found_valid_updates = 0 then
         Inr (if found_valid = mx then 0
              else if \<not> a_is_valid (cpus ! 0) \<and> found_valid = mx - 1 then 0
              else - EINVAL, hot)
       else Inr (int found_valid_updates,
         fold (\<lambda>idx hot. if is_update_transaction H (cpus ! idx)
                 then replay_transaction H (cpus ! idx) hot else hot)
           (replay_order mx oldest newest) hot))"

text \<open>\<open>hot_extent\<close> has \<^verbatim>\<open>AL_EXTENTS_MAX\<close> elements, which the loop does not check.\<close>

definition replay_al_pmem :: "headers \<Rightarrow> host \<Rightarrow> md_cpu \<Rightarrow> bytes \<Rightarrow> u32 list \<Rightarrow> (int \<times> u32 list) res" where
  "replay_al_pmem H h md buf hot =
    (if unat (al_nr_extents md) > length hot then Inl OutOfBounds
     else Inr (1, fill_array (unat (al_nr_extents md)) (\<lambda>i. be32_to_cpu h (al_on_pmem_slot H h buf i)) hot))"

section \<open>Initialisation of the log\<close>

text \<open>
  The check sum is computed once, over the first block before its check sum is stored.
  \<^verbatim>\<open>mx * 4096\<close> is an unsigned 32 bit product; a log larger than the buffer is written out of
  its bounds.
\<close>

definition initialized_transaction :: "headers \<Rightarrow> host \<Rightarrow> al_transaction_on_disk" where
  "initialized_transaction H h = (zero_al H)\<lparr>da_magic := cpu_to_be32 h (DRBD_AL_MAGIC H),
     da_transaction_type := cpu_to_be16 h (AL_TR_INITIALIZED H)\<rparr>"

definition initial_al_blocks :: "headers \<Rightarrow> host \<Rightarrow> nat \<Rightarrow> al_transaction_on_disk list" where
  "initial_al_blocks H h mx =
    (let al = initialized_transaction H h;
         crc_be = cpu_to_be32 h (crc32c 0 (put_al H h al))
     in replicate mx (al\<lparr>da_crc32c := crc_be\<rparr>))"

definition initialize_al :: "headers \<Rightarrow> host \<Rightarrow> options \<Rightarrow> format_cfg \<Rightarrow> unit io" where
  "initialize_al H h opts cfg =
    (let mx = al_mx (cfg_md cfg); al_size = unat (mx * 4096) in
     if al_size > buffer_size \<or> unat mx * 4096 > buffer_size
       \<and> format_version (ops cfg) \<ge> format_version DRBD_V08
     then stop_io OutOfBounds
     else pwrite_or_die opts cfg
       (if format_version (ops cfg) \<ge> format_version DRBD_V08
        then concat (map (put_al H h) (initial_al_blocks H h (unat mx)))
        else replicate al_size 0) (cfg_al_offset cfg))"

section \<open>The placement of transactions is a bijection\<close>

text \<open>The striping on natural numbers.\<close>

definition stripe_slot :: "nat \<Rightarrow> nat \<Rightarrow> nat \<Rightarrow> nat" where
  "stripe_slot S Z b = (b mod S) * Z + b div S"

lemma stripe_slot_less: "b < S * Z \<Longrightarrow> stripe_slot S Z b < S * Z"
proof -
  assume b: "b < S * Z"
  then have "0 < S" by (cases S) simp_all
  then have "b mod S + 1 \<le> S" using mod_less_divisor [of S b] by (simp add: Suc_le_eq)
  then have "(b mod S + 1) * Z \<le> S * Z" by (rule mult_le_mono1)
  moreover have "b div S < Z" using b by (simp add: less_mult_imp_div_less mult.commute)
  ultimately show ?thesis by (simp add: stripe_slot_def algebra_simps)
qed

lemma stripe_slot_inverse:
  assumes "b < S * Z"
  shows "(stripe_slot S Z b mod Z) * S + stripe_slot S Z b div Z = b"
proof -
  have "b div S < Z" using assms by (simp add: less_mult_imp_div_less mult.commute)
  then have "stripe_slot S Z b mod Z = b div S" "stripe_slot S Z b div Z = b mod S"
    by (simp_all add: stripe_slot_def)
  then show ?thesis by simp
qed

lemma stripe_slot_inj: "inj_on (stripe_slot S Z) {..<S * Z}"
  by (rule inj_onI) (metis lessThan_iff stripe_slot_inverse)

lemma stripe_slot_bij: "bij_betw (stripe_slot S Z) {..<S * Z} {..<S * Z}"
proof -
  have "stripe_slot S Z ` {..<S * Z} \<subseteq> {..<S * Z}"
    using stripe_slot_less by auto
  then show ?thesis
    using stripe_slot_inj by (simp add: bij_betw_def card_image endo_inj_surj)
qed

text \<open>The size of the log does not exceed what 32 bits can count.\<close>

definition al_fits :: "md_cpu \<Rightarrow> bool" where
  "al_fits md \<longleftrightarrow> al_blocks md < 2 ^ 32"

lemma unat_al_mx: "al_fits md \<Longrightarrow> unat (al_mx md) = al_blocks md"
  by (simp add: al_fits_def al_mx_def al_blocks_def unat_mult_lem [THEN iffD1])

lemma on_disk_slot_eq:
  assumes fits: "al_fits md" and b: "b < al_blocks md"
  shows "unat (al_tr_number_to_on_disk_slot md (of_nat b) (al_mx md))
    = stripe_slot (unat (al_stripes md)) (unat (al_stripe_size_4k md)) b"
proof -
  let ?S = "unat (al_stripes md)" and ?Z = "unat (al_stripe_size_4k md)"
  have lt: "?S * ?Z < 2 ^ 32" and b': "b < ?S * ?Z"
    using fits b by (simp_all add: al_fits_def al_blocks_def)
  have "unat (of_nat b mod al_mx md) = b"
    using b lt by (simp add: unat_mod unat_al_mx [OF fits] unat_of_nat_u32 al_blocks_def)
  then have t: "of_nat b mod al_mx md = (of_nat b :: u32)" by (intro word_eq_of_nat)
  have slot: "stripe_slot ?S ?Z b < 2 ^ 32" using stripe_slot_less [OF b'] lt by simp
  have m: "unat (of_nat b mod al_stripes md) = b mod ?S" "unat (of_nat b div al_stripes md) = b div ?S"
    using b' lt by (simp_all add: unat_mod unat_div unat_of_nat_u32)
  have "(b mod ?S) * ?Z < 2 ^ 32" using slot by (simp add: stripe_slot_def)
  then have "unat ((of_nat b mod al_stripes md) * al_stripe_size_4k md) = (b mod ?S) * ?Z"
    by (simp add: unat_mult_lem [THEN iffD1] m)
  then show ?thesis
    using slot by (simp add: al_tr_number_to_on_disk_slot_def t Let_def stripe_slot_def m
        unat_add_lem [THEN iffD1])
qed

text \<open>
  C14. For every striping whose size is below \<open>2^32\<close> blocks, the mapping of transaction
  numbers to places on disk, \<^verbatim>\<open>al_tr_number_to_on_disk_slot\<close>, is a permutation of the
  blocks of the log: no transaction overwrites another before the ring wraps, and the scan
  reads every block exactly once.
\<close>

theorem al_slot_permutation:
  assumes "al_fits md"
  shows "bij_betw (\<lambda>b. unat (al_tr_number_to_on_disk_slot md (of_nat b) (al_mx md)))
    {..<al_blocks md} {..<al_blocks md}"
proof -
  have "bij_betw (stripe_slot (unat (al_stripes md)) (unat (al_stripe_size_4k md)))
      {..<al_blocks md} {..<al_blocks md}"
    unfolding al_blocks_def by (rule stripe_slot_bij)
  then show ?thesis
    by (subst bij_betw_cong [of _ _ "stripe_slot (unat (al_stripes md)) (unat (al_stripe_size_4k md))"])
      (simp_all add: on_disk_slot_eq [OF assms])
qed

theorem al_slot_permutation_witness:
  "bij_betw (\<lambda>b. unat (al_tr_number_to_on_disk_slot
      ((zero_md example_headers)\<lparr>al_stripes := 3, al_stripe_size_4k := 8\<rparr>) (of_nat b)
      (al_mx ((zero_md example_headers)\<lparr>al_stripes := 3, al_stripe_size_4k := 8\<rparr>)))) {..<24} {..<24}"
  using al_slot_permutation [of "(zero_md example_headers)\<lparr>al_stripes := 3, al_stripe_size_4k := 8\<rparr>"]
  by (simp add: al_fits_def al_blocks_def)

section \<open>Decoding\<close>

definition ring_transaction :: "headers \<Rightarrow> host \<Rightarrow> md_cpu \<Rightarrow> al_transaction_on_disk list \<Rightarrow> nat \<Rightarrow> al_4k_cpu" where
  "ring_transaction H h md al_disk b = fst (v84_al_disk_to_cpu H h
     (al_disk ! stripe_slot (unat (al_stripes md)) (unat (al_stripe_size_4k md)) b))"

lemma al_decode_prefix:
  assumes fits: "al_fits md" and len: "al_blocks md \<le> length al_disk" and "n \<le> al_blocks md"
  shows "\<exists>d. fold (al_decode_step H h md) [0..<n] (Inr ([], al_disk))
      = Inr (map (ring_transaction H h md al_disk) [0..<n], d)
    \<and> length d = length al_disk
    \<and> (\<forall>b. n \<le> b \<and> b < al_blocks md \<longrightarrow>
        d ! stripe_slot (unat (al_stripes md)) (unat (al_stripe_size_4k md)) b
        = al_disk ! stripe_slot (unat (al_stripes md)) (unat (al_stripe_size_4k md)) b)"
  using assms(3)
proof (induction n)
  case (Suc n)
  let ?slot = "stripe_slot (unat (al_stripes md)) (unat (al_stripe_size_4k md))"
  from Suc obtain d where d: "fold (al_decode_step H h md) [0..<n] (Inr ([], al_disk))
      = Inr (map (ring_transaction H h md al_disk) [0..<n], d)" "length d = length al_disk"
    and rest: "\<forall>b. n \<le> b \<and> b < al_blocks md \<longrightarrow> d ! ?slot b = al_disk ! ?slot b"
    by auto
  have n: "n < al_blocks md" using Suc.prems by simp
  have slot: "?slot n < length d"
    using stripe_slot_less [of n "unat (al_stripes md)" "unat (al_stripe_size_4k md)"] n len d(2)
    by (simp add: al_blocks_def)
  have upd: "d[?slot n := x] ! ?slot b = al_disk ! ?slot b" if "Suc n \<le> b" "b < al_blocks md" for b x
  proof -
    have "?slot n \<noteq> ?slot b"
      using inj_onD [OF stripe_slot_inj, of "unat (al_stripes md)" "unat (al_stripe_size_4k md)" n b] that n
      by (auto simp: al_blocks_def)
    moreover have "d ! ?slot b = al_disk ! ?slot b" using rest that by simp
    ultimately show ?thesis by simp
  qed
  have "d ! ?slot n = al_disk ! ?slot n" using rest n by simp
  then have "al_decode_step H h md n (Inr (cs, d)) = Inr (cs @ [ring_transaction H h md al_disk n],
      d[?slot n := snd (v84_al_disk_to_cpu H h (al_disk ! ?slot n))])" for cs
    using slot on_disk_slot_eq [OF fits n]
    by (simp add: al_decode_step_def case_prod_beta Let_def ring_transaction_def)
  then show ?case
    using d upd by simp
qed simp

lemma al_decode_eq:
  assumes "al_fits md" and "al_blocks md \<le> length al_disk"
  shows "\<exists>d. al_decode H h md al_disk = Inr (map (ring_transaction H h md al_disk) [0..<al_blocks md], d)"
  using al_decode_prefix [OF assms order_refl, of H h] unat_al_mx [OF assms(1)]
  by (auto simp: al_decode_def)

section \<open>The scan finds the ends of the ring\<close>

text \<open>
  \<open>upd\<close> are the indices that hold update transactions, \<open>key\<close> their age: the
  transaction number of index \<open>b\<close> is \<open>T + key b\<close>, modulo \<open>2^32\<close>.
\<close>

definition scan_inv ::
  "(nat \<Rightarrow> bool) \<Rightarrow> (nat \<Rightarrow> nat) \<Rightarrow> u32 \<Rightarrow> nat \<Rightarrow> nat \<times> al_cursor \<times> al_cursor \<Rightarrow> bool" where
  "scan_inv upd key T n st \<longleftrightarrow> (case st of (found, oldest, newest) \<Rightarrow>
     found = card {b. b < n \<and> upd b} \<and>
     (0 < found \<longrightarrow>
       c_i oldest < n \<and> upd (c_i oldest) \<and> c_tr oldest = T + of_nat (key (c_i oldest)) \<and>
       c_i newest < n \<and> upd (c_i newest) \<and> c_tr newest = T + of_nat (key (c_i newest)) \<and>
       (\<forall>b<n. upd b \<longrightarrow> key (c_i oldest) \<le> key b \<and> key b \<le> key (c_i newest))))"

lemma tr_difference:
  assumes "i < 2 ^ 31" and "j < 2 ^ 31"
  shows "sint ((T + of_nat i) - (T + of_nat j) :: u32) = int i - int j"
proof -
  have "(T + of_nat i) - (T + of_nat j) = (of_int (int i - int j) :: u32)" by simp
  moreover have "sint (of_int (int i - int j) :: u32) = int i - int j"
    using assms by (intro sint_of_int_u32) simp_all
  ultimately show ?thesis by simp
qed

lemma all_less_Suc_upd: "(\<forall>b<Suc n. upd b \<longrightarrow> P b) \<longleftrightarrow> (upd n \<longrightarrow> P n) \<and> (\<forall>b<n. upd b \<longrightarrow> P b)"
  by (auto simp: less_Suc_eq)

lemma card_less_Suc_upd:
  "card {b. b < Suc n \<and> upd b} = (if upd n then Suc (card {b. b < n \<and> upd b}) else card {b. b < n \<and> upd b})"
proof -
  have "{b. b < Suc n \<and> upd b} = (if upd n then insert n {b. b < n \<and> upd b} else {b. b < n \<and> upd b})"
    by (auto simp: less_Suc_eq)
  then show ?thesis by simp
qed

lemma scan_inv_step:
  assumes inv: "scan_inv upd key T n st" and small: "\<forall>b. upd b \<longrightarrow> key b < 2 ^ 31"
  shows "scan_inv upd key T (Suc n) (if upd n then al_scan_step n (T + of_nat (key n)) st else st)"
proof -
  obtain found oldest newest where st: "st = (found, oldest, newest)" by (cases st)
  note suc = scan_inv_def st al_scan_step_def all_less_Suc_upd card_less_Suc_upd
  consider "\<not> upd n" | (first) "upd n" "found = 0" | (more) "upd n" "0 < found" by blast
  then show ?thesis
  proof cases
    case 1
    with inv show ?thesis unfolding suc by (simp add: less_SucI)
  next
    case first
    then have "card {b. b < n \<and> upd b} = 0" using inv by (simp add: scan_inv_def st)
    then have "{b. b < n \<and> upd b} = {}" by simp
    then have "\<forall>b<n. \<not> upd b" by auto
    with first show ?thesis unfolding suc by simp
  next
    case more
    then have old: "upd (c_i oldest)" "c_tr oldest = T + of_nat (key (c_i oldest))"
      and new: "upd (c_i newest)" "c_tr newest = T + of_nat (key (c_i newest))"
      using inv by (simp_all add: scan_inv_def st)
    have "sint (T + of_nat (key n) - c_tr oldest) = int (key n) - int (key (c_i oldest))"
      "sint (T + of_nat (key n) - c_tr newest) = int (key n) - int (key (c_i newest))"
      unfolding old(2) new(2) using small more(1) old(1) new(1) by (simp_all only: tr_difference)
    then have step: "al_scan_step n (T + of_nat (key n)) st = (found + 1,
        if key n < key (c_i oldest) then \<lparr>c_i = n, c_tr = T + of_nat (key n)\<rparr> else oldest,
        if key n > key (c_i newest) then \<lparr>c_i = n, c_tr = T + of_nat (key n)\<rparr> else newest)"
      using more by (simp add: al_scan_step_def st)
    have range: "\<forall>b<n. upd b \<longrightarrow> key (c_i oldest) \<le> key b \<and> key b \<le> key (c_i newest)"
      and lt: "c_i oldest < n" "c_i newest < n" and f: "found = card {b. b < n \<and> upd b}"
      using inv more by (simp_all add: scan_inv_def st)
    have "key (if key n < key (c_i oldest) then n else c_i oldest) \<le> key b
        \<and> key b \<le> key (if key n > key (c_i newest) then n else c_i newest)"
      if "b < n" "upd b" for b
      using range that by fastforce
    moreover have "key (c_i oldest) \<le> key (c_i newest)" using range lt(1) old(1) by blast
    ultimately show ?thesis
      using more(1) old new lt f unfolding scan_inv_def step
      by (auto simp: all_less_Suc_upd card_less_Suc_upd less_SucI)
  qed
qed

lemma scan_inv_fold:
  assumes small: "\<forall>b. upd b \<longrightarrow> key b < 2 ^ 31"
  shows "scan_inv upd key T n (fold (\<lambda>b st. if upd b then al_scan_step b (T + of_nat (key b)) st else st)
    [0..<n] al_scan_init)"
proof (induction n)
  case 0
  show ?case by (simp add: scan_inv_def al_scan_init_def)
next
  case (Suc n)
  then show ?case using scan_inv_step [OF Suc small] by simp
qed

text \<open>
  A ring as the kernel leaves it: \<open>k\<close> update transactions with consecutive numbers from
  \<open>T\<close> on at consecutive indices from \<open>s\<close> on, wrapping; nothing else is an update.
\<close>

definition ring_ok :: "headers \<Rightarrow> al_4k_cpu list \<Rightarrow> nat \<Rightarrow> nat \<Rightarrow> u32 \<Rightarrow> bool" where
  "ring_ok H cpus s k T \<longleftrightarrow> s < length cpus \<and> 0 < k \<and> k \<le> length cpus \<and> length cpus < 2 ^ 31 \<and>
     (\<forall>b<length cpus. let j = (b + length cpus - s) mod length cpus in
        if j < k then is_update_transaction H (cpus ! b) \<and> a_tr_number (cpus ! b) = T + of_nat j
        else \<not> is_update_transaction H (cpus ! b))"

lemma ring_index:
  assumes "s < n" and "j < (n::nat)"
  shows "((s + j) mod n + n - s) mod n = j"
proof (cases "s + j < n")
  case False
  then have "(s + j) mod n = s + j - n" using assms by (simp add: mod_if)
  then show ?thesis using assms False by simp
qed (use assms in simp)

lemma ring_index_inverse:
  assumes "s < n" and "b < (n::nat)"
  shows "(s + (b + n - s) mod n) mod n = b"
proof (cases "b < s")
  case True
  then have "(b + n - s) mod n = b + n - s" "s + (b + n - s) = b + n" using assms by simp_all
  then show ?thesis using assms by simp
next
  case False
  then have "(b + n - s) mod n = b - s" using assms by (simp add: mod_if)
  then show ?thesis using assms False by simp
qed

lemma al_scan_ring:
  assumes ring: "ring_ok H cpus s k T"
  shows "al_scan_84 H cpus = (k, \<lparr>c_i = s, c_tr = T\<rparr>,
    \<lparr>c_i = (s + k - 1) mod length cpus, c_tr = T + of_nat (k - 1)\<rparr>)"
proof -
  let ?n = "length cpus"
  define key where "key b = (b + ?n - s) mod ?n" for b
  define upd where "upd b \<longleftrightarrow> b < ?n \<and> key b < k" for b
  have s: "s < ?n" and k: "0 < k" "k \<le> ?n" and n: "?n < 2 ^ 31" using ring by (simp_all add: ring_ok_def)
  have mod_n: "x mod ?n < ?n" for x using s by (intro mod_less_divisor) linarith
  have at: "is_update_transaction H (cpus ! b) = upd b"
    "upd b \<Longrightarrow> a_tr_number (cpus ! b) = T + of_nat (key b)" if "b < ?n" for b
    using ring that by (auto simp: ring_ok_def upd_def key_def Let_def split: if_splits)
  have "key b < 2 ^ 31" if "upd b" for b using that k n by (simp add: upd_def)
  then have "scan_inv upd key T ?n (fold (\<lambda>b st. if upd b then al_scan_step b (T + of_nat (key b)) st else st)
      [0..<?n] al_scan_init)"
    by (intro scan_inv_fold) simp
  moreover have "al_scan_84 H cpus
      = fold (\<lambda>b st. if upd b then al_scan_step b (T + of_nat (key b)) st else st) [0..<?n] al_scan_init"
    unfolding al_scan_84_def using at by (intro fold_cong) auto
  ultimately have inv: "scan_inv upd key T ?n (al_scan_84 H cpus)" by simp
  have img: "{b. b < ?n \<and> upd b} = (\<lambda>j. (s + j) mod ?n) ` {..<k}"
  proof (intro set_eqI iffI)
    fix b assume "b \<in> {b. b < ?n \<and> upd b}"
    then have "b = (s + key b) mod ?n" "key b < k"
      using ring_index_inverse [OF s, of b] by (simp_all add: upd_def key_def)
    then show "b \<in> (\<lambda>j. (s + j) mod ?n) ` {..<k}" by blast
  next
    fix b assume "b \<in> (\<lambda>j. (s + j) mod ?n) ` {..<k}"
    then obtain j where j: "b = (s + j) mod ?n" "j < k" by blast
    then have "key b = j" using ring_index [OF s, of j] k by (simp add: key_def)
    moreover have "b < ?n" using j mod_n by simp
    ultimately show "b \<in> {b. b < ?n \<and> upd b}" using j by (simp add: upd_def)
  qed
  have "inj_on (\<lambda>j. (s + j) mod ?n) {..<k}"
    using ring_index [OF s] k by (intro inj_onI) (metis lessThan_iff order_less_le_trans)
  then have card: "card {b. b < ?n \<and> upd b} = k" by (simp add: img card_image)
  obtain found oldest newest where st: "al_scan_84 H cpus = (found, oldest, newest)"
    by (cases "al_scan_84 H cpus")
  have found: "found = k" using inv card by (simp add: scan_inv_def st)
  have key_s: "key s = 0" "upd s" using s k by (simp_all add: key_def upd_def)
  have key_e: "key ((s + k - 1) mod ?n) = k - 1" "upd ((s + k - 1) mod ?n)"
    using ring_index [OF s, of "k - 1"] k s mod_n by (simp_all add: key_def upd_def)
  have o: "c_i oldest < ?n" "key (c_i oldest) = 0" "c_tr oldest = T + of_nat (key (c_i oldest))"
    and w: "c_i newest < ?n" "k - 1 \<le> key (c_i newest)" "upd (c_i newest)"
      "c_tr newest = T + of_nat (key (c_i newest))"
    using inv found k key_s key_e s by (auto simp: scan_inv_def st upd_def)
  have "key (c_i newest) = k - 1" using w by (simp add: upd_def)
  moreover have "c_i oldest = s" using o ring_index_inverse [OF s, of "c_i oldest"] s by (simp add: key_def)
  moreover have "c_i newest = (s + k - 1) mod ?n"
    using w calculation(1) ring_index_inverse [OF s, of "c_i newest"] k by (simp add: key_def)
  ultimately show ?thesis using st found o w by simp
qed

lemma replay_order_ring:
  assumes "s < n" and "0 < k" and "k \<le> n"
  shows "replay_order n \<lparr>c_i = s, c_tr = t\<rparr> \<lparr>c_i = (s + k - 1) mod n, c_tr = t'\<rparr>
    = map (\<lambda>j. (s + j) mod n) [0..<k]"
proof -
  have last: "(if (s + k - 1) mod n < s then (s + k - 1) mod n + n else (s + k - 1) mod n) = s + k - 1"
  proof (cases "s + k - 1 < n")
    case False
    then have "(s + k - 1) mod n = s + k - 1 - n" using assms by (simp add: mod_if)
    then show ?thesis using assms False by simp
  qed (use assms in simp)
  have "s + k - 1 + 1 = s + k" using assms by simp
  then have "replay_order n \<lparr>c_i = s, c_tr = t\<rparr> \<lparr>c_i = (s + k - 1) mod n, c_tr = t'\<rparr>
      = map (\<lambda>b. b mod n) [s..<s + k]"
    by (simp only: replay_order_def al_cursor.simps last Let_def)
  also have "[s..<s + k] = map (\<lambda>j. j + s) [0..<k]"
    by (simp add: map_add_upt add.commute)
  finally show ?thesis by (simp add: add.commute comp_def)
qed

text \<open>
  C12. The replay of a v84 activity log ring finds its oldest transaction wherever the ring
  starts, also when the ring wraps around the end of the area and when the 32 bit transaction
  numbers wrap around, and applies the transactions in the order in which they were written;
  nothing is read outside the buffer.
\<close>

theorem replay_al_84_in_order:
  assumes "al_fits md" and "al_blocks md \<le> length al_disk"
    and "cpus = map (ring_transaction H h md al_disk) [0..<al_blocks md]"
    and "ring_ok H cpus s k T"
  shows "replay_al_84 H h md al_disk hot =
    Inr (int k, fold (\<lambda>j. replay_transaction H (cpus ! ((s + j) mod al_blocks md))) [0..<k] hot)"
proof -
  have len: "length cpus = al_blocks md" by (simp add: assms(3))
  have s: "s < al_blocks md" and k: "0 < k" "k \<le> al_blocks md"
    using assms(4) by (simp_all add: ring_ok_def len)
  have upd: "is_update_transaction H (cpus ! ((s + j) mod al_blocks md))" if "j < k" for j
  proof -
    have j: "((s + j) mod al_blocks md + al_blocks md - s) mod al_blocks md = j"
      using s k that by (intro ring_index) simp_all
    have "(s + j) mod al_blocks md < al_blocks md" using s by (intro mod_less_divisor) linarith
    with assms(4) show ?thesis using j that by (auto simp: ring_ok_def len Let_def)
  qed
  have "cpus ! s \<in> set (filter a_is_valid cpus)"
    using upd [OF k(1)] s by (simp add: is_update_transaction_def len)
  then have valid: "length (filter a_is_valid cpus) \<noteq> 0" by (metis length_0_conv list.set(1) empty_iff)
  obtain d where d: "al_decode H h md al_disk = Inr (cpus, d)"
    using al_decode_eq [OF assms(1,2), of H h] assms(3) by auto
  have "fold (\<lambda>idx hot. if is_update_transaction H (cpus ! idx)
          then replay_transaction H (cpus ! idx) hot else hot)
        (map (\<lambda>j. (s + j) mod al_blocks md) [0..<k]) hot
      = fold (\<lambda>j. replay_transaction H (cpus ! ((s + j) mod al_blocks md))) [0..<k] hot"
    unfolding fold_map comp_def by (rule fold_cong) (simp_all add: upd)
  then show ?thesis
    using d valid k al_scan_ring [OF assms(4)] replay_order_ring [OF s k]
    by (simp add: replay_al_84_def unat_al_mx [OF assms(1)] len Let_def)
qed

text \<open>A transaction with the check sum that decoding expects.\<close>

definition sealed :: "headers \<Rightarrow> host \<Rightarrow> al_transaction_on_disk \<Rightarrow> al_transaction_on_disk" where
  "sealed H h d = d\<lparr>da_crc32c := cpu_to_be32 h (crc32c 0 (put_al H h (d\<lparr>da_crc32c := 0\<rparr>)))\<rparr>"

lemma decode_sealed:
  "a_is_valid (fst (v84_al_disk_to_cpu H h (sealed H h d))) \<longleftrightarrow> be32_to_cpu h (da_magic d) = DRBD_AL_MAGIC H"
  "a_transaction_type (fst (v84_al_disk_to_cpu H h (sealed H h d))) = be16_to_cpu h (da_transaction_type d)"
  "a_tr_number (fst (v84_al_disk_to_cpu H h (sealed H h d))) = be32_to_cpu h (da_tr_number d)"
  by (simp_all add: v84_al_disk_to_cpu_def sealed_def Let_def)

definition example_al :: "u32 \<Rightarrow> al_transaction_on_disk" where
  "example_al tr = sealed example_headers LittleEndian ((zero_al example_headers)\<lparr>
     da_magic := cpu_to_be32 LittleEndian 0x69cb65a2, da_tr_number := cpu_to_be32 LittleEndian tr\<rparr>)"

lemma example_al_decode:
  "is_update_transaction example_headers (fst (v84_al_disk_to_cpu example_headers LittleEndian (example_al tr)))"
  "a_tr_number (fst (v84_al_disk_to_cpu example_headers LittleEndian (example_al tr))) = tr"
  unfolding example_al_def is_update_transaction_def decode_sealed
  using be32.to_cpu_to_disk [of LittleEndian] be16.to_cpu_to_disk [of LittleEndian 0]
  by (simp_all del: be32_to_cpu.simps cpu_to_be32.simps be16_to_cpu.simps)
    (simp add: zero_al_def swab16_def)

lemma all_less_2: "(\<forall>b<2. P b) \<longleftrightarrow> P 0 \<and> P (1 :: nat)"
  by (auto simp: less_2_cases_iff)

lemma all_less_Suc_Suc_0: "(\<forall>b<Suc (Suc 0). P b) \<longleftrightarrow> P 0 \<and> P (1 :: nat)"
  using all_less_2 [of P] by (simp add: numeral_2_eq_2)

definition example_al_md :: md_cpu where
  "example_al_md = (zero_md example_headers)\<lparr>al_stripes := 1, al_stripe_size_4k := 2\<rparr>"

text \<open>Two transactions with the numbers \<open>2^32 - 1\<close> and \<open>0\<close>, the older one at index 1.\<close>

theorem replay_al_84_in_order_witness:
  "\<exists>r. replay_al_84 example_headers LittleEndian example_al_md [example_al 0, example_al (-1)] [] = Inr (2, r)"
proof -
  let ?cpus = "map (ring_transaction example_headers LittleEndian example_al_md [example_al 0, example_al (-1)])
    [0..<al_blocks example_al_md]"
  have cpus: "?cpus = [fst (v84_al_disk_to_cpu example_headers LittleEndian (example_al 0)),
      fst (v84_al_disk_to_cpu example_headers LittleEndian (example_al (-1)))]"
    by (simp add: al_blocks_def example_al_md_def ring_transaction_def stripe_slot_def upt_rec)
  have "ring_ok example_headers ?cpus 1 2 (-1)"
    unfolding cpus
    by (simp add: ring_ok_def example_al_decode all_less_Suc_Suc_0)
  then show ?thesis
    using replay_al_84_in_order [OF _ _ refl, of example_al_md "[example_al 0, example_al (-1)]"
        example_headers LittleEndian 1 2 "-1" "[]"]
    by (simp add: al_fits_def al_blocks_def example_al_md_def)
qed

section \<open>A fresh log\<close>

lemma initial_al_blocks_sealed:
  "initial_al_blocks H h n = replicate n (sealed H h (initialized_transaction H h))"
proof -
  have "(initialized_transaction H h)\<lparr>da_crc32c := 0\<rparr> = initialized_transaction H h"
    by (simp add: initialized_transaction_def zero_al_def)
  then show ?thesis by (simp add: initial_al_blocks_def sealed_def Let_def)
qed

lemma initial_al_decode:
  "a_is_valid (fst (v84_al_disk_to_cpu H h (sealed H h (initialized_transaction H h))))"
  "\<not> is_update_transaction H (fst (v84_al_disk_to_cpu H h (sealed H h (initialized_transaction H h))))"
  unfolding is_update_transaction_def decode_sealed by (simp_all add: initialized_transaction_def)

lemma replay_initial_al:
  assumes "al_fits md" and "al_blocks md \<le> n" and "0 < al_blocks md"
  shows "replay_al_84 H h md (initial_al_blocks H h n) hot = Inr (0, hot)"
proof -
  let ?c = "fst (v84_al_disk_to_cpu H h (sealed H h (initialized_transaction H h)))"
  have ring: "ring_transaction H h md (initial_al_blocks H h n) b = ?c" if "b < al_blocks md" for b
    using stripe_slot_less [of b "unat (al_stripes md)" "unat (al_stripe_size_4k md)"] that assms(2)
    by (simp add: ring_transaction_def initial_al_blocks_sealed al_blocks_def)
  obtain d where "al_decode H h md (initial_al_blocks H h n)
      = Inr (map (ring_transaction H h md (initial_al_blocks H h n)) [0..<al_blocks md], d)"
    using al_decode_eq [OF assms(1), of "initial_al_blocks H h n" H h] assms(2)
    by (auto simp: initial_al_blocks_sealed)
  moreover have "map (ring_transaction H h md (initial_al_blocks H h n)) [0..<al_blocks md]
      = replicate (al_blocks md) ?c"
    using ring by (intro nth_equalityI) simp_all
  moreover have "al_scan_84 H (replicate m ?c) = al_scan_init" for m
    unfolding al_scan_84_def
    by (rule fold_invariant [where P = "\<lambda>st. st = al_scan_init" and Q = "\<lambda>b. b < m"])
      (simp_all add: initial_al_decode)
  moreover have "filter a_is_valid (replicate m ?c) = replicate m ?c" for m
    by (simp add: initial_al_decode)
  ultimately show ?thesis
    using assms(3) by (simp add: replay_al_84_def unat_al_mx [OF assms(1)] al_scan_init_def Let_def)
qed

text \<open>The transactions in a buffer of 4 KiB blocks.\<close>

definition al_4k_blocks :: "headers \<Rightarrow> host \<Rightarrow> bytes \<Rightarrow> nat \<Rightarrow> al_transaction_on_disk list" where
  "al_4k_blocks H h buf n = map (\<lambda>b. get_al H h (take 4096 (drop (4096 * b) buf))) [0..<n]"

lemma al_4k_blocks_concat:
  assumes "layout_al_ok H" and "\<forall>d\<in>set ds. wf_al H d"
  shows "al_4k_blocks H h (concat (map (put_al H h) ds)) (length ds) = ds"
  using assms(2)
proof (induction ds)
  case (Cons d ds)
  have len: "length (put_al H h d) = 4096" and get: "get_al H h (put_al H h d) = d"
    using Cons.prems assms(1) by (simp_all add: layout_al_ok_def)
  have "al_4k_blocks H h (concat (map (put_al H h) (d # ds))) (length (d # ds))
      = get_al H h (put_al H h d) # al_4k_blocks H h (concat (map (put_al H h) ds)) (length ds)"
    unfolding al_4k_blocks_def using len
    by (simp only: length_Cons upt_conv_Cons zero_less_Suc list.map map_Suc_upt [symmetric] map_map comp_def)
      simp
  then show ?case using Cons get by simp
qed (simp add: al_4k_blocks_def)

lemma wf_initialized: "wf_al H (sealed H h (initialized_transaction H h))"
  by (simp add: wf_al_def sealed_def initialized_transaction_def zero_al_def)

lemma length_al_blocks:
  assumes "layout_al_ok H" and "\<forall>d\<in>set ds. wf_al H d"
  shows "length (concat (map (put_al H h) ds)) = 4096 * length ds"
  using assms(2) by (induction ds) (use assms(1) in \<open>simp_all add: layout_al_ok_def\<close>)

lemma initialize_al_disk:
  assumes run: "initialize_al H h opts cfg w = (Inr (), w')"
    and "layout_al_ok H" and "\<not> dry_run opts" and "ops cfg \<in> {DRBD_V08, DRBD_V09}"
    and "al_fits (cfg_md cfg)" and "0 < al_blocks (cfg_md cfg)"
  obtains buf where "disk w' = write_bytes (disk w) (unat (cfg_al_offset cfg)) buf"
    and "length buf = 4096 * al_blocks (cfg_md cfg)"
    and "\<forall>hot. replay_al_84 H h (cfg_md cfg) (al_4k_blocks H h buf (al_blocks (cfg_md cfg))) hot = Inr (0, hot)"
proof -
  let ?n = "al_blocks (cfg_md cfg)"
  let ?buf = "concat (map (put_al H h) (initial_al_blocks H h ?n))"
  have wf: "\<forall>d\<in>set (initial_al_blocks H h ?n). wf_al H d"
    by (simp add: initial_al_blocks_sealed wf_initialized)
  have v: "format_version DRBD_V08 \<le> format_version (ops cfg)" using assms(4) by auto
  then have "pwrite_or_die opts cfg ?buf (cfg_al_offset cfg) w = (Inr (), w')"
    using run by (simp add: initialize_al_def unat_al_mx [OF assms(5)] Let_def stop_io_def split: if_splits)
  then have "disk w' = write_bytes (disk w) (unat (cfg_al_offset cfg)) ?buf"
    using assms(3) by (rule pwrite_Inr(1))
  moreover have "length ?buf = 4096 * ?n"
    using length_al_blocks [OF assms(2) wf] by (simp add: initial_al_blocks_sealed)
  moreover have "al_4k_blocks H h ?buf ?n = initial_al_blocks H h ?n"
    using al_4k_blocks_concat [OF assms(2) wf] by (simp add: initial_al_blocks_sealed)
  ultimately show ?thesis
    using that replay_initial_al [OF assms(5) order_refl assms(6)] by simp
qed

text \<open>
  C18. What \<^verbatim>\<open>initialize_al\<close> writes for v08 and v09 is a clean log: when it returns, the
  activity log area, read back and replayed by \<^verbatim>\<open>replay_al_84\<close>, consists of valid
  transactions only and adds no hot extent, for every striping.
\<close>

theorem initialize_al_replays_clean:
  assumes run: "initialize_al H h opts cfg w = (Inr (), w')"
    and "layout_al_ok H" and "\<not> dry_run opts" and "ops cfg \<in> {DRBD_V08, DRBD_V09}"
    and "al_fits (cfg_md cfg)" and "0 < al_blocks (cfg_md cfg)"
  shows "replay_al_84 H h (cfg_md cfg)
    (al_4k_blocks H h (read_bytes (disk w') (unat (cfg_al_offset cfg)) (4096 * al_blocks (cfg_md cfg)))
      (al_blocks (cfg_md cfg))) hot = Inr (0, hot)"
proof -
  obtain buf where "disk w' = write_bytes (disk w) (unat (cfg_al_offset cfg)) buf"
    and "length buf = 4096 * al_blocks (cfg_md cfg)"
    and clean: "\<forall>hot. replay_al_84 H h (cfg_md cfg) (al_4k_blocks H h buf (al_blocks (cfg_md cfg))) hot = Inr (0, hot)"
    by (rule initialize_al_disk [OF assms])
  then have "read_bytes (disk w') (unat (cfg_al_offset cfg)) (4096 * al_blocks (cfg_md cfg)) = buf"
    using store.rd_wr_same [of "disk w" "unat (cfg_al_offset cfg)" buf] by simp
  then show ?thesis using clean by simp
qed

lemma initialize_al_example:
  "\<exists>w'. initialize_al example_headers LittleEndian example_options example_ext_cfg example_world = (Inr (), w')"
proof -
  let ?buf = "concat (map (put_al example_headers LittleEndian) (initial_al_blocks example_headers LittleEndian 8))"
  have "length ?buf = 32768"
    using length_al_blocks [OF example_layout_al_ok, of "initial_al_blocks example_headers LittleEndian 8" LittleEndian]
    by (simp add: initial_al_blocks_sealed wf_initialized del: example_headers_simps)
  then have "pwrite_or_die example_options example_ext_cfg ?buf 4096 example_world = (Inr (), example_world
      \<lparr>n_writes := n_writes example_world + 1, disk := write_bytes (disk example_world) (unat (4096::u64)) ?buf\<rparr>)"
    by (intro pwrite_ok) (simp_all add: validate_offsets_or_die_def kernel_error_def not_bit_63
        example_world_def example_options_def)
  moreover have "al_mx (cfg_md example_ext_cfg) = 8" "ops example_ext_cfg = DRBD_V09"
    "cfg_al_offset example_ext_cfg = 4096"
    by (simp_all add: example_ext_cfg_def example_cfg_def al_mx_def)
  ultimately show ?thesis
    by (simp add: initialize_al_def buffer_size_def Let_def del: example_headers_simps)
qed

theorem initialize_al_replays_clean_witness:
  "\<exists>w'. initialize_al example_headers LittleEndian example_options example_ext_cfg example_world = (Inr (), w')
    \<and> replay_al_84 example_headers LittleEndian (cfg_md example_ext_cfg)
        (al_4k_blocks example_headers LittleEndian (read_bytes (disk w') 4096 32768) 8) [] = Inr (0, [])"
proof -
  obtain w' where w': "initialize_al example_headers LittleEndian example_options example_ext_cfg example_world
      = (Inr (), w')" using initialize_al_example by blast
  have "al_blocks (cfg_md example_ext_cfg) = 8" "unat (cfg_al_offset example_ext_cfg) = 4096"
    by (simp_all add: example_ext_cfg_def example_cfg_def al_blocks_def)
  moreover have "\<not> dry_run example_options" "ops example_ext_cfg = DRBD_V09"
    by (simp_all add: example_ext_cfg_def example_cfg_def example_options_def)
  ultimately show ?thesis
    using w' initialize_al_replays_clean [OF w' example_layout_al_ok, of "[]"]
    by (simp add: al_fits_def del: example_headers_simps)
qed

section \<open>Bounds of the v07 replay\<close>

end
