(* ===== verification/Replay_07.thy ===== *)
theory Replay_07
  imports Activity_Log
begin

text \<open>
  The replay of the v07 activity log against its specification, with every access to its
  arrays: \<^verbatim>\<open>replay_al_07\<close> of \<^verbatim>\<open>user/shared/drbdmeta.c\<close>.
\<close>

section \<open>The v07 replay and its arrays\<close>

text \<open>
  What the replay of \<open>mx\<close> sectors should do: of the sectors with a correct check sum, from the
  oldest to the newest transaction, all updates are taken over, the one at index 0 last, that
  name an extent and a slot of the array.
\<close>

definition sectors_07 :: "headers \<Rightarrow> host \<Rightarrow> bytes \<Rightarrow> nat \<Rightarrow> (al_sector_cpu \<times> bool) list" where
  "sectors_07 H h buf mx = map (\<lambda>b. v07_al_disk_to_cpu H h (get_al_sector h (drop (512 * b) buf))) [0..<mx]"

definition valid_sectors_07 :: "headers \<Rightarrow> host \<Rightarrow> bytes \<Rightarrow> nat \<Rightarrow> nat list" where
  "valid_sectors_07 H h buf mx = filter (\<lambda>b. snd (sectors_07 H h buf mx ! b)) [0..<mx]"

definition ends_07 :: "headers \<Rightarrow> host \<Rightarrow> bytes \<Rightarrow> nat \<Rightarrow> nat \<times> al_cursor \<times> al_cursor" where
  "ends_07 H h buf mx = fold (\<lambda>b. al_scan_step b (s_tr_number (fst (sectors_07 H h buf mx ! b)))) (valid_sectors_07 H h buf mx) al_scan_init"

definition replayed_07 :: "headers \<Rightarrow> host \<Rightarrow> bytes \<Rightarrow> nat \<Rightarrow> u32 list \<Rightarrow> u32 list" where
  "replayed_07 H h buf mx hot =
    (let (_, oldest, newest) = ends_07 H h buf mx;
         order = filter (\<lambda>b. snd (sectors_07 H h buf mx ! b)) (replay_order mx oldest newest);
         updates = concat (map (\<lambda>b. rev (s_updates (fst (sectors_07 H h buf mx ! b)))) order)
     in fold (\<lambda>(slot, extent) hot. hot[unat slot := extent])
          (filter (\<lambda>(slot, extent). extent \<noteq> -1 \<and> unat slot < AL_EXTENTS_MAX) updates) hot)"

lemma length_sectors_07 [simp]: "length (sectors_07 H h buf mx) = mx"
  by (simp add: sectors_07_def)

lemma sectors_07_updates: "b < mx \<Longrightarrow> length (s_updates (fst (sectors_07 H h buf mx ! b))) = 62"
  by (simp add: sectors_07_def v07_al_disk_to_cpu_def get_al_sector_def Let_def case_prod_beta)

lemma al_scan_found: "fst (fold (\<lambda>b. al_scan_step b (tr b)) bs st) = fst st + length bs"
  by (induction bs arbitrary: st) (auto simp: al_scan_step_def case_prod_beta)

text \<open>The first loop, as long as its arrays are large enough and when they are not.\<close>

lemma read_sectors_07_prefix:
  "k \<le> MD_AL_MAX_SECT_07 \<Longrightarrow> read_sectors_07 H h buf k =
    Inr (sectors_07 H h buf k @ replicate (MD_AL_MAX_SECT_07 - k) no_sector, ends_07 H h buf k)"
proof (induction k)
  case 0
  then show ?case by (simp add: read_sectors_07_def sectors_07_def ends_07_def valid_sectors_07_def)
next
  case (Suc k)
  let ?s = "v07_al_disk_to_cpu H h (get_al_sector h (drop (512 * k) buf))"
  have s: "sectors_07 H h buf (Suc k) = sectors_07 H h buf k @ [?s]" by (simp add: sectors_07_def)
  have v: "valid_sectors_07 H h buf (Suc k) = valid_sectors_07 H h buf k @ (if snd ?s then [k] else [])"
    by (auto simp: valid_sectors_07_def s nth_append intro!: filter_cong)
  have "fold (\<lambda>b. al_scan_step b (s_tr_number (fst ((sectors_07 H h buf k @ [?s]) ! b)))) (valid_sectors_07 H h buf k) al_scan_init
      = ends_07 H h buf k"
    unfolding ends_07_def by (rule fold_cong) (auto simp: valid_sectors_07_def nth_append)
  then have e: "ends_07 H h buf (Suc k) = (if snd ?s then al_scan_step k (s_tr_number (fst ?s)) (ends_07 H h buf k) else ends_07 H h buf k)"
    by (simp add: ends_07_def [of _ _ _ "Suc k"] v s nth_append)
  have r: "(xs @ replicate (MD_AL_MAX_SECT_07 - length xs) no_sector)[length xs := ?s] =
      (xs @ [?s]) @ replicate (MD_AL_MAX_SECT_07 - Suc (length xs)) no_sector" if "length xs < MD_AL_MAX_SECT_07" for xs
    using that by (simp add: list_update_append Suc_diff_Suc [symmetric])
  have "read_sectors_07 H h buf (Suc k) = Inr ((sectors_07 H h buf k @ [?s]) @ replicate (MD_AL_MAX_SECT_07 - Suc k) no_sector, ends_07 H h buf (Suc k))"
    using Suc r [of "sectors_07 H h buf k"] unfolding e
    by (simp add: read_sectors_07_def fold_res_append case_prod_beta Let_def array_put_def split: prod.split)
  then show ?case by (simp add: s)
qed

lemma read_sectors_07_overrun: "MD_AL_MAX_SECT_07 < mx \<Longrightarrow> read_sectors_07 H h buf mx = Inl OutOfBounds"
proof -
  assume "MD_AL_MAX_SECT_07 < mx"
  then obtain k where "mx = MD_AL_MAX_SECT_07 + Suc k" by (auto simp: less_iff_Suc_add)
  then have "[0..<mx] = [0..<MD_AL_MAX_SECT_07] @ MD_AL_MAX_SECT_07 # [Suc MD_AL_MAX_SECT_07..<mx]"
    by (simp only: upt_add_eq_append [OF le0]) (simp add: upt_conv_Cons)
  then show ?thesis
    using read_sectors_07_prefix [of MD_AL_MAX_SECT_07 H h buf]
    by (simp add: read_sectors_07_def fold_res_append case_prod_beta Let_def array_put_def split: prod.split)
qed

lemma rev_map_nth: "map (\<lambda>i. xs ! i) (rev [0..<length xs]) = rev xs"
  by (simp add: rev_map [symmetric] map_nth)

lemma length_fold_update [simp]: "length (fold (\<lambda>(slot, extent) hot. hot[unat slot := extent]) us hot) = length hot"
  by (induction us arbitrary: hot) auto

lemma replay_sector_07_eq:
  assumes "length (s_updates al_cpu) = 62" "length hot = AL_EXTENTS_MAX"
  shows "replay_sector_07 al_cpu hot = Inr (fold (\<lambda>(slot, extent) hot. hot[unat slot := extent])
      (filter (\<lambda>(slot, extent). extent \<noteq> -1 \<and> unat slot < AL_EXTENTS_MAX) (rev (s_updates al_cpu))) hot)"
proof -
  let ?g = "\<lambda>(slot, extent) hot. if extent = -1 \<or> unat slot \<ge> AL_EXTENTS_MAX then hot else hot[unat slot := extent]"
  have pt: "AL_EXTENTS_PT + 1 = 62" by (simp add: AL_EXTENTS_PT_def)
  have "replay_sector_07 al_cpu hot = Inr (fold (\<lambda>i. ?g (s_updates al_cpu ! i)) (rev [0..<62]) hot)
      \<and> length (fold (\<lambda>i. ?g (s_updates al_cpu ! i)) (rev [0..<62]) hot) = AL_EXTENTS_MAX"
    unfolding replay_sector_07_def pt
    by (rule fold_res_fold) (use assms in \<open>auto simp: array_get_def array_put_def split: prod.split\<close>)
  then have "replay_sector_07 al_cpu hot = Inr (fold (\<lambda>i. ?g (s_updates al_cpu ! i)) (rev [0..<62]) hot)" ..
  also have "fold (\<lambda>i. ?g (s_updates al_cpu ! i)) (rev [0..<62]) hot = fold ?g (rev (s_updates al_cpu)) hot"
    unfolding rev_map_nth [of "s_updates al_cpu", unfolded assms(1), symmetric] by (simp only: fold_map comp_def)
  also have "fold ?g us y = fold (\<lambda>(slot, extent) hot. hot[unat slot := extent])
      (filter (\<lambda>(slot, extent). extent \<noteq> -1 \<and> unat slot < AL_EXTENTS_MAX) us) y" for us y
    by (induction us arbitrary: y) (auto simp: not_le split: if_splits)
  finally show "replay_sector_07 al_cpu hot = Inr (fold (\<lambda>(slot, extent) hot. hot[unat slot := extent])
      (filter (\<lambda>(slot, extent). extent \<noteq> -1 \<and> unat slot < AL_EXTENTS_MAX) (rev (s_updates al_cpu))) hot)" .
qed

lemma al_07_mx_eq:
  assumes "unat (al_nr_extents md) < 2 ^ 32 - 60"
  shows "unat (al_07_mx md) = 1 + (unat (al_nr_extents md) + 60) div 61"
proof -
  let ?n = "unat (al_nr_extents md)"
  have "unat (al_nr_extents md + of_nat AL_EXTENTS_PT - 1) = ?n + 60"
    using assms unat_add_lem [of 60 "al_nr_extents md", THEN iffD1]
    by (simp add: AL_EXTENTS_PT_def)
  then have "unat ((al_nr_extents md + of_nat AL_EXTENTS_PT - 1) div of_nat AL_EXTENTS_PT) = (?n + 60) div 61"
    by (simp add: unat_div AL_EXTENTS_PT_def)
  moreover have "(?n + 60) div 61 + 1 < 2 ^ 32" using assms by simp
  ultimately show ?thesis
    unfolding al_07_mx_def by (subst unat_add_lem [THEN iffD1]) simp_all
qed

text \<open>
  C35. \<^verbatim>\<open>replay_al_07\<close>, whatever is on the disk: for a log of up to 3843 extents, the maximum of
  DRBD 8.3, no access leaves an array, the result is the number of sectors with a correct
  check sum, and the hot extents are those of the specification; for larger values of
  \<^verbatim>\<open>al_nr_extents\<close>, which \<^verbatim>\<open>is_valid_md\<close> does not check and DRBD 8.4 permits, it writes past the
  end of its arrays of 64 sectors.
\<close>

theorem replay_al_07_bounds:
  assumes n: "unat (al_nr_extents md) < 2 ^ 32 - 60" and hot: "length hot = AL_EXTENTS_MAX"
  defines "mx \<equiv> 1 + (unat (al_nr_extents md) + 60) div 61"
  shows "replay_al_07 H h md buf hot = (if 3843 < unat (al_nr_extents md) then Inl OutOfBounds
    else Inr (int (length (valid_sectors_07 H h buf mx)), replayed_07 H h buf mx hot))"
proof (cases "3843 < unat (al_nr_extents md)")
  have m: "unat (al_07_mx md) = mx" unfolding mx_def by (rule al_07_mx_eq [OF n])
  case True
  then have "MD_AL_MAX_SECT_07 < mx" unfolding mx_def MD_AL_MAX_SECT_07_def by linarith
  then show ?thesis using True read_sectors_07_overrun by (simp add: replay_al_07_def m)
next
  have m: "unat (al_07_mx md) = mx" unfolding mx_def by (rule al_07_mx_eq [OF n])
  case False
  then have mx: "mx \<le> MD_AL_MAX_SECT_07" "0 < mx" unfolding mx_def MD_AL_MAX_SECT_07_def by linarith+
  let ?al = "sectors_07 H h buf mx" and ?arr = "sectors_07 H h buf mx @ replicate (MD_AL_MAX_SECT_07 - mx) no_sector"
  let ?put = "\<lambda>us. fold (\<lambda>(slot, extent) hot. hot[unat slot := extent]) (filter (\<lambda>(slot, extent). extent \<noteq> -1 \<and> unat slot < AL_EXTENTS_MAX) us)"
  obtain found oldest newest where e: "ends_07 H h buf mx = (found, oldest, newest)" using prod_cases3 by blast
  have found: "found = length (valid_sectors_07 H h buf mx)"
    using al_scan_found [of "\<lambda>b. s_tr_number (fst (?al ! b))" "valid_sectors_07 H h buf mx" al_scan_init] e by (simp add: ends_07_def al_scan_init_def)
  have in_mx: "idx < mx" if "idx \<in> set (replay_order mx oldest newest)" for idx
    using that mx(2) by (auto simp: replay_order_def Let_def)
  have "fold_res (\<lambda>idx hot. bind_res (array_get ?arr idx) (\<lambda>(al_cpu, ok). if ok then replay_sector_07 al_cpu hot else Inr hot))
      (replay_order mx oldest newest) hot =
    Inr (fold (\<lambda>idx. if snd (?al ! idx) then ?put (rev (s_updates (fst (?al ! idx)))) else id) (replay_order mx oldest newest) hot)
    \<and> length (fold (\<lambda>idx. if snd (?al ! idx) then ?put (rev (s_updates (fst (?al ! idx)))) else id) (replay_order mx oldest newest) hot) = AL_EXTENTS_MAX"
    by (rule fold_res_fold)
      (use hot mx sectors_07_updates [of _ mx H h buf] in
        \<open>auto simp: array_get_def nth_append replay_sector_07_eq case_prod_beta dest!: in_mx\<close>)
  moreover have "fold (\<lambda>idx. if snd (?al ! idx) then ?put (rev (s_updates (fst (?al ! idx)))) else id) is y =
      ?put (concat (map (\<lambda>b. rev (s_updates (fst (?al ! b)))) (filter (\<lambda>b. snd (?al ! b)) is))) y" for "is" y
    by (induction "is" arbitrary: y) simp_all
  moreover have "replayed_07 H h buf mx hot = hot" if "found = 0"
  proof -
    have "valid_sectors_07 H h buf mx = []" using that found by simp
    then have "filter (\<lambda>b. snd (?al ! b)) (replay_order mx oldest newest) = []"
      using in_mx by (auto simp: valid_sectors_07_def filter_empty_conv)
    then show ?thesis by (simp add: replayed_07_def e)
  qed
  ultimately show ?thesis
    using False read_sectors_07_prefix [OF mx(1), of H h buf] found
    by (simp add: replay_al_07_def m e replayed_07_def Let_def)
qed

theorem replay_al_07_bounds_witness:
  "replay_al_07 example_headers BigEndian ((zero_md example_headers)\<lparr>al_nr_extents := 6001\<rparr>) [] (replicate AL_EXTENTS_MAX 0)
    = Inl OutOfBounds"
  using replay_al_07_bounds [of "(zero_md example_headers)\<lparr>al_nr_extents := 6001\<rparr>" "replicate AL_EXTENTS_MAX 0" example_headers BigEndian "[]"]
  by simp

end
