(* ===== verification/Last_Known.thy ===== *)
theory Last_Known
  imports Cstring Device
begin

text \<open>
  The last known information on a backing device: \<^verbatim>\<open>lk_bdev_path\<close>, \<^verbatim>\<open>lk_bdev_save\<close>,
  \<^verbatim>\<open>lk_bdev_delete\<close> and \<^verbatim>\<open>lk_bdev_load\<close> of \<^verbatim>\<open>user/shared/shared_tool.c\<close>. When
  the device below DRBD was resized, the internal meta data is no longer at its end; the file
  says where it was. The text that is written is read back as the same information, and no
  other file is touched.
\<close>

section \<open>The file\<close>

text \<open>The directory is \<^verbatim>\<open>DRBD_LIB_DIR\<close> or its override; \<^verbatim>\<open>%d\<close> prints the unsigned minor.\<close>

definition lk_bdev_path :: "string \<Rightarrow> u32 \<Rightarrow> string" where
  "lk_bdev_path libdir minor = libdir @ ''/drbd-minor-'' @ show_int (sint minor) @ ''.lkbd''"

definition lk_bdev_text :: "bdev_info \<Rightarrow> string" where
  "lk_bdev_text bd =
    show_nat (unat (lk_bd_size bd)) @ [CHR 0x09]
    @ (case lk_bd_name bd of Some name \<Rightarrow> name | None \<Rightarrow> ''(null)'') @ [CHR 0x0A]
    @ (if lk_bd_uuid bd \<noteq> 0 then ''uuid:'' @ [CHR 0x09] @ show_hex 16 (unat (lk_bd_uuid bd)) @ [CHR 0x0A]
       else [])"

text \<open>
  The file is truncated when it is opened. The text is in the buffer of the stream until
  \<^verbatim>\<open>fflush\<close>, whose result is not looked at: only a part of it may arrive.
\<close>

definition flushed_text :: "nat option \<Rightarrow> string \<Rightarrow> string" where
  "flushed_text limit s = (case limit of None \<Rightarrow> s | Some n \<Rightarrow> take n s)"

definition lk_bdev_save :: "string \<Rightarrow> u32 \<Rightarrow> bdev_info \<Rightarrow> int io" where
  "lk_bdev_save libdir minor bd w =
    (let path = lk_bdev_path libdir minor in
     if fopen_fails (env w) path then (Inr (-1), w)
     else if fprintf_fails (env w) path then (Inr (-1), w\<lparr>files := (files w)(path \<mapsto> [])\<rparr>)
     else (Inr 0, w\<lparr>files := (files w)(path \<mapsto> flushed_text (flushed (env w) path) (lk_bdev_text bd))\<rparr>))"

definition lk_bdev_delete :: "string \<Rightarrow> u32 \<Rightarrow> int io" where
  "lk_bdev_delete libdir minor w =
    (let path = lk_bdev_path libdir minor in
     if files w path = None \<or> unlink_fails (env w) path then (Inr (-1), w)
     else (Inr 0, w\<lparr>files := (files w)(path := None)\<rparr>))"

section \<open>Parsing\<close>

text \<open>
  \<^verbatim>\<open>%[\n]\<close> into \<^verbatim>\<open>char nl[2]\<close>: nothing limits the number of newlines, and the
  second one does not fit beside the terminator.
\<close>

definition scan_newlines :: "string \<Rightarrow> string option res" where
  "scan_newlines s =
    (let n = length (takeWhile (\<lambda>c. c = CHR 0x0A) s) in
     if n = 0 then Inr None
     else if n > 1 then Inl OutOfBounds
     else Inr (Some (drop n s)))"

text \<open>A literal in the format matches itself.\<close>

definition scan_literal :: "string \<Rightarrow> string \<Rightarrow> string option" where
  "scan_literal lit s = (if take (length lit) s = lit then Some (drop (length lit) s) else None)"

text \<open>
  \<^verbatim>\<open>fscanf(fp, "%llu %ms%[\n]uuid: %llx%[\n]", ...)\<close>: the number of conversions, and the
  values of those that were done.
\<close>

definition scan_uuid_line :: "string \<Rightarrow> (nat \<times> u64) res" where
  "scan_uuid_line s =
    (case scan_literal ''uuid:'' s of
       None \<Rightarrow> Inr (3, 0)
     | Some s \<Rightarrow> case scan_number 16 s of
         None \<Rightarrow> Inr (3, 0)
       | Some (_, _, rest) \<Rightarrow> bind_res (scan_newlines rest) (\<lambda>r.
           Inr (if r = None then 4 else 5, fst (strtoul 16 s))))"

definition scan_lkbd :: "string \<Rightarrow> (nat \<times> u64 \<times> string \<times> u64) res" where
  "scan_lkbd s =
    (case scan_number 10 s of
       None \<Rightarrow> Inr (0, 0, [], 0)
     | Some (_, _, rest) \<Rightarrow>
       let bd_size = fst (strtoul 10 s);
           rest = dropWhile isspace rest;
           bd_name = takeWhile (\<lambda>c. \<not> isspace c) rest
       in if bd_name = [] then Inr (1, bd_size, [], 0)
          else bind_res (scan_newlines (dropWhile (\<lambda>c. \<not> isspace c) rest)) (\<lambda>r. case r of
              None \<Rightarrow> Inr (2, bd_size, bd_name, 0)
            | Some rest \<Rightarrow> bind_res (scan_uuid_line rest) (\<lambda>(rc, bd_uuid).
                Inr (rc, bd_size, bd_name, bd_uuid))))"

text \<open>A file that cannot be opened leaves \<open>bd\<close> as it was.\<close>

definition lk_bdev_load :: "string \<Rightarrow> u32 \<Rightarrow> bdev_info \<Rightarrow> (int \<times> bdev_info) io" where
  "lk_bdev_load libdir minor bd w =
    (let path = lk_bdev_path libdir minor in
     case (if fopen_fails (env w) path then None else files w path) of
       None \<Rightarrow> (Inr (-1, bd), w)
     | Some s \<Rightarrow> lift_res (bind_res (scan_lkbd s) (\<lambda>(rc, size, name, uuid).
         Inr (if rc < 1 then -1 else 0, bd\<lparr>
           lk_bd_uuid := if rc \<ge> 4 then uuid else 0,
           lk_bd_name := if rc \<ge> 2 then Some name else None,
           lk_bd_size := if rc \<ge> 1 then size else 0\<rparr>))) w)"

section \<open>What was saved is loaded\<close>

lemma scan_newlines_one: "s = [] \<or> hd s \<noteq> CHR 0x0A \<Longrightarrow> scan_newlines (CHR 0x0A # s) = Inr (Some s)"
  by (cases s) (auto simp: scan_newlines_def)

lemma scan_literal_append [simp]: "scan_literal lit (lit @ s) = Some s"
  by (simp add: scan_literal_def)

lemma scan_number_space: "isspace c \<Longrightarrow> scan_number b (c # s) = scan_number b s"
  by (simp add: scan_number_def)

lemma strtoul_space: "isspace c \<Longrightarrow> fst (strtoul b (c # s)) = fst (strtoul b s)"
  by (auto simp: strtoul_def scan_number_space split: option.split)

lemma isspace_simps [simp]: "isspace (CHR 0x09)" "isspace (CHR 0x0A)" "isspace (CHR '' '')"
  by (simp_all add: isspace_def)

lemma span_name:
  assumes "\<forall>c\<in>set name. \<not> isspace c"
  shows "takeWhile (\<lambda>c. \<not> isspace c) (name @ CHR 0x0A # s) = name"
    and "dropWhile (\<lambda>c. \<not> isspace c) (name @ CHR 0x0A # s) = CHR 0x0A # s"
  using assms by (simp_all add: takeWhile_append dropWhile_append)

lemma scan_uuid_line_shown:
  fixes u :: u64
  shows "scan_uuid_line (''uuid:'' @ [CHR 0x09] @ show_hex 16 (unat u) @ [CHR 0x0A]) = Inr (5, u)"
proof -
  let ?n = "show_hex 16 (unat u) @ [CHR 0x0A]"
  have "scan_number 16 (CHR 0x09 # ?n) = Some (False, unat u, [CHR 0x0A])"
    using scan_number_hex [of "[CHR 0x0A]" 16 "unat u"] by (simp add: scan_number_space)
  moreover have "fst (strtoul 16 (CHR 0x09 # ?n)) = u"
    using strtoul_hex [of "[CHR 0x0A]" "unat u" 16] unat_less [of u] by (simp add: strtoul_space)
  moreover have "scan_literal ''uuid:'' (''uuid:'' @ CHR 0x09 # ?n) = Some (CHR 0x09 # ?n)"
    by (rule scan_literal_append)
  ultimately show ?thesis by (simp add: scan_uuid_line_def scan_newlines_one)
qed

lemma scan_uuid_line_Nil: "scan_uuid_line [] = Inr (3, 0)"
  by (simp add: scan_uuid_line_def scan_literal_def)

lemma scan_lkbd_text:
  assumes "lk_bd_name bd = Some name" and "name \<noteq> []" and "\<forall>c\<in>set name. \<not> isspace c"
  shows "scan_lkbd (lk_bdev_text bd) =
    Inr (if lk_bd_uuid bd = 0 then 3 else 5, lk_bd_size bd, name, lk_bd_uuid bd)"
proof -
  define tl where "tl = (if lk_bd_uuid bd \<noteq> 0
    then ''uuid:'' @ [CHR 0x09] @ show_hex 16 (unat (lk_bd_uuid bd)) @ [CHR 0x0A] else [])"
  have s: "lk_bdev_text bd = show_nat (unat (lk_bd_size bd)) @ CHR 0x09 # name @ CHR 0x0A # tl"
    by (simp add: lk_bdev_text_def assms(1) tl_def)
  have num: "scan_number 10 (lk_bdev_text bd) = Some (False, unat (lk_bd_size bd), CHR 0x09 # name @ CHR 0x0A # tl)"
    "fst (strtoul 10 (lk_bdev_text bd)) = lk_bd_size bd"
    using scan_number_dec [of "CHR 0x09 # name @ CHR 0x0A # tl" 10 "unat (lk_bd_size bd)"]
      strtoul_dec [of "CHR 0x09 # name @ CHR 0x0A # tl" 10 "unat (lk_bd_size bd)"] unat_less [of "lk_bd_size bd"]
    by (simp_all add: s)
  have "name = c # cs \<Longrightarrow> \<not> isspace c" for c cs using assms(3) by simp
  then have drop: "dropWhile isspace (name @ CHR 0x0A # tl) = name @ CHR 0x0A # tl"
    using assms(2) by (cases name) simp_all
  have nl: "scan_newlines (CHR 0x0A # tl) = Inr (Some tl)" by (rule scan_newlines_one) (simp add: tl_def)
  have uuid: "scan_uuid_line tl = Inr (if lk_bd_uuid bd = 0 then 3 else 5, lk_bd_uuid bd)"
    using scan_uuid_line_shown [of "lk_bd_uuid bd"] by (simp add: tl_def scan_uuid_line_Nil)
  show ?thesis
    unfolding scan_lkbd_def num(1) using assms(2)
    by (simp add: num(2) drop span_name [OF assms(3)] nl uuid)
qed

text \<open>The file of the last known information can be read and written.\<close>

definition text_file_ok :: "environment \<Rightarrow> string \<Rightarrow> bool" where
  "text_file_ok e path \<longleftrightarrow> \<not> fopen_fails e path \<and> \<not> fprintf_fails e path \<and> flushed e path = None"

lemma lk_bdev_save_ok:
  "text_file_ok (env w) (lk_bdev_path libdir minor) \<Longrightarrow>
    lk_bdev_save libdir minor bd w = (Inr 0, w\<lparr>files := (files w)(lk_bdev_path libdir minor \<mapsto> lk_bdev_text bd)\<rparr>)"
  by (simp add: lk_bdev_save_def text_file_ok_def flushed_text_def Let_def)

lemma lk_bdev_load_saved:
  assumes "lk_bd_name bd = Some name" and "name \<noteq> []" and "\<forall>c\<in>set name. \<not> isspace c"
    and "text_file_ok (env w) (lk_bdev_path libdir minor)"
    and "files w (lk_bdev_path libdir minor) = Some (lk_bdev_text bd)"
  shows "lk_bdev_load libdir minor old w = (Inr (0, bd), w)"
  using assms scan_lkbd_text [OF assms(1-3)] by (cases bd) (simp add: lk_bdev_load_def Let_def lift_res_def text_file_ok_def)

text \<open>
  C32. The last known information survives the way through its file: when the file can be opened and
  takes the text, \<^verbatim>\<open>lk_bdev_save\<close> succeeds and \<^verbatim>\<open>lk_bdev_load\<close> for the same minor returns size, device name and uuid, a zero
  uuid included, for every name without white space; no other file and nothing on the device
  changed.
\<close>

theorem lk_bdev_roundtrip:
  assumes "lk_bd_name bd = Some name" and "name \<noteq> []" and "\<forall>c\<in>set name. \<not> isspace c"
    and "text_file_ok (env w) (lk_bdev_path libdir minor)"
  shows "\<exists>w'. lk_bdev_save libdir minor bd w = (Inr 0, w')
    \<and> lk_bdev_load libdir minor old w' = (Inr (0, bd), w')
    \<and> (\<forall>path. path \<noteq> lk_bdev_path libdir minor \<longrightarrow> files w' path = files w path)
    \<and> disk w' = disk w"
  using assms by (auto simp: lk_bdev_save_ok intro: lk_bdev_load_saved)

theorem lk_bdev_roundtrip_witness:
  "\<exists>w'. lk_bdev_save ''/var/lib/drbd'' 3 \<lparr>lk_bd_size = 4096, lk_bd_uuid = 0xAB, lk_bd_name = Some ''/dev/sda''\<rparr>
      example_world = (Inr 0, w')
    \<and> lk_bdev_load ''/var/lib/drbd'' 3 \<lparr>lk_bd_size = 0, lk_bd_uuid = 0, lk_bd_name = None\<rparr> w' =
      (Inr (0, \<lparr>lk_bd_size = 4096, lk_bd_uuid = 0xAB, lk_bd_name = Some ''/dev/sda''\<rparr>), w')"
  using lk_bdev_roundtrip [of "\<lparr>lk_bd_size = 4096, lk_bd_uuid = 0xAB, lk_bd_name = Some ''/dev/sda''\<rparr>"
      "''/dev/sda''" example_world "''/var/lib/drbd''" 3 "\<lparr>lk_bd_size = 0, lk_bd_uuid = 0, lk_bd_name = None\<rparr>"]
  by (force simp: isspace_def example_world_def example_env_def text_file_ok_def)

end
