(* ===== verification/Md_Disk.thy ===== *)
theory Md_Disk
  imports Md_Types
begin

text \<open>
  The on-disk super blocks of the four meta data formats and their conversion from and to the
  structure in memory (\<^verbatim>\<open>user/shared/drbdmeta.c\<close>, \<^verbatim>\<open>md_disk_06_to_cpu\<close> to
  \<^verbatim>\<open>md_cpu_to_disk_09\<close>). A packed structure is a record of raw members; \<open>get_md_0x\<close>
  and \<open>put_md_0x\<close> are its layout in memory. What is shown: each format round-trips
  through the bytes on disk, whatever the byte order of the writing and the reading host.
\<close>

unbundle bit_operations_syntax

section \<open>DRBD 0.6\<close>

record md_on_disk_06 =
  d6_gc :: "u32 list"
  d6_magic :: u32

definition get_md_06 :: "host \<Rightarrow> bytes \<Rightarrow> md_on_disk_06" where
  "get_md_06 h bs =
    (let (gc, bs) = get_array (get32 h) GEN_CNT_SIZE bs; (magic, bs) = get32 h bs
     in \<lparr>d6_gc = gc, d6_magic = magic\<rparr>)"

definition put_md_06 :: "host \<Rightarrow> md_on_disk_06 \<Rightarrow> bytes" where
  "put_md_06 h d = put_array (store h 4) (d6_gc d) @ store h 4 (d6_magic d)"

definition md_disk_06_to_cpu :: "headers \<Rightarrow> host \<Rightarrow> md_on_disk_06 \<Rightarrow> md_cpu" where
  "md_disk_06_to_cpu H h disk = (zero_md H)\<lparr>
     gc := fill_array GEN_CNT_SIZE (\<lambda>i. be32_to_cpu h (d6_gc disk ! i)) (gc (zero_md H)),
     magic := be32_to_cpu h (d6_magic disk),
     max_peers := 1\<rparr>"

definition md_cpu_to_disk_06 :: "host \<Rightarrow> md_on_disk_06 \<Rightarrow> md_cpu \<Rightarrow> md_on_disk_06" where
  "md_cpu_to_disk_06 h disk cpu = disk\<lparr>
     d6_gc := fill_array GEN_CNT_SIZE (\<lambda>i. cpu_to_be32 h (gc cpu ! i)) (d6_gc disk),
     d6_magic := cpu_to_be32 h (magic cpu)\<rparr>"

definition v06_validate_md :: "headers \<Rightarrow> md_cpu \<Rightarrow> bool" where
  "v06_validate_md H md \<longleftrightarrow> magic md = DRBD_MD_MAGIC_06 H"

section \<open>DRBD 0.7\<close>

record md_on_disk_07 =
  d7_la_kb :: u64
  d7_gc :: "u32 list"
  d7_magic :: u32
  d7_md_size_kb :: u32
  d7_al_offset :: u32
  d7_al_nr_extents :: u32
  d7_bm_offset :: u32
  d7_reserved :: bytes

definition get_md_07 :: "host \<Rightarrow> bytes \<Rightarrow> md_on_disk_07" where
  "get_md_07 h bs =
    (let (la_kb, bs) = get64 h bs; (gc, bs) = get_array (get32 h) GEN_CNT_SIZE bs;
         (magic, bs) = get32 h bs; (md_size_kb, bs) = get32 h bs; (al_offset, bs) = get32 h bs;
         (al_nr_extents, bs) = get32 h bs; (bm_offset, bs) = get32 h bs
     in \<lparr>d7_la_kb = la_kb, d7_gc = gc, d7_magic = magic, d7_md_size_kb = md_size_kb,
         d7_al_offset = al_offset, d7_al_nr_extents = al_nr_extents, d7_bm_offset = bm_offset,
         d7_reserved = take (8 * 512 - 48) bs\<rparr>)"

definition put_md_07 :: "host \<Rightarrow> md_on_disk_07 \<Rightarrow> bytes" where
  "put_md_07 h d = store h 8 (d7_la_kb d) @ put_array (store h 4) (d7_gc d)
     @ store h 4 (d7_magic d) @ store h 4 (d7_md_size_kb d) @ store h 4 (d7_al_offset d)
     @ store h 4 (d7_al_nr_extents d) @ store h 4 (d7_bm_offset d) @ d7_reserved d"

definition md_disk_07_to_cpu :: "headers \<Rightarrow> host \<Rightarrow> md_on_disk_07 \<Rightarrow> md_cpu" where
  "md_disk_07_to_cpu H h disk = (zero_md H)\<lparr>
     effective_size := push_bit 1 (be64_to_cpu h (d7_la_kb disk)),
     gc := fill_array GEN_CNT_SIZE (\<lambda>i. be32_to_cpu h (d7_gc disk ! i)) (gc (zero_md H)),
     magic := be32_to_cpu h (d7_magic disk),
     md_size_sect := push_bit 1 (be32_to_cpu h (d7_md_size_kb disk)),
     al_offset := be32_to_cpu h (d7_al_offset disk),
     al_nr_extents := be32_to_cpu h (d7_al_nr_extents disk),
     bm_offset := be32_to_cpu h (d7_bm_offset disk),
     bm_bytes_per_bit := BM_BLOCK_SIZE_4k H,
     max_peers := 1,
     al_stripes := 1,
     al_stripe_size_4k := 8\<rparr>"

definition md_cpu_to_disk_07 :: "host \<Rightarrow> md_on_disk_07 \<Rightarrow> md_cpu \<Rightarrow> md_on_disk_07" where
  "md_cpu_to_disk_07 h disk cpu = disk\<lparr>
     d7_la_kb := cpu_to_be64 h (drop_bit 1 (effective_size cpu)),
     d7_gc := fill_array GEN_CNT_SIZE (\<lambda>i. cpu_to_be32 h (gc cpu ! i)) (d7_gc disk),
     d7_magic := cpu_to_be32 h (magic cpu),
     d7_md_size_kb := cpu_to_be32 h (drop_bit 1 (md_size_sect cpu)),
     d7_al_offset := cpu_to_be32 h (al_offset cpu),
     d7_al_nr_extents := cpu_to_be32 h (al_nr_extents cpu),
     d7_bm_offset := cpu_to_be32 h (bm_offset cpu),
     d7_reserved := replicate (8 * 512 - 48) 0\<rparr>"

section \<open>DRBD 8\<close>

record md_on_disk_08 =
  d8_effective_size :: u64
  d8_uuid :: "u64 list"
  d8_device_uuid :: u64
  d8_reserved_u64_1 :: u64
  d8_flags :: u32
  d8_magic :: u32
  d8_md_size_sect :: u32
  d8_al_offset :: u32
  d8_al_nr_extents :: u32
  d8_bm_offset :: u32
  d8_bm_bytes_per_bit :: u32
  d8_la_peer_max_bio_size :: u32
  d8_al_stripes :: u32
  d8_al_stripe_size_4k :: u32
  d8_reserved_u32 :: u32
  d8_reserved :: bytes

definition get_md_08 :: "headers \<Rightarrow> host \<Rightarrow> bytes \<Rightarrow> md_on_disk_08" where
  "get_md_08 H h bs =
    (let (effective_size, bs) = get64 h bs; (uuid, bs) = get_array (get64 h) (UI_SIZE H) bs;
         (device_uuid, bs) = get64 h bs; (reserved_u64_1, bs) = get64 h bs;
         (flags, bs) = get32 h bs; (magic, bs) = get32 h bs; (md_size_sect, bs) = get32 h bs;
         (al_offset, bs) = get32 h bs; (al_nr_extents, bs) = get32 h bs;
         (bm_offset, bs) = get32 h bs; (bm_bytes_per_bit, bs) = get32 h bs;
         (la_peer_max_bio_size, bs) = get32 h bs; (al_stripes, bs) = get32 h bs;
         (al_stripe_size_4k, bs) = get32 h bs; (reserved_u32, bs) = get32 h bs
     in \<lparr>d8_effective_size = effective_size, d8_uuid = uuid, d8_device_uuid = device_uuid,
         d8_reserved_u64_1 = reserved_u64_1, d8_flags = flags, d8_magic = magic,
         d8_md_size_sect = md_size_sect, d8_al_offset = al_offset,
         d8_al_nr_extents = al_nr_extents, d8_bm_offset = bm_offset,
         d8_bm_bytes_per_bit = bm_bytes_per_bit, d8_la_peer_max_bio_size = la_peer_max_bio_size,
         d8_al_stripes = al_stripes, d8_al_stripe_size_4k = al_stripe_size_4k,
         d8_reserved_u32 = reserved_u32,
         d8_reserved = take (8 * 512 - (8 * (UI_SIZE H + 3) + 4 * 11)) bs\<rparr>)"

definition put_md_08 :: "host \<Rightarrow> md_on_disk_08 \<Rightarrow> bytes" where
  "put_md_08 h d = store h 8 (d8_effective_size d) @ put_array (store h 8) (d8_uuid d)
     @ store h 8 (d8_device_uuid d) @ store h 8 (d8_reserved_u64_1 d) @ store h 4 (d8_flags d)
     @ store h 4 (d8_magic d) @ store h 4 (d8_md_size_sect d) @ store h 4 (d8_al_offset d)
     @ store h 4 (d8_al_nr_extents d) @ store h 4 (d8_bm_offset d)
     @ store h 4 (d8_bm_bytes_per_bit d) @ store h 4 (d8_la_peer_max_bio_size d)
     @ store h 4 (d8_al_stripes d) @ store h 4 (d8_al_stripe_size_4k d)
     @ store h 4 (d8_reserved_u32 d) @ d8_reserved d"

definition md_disk_08_to_cpu :: "headers \<Rightarrow> host \<Rightarrow> md_on_disk_08 \<Rightarrow> md_cpu" where
  "md_disk_08_to_cpu H h disk =
    (let cpu = (zero_md H)\<lparr>
       effective_size := be64_to_cpu h (d8_effective_size disk),
       current_uuid := be64_to_cpu h (d8_uuid disk ! UI_CURRENT H),
       peers := (peers (zero_md H))
         [0 := (peers (zero_md H) ! 0)\<lparr>bitmap_uuid := be64_to_cpu h (d8_uuid disk ! UI_BITMAP H)\<rparr>],
       history_uuids := fill_array (HISTORY_UUIDS_V08 H)
         (\<lambda>i. be64_to_cpu h (d8_uuid disk ! (UI_HISTORY_START H + i))) (history_uuids (zero_md H)),
       device_uuid := be64_to_cpu h (d8_device_uuid disk),
       flags := be32_to_cpu h (d8_flags disk),
       magic := be32_to_cpu h (d8_magic disk),
       md_size_sect := be32_to_cpu h (d8_md_size_sect disk),
       al_offset := be32_to_cpu h (d8_al_offset disk),
       al_nr_extents := be32_to_cpu h (d8_al_nr_extents disk),
       bm_offset := be32_to_cpu h (d8_bm_offset disk),
       bm_bytes_per_bit := be32_to_cpu h (d8_bm_bytes_per_bit disk),
       la_peer_max_bio_size := be32_to_cpu h (d8_la_peer_max_bio_size disk),
       max_peers := 1,
       al_stripes := be32_to_cpu h (d8_al_stripes disk),
       al_stripe_size_4k := be32_to_cpu h (d8_al_stripe_size_4k disk)\<rparr>
     in if al_stripes cpu = 0 \<and> al_stripe_size_4k cpu = 0
        then cpu\<lparr>al_stripes := 1, al_stripe_size_4k := 8\<rparr> else cpu)"

text \<open>The structure after \<^verbatim>\<open>memset(disk, 0, sizeof(*disk))\<close>.\<close>

definition zero_md_08 :: "headers \<Rightarrow> md_on_disk_08" where
  "zero_md_08 H = \<lparr>d8_effective_size = 0, d8_uuid = replicate (UI_SIZE H) 0, d8_device_uuid = 0,
     d8_reserved_u64_1 = 0, d8_flags = 0, d8_magic = 0, d8_md_size_sect = 0, d8_al_offset = 0,
     d8_al_nr_extents = 0, d8_bm_offset = 0, d8_bm_bytes_per_bit = 0,
     d8_la_peer_max_bio_size = 0, d8_al_stripes = 0, d8_al_stripe_size_4k = 0,
     d8_reserved_u32 = 0, d8_reserved = replicate (8 * 512 - (8 * (UI_SIZE H + 3) + 4 * 11)) 0\<rparr>"

definition md_cpu_to_disk_08 :: "headers \<Rightarrow> host \<Rightarrow> md_cpu \<Rightarrow> md_on_disk_08" where
  "md_cpu_to_disk_08 H h cpu = (zero_md_08 H)\<lparr>
     d8_effective_size := cpu_to_be64 h (effective_size cpu),
     d8_uuid := fold (\<lambda>i uuid. uuid[UI_HISTORY_START H + i := cpu_to_be64 h (history_uuids cpu ! i)])
       [0..<HISTORY_UUIDS_V08 H]
       ((d8_uuid (zero_md_08 H))[UI_CURRENT H := cpu_to_be64 h (current_uuid cpu),
          UI_BITMAP H := cpu_to_be64 h (bitmap_uuid (peers cpu ! 0))]),
     d8_device_uuid := cpu_to_be64 h (device_uuid cpu),
     d8_flags := cpu_to_be32 h (flags cpu),
     d8_magic := cpu_to_be32 h (magic cpu),
     d8_md_size_sect := cpu_to_be32 h (md_size_sect cpu),
     d8_al_offset := cpu_to_be32 h (al_offset cpu),
     d8_al_nr_extents := cpu_to_be32 h (al_nr_extents cpu),
     d8_bm_offset := cpu_to_be32 h (bm_offset cpu),
     d8_bm_bytes_per_bit := cpu_to_be32 h (bm_bytes_per_bit cpu),
     d8_la_peer_max_bio_size := cpu_to_be32 h (la_peer_max_bio_size cpu),
     d8_al_stripes := cpu_to_be32 h (al_stripes cpu),
     d8_al_stripe_size_4k := cpu_to_be32 h (al_stripe_size_4k cpu)\<rparr>"

section \<open>DRBD 9\<close>

definition md_disk_09_to_cpu :: "headers \<Rightarrow> host \<Rightarrow> meta_data_on_disk_9 \<Rightarrow> md_cpu" where
  "md_disk_09_to_cpu H h disk =
    (let cpu = (zero_md H)\<lparr>
       effective_size := be64_to_cpu h (d9_effective_size disk),
       device_uuid := be64_to_cpu h (d9_device_uuid disk),
       flags := be32_to_cpu h (d9_flags disk),
       members := be64_to_cpu h (d9_members disk),
       magic := be32_to_cpu h (d9_magic disk),
       md_size_sect := be32_to_cpu h (d9_md_size_sect disk),
       al_offset := be32_to_cpu h (d9_al_offset disk),
       al_nr_extents := be32_to_cpu h (d9_al_nr_extents disk),
       bm_offset := be32_to_cpu h (d9_bm_offset disk),
       bm_bytes_per_bit := be32_to_cpu h (d9_bm_bytes_per_bit disk),
       la_peer_max_bio_size := be32_to_cpu h (d9_la_peer_max_bio_size disk),
       max_peers := be32_to_cpu h (d9_bm_max_peers disk),
       node_id := be32_to_cpu h (d9_node_id disk),
       al_stripes := be32_to_cpu h (d9_al_stripes disk),
       al_stripe_size_4k := be32_to_cpu h (d9_al_stripe_size_4k disk)\<rparr>;
       cpu = (if max_peers cpu > of_nat (DRBD_PEERS_MAX H - 1)
              then cpu\<lparr>max_peers := of_nat (DRBD_PEERS_MAX H - 1)\<rparr> else cpu)
     in cpu\<lparr>
       current_uuid := be64_to_cpu h (d9_current_uuid disk),
       peers := fill_array (DRBD_NODE_ID_MAX H)
         (\<lambda>p. (peers cpu ! p)\<lparr>
            peer_flags := be32_to_cpu h (d9p_flags (d9_peers disk ! p)),
            bitmap_index := be32_to_cpu h (d9p_bitmap_index (d9_peers disk ! p)),
            bitmap_uuid := be64_to_cpu h (d9p_bitmap_uuid (d9_peers disk ! p)),
            bitmap_dagtag := be64_to_cpu h (d9p_bitmap_dagtag (d9_peers disk ! p))\<rparr>) (peers cpu),
       history_uuids := fill_array (HISTORY_UUIDS H)
         (\<lambda>i. be64_to_cpu h (d9_history_uuids disk ! i)) (history_uuids cpu)\<rparr>)"

definition zero_md_9 :: "headers \<Rightarrow> meta_data_on_disk_9" where
  "zero_md_9 H = \<lparr>d9_effective_size = 0, d9_current_uuid = 0, d9_members = 0, d9_device_uuid = 0,
     d9_magic = 0, d9_flags = 0, d9_md_size_sect = 0, d9_al_offset = 0, d9_al_nr_extents = 0,
     d9_bm_offset = 0, d9_bm_bytes_per_bit = 0, d9_la_peer_max_bio_size = 0, d9_bm_max_peers = 0,
     d9_node_id = 0, d9_al_stripes = 0, d9_al_stripe_size_4k = 0,
     d9_peers = replicate (DRBD_NODE_ID_MAX H)
       \<lparr>d9p_bitmap_uuid = 0, d9p_bitmap_dagtag = 0, d9p_flags = 0, d9p_bitmap_index = 0\<rparr>,
     d9_history_uuids = replicate (HISTORY_UUIDS H) 0\<rparr>"

definition md_cpu_to_disk_09 :: "headers \<Rightarrow> host \<Rightarrow> md_cpu \<Rightarrow> meta_data_on_disk_9" where
  "md_cpu_to_disk_09 H h cpu = (zero_md_9 H)\<lparr>
     d9_effective_size := cpu_to_be64 h (effective_size cpu),
     d9_device_uuid := cpu_to_be64 h (device_uuid cpu),
     d9_flags := cpu_to_be32 h (flags cpu),
     d9_members := cpu_to_be64 h (members cpu),
     d9_magic := cpu_to_be32 h (magic cpu),
     d9_md_size_sect := cpu_to_be32 h (md_size_sect cpu),
     d9_al_offset := cpu_to_be32 h (al_offset cpu),
     d9_al_nr_extents := cpu_to_be32 h (al_nr_extents cpu),
     d9_bm_offset := cpu_to_be32 h (bm_offset cpu),
     d9_bm_bytes_per_bit := cpu_to_be32 h (bm_bytes_per_bit cpu),
     d9_la_peer_max_bio_size := cpu_to_be32 h (la_peer_max_bio_size cpu),
     d9_bm_max_peers := cpu_to_be32 h (max_peers cpu),
     d9_node_id := cpu_to_be32 h (node_id cpu),
     d9_al_stripes := cpu_to_be32 h (al_stripes cpu),
     d9_al_stripe_size_4k := cpu_to_be32 h (al_stripe_size_4k cpu),
     d9_current_uuid := cpu_to_be64 h (current_uuid cpu),
     d9_peers := fill_array (DRBD_NODE_ID_MAX H)
       (\<lambda>p. (d9_peers (zero_md_9 H) ! p)\<lparr>
          d9p_flags := cpu_to_be32 h (peer_flags (peers cpu ! p)),
          d9p_bitmap_index := cpu_to_be32 h (bitmap_index (peers cpu ! p)),
          d9p_bitmap_uuid := cpu_to_be64 h (bitmap_uuid (peers cpu ! p)),
          d9p_bitmap_dagtag := cpu_to_be64 h (bitmap_dagtag (peers cpu ! p))\<rparr>)
       (d9_peers (zero_md_9 H)),
     d9_history_uuids := fill_array (HISTORY_UUIDS H) (\<lambda>i. cpu_to_be64 h (history_uuids cpu ! i))
       (d9_history_uuids (zero_md_9 H))\<rparr>"

section \<open>Zeroed and equal structures\<close>

lemma zero_md_simps [simp]:
  "gc (zero_md H) = replicate GEN_CNT_SIZE 0" "magic (zero_md H) = 0" "effective_size (zero_md H) = 0"
  "md_size_sect (zero_md H) = 0" "al_offset (zero_md H) = 0" "al_nr_extents (zero_md H) = 0"
  "bm_offset (zero_md H) = 0" "current_uuid (zero_md H) = 0" "flags (zero_md H) = 0"
  "device_uuid (zero_md H) = 0" "bm_bytes_per_bit (zero_md H) = 0"
  "la_peer_max_bio_size (zero_md H) = 0" "max_peers (zero_md H) = 0"
  "al_stripes (zero_md H) = 0" "al_stripe_size_4k (zero_md H) = 0"
  "peers (zero_md H) = replicate (DRBD_PEERS_MAX H) zero_peer" "node_id (zero_md H) = 0"
  "members (zero_md H) = 0" "history_uuids (zero_md H) = replicate (HISTORY_UUIDS H) 0"
  by (simp_all add: zero_md_def)

lemma md_cpu_eqI:
  fixes a b :: md_cpu
  assumes "gc a = gc b" "magic a = magic b" "effective_size a = effective_size b"
    "md_size_sect a = md_size_sect b" "al_offset a = al_offset b"
    "al_nr_extents a = al_nr_extents b" "bm_offset a = bm_offset b"
    "current_uuid a = current_uuid b" "history_uuids a = history_uuids b" "flags a = flags b"
    "device_uuid a = device_uuid b" "bm_bytes_per_bit a = bm_bytes_per_bit b"
    "la_peer_max_bio_size a = la_peer_max_bio_size b" "max_peers a = max_peers b"
    "node_id a = node_id b" "peers a = peers b" "al_stripes a = al_stripes b"
    "al_stripe_size_4k a = al_stripe_size_4k b" "members a = members b"
  shows "a = b"
  using assms by (intro md_cpu.equality) simp_all

section \<open>What each format can represent\<close>

text \<open>Members that v06 and v07 do not store.\<close>

definition pre_08 :: "headers \<Rightarrow> md_cpu \<Rightarrow> bool" where
  "pre_08 H md \<longleftrightarrow> length (gc md) = GEN_CNT_SIZE \<and> current_uuid md = 0 \<and>
     history_uuids md = replicate (HISTORY_UUIDS H) 0 \<and> flags md = 0 \<and> device_uuid md = 0 \<and>
     la_peer_max_bio_size md = 0 \<and> max_peers md = 1 \<and> node_id md = 0 \<and>
     peers md = replicate (DRBD_PEERS_MAX H) zero_peer \<and> members md = 0"

definition rep_06 :: "headers \<Rightarrow> md_cpu \<Rightarrow> bool" where
  "rep_06 H md \<longleftrightarrow> pre_08 H md \<and> effective_size md = 0 \<and> md_size_sect md = 0 \<and>
     al_offset md = 0 \<and> al_nr_extents md = 0 \<and> bm_offset md = 0 \<and> bm_bytes_per_bit md = 0 \<and>
     al_stripes md = 0 \<and> al_stripe_size_4k md = 0"

definition rep_07 :: "headers \<Rightarrow> md_cpu \<Rightarrow> bool" where
  "rep_07 H md \<longleftrightarrow> pre_08 H md \<and> \<not> bit (effective_size md) 0 \<and> \<not> bit (md_size_sect md) 0 \<and>
     bm_bytes_per_bit md = BM_BLOCK_SIZE_4k H \<and> al_stripes md = 1 \<and> al_stripe_size_4k md = 8"

definition rep_08 :: "headers \<Rightarrow> md_cpu \<Rightarrow> bool" where
  "rep_08 H md \<longleftrightarrow> (al_stripes md \<noteq> 0 \<or> al_stripe_size_4k md \<noteq> 0) \<and>
     gc md = replicate GEN_CNT_SIZE 0 \<and> max_peers md = 1 \<and> node_id md = 0 \<and> members md = 0 \<and>
     (\<exists>u. peers md = (replicate (DRBD_PEERS_MAX H) zero_peer)[0 := zero_peer\<lparr>bitmap_uuid := u\<rparr>]) \<and>
     length (history_uuids md) = HISTORY_UUIDS H \<and>
     drop (HISTORY_UUIDS_V08 H) (history_uuids md) = replicate (HISTORY_UUIDS H - HISTORY_UUIDS_V08 H) 0"

definition rep_09 :: "headers \<Rightarrow> md_cpu \<Rightarrow> bool" where
  "rep_09 H md \<longleftrightarrow> wf_md H md \<and> gc md = replicate GEN_CNT_SIZE 0 \<and>
     max_peers md \<le> of_nat (DRBD_PEERS_MAX H - 1)"

text \<open>The bytes a host writes for each format, and what a host reads from them.\<close>

definition image_06 :: "host \<Rightarrow> md_cpu \<Rightarrow> bytes" where
  "image_06 h md = put_md_06 h (md_cpu_to_disk_06 h \<lparr>d6_gc = replicate GEN_CNT_SIZE 0, d6_magic = 0\<rparr> md)"

definition image_07 :: "host \<Rightarrow> md_on_disk_07 \<Rightarrow> md_cpu \<Rightarrow> bytes" where
  "image_07 h disk md = put_md_07 h (md_cpu_to_disk_07 h disk md)"

definition image_08 :: "headers \<Rightarrow> host \<Rightarrow> md_cpu \<Rightarrow> bytes" where
  "image_08 H h md = put_md_08 h (md_cpu_to_disk_08 H h md)"

definition image_09 :: "headers \<Rightarrow> host \<Rightarrow> md_cpu \<Rightarrow> bytes" where
  "image_09 H h md = put_md_9 H h (md_cpu_to_disk_09 H h md)"

lemma array_sizes_simps:
  "array_sizes_ok H \<Longrightarrow> DRBD_PEERS_MAX H = 32" "array_sizes_ok H \<Longrightarrow> DRBD_NODE_ID_MAX H = 32"
  "array_sizes_ok H \<Longrightarrow> HISTORY_UUIDS H = 32" "array_sizes_ok H \<Longrightarrow> HISTORY_UUIDS_V08 H = 2"
  "array_sizes_ok H \<Longrightarrow> UI_CURRENT H = 0" "array_sizes_ok H \<Longrightarrow> UI_BITMAP H = 1"
  "array_sizes_ok H \<Longrightarrow> UI_HISTORY_START H = 2" "array_sizes_ok H \<Longrightarrow> UI_HISTORY_END H = 3"
  "array_sizes_ok H \<Longrightarrow> UI_SIZE H = 4"
  by (simp_all add: array_sizes_ok_def)

section \<open>The image does not depend on the host\<close>

lemma put_array_be32:
  "put_array (store h 4) (map (\<lambda>i. cpu_to_be32 h (f i)) is) = put_array (\<lambda>i. be_bytes 4 (f i)) is"
  by (simp add: put_array_def comp_def memory_simps)

lemma put_array_be64:
  "put_array (store h 8) (map (\<lambda>i. cpu_to_be64 h (f i)) is) = put_array (\<lambda>i. be_bytes 8 (f i)) is"
  by (simp add: put_array_def comp_def memory_simps)

lemma image_06_host: "image_06 h md = image_06 h' md"
  by (simp add: image_06_def put_md_06_def md_cpu_to_disk_06_def fill_array_all put_array_be32
      memory_simps)

lemma image_07_host: "length (d7_gc disk) = GEN_CNT_SIZE \<Longrightarrow> image_07 h disk md = image_07 h' disk md"
  by (simp add: image_07_def put_md_07_def md_cpu_to_disk_07_def fill_array_all put_array_be32
      memory_simps)

lemma upt_2: "[0..<2] = [0, 1::nat]"
  by (simp add: upt_rec)

lemma replicate_4: "replicate 4 x = [x, x, x, x]"
  by (simp add: numeral_eq_Suc)

lemma uuid_image_08:
  assumes "array_sizes_ok H"
  shows "d8_uuid (md_cpu_to_disk_08 H h md) = map (cpu_to_be64 h)
    [current_uuid md, bitmap_uuid (peers md ! 0), history_uuids md ! 0, history_uuids md ! 1]"
  using assms
  by (simp add: md_cpu_to_disk_08_def zero_md_08_def array_sizes_simps upt_2 replicate_4
      numeral_2_eq_2 numeral_3_eq_3)

lemma image_08_host:
  assumes "array_sizes_ok H"
  shows "image_08 H h md = image_08 H h' md"
  using uuid_image_08 [OF assms, of h md] uuid_image_08 [OF assms, of h' md]
  by (simp add: image_08_def put_md_08_def put_array_def memory_simps)
    (simp add: md_cpu_to_disk_08_def zero_md_08_def memory_simps)

section \<open>Round trips\<close>

lemma get_put_md_06:
  "length (d6_gc d) = GEN_CNT_SIZE \<Longrightarrow> get_md_06 h (put_md_06 h d) = d"
  using get_put(2) [of h "d6_magic d" "[]"]
  by (simp add: get_md_06_def put_md_06_def memory_simps)

lemma get_put_md_07:
  "\<lbrakk>length (d7_gc d) = GEN_CNT_SIZE; length (d7_reserved d) = 8 * 512 - 48\<rbrakk>
    \<Longrightarrow> get_md_07 h (put_md_07 h d) = d"
  by (simp add: get_md_07_def put_md_07_def memory_simps)

lemma get_put_md_08:
  "\<lbrakk>length (d8_uuid d) = UI_SIZE H; length (d8_reserved d) = 8 * 512 - (8 * (UI_SIZE H + 3) + 4 * 11)\<rbrakk>
    \<Longrightarrow> get_md_08 H h (put_md_08 h d) = d"
  by (simp add: get_md_08_def put_md_08_def memory_simps)

lemma map_nth_eq: "length xs = n \<Longrightarrow> map (\<lambda>i. f (xs ! i)) [0..<n] = map f xs"
  by (auto intro: nth_equalityI)

lemma roundtrip_06:
  assumes rep: "rep_06 H md"
  shows "md_disk_06_to_cpu H h (get_md_06 h (image_06 h md)) = md"
proof -
  let ?d = "md_cpu_to_disk_06 h \<lparr>d6_gc = replicate GEN_CNT_SIZE 0, d6_magic = 0\<rparr> md"
  have len: "length (gc md) = GEN_CNT_SIZE" using rep by (simp add: rep_06_def pre_08_def)
  then have gc: "d6_gc ?d = map (cpu_to_be32 h) (gc md)"
    by (simp add: md_cpu_to_disk_06_def fill_array_all map_nth_eq)
  have disk: "get_md_06 h (image_06 h md) = ?d"
    unfolding image_06_def by (rule get_put_md_06) (simp add: gc len)
  have gc': "map (\<lambda>i. be32_to_cpu h (d6_gc ?d ! i)) [0..<GEN_CNT_SIZE] = gc md"
    by (simp add: gc len map_nth_eq comp_def)
  show ?thesis
    unfolding disk
    by (rule md_cpu_eqI)
      (use rep gc' in \<open>simp_all add: md_disk_06_to_cpu_def rep_06_def pre_08_def fill_array_all\<close>,
        simp_all add: md_cpu_to_disk_06_def)
qed

lemma half_double: "\<not> bit x 0 \<Longrightarrow> push_bit 1 (drop_bit 1 x) = (x :: 'a::len word)"
proof (rule bit_eqI)
  fix n assume "\<not> bit x 0"
  then show "bit (push_bit 1 (drop_bit 1 x)) n = bit x n" if "possible_bit TYPE('a word) n"
    using that by (cases n) (simp_all only: bit_push_bit_iff bit_drop_bit_eq comp_def, simp_all)
qed

lemma roundtrip_07:
  assumes rep: "rep_07 H md" and disk: "length (d7_gc disk) = GEN_CNT_SIZE"
  shows "md_disk_07_to_cpu H h (get_md_07 h (image_07 h disk md)) = md"
proof -
  let ?d = "md_cpu_to_disk_07 h disk md"
  have len: "length (gc md) = GEN_CNT_SIZE" using rep by (simp add: rep_07_def pre_08_def)
  have gc: "d7_gc ?d = map (cpu_to_be32 h) (gc md)"
    using len disk by (simp add: md_cpu_to_disk_07_def fill_array_all map_nth_eq)
  have disk: "get_md_07 h (image_07 h disk md) = ?d"
    unfolding image_07_def by (rule get_put_md_07) (simp_all only: gc len length_map,
        simp add: md_cpu_to_disk_07_def)
  have gc': "map (\<lambda>i. be32_to_cpu h (d7_gc ?d ! i)) [0..<GEN_CNT_SIZE] = gc md"
    by (simp add: gc len map_nth_eq comp_def)
  have half: "push_bit 1 (drop_bit 1 (effective_size md)) = effective_size md"
    "push_bit 1 (drop_bit 1 (md_size_sect md)) = md_size_sect md"
    using rep unfolding rep_07_def by (blast intro: half_double)+
  show ?thesis
    unfolding disk
    by (rule md_cpu_eqI)
      (use rep gc' in \<open>simp_all add: md_disk_07_to_cpu_def rep_07_def pre_08_def fill_array_all\<close>,
        use half in \<open>simp_all add: md_cpu_to_disk_07_def\<close>)
qed

lemma history_08:
  assumes "length xs = 32" "drop 2 xs = replicate 30 0" "n = 2"
  shows "fill_array n (\<lambda>i. [xs ! 0, xs ! 1] ! i) (replicate 32 0) = (xs :: u64 list)"
proof -
  have "xs = take 2 xs @ replicate 30 0"
    using assms(2) append_take_drop_id [of 2 xs] by simp
  moreover have "take 2 xs = [xs ! 0, xs ! 1]"
    using assms(1) by (simp add: numeral_2_eq_2 take_Suc_conv_app_nth)
  ultimately have "xs = [xs ! 0, xs ! 1] @ replicate 30 0" by simp
  then show ?thesis
    by (simp add: assms(3) fill_array_eq upt_2)
qed

lemma roundtrip_08:
  assumes ok: "array_sizes_ok H" and rep: "rep_08 H md"
  shows "md_disk_08_to_cpu H h (get_md_08 H h (image_08 H h md)) = md"
proof -
  let ?d = "md_cpu_to_disk_08 H h md"
  note n = array_sizes_simps [OF ok]
  from rep n obtain u where u: "peers md = (replicate 32 zero_peer)[0 := zero_peer\<lparr>bitmap_uuid := u\<rparr>]"
    and hist: "length (history_uuids md) = 32" "drop 2 (history_uuids md) = replicate 30 0"
    and stripes: "al_stripes md = 0 \<Longrightarrow> al_stripe_size_4k md \<noteq> 0"
    and zero: "gc md = replicate GEN_CNT_SIZE 0" "max_peers md = 1" "node_id md = 0" "members md = 0"
    by (auto simp: rep_08_def)
  have uuid: "map (be64_to_cpu h) (d8_uuid ?d) = [current_uuid md, u, history_uuids md ! 0, history_uuids md ! 1]"
    by (simp add: uuid_image_08 [OF ok] u)
  have disk: "get_md_08 H h (image_08 H h md) = ?d"
    unfolding image_08_def
    by (rule get_put_md_08) (simp add: uuid_image_08 [OF ok] n,
        simp add: md_cpu_to_disk_08_def zero_md_08_def n)
  have nth: "be64_to_cpu h (d8_uuid ?d ! i) = [current_uuid md, u, history_uuids md ! 0, history_uuids md ! 1] ! i"
    if "i < 4" for i
    using that nth_map [of i "d8_uuid ?d" "be64_to_cpu h"]
    unfolding uuid by (simp add: uuid_image_08 [OF ok])
  have hist': "fill_array 2 (\<lambda>i. be64_to_cpu h (d8_uuid ?d ! (2 + i))) (replicate 32 0) = history_uuids md"
    using history_08 [OF hist refl] nth
    by (simp add: fill_array_def upt_2 numeral_2_eq_2 numeral_3_eq_3)
  show ?thesis
    unfolding disk
    by (rule md_cpu_eqI)
      (use zero stripes hist' nth [of 0] nth [of 1] in
        \<open>auto simp: md_disk_08_to_cpu_def n u Let_def\<close>,
        (simp_all add: md_cpu_to_disk_08_def)?)
qed

lemma md_cpu_to_disk_09_wf [simp]: "wf_md_9 H (md_cpu_to_disk_09 H h md)"
  by (simp add: wf_md_9_def md_cpu_to_disk_09_def zero_md_9_def)

lemma peers_09:
  assumes "length ps = n"
  shows "fill_array n (\<lambda>p. (replicate n zero_peer ! p)\<lparr>peer_flags := peer_flags (ps ! p),
      bitmap_index := bitmap_index (ps ! p), bitmap_uuid := bitmap_uuid (ps ! p),
      bitmap_dagtag := bitmap_dagtag (ps ! p)\<rparr>) (replicate n zero_peer) = (ps :: peer_md_cpu list)"
  using assms by (intro nth_equalityI) (simp_all add: nth_fill_array)

lemma roundtrip_09:
  assumes ok: "array_sizes_ok H" "layout_9_ok H" and rep: "rep_09 H md"
  shows "md_disk_09_to_cpu H h (get_md_9 H h (image_09 H h md)) = md"
proof -
  let ?d = "md_cpu_to_disk_09 H h md"
  note n = array_sizes_simps [OF ok(1)]
  have disk: "get_md_9 H h (image_09 H h md) = ?d"
    using ok(2) by (simp add: image_09_def layout_9_ok_def)
  have len: "length (peers md) = 32" "length (history_uuids md) = 32"
    using rep by (simp_all add: rep_09_def wf_md_def n)
  have hist: "fill_array 32 (\<lambda>i. be64_to_cpu h (d9_history_uuids ?d ! i)) (replicate 32 0) = history_uuids md"
    using len by (intro nth_equalityI)
      (simp_all add: nth_fill_array md_cpu_to_disk_09_def zero_md_9_def n)
  have peers: "fill_array 32 (\<lambda>p. (replicate 32 zero_peer ! p)\<lparr>
      peer_flags := be32_to_cpu h (d9p_flags (d9_peers ?d ! p)),
      bitmap_index := be32_to_cpu h (d9p_bitmap_index (d9_peers ?d ! p)),
      bitmap_uuid := be64_to_cpu h (d9p_bitmap_uuid (d9_peers ?d ! p)),
      bitmap_dagtag := be64_to_cpu h (d9p_bitmap_dagtag (d9_peers ?d ! p))\<rparr>) (replicate 32 zero_peer)
      = peers md"
    using len by (intro nth_equalityI)
      (simp_all add: nth_fill_array md_cpu_to_disk_09_def zero_md_9_def n)
  have "\<not> 31 < max_peers md" "gc md = replicate GEN_CNT_SIZE 0"
    using rep by (simp_all add: rep_09_def n not_less)
  then show ?thesis
    unfolding disk
    by (intro md_cpu_eqI)
      (use hist peers in \<open>simp_all add: md_disk_09_to_cpu_def n Let_def\<close>,
        simp_all add: md_cpu_to_disk_09_def)
qed

section \<open>The codec interface\<close>

text \<open>
  What a meta data format promises the commands: a structure it can represent is what is read
  back from its image, images have the fixed size that is transferred, and whatever bytes are
  read, the result is representable. \<open>env\<close> is what the format relies on of the headers.
\<close>

locale md_codec =
  fixes env :: bool and size :: nat and rep :: "md_cpu \<Rightarrow> bool"
    and image :: "host \<Rightarrow> md_cpu \<Rightarrow> bytes" and read :: "host \<Rightarrow> bytes \<Rightarrow> md_cpu"
  assumes read_image: "\<lbrakk>env; rep md\<rbrakk> \<Longrightarrow> read h (image h md) = md"
    and length_image: "\<lbrakk>env; rep md\<rbrakk> \<Longrightarrow> length (image h md) = size"
    and rep_read: "env \<Longrightarrow> rep (read h bs)"
begin

lemma rewrite_is_neutral: "env \<Longrightarrow> read h (image h (read h bs)) = read h bs"
  by (simp add: read_image rep_read)

lemma image_inj: "\<lbrakk>env; rep md; rep md'; image h md = image h md'\<rbrakk> \<Longrightarrow> md = md'"
  by (metis read_image)

end

lemma length_image_06 [simp]: "length (image_06 h md) = 24"
  by (simp add: image_06_def put_md_06_def md_cpu_to_disk_06_def GEN_CNT_SIZE_def)

lemma length_image_07: "length (d7_gc disk) = GEN_CNT_SIZE \<Longrightarrow> length (image_07 h disk md) = 4096"
  by (simp add: image_07_def put_md_07_def md_cpu_to_disk_07_def GEN_CNT_SIZE_def)

lemma length_image_08:
  assumes "array_sizes_ok H"
  shows "length (image_08 H h md) = 4096"
  using assms uuid_image_08 [OF assms, of h md]
  by (simp add: image_08_def put_md_08_def)
    (simp add: md_cpu_to_disk_08_def zero_md_08_def array_sizes_simps)

lemma length_get_md_07_gc [simp]: "length (d7_gc (get_md_07 h bs)) = GEN_CNT_SIZE"
  by (simp add: get_md_07_def case_prod_beta Let_def)

lemma rep_06_read: "rep_06 H (md_disk_06_to_cpu H h d)"
  by (simp add: rep_06_def pre_08_def md_disk_06_to_cpu_def)

lemma rep_07_read: "rep_07 H (md_disk_07_to_cpu H h d)"
  by (simp add: rep_07_def pre_08_def md_disk_07_to_cpu_def bit_0)

lemma rep_08_read:
  assumes "array_sizes_ok H"
  shows "rep_08 H (md_disk_08_to_cpu H h d)"
  using array_sizes_simps [OF assms]
  by (auto simp: rep_08_def md_disk_08_to_cpu_def Let_def fill_array_eq)

lemma rep_09_read:
  assumes "array_sizes_ok H"
  shows "rep_09 H (md_disk_09_to_cpu H h d)"
  using array_sizes_simps [OF assms]
  by (auto simp: rep_09_def wf_md_def md_disk_09_to_cpu_def Let_def)

interpretation codec_06: md_codec True 24 "rep_06 H" image_06 "\<lambda>h bs. md_disk_06_to_cpu H h (get_md_06 h bs)"
  for H by unfold_locales (simp_all add: roundtrip_06 rep_06_read)

interpretation codec_07: md_codec True 4096 "rep_07 H" "\<lambda>h. image_07 h (get_md_07 h buf)"
    "\<lambda>h bs. md_disk_07_to_cpu H h (get_md_07 h bs)"
  for H buf by unfold_locales (simp_all add: roundtrip_07 rep_07_read length_image_07)

interpretation codec_08: md_codec "array_sizes_ok H" 4096 "rep_08 H" "image_08 H"
    "\<lambda>h bs. md_disk_08_to_cpu H h (get_md_08 H h bs)"
  for H by unfold_locales (simp_all add: roundtrip_08 rep_08_read length_image_08)

interpretation codec_09: md_codec "array_sizes_ok H \<and> layout_9_ok H" 4096 "rep_09 H" "image_09 H"
    "\<lambda>h bs. md_disk_09_to_cpu H h (get_md_9 H h bs)"
  for H by unfold_locales
    (blast intro: roundtrip_09, simp add: image_09_def layout_9_ok_def, blast intro: rep_09_read)

section \<open>Properties\<close>

text \<open>
  C30. A v08 super block survives the way to disk and back between any two hosts: what
  \<^verbatim>\<open>md_disk_08_to_cpu\<close> makes of the 4 KiB that \<^verbatim>\<open>md_cpu_to_disk_08\<close> produced is the
  original structure, for every structure that v08 can represent, whatever the byte order of
  the writer and the reader.
\<close>

theorem md_08_roundtrip:
  assumes "array_sizes_ok H" and "rep_08 H md"
  shows "md_disk_08_to_cpu H reader (get_md_08 H reader (put_md_08 writer (md_cpu_to_disk_08 H writer md))) = md
    \<and> length (put_md_08 writer (md_cpu_to_disk_08 H writer md)) = 4096"
  using codec_08.read_image [OF assms, of reader] image_08_host [OF assms(1), of writer md reader]
    length_image_08 [OF assms(1), of writer md]
  by (simp add: image_08_def)

definition example_md_08 :: md_cpu where
  "example_md_08 = (zero_md example_headers)\<lparr>magic := DRBD_MD_MAGIC_08 example_headers,
     effective_size := 2048, current_uuid := 0x0123456789ABCDEF, max_peers := 1, al_offset := 8,
     bm_offset := 72, al_stripes := 1, al_stripe_size_4k := 8\<rparr>"

lemma rep_08_example: "rep_08 example_headers example_md_08"
proof -
  have "replicate 32 zero_peer = (replicate 32 zero_peer)[0 := zero_peer\<lparr>bitmap_uuid := 0\<rparr>]"
    by (intro list_update_same_conv [THEN iffD2, symmetric]) (simp_all add: zero_peer_def)
  then show ?thesis
    by (auto simp: rep_08_def example_md_08_def)
qed

theorem md_08_roundtrip_witness:
  "md_disk_08_to_cpu example_headers BigEndian (get_md_08 example_headers BigEndian
     (put_md_08 LittleEndian (md_cpu_to_disk_08 example_headers LittleEndian example_md_08))) = example_md_08"
  using md_08_roundtrip [OF example_headers_ok(1) rep_08_example, of BigEndian LittleEndian] by (rule conjunct1)

text \<open>
  C31. A v09 super block survives the way to disk and back: every peer slot, every history
  UUID and every other member, for every structure with at most \<^verbatim>\<open>DRBD_PEERS_MAX - 1\<close>
  bitmap slots; and whatever 4 KiB are read, the result has the array sizes and the bitmap
  slot bound.
\<close>

theorem md_09_roundtrip:
  assumes "array_sizes_ok H" and "layout_9_ok H"
  shows "(rep_09 H md \<longrightarrow>
      md_disk_09_to_cpu H h (get_md_9 H h (put_md_9 H h (md_cpu_to_disk_09 H h md))) = md)
    \<and> rep_09 H (md_disk_09_to_cpu H h disk)"
  using roundtrip_09 [OF assms] rep_09_read [OF assms(1)] by (simp add: image_09_def)

theorem md_09_roundtrip_witness:
  "md_disk_09_to_cpu example_headers LittleEndian (get_md_9 example_headers LittleEndian
     (put_md_9 example_headers LittleEndian (md_cpu_to_disk_09 example_headers LittleEndian
       (zero_md example_headers)))) = zero_md example_headers"
  using md_09_roundtrip [OF example_headers_ok(1) example_layout_9_ok, of "zero_md example_headers" LittleEndian]
  by (simp add: rep_09_def)

text \<open>
  The older formats survive the way to disk and back as well: v06 its generation counters,
  v07 also the sizes, which it stores in kilobytes and the structure in memory holds in
  sectors, so that they must be even.
\<close>

theorem md_06_07_roundtrip:
  "(rep_06 H md06 \<longrightarrow> md_disk_06_to_cpu H h (get_md_06 h (put_md_06 h
      (md_cpu_to_disk_06 h \<lparr>d6_gc = replicate GEN_CNT_SIZE 0, d6_magic = 0\<rparr> md06))) = md06)
   \<and> (rep_07 H md07 \<longrightarrow> md_disk_07_to_cpu H h (get_md_07 h (put_md_07 h
      (md_cpu_to_disk_07 h (get_md_07 h buf) md07))) = md07)"
  using codec_06.read_image [of H md06 h] codec_07.read_image [of H md07 h buf]
  by (simp add: image_06_def image_07_def)

definition example_md_07 :: md_cpu where
  "example_md_07 = (zero_md example_headers)\<lparr>gc := [1, 2, 3, 4, 5], magic := 0x8374026A,
     effective_size := 2048, md_size_sect := 262144, al_offset := 8, bm_offset := 72,
     bm_bytes_per_bit := 4096, max_peers := 1, al_stripes := 1, al_stripe_size_4k := 8\<rparr>"

theorem md_06_07_roundtrip_witness:
  "md_disk_07_to_cpu example_headers BigEndian (get_md_07 BigEndian (put_md_07 BigEndian
      (md_cpu_to_disk_07 BigEndian (get_md_07 BigEndian []) example_md_07))) = example_md_07"
proof -
  have "rep_07 example_headers example_md_07"
    by (simp add: rep_07_def pre_08_def example_md_07_def GEN_CNT_SIZE_def bit_0)
  then show ?thesis
    using md_06_07_roundtrip [of example_headers undefined BigEndian example_md_07 "[]"] by simp
qed

end
