(* ===== verification/Gen_Info.thy ===== *)
theory Gen_Info
  imports Cstring Md_Types
begin

text \<open>
  The generation identifiers: \<^verbatim>\<open>dt_print_gc\<close>, \<^verbatim>\<open>dt_print_uuids\<close> and
  \<^verbatim>\<open>dt_print_v9_uuids\<close>, the parsers \<^verbatim>\<open>m_set_gc\<close>, \<^verbatim>\<open>m_set_uuid\<close> and
  \<^verbatim>\<open>m_set_v9_uuid\<close> behind \<^verbatim>\<open>set-gi\<close>, and the changes behind \<^verbatim>\<open>outdate\<close> and
  \<^verbatim>\<open>invalidate\<close>. Shown is that \<^verbatim>\<open>set-gi\<close> applied to what \<^verbatim>\<open>get-gi\<close> printed
  transfers exactly the printed information.
\<close>

unbundle bit_operations_syntax

section \<open>Printing\<close>

definition flag01 :: "u32 \<Rightarrow> u32 \<Rightarrow> string" where
  "flag01 fl msk = (if fl AND msk \<noteq> 0 then ''1'' else ''0'')"

fun join_colon :: "string list \<Rightarrow> string" where
  "join_colon [] = []"
| "join_colon [t] = t"
| "join_colon (t # ts) = t @ CHR '':'' # join_colon ts"

text \<open>\<^verbatim>\<open>%d\<close> applied to an unsigned counter.\<close>

definition show_d :: "u32 \<Rightarrow> string" where "show_d v = show_int (sint v)"

definition gc_fields :: "headers \<Rightarrow> u32 list \<Rightarrow> string list" where
  "gc_fields H gen_cnt =
    [flag01 (gen_cnt ! Flags) (MDF_CONSISTENT H),
     show_d (gen_cnt ! HumanCnt), show_d (gen_cnt ! TimeoutCnt),
     show_d (gen_cnt ! ConnectedCnt), show_d (gen_cnt ! ArbitraryCnt),
     flag01 (gen_cnt ! Flags) (MDF_PRIMARY_IND H),
     flag01 (gen_cnt ! Flags) MDF_CONNECTED_IND,
     flag01 (gen_cnt ! Flags) MDF_FULL_SYNC]"

definition dt_print_gc :: "headers \<Rightarrow> u32 list \<Rightarrow> string" where
  "dt_print_gc H gen_cnt = join_colon (gc_fields H gen_cnt) @ [CHR 0x0A]"

text \<open>The array of UUIDs is a function from the index of the interface header.\<close>

definition uuid_head :: "headers \<Rightarrow> (nat \<Rightarrow> u64) \<Rightarrow> string list" where
  "uuid_head H uuid = [show_hex 16 (unat (uuid (UI_CURRENT H))), show_hex 16 (unat (uuid (UI_BITMAP H)))]
     @ map (\<lambda>i. show_hex 16 (unat (uuid i))) [UI_HISTORY_START H..<UI_HISTORY_END H + 1]"

definition uuid_fields :: "headers \<Rightarrow> (nat \<Rightarrow> u64) \<Rightarrow> u32 \<Rightarrow> string list" where
  "uuid_fields H uuid fl = uuid_head H uuid @
    [flag01 fl (MDF_CONSISTENT H), flag01 fl (MDF_WAS_UP_TO_DATE H), flag01 fl (MDF_PRIMARY_IND H),
     flag01 fl MDF_CONNECTED_IND, flag01 fl MDF_FULL_SYNC, flag01 fl MDF_PEER_OUT_DATED,
     flag01 fl (MDF_CRASHED_PRIMARY H)]"

definition dt_print_uuids :: "headers \<Rightarrow> (nat \<Rightarrow> u64) \<Rightarrow> u32 \<Rightarrow> string" where
  "dt_print_uuids H uuid fl = join_colon (uuid_fields H uuid fl) @ [CHR 0x0A]"

definition v9_uuid_fields :: "headers \<Rightarrow> (nat \<Rightarrow> u64) \<Rightarrow> u32 \<Rightarrow> u32 \<Rightarrow> string list" where
  "v9_uuid_fields H uuid mdf_flags mdf_peer_flags = uuid_head H uuid @
    [flag01 mdf_flags (MDF_CONSISTENT H), flag01 mdf_flags (MDF_WAS_UP_TO_DATE H),
     flag01 mdf_flags (MDF_PRIMARY_IND H), flag01 mdf_flags (MDF_CRASHED_PRIMARY H),
     flag01 mdf_flags (MDF_AL_CLEAN H), flag01 mdf_flags (MDF_AL_DISABLED H),
     flag01 mdf_flags (MDF_PRIMARY_LOST_QUORUM H),
     flag01 mdf_peer_flags (MDF_PEER_CONNECTED H), flag01 mdf_peer_flags (MDF_PEER_OUTDATED H),
     flag01 mdf_peer_flags (MDF_PEER_FENCING H), flag01 mdf_peer_flags (MDF_PEER_FULL_SYNC H),
     flag01 mdf_peer_flags (MDF_PEER_DEVICE_SEEN H)]"

definition dt_print_v9_uuids :: "headers \<Rightarrow> (nat \<Rightarrow> u64) \<Rightarrow> u32 \<Rightarrow> u32 \<Rightarrow> string" where
  "dt_print_v9_uuids H uuid mdf_flags mdf_peer_flags =
    join_colon (v9_uuid_fields H uuid mdf_flags mdf_peer_flags) @ [CHR 0x0A]"

definition gi_uuids :: "headers \<Rightarrow> md_cpu \<Rightarrow> nat \<Rightarrow> nat \<Rightarrow> u64" where
  "gi_uuids H md node = (\<lambda>i. 0)(
     UI_CURRENT H := current_uuid md, UI_BITMAP H := bitmap_uuid (peers md ! node),
     UI_HISTORY_START H := history_uuids md ! 0, UI_HISTORY_END H := history_uuids md ! 1)"

definition m_get_gc :: "headers \<Rightarrow> md_cpu \<Rightarrow> nat \<Rightarrow> string" where
  "m_get_gc H md node = dt_print_gc H (gc md)"

definition m_get_uuid :: "headers \<Rightarrow> md_cpu \<Rightarrow> nat \<Rightarrow> string" where
  "m_get_uuid H md node = dt_print_uuids H (gi_uuids H md node) (flags md)"

definition m_get_v9_uuid :: "headers \<Rightarrow> md_cpu \<Rightarrow> nat \<Rightarrow> string" where
  "m_get_v9_uuid H md node =
    dt_print_v9_uuids H (gi_uuids H md node) (flags md) (peer_flags (peers md ! node))"

section \<open>Parsing\<close>

text \<open>
  Whether there was a field, the new position of \<^verbatim>\<open>strsep\<close> and the value, which is kept
  when the field is empty or missing.
\<close>

definition m_strsep_u32 :: "string option \<Rightarrow> u32 \<Rightarrow> (bool \<times> string option \<times> u32) res" where
  "m_strsep_u32 s val = (case strsep (CHR '':'') s of
     (None, s) \<Rightarrow> Inr (False, s, val)
   | (Some t, s) \<Rightarrow>
       if t = [] then Inr (True, s, val)
       else case strtoul 0 t of (v, e, err) \<Rightarrow>
         if e \<noteq> [] then Inl (Exit 10)
         else if err then Inl (Exit 10)
         else if v > 0xFFffFFff then Inl (Exit 10)
         else Inr (True, s, ucast v))"

definition m_strsep_u64 :: "string option \<Rightarrow> u64 \<Rightarrow> (bool \<times> string option \<times> u64) res" where
  "m_strsep_u64 s val = (case strsep (CHR '':'') s of
     (None, s) \<Rightarrow> Inr (False, s, val)
   | (Some t, s) \<Rightarrow>
       if t = [] then Inr (True, s, val)
       else case strtoul 16 t of (v, e, err) \<Rightarrow>
         if e \<noteq> [] then Inl (Exit 10)
         else if err then Inl (Exit 10)
         else Inr (True, s, v))"

definition m_strsep_bit :: "string option \<Rightarrow> u32 \<Rightarrow> u32 \<Rightarrow> (bool \<times> string option \<times> u32) res" where
  "m_strsep_bit s val msk =
    bind_res (m_strsep_u32 s (if val AND msk \<noteq> 0 then 1 else 0)) (\<lambda>(rv, s, d).
      if d > 1 then Inl (Exit 10)
      else Inr (rv, s, if d \<noteq> 0 then val OR msk else val AND NOT msk))"

text \<open>
  A line \<^verbatim>\<open>if (!m_strsep_...(str, &md->member)) break;\<close> is a field: how the member is
  read from and written to the structure.
\<close>

datatype field =
    U32 "md_cpu \<Rightarrow> u32" "u32 \<Rightarrow> md_cpu \<Rightarrow> md_cpu"
  | U64 "md_cpu \<Rightarrow> u64" "u64 \<Rightarrow> md_cpu \<Rightarrow> md_cpu"
  | Bit "md_cpu \<Rightarrow> u32" "u32 \<Rightarrow> md_cpu \<Rightarrow> md_cpu" u32

fun set_field :: "field \<Rightarrow> string option \<Rightarrow> md_cpu \<Rightarrow> (bool \<times> string option \<times> md_cpu) res" where
  "set_field (U32 rd wr) s md = bind_res (m_strsep_u32 s (rd md)) (\<lambda>(rv, s, v). Inr (rv, s, wr v md))"
| "set_field (U64 rd wr) s md = bind_res (m_strsep_u64 s (rd md)) (\<lambda>(rv, s, v). Inr (rv, s, wr v md))"
| "set_field (Bit rd wr m) s md = bind_res (m_strsep_bit s (rd md) m) (\<lambda>(rv, s, v). Inr (rv, s, wr v md))"

fun set_fields :: "field list \<Rightarrow> string option \<Rightarrow> md_cpu \<Rightarrow> md_cpu res" where
  "set_fields [] s md = Inr md"
| "set_fields (f # fs) s md =
    bind_res (set_field f s md) (\<lambda>(rv, s, md). if rv then set_fields fs s md else Inr md)"

definition gc_field :: "nat \<Rightarrow> field" where
  "gc_field i = U32 (\<lambda>md. gc md ! i) (\<lambda>v md. md\<lparr>gc := (gc md)[i := v]\<rparr>)"

definition gc_bit :: "u32 \<Rightarrow> field" where
  "gc_bit m = Bit (\<lambda>md. gc md ! Flags) (\<lambda>v md. md\<lparr>gc := (gc md)[Flags := v]\<rparr>) m"

definition flag_bit :: "u32 \<Rightarrow> field" where
  "flag_bit m = Bit flags (\<lambda>v md. md\<lparr>flags := v\<rparr>) m"

definition peer_bit :: "nat \<Rightarrow> u32 \<Rightarrow> field" where
  "peer_bit n m = Bit (\<lambda>md. peer_flags (peers md ! n))
     (\<lambda>v md. md\<lparr>peers := (peers md)[n := (peers md ! n)\<lparr>peer_flags := v\<rparr>]\<rparr>) m"

definition uuid_members :: "headers \<Rightarrow> nat \<Rightarrow> field list" where
  "uuid_members H n =
    [U64 current_uuid (\<lambda>v md. md\<lparr>current_uuid := v\<rparr>),
     U64 (\<lambda>md. bitmap_uuid (peers md ! n))
       (\<lambda>v md. md\<lparr>peers := (peers md)[n := (peers md ! n)\<lparr>bitmap_uuid := v\<rparr>]\<rparr>)]
    @ map (\<lambda>i. U64 (\<lambda>md. history_uuids md ! i) (\<lambda>v md. md\<lparr>history_uuids := (history_uuids md)[i := v]\<rparr>))
        [0..<HISTORY_UUIDS_V08 H]"

definition m_set_gc :: "headers \<Rightarrow> nat \<Rightarrow> string \<Rightarrow> md_cpu \<Rightarrow> md_cpu res" where
  "m_set_gc H n arg md = set_fields
    [gc_bit (MDF_CONSISTENT H), gc_field HumanCnt, gc_field TimeoutCnt, gc_field ConnectedCnt,
     gc_field ArbitraryCnt, gc_bit (MDF_PRIMARY_IND H), gc_bit MDF_CONNECTED_IND, gc_bit MDF_FULL_SYNC]
    (Some arg) md"

definition m_set_uuid :: "headers \<Rightarrow> nat \<Rightarrow> string \<Rightarrow> md_cpu \<Rightarrow> md_cpu res" where
  "m_set_uuid H n arg md = set_fields (uuid_members H n @
    [flag_bit (MDF_CONSISTENT H), flag_bit (MDF_WAS_UP_TO_DATE H), flag_bit (MDF_PRIMARY_IND H),
     flag_bit MDF_CONNECTED_IND, flag_bit MDF_FULL_SYNC, flag_bit MDF_PEER_OUT_DATED,
     flag_bit (MDF_CRASHED_PRIMARY H)])
    (Some arg) md"

definition m_set_v9_uuid :: "headers \<Rightarrow> nat \<Rightarrow> string \<Rightarrow> md_cpu \<Rightarrow> md_cpu res" where
  "m_set_v9_uuid H n arg md = set_fields (uuid_members H n @
    [flag_bit (MDF_CONSISTENT H), flag_bit (MDF_WAS_UP_TO_DATE H), flag_bit (MDF_PRIMARY_IND H),
     flag_bit (MDF_CRASHED_PRIMARY H), flag_bit (MDF_AL_CLEAN H), flag_bit (MDF_AL_DISABLED H),
     flag_bit (MDF_PRIMARY_LOST_QUORUM H),
     peer_bit n (MDF_PEER_CONNECTED H), peer_bit n (MDF_PEER_OUTDATED H), peer_bit n (MDF_PEER_FENCING H),
     peer_bit n (MDF_PEER_FULL_SYNC H), peer_bit n (MDF_PEER_DEVICE_SEEN H)])
    (Some arg) md"

section \<open>Which peer\<close>

text \<open>
  The checks of \<^verbatim>\<open>main\<close> on \<^verbatim>\<open>--node-id\<close>; \<open>-1\<close> is a missing option. The result is the
  value that the command gets.
\<close>

definition resolve_node_id :: "bool \<Rightarrow> bool \<Rightarrow> int \<Rightarrow> int res" where
  "resolve_node_id is_v09 node_id_required option_node_id =
    (if option_node_id \<noteq> -1 \<and> \<not> node_id_required then Inl (Exit 10)
     else let id = (if \<not> is_v09 \<and> node_id_required \<and> option_node_id = -1 then 0 else option_node_id)
          in if id = -1 \<and> node_id_required then Inl (Exit 10) else Inr id)"

section \<open>Outdate and invalidate\<close>

text \<open>The return code and the changed structure.\<close>

definition m_outdate_gc :: "md_cpu \<Rightarrow> int \<times> md_cpu" where
  "m_outdate_gc md = (5, md)"

definition m_outdate_uuid :: "headers \<Rightarrow> md_cpu \<Rightarrow> int \<times> md_cpu" where
  "m_outdate_uuid H md =
    (if flags md AND MDF_CONSISTENT H = 0 then (5, md)
     else (0, md\<lparr>flags := flags md AND NOT (MDF_WAS_UP_TO_DATE H)\<rparr>))"

definition m_invalidate_gc :: "headers \<Rightarrow> md_cpu \<Rightarrow> int \<times> md_cpu" where
  "m_invalidate_gc H md =
    (5, md\<lparr>gc := (gc md)[Flags := (gc md ! Flags AND NOT (MDF_CONSISTENT H)) OR MDF_FULL_SYNC]\<rparr>)"

definition m_invalidate_uuid :: "headers \<Rightarrow> md_cpu \<Rightarrow> int \<times> md_cpu" where
  "m_invalidate_uuid H md =
    (0, md\<lparr>flags := (flags md AND NOT (MDF_CONSISTENT H) AND NOT (MDF_WAS_UP_TO_DATE H)) OR MDF_FULL_SYNC\<rparr>)"

definition m_invalidate_v9_uuid :: "headers \<Rightarrow> md_cpu \<Rightarrow> int \<times> md_cpu" where
  "m_invalidate_v9_uuid H md =
    (0, md\<lparr>flags := flags md AND NOT (MDF_CONSISTENT H) AND NOT (MDF_WAS_UP_TO_DATE H),
       peers := fill_array (DRBD_NODE_ID_MAX H)
         (\<lambda>n. (peers md ! n)\<lparr>peer_flags := peer_flags (peers md ! n) OR MDF_PEER_FULL_SYNC H\<rparr>) (peers md)\<rparr>)"

section \<open>One field\<close>

definition field_text :: "string \<Rightarrow> string option \<Rightarrow> string" where
  "field_text t rest = (case rest of None \<Rightarrow> t | Some r \<Rightarrow> t @ CHR '':'' # r)"

lemma strsep_field: "CHR '':'' \<notin> set t \<Longrightarrow> strsep (CHR '':'') (Some (field_text t rest)) = (Some t, rest)"
  by (cases rest) (simp_all add: field_text_def strsep_append strsep_last)

lemma join_colon_Cons: "join_colon (t # ts) = field_text t (if ts = [] then None else Some (join_colon ts))"
  by (cases ts) (simp_all add: field_text_def)

lemma m_strsep_u64_hex:
  "m_strsep_u64 (Some (field_text (show_hex 16 (unat v)) rest)) w = Inr (True, rest, v)"
  using strtoul_hex [of "[]" "unat v" 16] unat_less [of v]
  by (simp add: m_strsep_u64_def strsep_field show_hex_no_colon)

lemma m_strsep_u32_dec:
  assumes "n < 2 ^ 32"
  shows "m_strsep_u32 (Some (field_text (show_nat n) rest)) w = Inr (True, rest, of_nat n)"
proof -
  have u: "unat (of_nat n :: u64) = n" using assms by (intro unat_of_nat_u64) simp
  then have "(of_nat n :: u64) \<le> 0xFFffFFff" using assms by (simp add: word_le_nat_alt)
  moreover have "(ucast (of_nat n :: u64) :: u32) = of_nat n" by (metis of_nat_unat u)
  ultimately show ?thesis
    using strtoul_dec [of "[]" 0 n] assms by (simp add: m_strsep_u32_def strsep_field show_nat_no_colon)
qed

lemma show_nat_01: "show_nat 0 = ''0''" "show_nat (Suc 0) = ''1''"
  by (simp_all add: show_nat_def show_base.simps digit_char_def char_of_def bit_iff_odd)

text \<open>The bits of \<open>m\<close> come from \<open>src\<close>, the others from \<open>dst\<close>.\<close>

definition copy_bits :: "u32 \<Rightarrow> u32 \<Rightarrow> u32 \<Rightarrow> u32" where
  "copy_bits m src dst = (dst AND NOT m) OR (src AND m)"

definition single_bit :: "u32 \<Rightarrow> bool" where
  "single_bit m \<longleftrightarrow> (\<exists>k<32. m = push_bit k 1)"

lemma copy_single:
  assumes "single_bit m"
  shows "(if src AND m \<noteq> 0 then dst OR m else dst AND NOT m) = copy_bits m src dst"
proof -
  obtain k where m: "m = push_bit k 1" "k < 32" using assms by (auto simp: single_bit_def)
  have bm: "bit m i \<longleftrightarrow> i = k" for i using m by (auto simp: bit_simps)
  have "src AND m \<noteq> 0 \<longleftrightarrow> bit src k"
  proof
    assume "src AND m \<noteq> 0"
    then obtain i where "bit (src AND m) i" by (metis bit_eq_iff bit_0_eq bot_apply bot_bool_def)
    then show "bit src k" by (auto simp: bit_and_iff bm)
  next
    assume "bit src k"
    then have "bit (src AND m) k" by (simp add: bit_and_iff bm)
    then show "src AND m \<noteq> 0" by auto
  qed
  then show ?thesis
    by (intro bit_eqI) (auto simp: copy_bits_def bit_and_iff bit_or_iff bit_not_iff bm)
qed

lemma copy_bits_twice: "copy_bits m2 src (copy_bits m1 src dst) = copy_bits (m1 OR m2) src dst"
  by (rule bit_eqI) (auto simp: copy_bits_def bit_simps)

lemma copy_bits_same [simp]: "copy_bits m x x = x"
  by (rule bit_eqI) (auto simp: copy_bits_def bit_simps)

lemma m_strsep_bit_flag:
  assumes "single_bit m"
  shows "m_strsep_bit (Some (field_text (flag01 src m) rest)) val m = Inr (True, rest, copy_bits m src val)"
proof -
  have "m_strsep_u32 (Some (field_text (flag01 src m) rest)) w = Inr (True, rest, if src AND m \<noteq> 0 then 1 else 0)" for w
    using m_strsep_u32_dec [of 0 rest w] m_strsep_u32_dec [of 1 rest w] by (simp add: flag01_def show_nat_01)
  then show ?thesis using copy_single [OF assms, of src val]
    by (cases "src AND m \<noteq> 0") (simp_all add: m_strsep_bit_def)
qed

section \<open>All fields\<close>

text \<open>A field that is always present: its text and the change it makes.\<close>

lemma set_fields_join:
  assumes "\<forall>(f, t, g)\<in>set xs. \<forall>rest md. set_field f (Some (field_text t rest)) md = Inr (True, rest, g md)"
    and "xs \<noteq> []"
  shows "set_fields (map (\<lambda>(f, t, g). f) xs) (Some (join_colon (map (\<lambda>(f, t, g). t) xs))) md
    = Inr (fold (\<lambda>(f, t, g). g) xs md)"
  using assms
proof (induction xs arbitrary: md)
  case (Cons x xs)
  obtain f t g where x: "x = (f, t, g)" by (cases x)
  have step: "set_field f (Some (field_text t rest)) md = Inr (True, rest, g md)" for rest md
    using Cons.prems(1) x by auto
  show ?case
  proof (cases "xs = []")
    case True
    then show ?thesis using step [of None md] by (simp add: x field_text_def)
  next
    case False
    then show ?thesis
      using Cons.IH [of "g md"] Cons.prems(1) step [of "Some (join_colon (map (\<lambda>(f, t, g). t) xs))" md]
      by (simp add: x join_colon_Cons del: join_colon.simps)
  qed
qed simp

lemma set_field_U64:
  "set_field (U64 rd wr) (Some (field_text (show_hex 16 (unat v)) rest)) md = Inr (True, rest, wr v md)"
  by (simp add: m_strsep_u64_hex)

lemma set_field_Bit:
  "single_bit m \<Longrightarrow> set_field (Bit rd wr m) (Some (field_text (flag01 src m) rest)) md
    = Inr (True, rest, wr (copy_bits m src (rd md)) md)"
  by (simp add: m_strsep_bit_flag)

lemma set_field_U32:
  assumes "unat v < 2 ^ 31"
  shows "set_field (U32 rd wr) (Some (field_text (show_d v) rest)) md = Inr (True, rest, wr v md)"
proof -
  obtain n where n: "unat v = n" "n < 2 ^ 31" using assms by simp
  then have "sint v = signed_take_bit 31 (int n)" by (simp add: sint_uint uint_nat)
  also have "\<dots> = int n" by (rule signed_take_bit_int_eq_self) (use n(2) in simp_all)
  finally have "sint v = int (unat v)" using n(1) by simp
  then have "show_d v = show_nat (unat v)" by (simp add: show_d_def show_int_def)
  then show ?thesis using m_strsep_u32_dec [of "unat v" rest] assms by simp
qed

text \<open>The flags of the interface headers are single bits.\<close>

definition mdf_flags_ok :: "headers \<Rightarrow> bool" where
  "mdf_flags_ok H \<longleftrightarrow> list_all single_bit
    [MDF_CONSISTENT H, MDF_PRIMARY_IND H, MDF_WAS_UP_TO_DATE H, MDF_CRASHED_PRIMARY H, MDF_AL_CLEAN H,
     MDF_AL_DISABLED H, MDF_PRIMARY_LOST_QUORUM H, MDF_PEER_CONNECTED H, MDF_PEER_OUTDATED H,
     MDF_PEER_FENCING H, MDF_PEER_FULL_SYNC H, MDF_PEER_DEVICE_SEEN H]"

lemma single_bit_08 [simp]: "single_bit MDF_CONNECTED_IND" "single_bit MDF_FULL_SYNC" "single_bit MDF_PEER_OUT_DATED"
  unfolding single_bit_def MDF_CONNECTED_IND_def MDF_FULL_SYNC_def MDF_PEER_OUT_DATED_def
  by (rule exI [of _ 2], simp, rule exI [of _ 3], simp, rule exI [of _ 5], simp)

abbreviation flag_entry :: "u32 \<Rightarrow> u32 \<Rightarrow> field \<times> string \<times> (md_cpu \<Rightarrow> md_cpu)" where
  "flag_entry src m \<equiv> (flag_bit m, flag01 src m, \<lambda>md. md\<lparr>flags := copy_bits m src (flags md)\<rparr>)"

abbreviation peer_entry :: "nat \<Rightarrow> u32 \<Rightarrow> u32 \<Rightarrow> field \<times> string \<times> (md_cpu \<Rightarrow> md_cpu)" where
  "peer_entry n src m \<equiv> (peer_bit n m, flag01 src m, \<lambda>md. md\<lparr>peers := (peers md)[n :=
     (peers md ! n)\<lparr>peer_flags := copy_bits m src (peer_flags (peers md ! n))\<rparr>]\<rparr>)"

abbreviation gc_flag_entry :: "u32 \<Rightarrow> u32 \<Rightarrow> field \<times> string \<times> (md_cpu \<Rightarrow> md_cpu)" where
  "gc_flag_entry src m \<equiv> (gc_bit m, flag01 src m, \<lambda>md. md\<lparr>gc := (gc md)[Flags := copy_bits m src (gc md ! Flags)]\<rparr>)"

abbreviation gc_entry :: "nat \<Rightarrow> u32 \<Rightarrow> field \<times> string \<times> (md_cpu \<Rightarrow> md_cpu)" where
  "gc_entry i v \<equiv> (gc_field i, show_d v, \<lambda>md. md\<lparr>gc := (gc md)[i := v]\<rparr>)"

definition uuid_entries :: "headers \<Rightarrow> nat \<Rightarrow> md_cpu \<Rightarrow> (field \<times> string \<times> (md_cpu \<Rightarrow> md_cpu)) list" where
  "uuid_entries H n md1 =
    [(U64 current_uuid (\<lambda>v md. md\<lparr>current_uuid := v\<rparr>), show_hex 16 (unat (current_uuid md1)),
        \<lambda>md. md\<lparr>current_uuid := current_uuid md1\<rparr>),
     (U64 (\<lambda>md. bitmap_uuid (peers md ! n)) (\<lambda>v md. md\<lparr>peers := (peers md)[n := (peers md ! n)\<lparr>bitmap_uuid := v\<rparr>]\<rparr>),
        show_hex 16 (unat (bitmap_uuid (peers md1 ! n))),
        \<lambda>md. md\<lparr>peers := (peers md)[n := (peers md ! n)\<lparr>bitmap_uuid := bitmap_uuid (peers md1 ! n)\<rparr>]\<rparr>)]
    @ map (\<lambda>i. (U64 (\<lambda>md. history_uuids md ! i) (\<lambda>v md. md\<lparr>history_uuids := (history_uuids md)[i := v]\<rparr>),
        show_hex 16 (unat (history_uuids md1 ! i)), \<lambda>md. md\<lparr>history_uuids := (history_uuids md)[i := history_uuids md1 ! i]\<rparr>))
      [0, 1]"

lemma uuid_entries_ok:
  assumes "array_sizes_ok H"
  shows "map (\<lambda>(f, t, g). f) (uuid_entries H n md1) = uuid_members H n"
    and "map (\<lambda>(f, t, g). t) (uuid_entries H n md1) = uuid_head H (gi_uuids H md1 n)"
    and "\<forall>(f, t, g)\<in>set (uuid_entries H n md1). \<forall>rest md. set_field f (Some (field_text t rest)) md = Inr (True, rest, g md)"
  using assms
  by (simp_all add: uuid_entries_def uuid_members_def uuid_head_def gi_uuids_def array_sizes_ok_def upt_rec set_field_U64
      del: set_field.simps)

lemma set_fields_uuid:
  assumes "array_sizes_ok H" and "\<forall>(f, t, g)\<in>set xs. \<forall>rest md. set_field f (Some (field_text t rest)) md = Inr (True, rest, g md)"
  shows "set_fields (uuid_members H n @ map (\<lambda>(f, t, g). f) xs)
      (Some (join_colon (uuid_head H (gi_uuids H md1 n) @ map (\<lambda>(f, t, g). t) xs))) md
    = Inr (fold (\<lambda>(f, t, g). g) (uuid_entries H n md1 @ xs) md)"
proof -
  have "\<forall>(f, t, g)\<in>set (uuid_entries H n md1 @ xs). \<forall>rest md.
      set_field f (Some (field_text t rest)) md = Inr (True, rest, g md)"
    unfolding set_append ball_Un using uuid_entries_ok(3) [OF assms(1), of n md1] assms(2) by (rule conjI)
  moreover have "uuid_entries H n md1 @ xs \<noteq> []" by (simp add: uuid_entries_def)
  ultimately show ?thesis
    using set_fields_join [of "uuid_entries H n md1 @ xs" md] uuid_entries_ok(1,2) [OF assms(1), of n md1] by simp
qed

text \<open>The structure after the UUIDs of \<open>md1\<close> were transferred.\<close>

definition with_uuids :: "nat \<Rightarrow> md_cpu \<Rightarrow> md_cpu \<Rightarrow> md_cpu" where
  "with_uuids n md1 md = md\<lparr>current_uuid := current_uuid md1,
     peers := (peers md)[n := (peers md ! n)\<lparr>bitmap_uuid := bitmap_uuid (peers md1 ! n)\<rparr>],
     history_uuids := (history_uuids md)[0 := history_uuids md1 ! 0, 1 := history_uuids md1 ! 1]\<rparr>"

lemma fold_uuid_entries: "fold (\<lambda>(f, t, g). g) (uuid_entries H n md1) md = with_uuids n md1 md"
  by (simp add: uuid_entries_def with_uuids_def)

definition gi_flags_08 :: "headers \<Rightarrow> u32" where
  "gi_flags_08 H = MDF_CONSISTENT H OR MDF_WAS_UP_TO_DATE H OR MDF_PRIMARY_IND H OR MDF_CONNECTED_IND
     OR MDF_FULL_SYNC OR MDF_PEER_OUT_DATED OR MDF_CRASHED_PRIMARY H"

definition gi_flags_09 :: "headers \<Rightarrow> u32" where
  "gi_flags_09 H = MDF_CONSISTENT H OR MDF_WAS_UP_TO_DATE H OR MDF_PRIMARY_IND H OR MDF_CRASHED_PRIMARY H
     OR MDF_AL_CLEAN H OR MDF_AL_DISABLED H OR MDF_PRIMARY_LOST_QUORUM H"

definition gi_peer_flags_09 :: "headers \<Rightarrow> u32" where
  "gi_peer_flags_09 H = MDF_PEER_CONNECTED H OR MDF_PEER_OUTDATED H OR MDF_PEER_FENCING H
     OR MDF_PEER_FULL_SYNC H OR MDF_PEER_DEVICE_SEEN H"

definition gi_flags_gc :: "headers \<Rightarrow> u32" where
  "gi_flags_gc H = MDF_CONSISTENT H OR MDF_PRIMARY_IND H OR MDF_CONNECTED_IND OR MDF_FULL_SYNC"

lemma flag_entry_ok: "single_bit m \<Longrightarrow> set_field (flag_bit m) (Some (field_text (flag01 src m) rest)) md
    = Inr (True, rest, md\<lparr>flags := copy_bits m src (flags md)\<rparr>)"
  by (simp only: flag_bit_def set_field_Bit)

lemma peer_entry_ok: "single_bit m \<Longrightarrow> set_field (peer_bit n m) (Some (field_text (flag01 src m) rest)) md
    = Inr (True, rest, md\<lparr>peers := (peers md)[n := (peers md ! n)\<lparr>peer_flags := copy_bits m src (peer_flags (peers md ! n))\<rparr>]\<rparr>)"
  by (simp only: peer_bit_def set_field_Bit)

lemma gc_flag_entry_ok: "single_bit m \<Longrightarrow> set_field (gc_bit m) (Some (field_text (flag01 src m) rest)) md
    = Inr (True, rest, md\<lparr>gc := (gc md)[Flags := copy_bits m src (gc md ! Flags)]\<rparr>)"
  by (simp only: gc_bit_def set_field_Bit)

lemma gc_entry_ok: "unat v < 2 ^ 31 \<Longrightarrow> set_field (gc_field i) (Some (field_text (show_d v) rest)) md
    = Inr (True, rest, md\<lparr>gc := (gc md)[i := v]\<rparr>)"
  by (simp only: gc_field_def set_field_U32)

lemma butlast_text: "butlast (t @ [c]) = t"
  by simp

lemma copy_chain:
  "copy_bits m2 s (copy_bits m1 s x) = copy_bits (m1 OR m2) s x"
  "copy_bits m3 s (copy_bits (m1 OR m2) s x) = copy_bits (m1 OR m2 OR m3) s x"
  by (simp_all only: copy_bits_twice or.assoc)

section \<open>Properties\<close>

lemma set_v9_uuid_text:
  assumes H: "array_sizes_ok H" "mdf_flags_ok H" and n: "n < length (peers md)"
  shows "m_set_v9_uuid H n (join_colon (v9_uuid_fields H (gi_uuids H md1 n) (flags md1) (peer_flags (peers md1 ! n)))) md
    = Inr ((with_uuids n md1 md)\<lparr>flags := copy_bits (gi_flags_09 H) (flags md1) (flags md),
        peers := (peers md)[n := (peers md ! n)\<lparr>bitmap_uuid := bitmap_uuid (peers md1 ! n),
          peer_flags := copy_bits (gi_peer_flags_09 H) (peer_flags (peers md1 ! n)) (peer_flags (peers md ! n))\<rparr>]\<rparr>)"
proof -
  let ?f = "flag_entry (flags md1)" and ?p = "peer_entry n (peer_flags (peers md1 ! n))"
  let ?xs = "map ?f [MDF_CONSISTENT H, MDF_WAS_UP_TO_DATE H, MDF_PRIMARY_IND H, MDF_CRASHED_PRIMARY H,
      MDF_AL_CLEAN H, MDF_AL_DISABLED H, MDF_PRIMARY_LOST_QUORUM H]
    @ map ?p [MDF_PEER_CONNECTED H, MDF_PEER_OUTDATED H, MDF_PEER_FENCING H, MDF_PEER_FULL_SYNC H, MDF_PEER_DEVICE_SEEN H]"
  have "\<forall>(f, t, g)\<in>set ?xs. \<forall>rest md. set_field f (Some (field_text t rest)) md = Inr (True, rest, g md)"
    using H(2) by (simp add: mdf_flags_ok_def flag_entry_ok peer_entry_ok del: set_field.simps)
  from set_fields_uuid [OF H(1) this, of n md1 md]
  have "m_set_v9_uuid H n (join_colon (v9_uuid_fields H (gi_uuids H md1 n) (flags md1) (peer_flags (peers md1 ! n)))) md
      = Inr (fold (\<lambda>(f, t, g). g) ?xs (with_uuids n md1 md))"
    by (simp add: m_set_v9_uuid_def v9_uuid_fields_def fold_uuid_entries)
  then show ?thesis using n
    by (simp add: with_uuids_def copy_bits_twice gi_flags_09_def gi_peer_flags_09_def or.assoc)
qed

lemma set_uuid_text:
  assumes H: "array_sizes_ok H" "mdf_flags_ok H"
  shows "m_set_uuid H n (join_colon (uuid_fields H (gi_uuids H md1 n) (flags md1))) md
    = Inr ((with_uuids n md1 md)\<lparr>flags := copy_bits (gi_flags_08 H) (flags md1) (flags md)\<rparr>)"
proof -
  let ?xs = "map (flag_entry (flags md1)) [MDF_CONSISTENT H, MDF_WAS_UP_TO_DATE H, MDF_PRIMARY_IND H,
      MDF_CONNECTED_IND, MDF_FULL_SYNC, MDF_PEER_OUT_DATED, MDF_CRASHED_PRIMARY H]"
  have "\<forall>(f, t, g)\<in>set ?xs. \<forall>rest md. set_field f (Some (field_text t rest)) md = Inr (True, rest, g md)"
    using H(2) by (simp add: mdf_flags_ok_def flag_entry_ok del: set_field.simps)
  from set_fields_uuid [OF H(1) this, of n md1 md]
  have "m_set_uuid H n (join_colon (uuid_fields H (gi_uuids H md1 n) (flags md1))) md
      = Inr (fold (\<lambda>(f, t, g). g) ?xs (with_uuids n md1 md))"
    by (simp add: m_set_uuid_def uuid_fields_def fold_uuid_entries)
  then show ?thesis by (simp add: with_uuids_def copy_bits_twice gi_flags_08_def or.assoc)
qed

lemma five:
  assumes "length xs = GEN_CNT_SIZE"
  shows "\<exists>a b c d e. xs = [a, b, c, d, e]"
proof -
  have "length xs = Suc (Suc (Suc (Suc (Suc 0))))" using assms by (simp add: GEN_CNT_SIZE_def)
  then show ?thesis by (simp add: length_Suc_conv) blast
qed

lemma set_gc_text:
  assumes H: "mdf_flags_ok H" and wf: "length (gc md) = GEN_CNT_SIZE" "length g = GEN_CNT_SIZE"
    and small: "\<forall>i\<in>{1..4}. unat (g ! i) < 2 ^ 31"
  shows "m_set_gc H n (join_colon (gc_fields H g)) md
    = Inr (md\<lparr>gc := copy_bits (gi_flags_gc H) (g ! 0) (gc md ! 0) # tl g\<rparr>)"
proof -
  let ?f = "gc_flag_entry (g ! Flags)" and ?c = "\<lambda>i. gc_entry i (g ! i)"
  let ?xs = "[?f (MDF_CONSISTENT H), ?c HumanCnt, ?c TimeoutCnt, ?c ConnectedCnt, ?c ArbitraryCnt,
      ?f (MDF_PRIMARY_IND H), ?f MDF_CONNECTED_IND, ?f MDF_FULL_SYNC]"
  have "\<forall>(f, t, k)\<in>set ?xs. \<forall>rest md. set_field f (Some (field_text t rest)) md = Inr (True, rest, k md)"
    using H small by (simp add: mdf_flags_ok_def gc_flag_entry_ok gc_entry_ok del: set_field.simps)
  from set_fields_join [OF this, of md]
  have "m_set_gc H n (join_colon (gc_fields H g)) md = Inr (fold (\<lambda>(f, t, k). k) ?xs md)"
    by (simp add: m_set_gc_def gc_fields_def)
  moreover obtain x0 x1 x2 x3 x4 where x: "gc md = [x0, x1, x2, x3, x4]"
    using five [OF wf(1)] by blast
  moreover obtain y0 y1 y2 y3 y4 where y: "g = [y0, y1, y2, y3, y4]"
    using five [OF wf(2)] by blast
  ultimately show ?thesis by (simp add: copy_bits_twice gi_flags_gc_def or.assoc)
qed

lemma peer_id: "p\<lparr>bitmap_uuid := bitmap_uuid p, peer_flags := peer_flags p\<rparr> = (p :: peer_md_cpu)" "p\<lparr>bitmap_uuid := bitmap_uuid p\<rparr> = p"
  by (cases p, simp)+

lemma with_uuids_same [simp]: "with_uuids n md md = md"
  by (cases md) (simp add: with_uuids_def peer_id)

text \<open>
  C21. \<^verbatim>\<open>set-gi\<close> of what \<^verbatim>\<open>get-gi\<close> printed for a peer of v09 meta data: the UUIDs of the
  peer and the twelve printed flags are those of the source, every other flag, history entry and
  peer keeps its value; applied to the structure it came from, nothing changes.
\<close>

theorem gi_v09_transfer:
  assumes "array_sizes_ok H" and "mdf_flags_ok H" and "n < length (peers md)"
  shows "m_set_v9_uuid H n (butlast (m_get_v9_uuid H md1 n)) md
      = Inr ((with_uuids n md1 md)\<lparr>flags := copy_bits (gi_flags_09 H) (flags md1) (flags md),
          peers := (peers md)[n := (peers md ! n)\<lparr>bitmap_uuid := bitmap_uuid (peers md1 ! n),
            peer_flags := copy_bits (gi_peer_flags_09 H) (peer_flags (peers md1 ! n)) (peer_flags (peers md ! n))\<rparr>]\<rparr>)
    \<and> m_set_v9_uuid H n (butlast (m_get_v9_uuid H md n)) md = Inr md"
proof -
  have printed: "butlast (m_get_v9_uuid H md1 n)
      = join_colon (v9_uuid_fields H (gi_uuids H md1 n) (flags md1) (peer_flags (peers md1 ! n)))" for md1
    by (simp only: m_get_v9_uuid_def dt_print_v9_uuids_def butlast_text)
  have "md\<lparr>flags := flags md, peers := peers md\<rparr> = md" by (cases md) simp
  then show ?thesis
    using set_v9_uuid_text [OF assms, of md1] set_v9_uuid_text [OF assms, of md] by (simp add: printed peer_id)
qed

text \<open>
  The same for the UUIDs and flags of v08 meta data.
\<close>

theorem gi_v08_transfer:
  assumes "array_sizes_ok H" and "mdf_flags_ok H"
  shows "m_set_uuid H n (butlast (m_get_uuid H md1 n)) md
      = Inr ((with_uuids n md1 md)\<lparr>flags := copy_bits (gi_flags_08 H) (flags md1) (flags md)\<rparr>)
    \<and> m_set_uuid H n (butlast (m_get_uuid H md n)) md = Inr md"
proof -
  have printed: "butlast (m_get_uuid H md1 n) = join_colon (uuid_fields H (gi_uuids H md1 n) (flags md1))" for md1
    by (simp only: m_get_uuid_def dt_print_uuids_def butlast_text)
  have "md\<lparr>flags := flags md\<rparr> = md" by (cases md) simp
  then show ?thesis
    using set_uuid_text [OF assms, of n md1] set_uuid_text [OF assms, of n md] by (simp add: printed)
qed

lemma strtoul_neg:
  assumes "n < 2 ^ 64"
  shows "strtoul 0 (CHR ''-'' # show_nat n) = (- of_nat n, [], False)"
proof -
  obtain c cs where c: "show_nat n = c # cs" by (cases "show_nat n") auto
  have "digit_value c < 16" using show_base_digits [of 10 False n] c by (auto simp: show_nat_def)
  note nsp = digit_not_special [OF this]
  obtain b s where bs: "scan_base 0 (show_nat n) = (b, s)" by fastforce
  have "scan_sign (dropWhile isspace (show_nat n)) = (False, show_nat n)"
    using nsp by (simp add: c scan_sign_def)
  then have "scan_number 0 (show_nat n) = (case s of [] \<Rightarrow> None
      | c # cs \<Rightarrow> if digit_value c < b then let (n, rest) = scan_digits b 0 s in Some (False, n, rest) else None)"
    by (simp add: scan_number_def bs)
  moreover have "scan_number 0 (show_nat n) = Some (False, n, [])"
    using scan_number_dec [of "[]" 0 n] by simp
  ultimately obtain d ds where "s = d # ds" "digit_value d < b" "scan_digits b 0 s = (n, [])"
    by (cases s) (auto split: if_splits prod.splits)
  moreover have "scan_sign (dropWhile isspace (CHR ''-'' # show_nat n)) = (True, show_nat n)"
    by (simp add: scan_sign_def isspace_def)
  ultimately have "scan_number 0 (CHR ''-'' # show_nat n) = Some (True, n, [])"
    by (simp add: scan_number_def bs)
  then show ?thesis using assms by (simp add: strtoul_def)
qed

lemma sint_large:
  assumes "2 ^ 31 \<le> unat (v :: u32)"
  shows "sint v = int (unat v) - 2 ^ 32"
proof -
  obtain n where n: "unat v = n" "2 ^ 31 \<le> n" "n < 2 ^ 32" using assms unat_less [of v] by simp
  have "sint v = signed_take_bit 31 (int n)" using n(1) by (simp add: sint_uint uint_nat)
  also have "\<dots> = take_bit 32 (int n + 2 ^ 31) - 2 ^ 31" by (simp add: signed_take_bit_eq_take_bit_shift)
  also have "take_bit 32 (int n + 2 ^ 31) = (int n + 2 ^ 31) mod 2 ^ 32" by (simp only: take_bit_eq_mod)
  also have "\<dots> = int n - 2 ^ 31" using n by (simp add: mod_pos_geq)
  finally show ?thesis using n by simp
qed

lemma unat_uminus:
  assumes "0 < n" "n \<le> 2 ^ 31"
  shows "unat (- of_nat n :: u64) = 2 ^ 64 - n"
proof -
  have "(of_nat (2 ^ 64 - n) + of_nat n :: u64) = of_nat (2 ^ 64 - n + n)" by (simp only: of_nat_add)
  also have "2 ^ 64 - n + n = 2 ^ 64" using assms by simp
  also have "(of_nat (2 ^ 64) :: u64) = 0" by simp
  finally have "(- of_nat n :: u64) = of_nat (2 ^ 64 - n)" by (metis add.inverse_unique add.commute)
  moreover have "(2::nat) ^ 64 - n < 2 ^ 64" using assms by simp
  ultimately show ?thesis by (metis unat_of_nat_u64)
qed

lemma m_strsep_u32_negative:
  assumes "2 ^ 31 \<le> unat v"
  shows "m_strsep_u32 (Some (field_text (show_d v) rest)) w = Inl (Exit 10)"
proof -
  define n where "n = 2 ^ 32 - unat v"
  have "unat v < 2 ^ 32" using unat_less [of v] by simp
  then have n: "sint v = - int n" "0 < n" "n \<le> 2 ^ 31"
    using sint_large [OF assms] assms by (simp_all add: n_def)
  have sd: "show_d v = CHR ''-'' # show_nat n" using n by (simp add: show_d_def show_int_def)
  have "CHR '':'' \<notin> set (CHR ''-'' # show_nat n)" using show_nat_no_colon by simp
  note sep = strsep_field [OF this, of rest]
  have "2 ^ 64 - n > 0xFFffFFff" using n(3) by simp
  then have "(- of_nat n :: u64) > 0xFFffFFff"
    using unat_uminus [OF n(2,3)] by (simp add: word_less_nat_alt)
  moreover have "strtoul 0 (CHR ''-'' # show_nat n) = (- of_nat n, [], False)"
    by (rule strtoul_neg) (use n(3) in simp)
  ultimately show ?thesis unfolding sd by (simp add: m_strsep_u32_def sep)
qed

text \<open>
  Generation counters of v06 and v07 meta data: as long as all counters are below \<open>2^31\<close>,
  \<^verbatim>\<open>set-gi\<close> of what \<^verbatim>\<open>get-gi\<close> printed transfers the counters and the four printed flags.
  A larger first counter is printed as a negative number, which \<^verbatim>\<open>set-gi\<close> rejects.
\<close>

theorem gi_gc_transfer:
  assumes "mdf_flags_ok H" and "length (gc md) = GEN_CNT_SIZE" and "length (gc md1) = GEN_CNT_SIZE"
  shows "((\<forall>i\<in>{1..4}. unat (gc md1 ! i) < 2 ^ 31) \<longrightarrow>
      m_set_gc H n (butlast (m_get_gc H md1 n)) md
        = Inr (md\<lparr>gc := copy_bits (gi_flags_gc H) (gc md1 ! 0) (gc md ! 0) # tl (gc md1)\<rparr>))
    \<and> (2 ^ 31 \<le> unat (gc md1 ! HumanCnt) \<longrightarrow> m_set_gc H n (butlast (m_get_gc H md1 n)) md = Inl (Exit 10))"
proof -
  have printed: "butlast (m_get_gc H md1 n) = join_colon (gc_fields H (gc md1))"
    by (simp only: m_get_gc_def dt_print_gc_def butlast_text)
  have "m_set_gc H n (join_colon (gc_fields H (gc md1))) md = Inl (Exit 10)" if big: "2 ^ 31 \<le> unat (gc md1 ! HumanCnt)"
  proof -
    have sb: "single_bit (MDF_CONSISTENT H)" using assms(1) by (simp add: mdf_flags_ok_def)
    obtain ts where ts: "gc_fields H (gc md1) = flag01 (gc md1 ! Flags) (MDF_CONSISTENT H) # show_d (gc md1 ! HumanCnt) # ts"
      by (simp add: gc_fields_def)
    show ?thesis
      unfolding m_set_gc_def ts join_colon_Cons
      using gc_flag_entry_ok [OF sb] m_strsep_u32_negative [OF big]
      by (simp add: gc_field_def del: set_field.simps) (simp add: join_colon_Cons del: join_colon.simps)
  qed
  then show ?thesis using set_gc_text [OF assms, of n] unfolding printed by blast
qed

section \<open>Examples\<close>

lemma example_flags_ok: "mdf_flags_ok example_headers"
proof -
  have "single_bit (2 ^ k)" if "k < 32" for k
    unfolding single_bit_def using that by (intro exI [of _ k]) (simp add: push_bit_eq_mult)
  from this [of 0] this [of 1] this [of 2] this [of 3] this [of 4] this [of 6] this [of 7] this [of 8] this [of 9]
    this [of 10] this [of 11] this [of 5] this [of 12] this [of 13] this [of 14] this [of 15] this [of 16]
  show ?thesis by (simp add: mdf_flags_ok_def)
qed

theorem gi_v09_transfer_witness:
  "m_set_v9_uuid example_headers 3 (butlast (m_get_v9_uuid example_headers (zero_md example_headers) 3)) (zero_md example_headers)
    = Inr (zero_md example_headers)"
proof -
  have "3 < length (peers (zero_md example_headers))" by (simp add: zero_md_def)
  from gi_v09_transfer [OF example_headers_ok(1) example_flags_ok this] show ?thesis by blast
qed

theorem gi_v08_transfer_witness:
  "m_set_uuid example_headers 0 (butlast (m_get_uuid example_headers (zero_md example_headers) 0)) (zero_md example_headers)
    = Inr (zero_md example_headers)"
  using gi_v08_transfer [OF example_headers_ok(1) example_flags_ok, of 0 "zero_md example_headers"] by blast

theorem gi_gc_transfer_witness:
  "m_set_gc example_headers 0 (butlast (m_get_gc example_headers ((zero_md example_headers)\<lparr>gc := [0, 0xffffffff, 1, 1, 1]\<rparr>) 0))
      (zero_md example_headers) = Inl (Exit 10)"
  using gi_gc_transfer [OF example_flags_ok, of "zero_md example_headers" "(zero_md example_headers)\<lparr>gc := [0, 0xffffffff, 1, 1, 1]\<rparr>" 0]
  by (simp add: zero_md_def GEN_CNT_SIZE_def)

end
