(* ===== verification/Md_Ops.thy ===== *)
theory Md_Ops
  imports Last_Known Md_Disk Activity_Log Gen_Info
begin

text \<open>
  The operations behind the table \<^verbatim>\<open>f_ops\<close> of \<^verbatim>\<open>user/shared/drbdmeta.c\<close>: opening a
  meta data device, also after the device below was resized, reading and writing its super
  block, initialisation and closing, for the formats v06 to v09. What was written is what the
  next invocation finds.
\<close>

unbundle bit_operations_syntax

section \<open>One invocation\<close>

text \<open>
  What does not change while the program runs: the interface headers, the machine, the
  options, the directory of the last known information, and what the arguments say: the minor,
  the meta data device and whether the command is \<^verbatim>\<open>apply-al\<close>.
\<close>

record invocation =
  i_headers :: headers
  i_host :: host
  i_options :: options
  i_libdir :: string
  i_minor :: u32
  i_md_device_name :: string
  i_is_apply_al_cmd :: bool

definition EBUSY :: int where "EBUSY = 16"

definition get_env :: "environment io" where
  "get_env w = (Inr (env w), w)"

definition get_dev_size :: "nat io" where
  "get_dev_size w = (Inr (dev_size w), w)"

section \<open>Questions to the user\<close>

text \<open>A line ends with its newline, so the answer has four characters.\<close>

definition confirmed_ex :: "options \<Rightarrow> bool io" where
  "confirmed_ex opts w =
    (if force opts then (Inr True, w)
     else case answers w of
       None \<Rightarrow> (Inr False, w)
     | Some [] \<Rightarrow> (Inr False, w)
     | Some (answer # rest) \<Rightarrow>
         (Inr (length answer = 4 \<and> take 3 answer = ''yes''), w\<lparr>answers := Some rest\<rparr>))"

definition confirmed :: "options \<Rightarrow> bool io" where
  "confirmed opts = confirmed_ex opts"

section \<open>Opening the device\<close>

definition bdev_size :: "u64 io" where
  "bdev_size = bind_io get_env (\<lambda>e. bind_io get_dev_size (\<lambda>n.
    case getsize64_errno e of
      None \<Rightarrow> ret (of_nat n)
    | Some err \<Rightarrow>
        if err = EINVAL then
          (if getsize_fails e then stop_io (Exit 20) else ret (512 * of_nat (n div 512)))
        else stop_io (Exit 20)))"

text \<open>The loop around \<^verbatim>\<open>open\<close>: every further attempt has one flag less.\<close>

function open_retry :: "invocation \<Rightarrow> bool \<Rightarrow> bool \<Rightarrow> unit io" where
  "open_retry cx excl direct = bind_io get_env (\<lambda>e.
    case open_errno e excl direct of
      None \<Rightarrow> ret ()
    | Some err \<Rightarrow>
        if err = EBUSY \<and> excl then
          bind_io (if \<not> force (i_options cx) \<and> i_is_apply_al_cmd cx then ret False
                   else confirmed (i_options cx)) (\<lambda>ok.
            if ok then open_retry cx False direct else stop_io (Exit 20))
        else if err = EINVAL \<and> direct then open_retry cx excl False
        else stop_io (Exit 20))"
  by pat_completeness auto
termination
  by (relation "measure (\<lambda>(cx, excl, direct). (if excl then 1 else 0) + (if direct then 1 else 0))") auto

declare open_retry.simps [simp del]

definition v07_style_md_open_device :: "invocation \<Rightarrow> format_cfg \<Rightarrow> format_cfg io" where
  "v07_style_md_open_device cx cfg =
    bind_io (open_retry cx (md_index cfg < 0) True) (\<lambda>_.
    bind_io get_env (\<lambda>e.
    bind_io get_dev_size (\<lambda>n.
      case kind e of
        None \<Rightarrow> stop_io (Exit 20)
      | Some k \<Rightarrow>
          if k \<noteq> BlockDevice \<and> \<not> force (i_options cx) then stop_io (Exit 20)
          else
            let cfg = (if k \<noteq> BlockDevice then cfg\<lparr>bd_size := of_nat n\<rparr> else cfg) in
            if format_version (ops cfg) \<ge> format_version DRBD_V08
              \<and> md_index cfg = DRBD_MD_INDEX_INTERNAL (i_headers cx) then stop_io Abort
            else
              let cfg = cfg\<lparr>md_hard_sect_size := (case sector_size e of None \<Rightarrow> 512 | Some s \<Rightarrow> scast s)\<rparr> in
              if bd_size cfg = 0 then bind_io bdev_size (\<lambda>s. ret (cfg\<lparr>bd_size := s\<rparr>))
              else ret cfg)))"

definition generic_md_close :: "int io" where
  "generic_md_close = bind_io get_env (\<lambda>e. ret (if close_fails e then -1 else 0))"

section \<open>Reading and writing the super block\<close>

text \<open>
  The result 0 is success. Every member of the v06 and v07 structure is stored, so what was in
  the buffer before does not matter.
\<close>

definition v06_md_disk_to_cpu :: "invocation \<Rightarrow> format_cfg \<Rightarrow> (int \<times> format_cfg) io" where
  "v06_md_disk_to_cpu cx cfg =
    (let H = i_headers cx; h = i_host cx in
     bind_io (pread_or_die 24 (md_offset cfg)) (\<lambda>buf.
       let cfg = cfg\<lparr>cfg_md := md_disk_06_to_cpu H h (get_md_06 h buf)\<rparr>
       in ret (if v06_validate_md H (cfg_md cfg) then 0 else -1, cfg)))"

definition v06_md_cpu_to_disk :: "invocation \<Rightarrow> format_cfg \<Rightarrow> (int \<times> format_cfg) io" where
  "v06_md_cpu_to_disk cx cfg =
    (let H = i_headers cx; h = i_host cx in
     if \<not> v06_validate_md H (cfg_md cfg) then ret (-1, cfg)
     else bind_io (pwrite_or_die (i_options cx) cfg
         (put_md_06 h (md_cpu_to_disk_06 h (get_md_06 h []) (cfg_md cfg))) (md_offset cfg))
       (\<lambda>_. ret (0, cfg)))"

definition v07_md_disk_to_cpu :: "invocation \<Rightarrow> format_cfg \<Rightarrow> (int \<times> format_cfg) io" where
  "v07_md_disk_to_cpu cx cfg =
    (let H = i_headers cx; h = i_host cx in
     bind_io (pread_or_die 4096 (md_offset cfg)) (\<lambda>buf.
       let md = md_disk_07_to_cpu H h (get_md_07 h buf) in
       bind_io (lift_res (is_valid_md H DRBD_V07 md (md_index cfg) (bd_size cfg))) (\<lambda>ok.
         ret (if ok then (0, cfg\<lparr>cfg_md := md\<rparr>) else (-1, cfg)))))"

definition v07_md_cpu_to_disk :: "invocation \<Rightarrow> format_cfg \<Rightarrow> (int \<times> format_cfg) io" where
  "v07_md_cpu_to_disk cx cfg =
    (let H = i_headers cx; h = i_host cx in
     bind_io (lift_res (is_valid_md H DRBD_V07 (cfg_md cfg) (md_index cfg) (bd_size cfg))) (\<lambda>ok.
       if \<not> ok then ret (-1, cfg)
       else bind_io (pwrite_or_die (i_options cx) cfg
           (put_md_07 h (md_cpu_to_disk_07 h (get_md_07 h []) (cfg_md cfg))) (md_offset cfg))
         (\<lambda>_. ret (0, cfg))))"

definition v08_md_disk_to_cpu :: "invocation \<Rightarrow> format_cfg \<Rightarrow> (int \<times> format_cfg) io" where
  "v08_md_disk_to_cpu cx cfg =
    (let H = i_headers cx; h = i_host cx in
     bind_io (pread_or_die 4096 (md_offset cfg)) (\<lambda>buf.
       let md = md_disk_08_to_cpu H h (get_md_08 H h buf) in
       bind_io (lift_res (is_valid_md H DRBD_V08 md (md_index cfg) (bd_size cfg))) (\<lambda>ok.
         ret (if ok then (0, cfg\<lparr>cfg_md := md\<rparr>) else (-1, cfg)))))"

definition v08_md_cpu_to_disk :: "invocation \<Rightarrow> format_cfg \<Rightarrow> (int \<times> format_cfg) io" where
  "v08_md_cpu_to_disk cx cfg =
    (let H = i_headers cx; h = i_host cx in
     bind_io (lift_res (is_valid_md H DRBD_V08 (cfg_md cfg) (md_index cfg) (bd_size cfg))) (\<lambda>ok.
       if \<not> ok then ret (-1, cfg)
       else bind_io (pwrite_or_die (i_options cx) cfg
           (put_md_08 h (md_cpu_to_disk_08 H h (cfg_md cfg))) (md_offset cfg))
         (\<lambda>_. ret (0, cfg\<lparr>update_lk_bdev := True\<rparr>))))"

definition v09_md_disk_to_cpu :: "invocation \<Rightarrow> format_cfg \<Rightarrow> (int \<times> format_cfg) io" where
  "v09_md_disk_to_cpu cx cfg =
    (let H = i_headers cx; h = i_host cx in
     bind_io (pread_or_die 4096 (md_offset cfg)) (\<lambda>buf.
       let md = md_disk_09_to_cpu H h (get_md_9 H h buf) in
       bind_io (lift_res (is_valid_md H DRBD_V09 md (md_index cfg) (bd_size cfg))) (\<lambda>ok.
         ret (if ok then (0, cfg\<lparr>cfg_md := md\<rparr>) else (-1, cfg)))))"

definition v09_md_cpu_to_disk :: "invocation \<Rightarrow> format_cfg \<Rightarrow> (int \<times> format_cfg) io" where
  "v09_md_cpu_to_disk cx cfg =
    (let H = i_headers cx; h = i_host cx in
     bind_io (lift_res (is_valid_md H DRBD_V09 (cfg_md cfg) (md_index cfg) (bd_size cfg))) (\<lambda>ok.
       if \<not> ok then ret (-1, cfg)
       else bind_io (pwrite_or_die (i_options cx) cfg
           (put_md_9 H h (md_cpu_to_disk_09 H h (cfg_md cfg))) (md_offset cfg))
         (\<lambda>_. ret (0, cfg\<lparr>update_lk_bdev := True\<rparr>))))"

text \<open>The two columns of \<^verbatim>\<open>f_ops\<close>.\<close>

definition md_disk_to_cpu :: "invocation \<Rightarrow> format_cfg \<Rightarrow> (int \<times> format_cfg) io" where
  "md_disk_to_cpu cx cfg = (case ops cfg of
     DRBD_V06 \<Rightarrow> v06_md_disk_to_cpu cx cfg | DRBD_V07 \<Rightarrow> v07_md_disk_to_cpu cx cfg
   | DRBD_V08 \<Rightarrow> v08_md_disk_to_cpu cx cfg | DRBD_V09 \<Rightarrow> v09_md_disk_to_cpu cx cfg
   | DRBD_UNKNOWN \<Rightarrow> stop_io OutOfBounds)"

definition md_cpu_to_disk :: "invocation \<Rightarrow> format_cfg \<Rightarrow> (int \<times> format_cfg) io" where
  "md_cpu_to_disk cx cfg = (case ops cfg of
     DRBD_V06 \<Rightarrow> v06_md_cpu_to_disk cx cfg | DRBD_V07 \<Rightarrow> v07_md_cpu_to_disk cx cfg
   | DRBD_V08 \<Rightarrow> v08_md_cpu_to_disk cx cfg | DRBD_V09 \<Rightarrow> v09_md_cpu_to_disk cx cfg
   | DRBD_UNKNOWN \<Rightarrow> stop_io OutOfBounds)"


section \<open>Opening and closing\<close>

definition SO_MUCH :: u64 where "SO_MUCH = 68 * 1024"

definition v06_md_open :: "invocation \<Rightarrow> format_cfg \<Rightarrow> (md_open_rc \<times> format_cfg) io" where
  "v06_md_open cx cfg = bind_io get_env (\<lambda>e.
    if open_errno e False False \<noteq> None then ret (NO_VALID_MD_FOUND, cfg)
    else case kind e of
      None \<Rightarrow> ret (NO_VALID_MD_FOUND, cfg)
    | Some k \<Rightarrow>
        if k \<noteq> RegularFile then ret (NO_VALID_MD_FOUND, cfg)
        else bind_io (md_disk_to_cpu cx cfg) (\<lambda>(err, cfg).
          ret (if err \<noteq> 0 then NO_VALID_MD_FOUND else VALID_MD_FOUND, cfg)))"

definition clip_effective_size_and_bm_bytes :: "headers \<Rightarrow> format_cfg \<Rightarrow> format_cfg res" where
  "clip_effective_size_and_bm_bytes H cfg =
    (let cfg = (if effective_size (cfg_md cfg) > max_usable_sect cfg
                then cfg\<lparr>cfg_md := (cfg_md cfg)\<lparr>effective_size := max_usable_sect cfg\<rparr>\<rparr> else cfg)
     in bind_res (bm_bytes H (cfg_md cfg) (effective_size (cfg_md cfg))) (\<lambda>b.
          Inr (cfg\<lparr>cfg_bm_bytes := b\<rparr>)))"

definition v07_style_md_open :: "invocation \<Rightarrow> format_cfg \<Rightarrow> (md_open_rc \<times> format_cfg) io" where
  "v07_style_md_open cx cfg =
    (let H = i_headers cx in
     bind_io (v07_style_md_open_device cx cfg) (\<lambda>cfg.
     if bd_size cfg < SO_MUCH then stop_io (Exit 10)
     else
       let cfg = cfg\<lparr>md_offset := v07_style_md_get_byte_offset H (md_index cfg) (bd_size cfg)\<rparr> in
       if md_offset cfg > bd_size cfg - 4096 then stop_io (Exit 10)
       else bind_io (md_disk_to_cpu cx cfg) (\<lambda>(err, cfg).
         if err \<noteq> 0 then ret (NO_VALID_MD_FOUND, cfg)
         else
           let cfg = cfg\<lparr>
             cfg_al_offset := md_offset cfg + scast (al_offset (cfg_md cfg)) * 512,
             cfg_bm_offset := md_offset cfg + scast (bm_offset (cfg_md cfg)) * 512\<rparr> in
           bind_io (lift_res (max_usable_sectors H cfg)) (\<lambda>s.
           bind_io (lift_res (clip_effective_size_and_bm_bytes H (cfg\<lparr>max_usable_sect := s\<rparr>))) (\<lambda>cfg.
             ret (VALID_MD_FOUND, cfg\<lparr>bits_set := 0xFFFFFFFF\<rparr>))))))"

text \<open>
  \<open>found_at_last_known\<close> is the part of \<^verbatim>\<open>v08_check_for_resize\<close> that looks at the old place;
  the meta data found there counts when the uuid is the known one, or with \<^verbatim>\<open>--force\<close>.
\<close>

definition found_at_last_known :: "invocation \<Rightarrow> format_cfg \<Rightarrow> md_cpu option io" where
  "found_at_last_known cx cfg =
    (let H = i_headers cx; h = i_host cx; last_size = lk_bd_size (lk_bd cfg);
         flex_offset = v07_style_md_get_byte_offset H (DRBD_MD_INDEX_FLEX_INT H) last_size;
         check = (\<lambda>f md. bind_io (lift_res (is_valid_md H f md (DRBD_MD_INDEX_FLEX_INT H) last_size)) (\<lambda>ok.
           ret (if ok then Some md else None)))
     in if \<not> flex_offset < bd_size cfg then ret None
        else bind_io (pread_or_die 4096 flex_offset) (\<lambda>buf.
          case ops cfg of
            DRBD_V08 \<Rightarrow> check DRBD_V08 (md_disk_08_to_cpu H h (get_md_08 H h buf))
          | DRBD_V09 \<Rightarrow> check DRBD_V09 (md_disk_09_to_cpu H h (get_md_9 H h buf))
          | _ \<Rightarrow> ret None))"

definition v08_check_for_resize :: "invocation \<Rightarrow> format_cfg \<Rightarrow> format_cfg io" where
  "v08_check_for_resize cx cfg =
    (if magic (cfg_md cfg) \<noteq> 0 then stop_io Abort
     else if format_version (ops cfg) < format_version DRBD_V08 then ret cfg
     else if md_index cfg \<noteq> DRBD_MD_INDEX_FLEX_INT (i_headers cx) then ret cfg
     else bind_io (lk_bdev_load (i_libdir cx) (i_minor cx) (lk_bd cfg)) (\<lambda>(err, bd).
       let cfg = cfg\<lparr>lk_bd := bd\<rparr> in
       if err \<noteq> 0 then ret cfg
       else if lk_bd_size bd = bd_size cfg then ret cfg
       else bind_io (found_at_last_known cx cfg) (\<lambda>found.
         case found of
           None \<Rightarrow> ret cfg
         | Some md_test \<Rightarrow>
             if lk_bd_uuid bd \<noteq> 0 \<and> device_uuid md_test \<noteq> lk_bd_uuid bd \<and> \<not> force (i_options cx)
             then ret cfg
             else ret (cfg\<lparr>cfg_md := md_test\<rparr>))))"

definition v08_md_open :: "invocation \<Rightarrow> format_cfg \<Rightarrow> (md_open_rc \<times> format_cfg) io" where
  "v08_md_open cx cfg =
    bind_io (v07_style_md_open cx cfg) (\<lambda>(r, cfg).
      if r = VALID_MD_FOUND then ret (r, cfg)
      else bind_io (v08_check_for_resize cx cfg) (\<lambda>cfg.
        ret (if lk_bd_size (lk_bd cfg) = 0 \<or> magic (cfg_md cfg) = 0 then NO_VALID_MD_FOUND
             else VALID_MD_FOUND_AT_LAST_KNOWN_LOCATION, cfg)))"

definition v08_md_close :: "invocation \<Rightarrow> format_cfg \<Rightarrow> int io" where
  "v08_md_close cx cfg =
    bind_io (if update_lk_bdev cfg \<and> \<not> dry_run (i_options cx) then
        (if md_index cfg \<noteq> DRBD_MD_INDEX_FLEX_INT (i_headers cx)
         then lk_bdev_delete (i_libdir cx) (i_minor cx)
         else lk_bdev_save (i_libdir cx) (i_minor cx)
           \<lparr>lk_bd_size = bd_size cfg, lk_bd_uuid = device_uuid (cfg_md cfg),
            lk_bd_name = Some (i_md_device_name cx)\<rparr>)
      else ret 0) (\<lambda>_. generic_md_close)"

definition md_open :: "invocation \<Rightarrow> format_cfg \<Rightarrow> (md_open_rc \<times> format_cfg) io" where
  "md_open cx cfg = (case ops cfg of
     DRBD_V06 \<Rightarrow> v06_md_open cx cfg | DRBD_V07 \<Rightarrow> v07_style_md_open cx cfg
   | DRBD_V08 \<Rightarrow> v08_md_open cx cfg | DRBD_V09 \<Rightarrow> v08_md_open cx cfg
   | DRBD_UNKNOWN \<Rightarrow> stop_io OutOfBounds)"

definition md_close :: "invocation \<Rightarrow> format_cfg \<Rightarrow> int io" where
  "md_close cx cfg = (case ops cfg of
     DRBD_V06 \<Rightarrow> generic_md_close | DRBD_V07 \<Rightarrow> generic_md_close
   | DRBD_V08 \<Rightarrow> v08_md_close cx cfg | DRBD_V09 \<Rightarrow> v08_md_close cx cfg
   | DRBD_UNKNOWN \<Rightarrow> stop_io OutOfBounds)"

section \<open>Arguments\<close>

text \<open>
  \<^verbatim>\<open>v06_parse\<close> makes the file name, \<^verbatim>\<open>v07_parse\<close> the device name and the index. A
  negative minor becomes a large \<^verbatim>\<open>unsigned long\<close>, which is out of range.
\<close>

definition v06_parse :: "string \<Rightarrow> string list \<Rightarrow> string res" where
  "v06_parse libdir argv = (case argv of
     [] \<Rightarrow> Inl (Exit 20)
   | a # _ \<Rightarrow> let (n, e, _) = strtol 0 a; minor = (of_int n :: u64) in
       if e \<noteq> [] \<or> minor > 255 then Inl (Exit 20)
       else Inr (libdir @ ''/drbd'' @ show_nat (unat minor)))"

definition v07_parse :: "headers \<Rightarrow> md_format \<Rightarrow> string list \<Rightarrow> (string \<times> int) option" where
  "v07_parse H f argv = (case argv of
     dev # idx # _ \<Rightarrow>
       if idx = ''internal'' then
         Some (dev, if f = DRBD_V07 then DRBD_MD_INDEX_INTERNAL H else DRBD_MD_INDEX_FLEX_INT H)
       else if idx = ''flex-external'' then Some (dev, DRBD_MD_INDEX_FLEX_EXT H)
       else if idx = ''flex-internal'' then Some (dev, DRBD_MD_INDEX_FLEX_INT H)
       else let (index, e, erange) = strtol 0 idx in
         if e \<noteq> [] \<or> 0 > index \<or> index > 255 \<or> erange then None else Some (dev, index)
   | _ \<Rightarrow> None)"


section \<open>The formats with a super block of their own\<close>

definition flex_format :: "md_format \<Rightarrow> bool" where
  "flex_format f \<longleftrightarrow> f = DRBD_V08 \<or> f = DRBD_V09"

definition md_image :: "headers \<Rightarrow> md_format \<Rightarrow> host \<Rightarrow> md_cpu \<Rightarrow> bytes" where
  "md_image H f h md = (if f = DRBD_V08 then image_08 H h md else image_09 H h md)"

definition md_read :: "headers \<Rightarrow> md_format \<Rightarrow> host \<Rightarrow> bytes \<Rightarrow> md_cpu" where
  "md_read H f h buf = (if f = DRBD_V08 then md_disk_08_to_cpu H h (get_md_08 H h buf)
     else md_disk_09_to_cpu H h (get_md_9 H h buf))"

definition md_rep :: "headers \<Rightarrow> md_format \<Rightarrow> md_cpu \<Rightarrow> bool" where
  "md_rep H f = (if f = DRBD_V08 then rep_08 H else rep_09 H)"

interpretation super_block: md_codec "array_sizes_ok H \<and> layout_9_ok H" 4096
    "md_rep H f" "md_image H f" "md_read H f"
  for H f
proof (unfold_locales, goal_cases)
  case (1 md h)
  then show ?case
    using codec_08.read_image [of H md h] codec_09.read_image [of H md h]
    by (simp add: md_rep_def md_image_def md_read_def split: if_splits)
next
  case (2 md h)
  then show ?case
    using codec_08.length_image [of H md h] codec_09.length_image [of H md h]
    by (simp add: md_rep_def md_image_def split: if_splits)
next
  case (3 h bs)
  then show ?case
    using codec_08.rep_read [of H h bs] codec_09.rep_read [of H h bs] by (simp add: md_rep_def md_read_def)
qed

lemma md_disk_to_cpu_eq:
  assumes "flex_format (ops cfg)"
  shows "md_disk_to_cpu cx cfg = bind_io (pread_or_die 4096 (md_offset cfg)) (\<lambda>buf.
    let md = md_read (i_headers cx) (ops cfg) (i_host cx) buf in
    bind_io (lift_res (is_valid_md (i_headers cx) (ops cfg) md (md_index cfg) (bd_size cfg))) (\<lambda>ok.
      ret (if ok then (0, cfg\<lparr>cfg_md := md\<rparr>) else (-1, cfg))))"
  using assms
  by (auto simp: flex_format_def md_disk_to_cpu_def v08_md_disk_to_cpu_def v09_md_disk_to_cpu_def md_read_def
      Let_def cong: if_cong)

lemma md_cpu_to_disk_eq:
  assumes "flex_format (ops cfg)"
  shows "md_cpu_to_disk cx cfg =
    bind_io (lift_res (is_valid_md (i_headers cx) (ops cfg) (cfg_md cfg) (md_index cfg) (bd_size cfg))) (\<lambda>ok.
      if \<not> ok then ret (-1, cfg)
      else bind_io (pwrite_or_die (i_options cx) cfg
          (md_image (i_headers cx) (ops cfg) (i_host cx) (cfg_md cfg)) (md_offset cfg))
        (\<lambda>_. ret (0, cfg\<lparr>update_lk_bdev := True\<rparr>)))"
  using assms
  by (auto simp: flex_format_def md_cpu_to_disk_def v08_md_cpu_to_disk_def v09_md_cpu_to_disk_def
      md_image_def image_08_def image_09_def Let_def cong: if_cong)

section \<open>What was written is found\<close>

text \<open>The device is free, so that no question is asked.\<close>

definition opens :: "format_cfg \<Rightarrow> world \<Rightarrow> bool" where
  "opens cfg w \<longleftrightarrow> open_errno (env w) (md_index cfg < 0) True = None"

text \<open>Opening depends on these parts of the world only.\<close>

definition same_device :: "world \<Rightarrow> world \<Rightarrow> bool" where
  "same_device w w' \<longleftrightarrow> dev_size w' = dev_size w \<and> env w' = env w \<and> io_fails w' = io_fails w"

lemma open_retry_free:
  "open_errno (env w) excl direct = None \<Longrightarrow> open_retry cx excl direct w = (Inr (), w)"
  by (subst open_retry.simps) (simp add: bind_io_def get_env_def ret_def)

lemma bdev_size_env:
  "same_device w w' \<Longrightarrow> \<exists>r. bdev_size w = (r, w) \<and> bdev_size w' = (r, w')"
  by (auto simp: bdev_size_def bind_io_def get_env_def get_dev_size_def ret_def stop_io_def same_device_def
      split: option.split)

lemma open_device_env:
  assumes "opens cfg w" and "same_device w w'"
  shows "\<exists>r. v07_style_md_open_device cx cfg w = (r, w) \<and> v07_style_md_open_device cx cfg w' = (r, w')"
proof -
  obtain r where r: "bdev_size w = (r, w)" "bdev_size w' = (r, w')" using bdev_size_env [OF assms(2)] by blast
  have "env w' = env w" "dev_size w' = dev_size w" using assms(2) by (simp_all add: same_device_def)
  then show ?thesis
    using assms(1) r
    by (cases r; cases "kind (env w)")
      (auto simp: v07_style_md_open_device_def bind_io_def open_retry_free opens_def get_env_def
        get_dev_size_def ret_def stop_io_def Let_def)
qed

lemma open_device_keeps:
  assumes "opens cfg w" and "v07_style_md_open_device cx cfg w = (Inr c1, w1)"
  shows "ops c1 = ops cfg \<and> md_index c1 = md_index cfg \<and> wipe_fixed c1 = wipe_fixed cfg \<and>
    wipe_flex c1 = wipe_flex cfg \<and> wipe_resize c1 = wipe_resize cfg \<and> update_lk_bdev c1 = update_lk_bdev cfg"
proof -
  obtain r where r: "bdev_size w = (r, w)" using bdev_size_env [of w w] by (auto simp: same_device_def)
  show ?thesis
    using assms r
    by (auto simp: v07_style_md_open_device_def bind_io_def open_retry_free opens_def get_env_def
        get_dev_size_def ret_def stop_io_def Let_def split: option.splits if_splits sum.splits)
qed

text \<open>What remains to be done once the super block was read and is valid.\<close>

definition load_cfg :: "headers \<Rightarrow> format_cfg \<Rightarrow> md_cpu \<Rightarrow> format_cfg res" where
  "load_cfg H cfg md =
    (let cfg = cfg\<lparr>cfg_md := md,
       cfg_al_offset := md_offset cfg + scast (al_offset md) * 512,
       cfg_bm_offset := md_offset cfg + scast (bm_offset md) * 512\<rparr>
     in bind_res (max_usable_sectors H cfg) (\<lambda>s.
        bind_res (clip_effective_size_and_bm_bytes H (cfg\<lparr>max_usable_sect := s\<rparr>)) (\<lambda>cfg.
          Inr (cfg\<lparr>bits_set := 0xFFFFFFFF\<rparr>))))"

text \<open>Two structures that describe the same layout.\<close>

definition same_layout :: "md_cpu \<Rightarrow> md_cpu \<Rightarrow> bool" where
  "same_layout md md' \<longleftrightarrow> al_offset md' = al_offset md \<and> bm_offset md' = bm_offset md \<and>
     md_size_sect md' = md_size_sect md \<and> max_peers md' = max_peers md \<and>
     bm_bytes_per_bit md' = bm_bytes_per_bit md \<and> effective_size md' = effective_size md"

lemma bm_bytes_cong:
  "\<lbrakk>max_peers md' = max_peers md; bm_bytes_per_bit md' = bm_bytes_per_bit md\<rbrakk>
    \<Longrightarrow> bm_bytes H md' s = bm_bytes H md s"
  by (simp add: bm_bytes_def)

lemma clip_eq:
  "clip_effective_size_and_bm_bytes H cfg =
    (let e = min (effective_size (cfg_md cfg)) (max_usable_sect cfg)
     in bind_res (bm_bytes H (cfg_md cfg) e) (\<lambda>b.
        Inr (cfg\<lparr>cfg_md := (cfg_md cfg)\<lparr>effective_size := e\<rparr>, cfg_bm_bytes := b\<rparr>)))"
proof -
  have "bm_bytes H (md\<lparr>effective_size := e\<rparr>) s = bm_bytes H md s" for md e s by (rule bm_bytes_cong) simp_all
  then show ?thesis
    by (cases "effective_size (cfg_md cfg) > max_usable_sect cfg")
      (simp_all add: clip_effective_size_and_bm_bytes_def Let_def min_def not_le [symmetric])
qed

lemma load_cfg_iff:
  "load_cfg H cfg md = Inr c \<longleftrightarrow>
    (\<exists>s b. let cfg' = cfg\<lparr>cfg_md := md, cfg_al_offset := md_offset cfg + scast (al_offset md) * 512,
         cfg_bm_offset := md_offset cfg + scast (bm_offset md) * 512\<rparr>; e = min (effective_size md) s
       in max_usable_sectors H cfg' = Inr s \<and> bm_bytes H md e = Inr b \<and>
          c = cfg'\<lparr>max_usable_sect := s, cfg_md := md\<lparr>effective_size := e\<rparr>, cfg_bm_bytes := b,
            bits_set := 0xFFFFFFFF\<rparr>)"
  by (auto simp: load_cfg_def Let_def bind_res_Inr_iff clip_eq)

lemma load_cfg_keeps:
  assumes "load_cfg H cfg md = Inr c"
  shows "ops c = ops cfg \<and> md_index c = md_index cfg \<and> md_offset c = md_offset cfg \<and> bd_size c = bd_size cfg
    \<and> wipe_fixed c = wipe_fixed cfg \<and> wipe_flex c = wipe_flex cfg \<and> wipe_resize c = wipe_resize cfg
    \<and> cfg_md c = md\<lparr>effective_size := min (effective_size md) (max_usable_sect c)\<rparr>
    \<and> cfg_al_offset c = md_offset cfg + scast (al_offset md) * 512
    \<and> cfg_bm_offset c = md_offset cfg + scast (bm_offset md) * 512"
  using assms by (auto simp: load_cfg_iff Let_def)

lemma load_cfg_again:
  assumes "load_cfg H cfg md = Inr c" and "same_layout (cfg_md c) md'"
  shows "\<exists>c'. load_cfg H cfg md' = Inr c' \<and> cfg_md c' = md'"
proof -
  obtain s b where s: "max_usable_sectors H (cfg\<lparr>cfg_md := md,
       cfg_al_offset := md_offset cfg + scast (al_offset md) * 512,
       cfg_bm_offset := md_offset cfg + scast (bm_offset md) * 512\<rparr>) = Inr s"
    and b: "bm_bytes H md (min (effective_size md) s) = Inr b"
    and c: "cfg_md c = md\<lparr>effective_size := min (effective_size md) s\<rparr>"
    using assms(1) by (auto simp: load_cfg_iff Let_def)
  have lay: "al_offset md' = al_offset md" "bm_offset md' = bm_offset md" "md_size_sect md' = md_size_sect md"
    "max_peers md' = max_peers md" "bm_bytes_per_bit md' = bm_bytes_per_bit md"
    "effective_size md' = min (effective_size md) s"
    using assms(2) by (simp_all add: same_layout_def c)
  have "max_usable_sectors H (cfg\<lparr>cfg_md := md',
       cfg_al_offset := md_offset cfg + scast (al_offset md') * 512,
       cfg_bm_offset := md_offset cfg + scast (bm_offset md') * 512\<rparr>) = Inr s"
    unfolding s [symmetric] by (simp add: max_usable_sectors_def lay)
  moreover have "bm_bytes H md' (effective_size md') = Inr b"
    using b bm_bytes_cong [OF lay(4,5)] by (simp add: lay(6))
  moreover have "min (effective_size md') s = effective_size md'" by (simp add: lay(6))
  ultimately show ?thesis by (simp add: load_cfg_def Let_def clip_eq)
qed

text \<open>Opening finds valid meta data exactly when the device, its super block and the layout allow it.\<close>

definition at_offset :: "headers \<Rightarrow> format_cfg \<Rightarrow> format_cfg" where
  "at_offset H cfg = cfg\<lparr>md_offset := v07_style_md_get_byte_offset H (md_index cfg) (bd_size cfg)\<rparr>"

definition large_enough :: "format_cfg \<Rightarrow> bool" where
  "large_enough cfg \<longleftrightarrow> \<not> bd_size cfg < SO_MUCH \<and> \<not> md_offset cfg > bd_size cfg - 4096"

definition loads :: "invocation \<Rightarrow> format_cfg \<Rightarrow> bytes \<Rightarrow> format_cfg \<Rightarrow> bool" where
  "loads cx cfg buf c \<longleftrightarrow>
    (let md = md_read (i_headers cx) (ops cfg) (i_host cx) buf
     in is_valid_md (i_headers cx) (ops cfg) md (md_index cfg) (bd_size cfg) = Inr True
        \<and> load_cfg (i_headers cx) cfg md = Inr c)"

lemma pread_env: "pread_or_die n off w = (r, w') \<Longrightarrow> w' = w"
  by (auto simp: pread_or_die_def split: if_splits)

lemma md_open_rc_cases: "(if b then NO_VALID_MD_FOUND else VALID_MD_FOUND_AT_LAST_KNOWN_LOCATION) \<noteq> VALID_MD_FOUND"
  by simp

lemma v07_open_unfold:
  assumes "v07_style_md_open_device cx cfg w = (r, w)" and "r = Inr c1"
  shows "v07_style_md_open cx cfg w = (if \<not> large_enough (at_offset (i_headers cx) c1) then (Inl (Exit 10), w)
    else bind_io (md_disk_to_cpu cx (at_offset (i_headers cx) c1)) (\<lambda>(err, cfg).
      if err \<noteq> 0 then ret (NO_VALID_MD_FOUND, cfg)
      else lift_res (bind_res (load_cfg (i_headers cx) cfg (cfg_md cfg)) (\<lambda>c. Inr (VALID_MD_FOUND, c)))) w)"
  using assms
  by (auto simp: v07_style_md_open_def large_enough_def at_offset_def bind_io_def stop_io_def Let_def
      load_cfg_def lift_res_def bind_res_def ret_def split: prod.split sum.split)

lemma v07_open_found_iff:
  assumes "flex_format (ops cfg)" and "opens cfg w"
  shows "v07_style_md_open cx cfg w = (Inr (VALID_MD_FOUND, c), w') \<longleftrightarrow> w' = w \<and>
    (\<exists>c1 buf. v07_style_md_open_device cx cfg w = (Inr c1, w) \<and> large_enough (at_offset (i_headers cx) c1)
      \<and> pread_or_die 4096 (md_offset (at_offset (i_headers cx) c1)) w = (Inr buf, w)
      \<and> loads cx (at_offset (i_headers cx) c1) buf c)"
proof -
  obtain r where r: "v07_style_md_open_device cx cfg w = (r, w)"
    using open_device_env [OF assms(2), of w] by (auto simp: same_device_def)
  show ?thesis
  proof (cases r)
    case (Inl e)
    then show ?thesis using r by (simp add: v07_style_md_open_def bind_io_def Let_def)
  next
    case (Inr c1)
    let ?c = "at_offset (i_headers cx) c1"
    have fmt: "flex_format (ops ?c)" using open_device_keeps [OF assms(2)] r Inr assms(1) by (simp add: at_offset_def)
    obtain p where p: "pread_or_die 4096 (md_offset ?c) w = (p, w)"
      by (cases "pread_or_die 4096 (md_offset ?c) w") (auto dest: pread_env)
    show ?thesis
      using r Inr p v07_open_unfold [OF r Inr]
      by (auto simp: md_disk_to_cpu_eq [OF fmt] bind_io_def lift_res_def ret_def Let_def loads_def bind_res_Inr_iff
          load_cfg_def split: sum.splits if_splits)
  qed
qed

lemma md_open_found_iff:
  assumes "flex_format (ops cfg)"
  shows "md_open cx cfg w = (Inr (VALID_MD_FOUND, c), w') \<longleftrightarrow>
    v07_style_md_open cx cfg w = (Inr (VALID_MD_FOUND, c), w')"
proof -
  have "md_open cx cfg = v08_md_open cx cfg" using assms by (auto simp: md_open_def flex_format_def)
  then show ?thesis
    by (auto simp: v08_md_open_def bind_io_def ret_def split: prod.splits sum.splits if_splits)
qed


text \<open>
  The heart of the matter: a super block with the same layout that was written through the
  configuration of an open is what the next open finds.
\<close>

lemma written_md_found:
  assumes env: "array_sizes_ok (i_headers cx)" "layout_9_ok (i_headers cx)"
    and fmt: "flex_format (ops cfg)" and free: "opens cfg w" and nd: "\<not> dry_run (i_options cx)"
    and found: "md_open cx cfg w = (Inr (VALID_MD_FOUND, c), w)"
    and lay: "same_layout (cfg_md c) md" and rep: "md_rep (i_headers cx) (ops cfg) md"
    and wr: "md_cpu_to_disk cx (c\<lparr>cfg_md := md\<rparr>) w = (Inr (0, c'), w1)"
    and w2: "disk w2 = disk w1" "same_device w1 w2"
  shows "\<exists>c2. md_open cx cfg w2 = (Inr (VALID_MD_FOUND, c2), w2) \<and> cfg_md c2 = md"
proof -
  let ?H = "i_headers cx" and ?h = "i_host cx"
  let ?img = "md_image ?H (ops cfg) ?h md"
  obtain c1 buf where c1: "v07_style_md_open_device cx cfg w = (Inr c1, w)"
    and big: "large_enough (at_offset ?H c1)"
    and rd: "pread_or_die 4096 (md_offset (at_offset ?H c1)) w = (Inr buf, w)"
    and ld: "loads cx (at_offset ?H c1) buf c"
    using found v07_open_found_iff [OF fmt free] md_open_found_iff [OF fmt] by blast
  let ?c = "at_offset ?H c1"
  have c1k: "ops c1 = ops cfg" "md_index c1 = md_index cfg"
    using open_device_keeps [OF free c1] by simp_all
  have ck: "ops c = ops cfg" "md_index c = md_index ?c" "md_offset c = md_offset ?c" "bd_size c = bd_size ?c"
    using load_cfg_keeps [of ?H ?c _ c] ld c1k by (auto simp: loads_def Let_def at_offset_def)
  have len: "length ?img = 4096" using super_block.length_image rep env by blast
  have valid: "is_valid_md ?H (ops cfg) md (md_index ?c) (bd_size ?c) = Inr True"
    and pw: "pwrite_or_die (i_options cx) (c\<lparr>cfg_md := md\<rparr>) ?img (md_offset ?c) w = (Inr (), w1)"
    using wr fmt
    by (auto simp: md_cpu_to_disk_eq ck bind_io_def lift_res_def ret_def split: sum.splits prod.splits if_splits)
  have d: "disk w2 = write_bytes (disk w) (unat (md_offset ?c)) ?img" and se: "same_device w w2"
    using pwrite_Inr [OF pw nd] w2 by (simp_all add: same_env_def same_device_def)
  have rd2: "pread_or_die 4096 (md_offset ?c) w2 = (Inr ?img, w2)"
    using rd se len store.rd_wr_same [of "disk w" "unat (md_offset ?c)" ?img]
    by (auto simp: pread_or_die_def kernel_error_def same_device_def d split: if_splits)
  obtain c2 where c2: "load_cfg ?H ?c md = Inr c2" "cfg_md c2 = md"
    using load_cfg_again [of ?H ?c _ c md] ld lay by (auto simp: loads_def Let_def)
  have "loads cx ?c ?img c2"
    using c2 valid c1k super_block.read_image [of ?H "ops cfg" md ?h] env rep
    by (simp add: loads_def Let_def at_offset_def)
  moreover have "v07_style_md_open_device cx cfg w2 = (Inr c1, w2)"
    using open_device_env [OF free se, of cx] c1 by auto
  moreover have "opens cfg w2" using free se by (simp add: opens_def same_device_def)
  ultimately have "v07_style_md_open cx cfg w2 = (Inr (VALID_MD_FOUND, c2), w2)"
    using big rd2 by (subst v07_open_found_iff [OF fmt]) blast+
  then show ?thesis using c2(2) md_open_found_iff [OF fmt] by blast
qed

end
