(* ===== verification/Md_Move.thy ===== *)
theory Md_Move
  imports Md_Ops
begin

text \<open>
  Moving internal meta data to the new end of a device that grew while DRBD was not running:
  \<^verbatim>\<open>v08_move_internal_md_after_resize\<close> of \<^verbatim>\<open>user/shared/drbdmeta.c\<close>. The old and the new
  place may overlap, so the bitmap is copied in chunks from its end. Offsets of type
  \<^verbatim>\<open>off_t\<close> are integers; what goes into \<^verbatim>\<open>cfg\<close> or to the kernel is 64 bits wide.
\<close>

unbundle bit_operations_syntax

section \<open>The code\<close>

text \<open>\<^verbatim>\<open>PREAD\<close> into the buffer and \<^verbatim>\<open>PWRITE\<close> of the same bytes; more than the buffer holds is an overrun.\<close>

definition copy_chunk :: "invocation \<Rightarrow> format_cfg \<Rightarrow> int \<Rightarrow> int \<Rightarrow> u64 \<Rightarrow> unit io" where
  "copy_chunk cx cfg n from_off to_off =
    (let count = unat (of_int n :: u64) in
     if count > buffer_size then stop_io OutOfBounds
     else bind_io (pread_or_die count (of_int from_off)) (\<lambda>buf. pwrite_or_die (i_options cx) cfg buf to_off))"

function move_bitmap_loop :: "invocation \<Rightarrow> format_cfg \<Rightarrow> int \<Rightarrow> int \<Rightarrow> int io" where
  "move_bitmap_loop cx cfg old_bm_offset cur_offset =
    (if cur_offset > old_bm_offset then
       bind_io (copy_chunk cx cfg (int buffer_size) cur_offset (cfg_bm_offset cfg + of_int (cur_offset - old_bm_offset)))
         (\<lambda>_. move_bitmap_loop cx cfg old_bm_offset (cur_offset - int buffer_size))
     else ret cur_offset)"
  by auto
termination
  by (relation "measure (\<lambda>(cx, cfg, old_bm_offset, cur_offset). nat (cur_offset - old_bm_offset))")
    (auto simp: buffer_size_def)

declare move_bitmap_loop.simps [simp del]

definition move_al_and_bitmap :: "invocation \<Rightarrow> format_cfg \<Rightarrow> md_cpu \<Rightarrow> int \<Rightarrow> unit io" where
  "move_al_and_bitmap cx cfg md_old old_offset =
    (let cur_offset = old_offset + sint (al_offset md_old) * 512;
         old_bm_offset = old_offset + sint (bm_offset md_old) * 512
     in bind_io (copy_chunk cx cfg (old_offset - cur_offset) cur_offset (cfg_al_offset cfg)) (\<lambda>_.
        bind_io (move_bitmap_loop cx cfg old_bm_offset (cur_offset - int buffer_size)) (\<lambda>cur_offset.
          copy_chunk cx cfg (int buffer_size - (old_bm_offset - cur_offset)) old_bm_offset (cfg_bm_offset cfg))))"

function fill_loop :: "options \<Rightarrow> format_cfg \<Rightarrow> u8 \<Rightarrow> int \<Rightarrow> int \<Rightarrow> unit io" where
  "fill_loop opts cfg fill trail_off trail_end =
    (if trail_off < trail_end then
       let chunk = (if trail_end - trail_off > int buffer_size then int buffer_size else trail_end - trail_off)
       in bind_io (pwrite_or_die opts cfg (replicate (nat chunk) fill) (of_int trail_off))
            (\<lambda>_. fill_loop opts cfg fill (trail_off + chunk) trail_end)
     else ret ())"
  by auto
termination
  by (relation "measure (\<lambda>(opts, cfg, fill, off, end). nat (end - off))") (auto simp: buffer_size_def)

declare fill_loop.simps [simp del]

definition init_bitmap_trail :: "options \<Rightarrow> format_cfg \<Rightarrow> md_cpu \<Rightarrow> unit io" where
  "init_bitmap_trail opts cfg md_old =
    (if option_initialize_bitmap_mode opts = IBM_SKIP then ret ()
     else let old_bm_bytes = sint (al_offset md_old - bm_offset md_old) * 512
          in fill_loop opts cfg (if option_initialize_bitmap_mode opts = IBM_SET_ALL then 0xff else 0x00)
               (sint (cfg_bm_offset cfg + of_int old_bm_bytes)) (sint (cfg_bm_offset cfg + cfg_bm_bytes cfg)))"

text \<open>The old region is zeroed; \<^verbatim>\<open>wipe_resize\<close> permits the write outside of the new area.\<close>

function wipe_loop :: "options \<Rightarrow> format_cfg \<Rightarrow> int \<Rightarrow> int \<Rightarrow> format_cfg io" where
  "wipe_loop opts cfg wipe_off wipe_end =
    (if wipe_off < wipe_end then
       let chunk = (if wipe_end - wipe_off > int buffer_size then int buffer_size else wipe_end - wipe_off);
           cfg = cfg\<lparr>wipe_resize := of_int wipe_off\<rparr>
       in bind_io (pwrite_or_die opts cfg (replicate (nat chunk) 0) (of_int wipe_off))
            (\<lambda>_. wipe_loop opts cfg (wipe_off + chunk) wipe_end)
     else ret cfg)"
  by auto
termination
  by (relation "measure (\<lambda>(opts, cfg, off, end). nat (end - off))") (auto simp: buffer_size_def)

declare wipe_loop.simps [simp del]

definition wipe_old_region :: "options \<Rightarrow> format_cfg \<Rightarrow> md_cpu \<Rightarrow> int \<Rightarrow> format_cfg io" where
  "wipe_old_region opts cfg md_old old_offset =
    (if of_int old_offset < cfg_bm_offset cfg then
       wipe_loop opts cfg (old_offset + sint (bm_offset md_old) * 512)
         (if of_int (old_offset + 4096) > cfg_bm_offset cfg then sint (cfg_bm_offset cfg) else old_offset + 4096)
     else ret cfg)"

definition v08_move_internal_md_after_resize :: "invocation \<Rightarrow> format_cfg \<Rightarrow> (int \<times> format_cfg) io" where
  "v08_move_internal_md_after_resize cx cfg =
    (let H = i_headers cx; opts = i_options cx; FLEX_INT = DRBD_MD_INDEX_FLEX_INT H; md_old = cfg_md cfg in
     if \<not> format_version (ops cfg) \<ge> format_version DRBD_V08 \<or> md_index cfg \<noteq> FLEX_INT
       \<or> \<not> lk_bd_size (lk_bd cfg) \<le> bd_size cfg
     then stop_io Abort
     else bind_io (lift_res (is_valid_md H (ops cfg) md_old FLEX_INT (lk_bd_size (lk_bd cfg)))) (\<lambda>ok.
       if \<not> ok then stop_io Abort
       else let old_offset = sint (v07_style_md_get_byte_offset H FLEX_INT (lk_bd_size (lk_bd cfg))) in
         bind_io (lift_res (re_initialize_md_offsets H (option_bm_block_size opts) cfg)) (\<lambda>cfg.
         bind_io (move_al_and_bitmap cx cfg md_old old_offset) (\<lambda>_.
         bind_io (init_bitmap_trail opts cfg md_old) (\<lambda>_.
         bind_io (lift_res (re_initialize_md_offsets H (option_bm_block_size opts) cfg)) (\<lambda>cfg.
         bind_io (md_cpu_to_disk cx cfg) (\<lambda>(err, cfg).
         bind_io (if err = 0 then wipe_old_region opts cfg md_old old_offset else ret cfg) (\<lambda>cfg.
         bind_io (md_close cx cfg) (\<lambda>c.
           ret (if c \<noteq> 0 \<or> err \<noteq> 0 then 1 else 0, cfg))))))))))"

section \<open>Computations that succeed\<close>

text \<open>
  \<open>writes m w x d\<close>: started in \<open>w\<close>, the computation returns \<open>x\<close>, leaves \<open>d\<close> on the
  device and changes nothing of what the kernel answers.
\<close>

definition writes :: "'a io \<Rightarrow> world \<Rightarrow> 'a \<Rightarrow> content \<Rightarrow> bool" where
  "writes m w x d \<longleftrightarrow> (\<exists>w'. m w = (Inr x, w') \<and> disk w' = d \<and> same_device w w')"

lemma same_device_refl [simp]: "same_device w w"
  by (simp add: same_device_def)

lemma same_device_trans: "same_device w1 w2 \<Longrightarrow> same_device w2 w3 \<Longrightarrow> same_device w1 w3"
  by (simp add: same_device_def)

lemma writes_ret [simp]: "writes (ret x) w y d \<longleftrightarrow> x = y \<and> d = disk w"
  by (auto simp: writes_def ret_def)

lemma writes_bind:
  assumes "writes m w x d" and "\<And>w1. disk w1 = d \<Longrightarrow> same_device w w1 \<Longrightarrow> writes (f x) w1 y d'"
  shows "writes (bind_io m f) w y d'"
proof -
  obtain w1 where w1: "m w = (Inr x, w1)" "disk w1 = d" "same_device w w1" using assms(1) by (auto simp: writes_def)
  obtain w2 where w2: "f x w1 = (Inr y, w2)" "disk w2 = d'" "same_device w1 w2"
    using assms(2) [OF w1(2,3)] by (auto simp: writes_def)
  show ?thesis
    using w1 w2 same_device_trans [OF w1(3) w2(3)] by (auto simp: writes_def bind_io_def)
qed

lemma writes_lift: "writes (f x) w y d \<Longrightarrow> writes (bind_io (lift_res (Inr x)) f) w y d"
  by (simp add: writes_def bind_io_def lift_res_def)

text \<open>The kernel transfers everything inside the device.\<close>

definition healthy :: "world \<Rightarrow> bool" where
  "healthy w \<longleftrightarrow> (\<forall>n off. \<not> io_fails w n off) \<and> dev_size w < 2 ^ 63"

text \<open>The range check lets everything between two offsets through.\<close>

definition writable_range :: "options \<Rightarrow> format_cfg \<Rightarrow> nat \<Rightarrow> nat \<Rightarrow> bool" where
  "writable_range opts cfg lo hi \<longleftrightarrow>
    (\<forall>off n. lo \<le> off \<longrightarrow> off + n \<le> hi \<longrightarrow> validate_offsets_or_die opts cfg n (of_nat off) = Inr ())"

lemma writable_rangeD:
  "\<lbrakk>writable_range opts cfg lo hi; lo \<le> off; off + n \<le> hi\<rbrakk> \<Longrightarrow> validate_offsets_or_die opts cfg n (of_nat off) = Inr ()"
  by (simp add: writable_range_def)

lemma writable_range_mono:
  "\<lbrakk>writable_range opts cfg lo hi; lo \<le> lo'; hi' \<le> hi\<rbrakk> \<Longrightarrow> writable_range opts cfg lo' hi'"
  by (simp add: writable_range_def)

lemma writes_pwrite:
  assumes "\<not> dry_run opts" and "healthy w" and "off + length buf \<le> dev_size w"
    and "validate_offsets_or_die opts cfg (length buf) (of_nat off) = Inr ()"
  shows "writes (pwrite_or_die opts cfg buf (of_nat off)) w () (write_bytes (disk w) off buf)"
proof -
  have u: "unat (of_nat off :: u64) = off" using assms(2,3) by (intro unat_of_nat_u64) (simp add: healthy_def)
  have "\<not> kernel_error w (length buf) (of_nat off)"
    using assms(2,3) u by (simp add: kernel_error_def healthy_def not_bit_63)
  then show ?thesis
    using pwrite_ok [OF assms(4,1)] assms(3) u by (auto simp: writes_def same_device_def)
qed

lemma writes_pread:
  assumes "healthy w" and "off + n \<le> dev_size w"
  shows "writes (pread_or_die n (of_nat off)) w (read_bytes (disk w) off n) (disk w)"
proof -
  have u: "unat (of_nat off :: u64) = off" using assms by (intro unat_of_nat_u64) (simp add: healthy_def)
  show ?thesis using assms u by (auto simp: writes_def pread_or_die_def kernel_error_def healthy_def not_bit_63)
qed

lemma healthy_same_device: "healthy w \<Longrightarrow> same_device w w' \<Longrightarrow> healthy w'"
  by (simp add: healthy_def same_device_def)

lemma writes_copy_chunk:
  assumes "\<not> dry_run (i_options cx)" and "healthy w" and "n \<le> buffer_size"
    and "src + n \<le> dev_size w" and "dst + n \<le> dev_size w"
    and "validate_offsets_or_die (i_options cx) cfg n (of_nat dst) = Inr ()"
  shows "writes (copy_chunk cx cfg (int n) (int src) (of_nat dst)) w ()
    (write_bytes (disk w) dst (read_bytes (disk w) src n))"
proof -
  have u: "unat (of_int (int n) :: u64) = n"
    using assms(3) unat_of_nat_u64 [of n] by (simp add: buffer_size_def)
  have "writes (bind_io (pread_or_die n (of_nat src)) (\<lambda>buf. pwrite_or_die (i_options cx) cfg buf (of_nat dst))) w ()
      (write_bytes (disk w) dst (read_bytes (disk w) src n))"
  proof (rule writes_bind [OF writes_pread])
    fix w1 assume "disk w1 = disk w" and "same_device w w1"
    then show "writes (pwrite_or_die (i_options cx) cfg (read_bytes (disk w) src n) (of_nat dst)) w1 ()
        (write_bytes (disk w) dst (read_bytes (disk w) src n))"
      using writes_pwrite [of "i_options cx" w1 dst "read_bytes (disk w) src n" cfg] assms
      by (simp add: healthy_same_device same_device_def)
  qed (use assms in simp_all)
  then show ?thesis using assms(3) u by (simp add: copy_chunk_def Let_def)
qed

section \<open>Copying the bitmap from its end\<close>

lemma read_bytes_append: "read_bytes d off m @ read_bytes d (off + m) n = read_bytes d off (m + n)"
  using upt_add_eq_append [of off "off + m" n] by (simp add: read_bytes_def add.assoc flip: map_append)

text \<open>
  Copying a front part after the back part of an overlapping move upwards: the source of the
  front part was not touched, and both writes together are one.
\<close>

lemma write_front_part:
  assumes "src \<le> dst"
  shows "let d1 = write_bytes d (dst + m) (read_bytes d (src + m) n)
    in write_bytes d1 dst (read_bytes d1 src m) = write_bytes d dst (read_bytes d src (m + n))"
proof -
  let ?d1 = "write_bytes d (dst + m) (read_bytes d (src + m) n)"
  have "read_bytes ?d1 src m = read_bytes d src m" using assms by (intro store.rd_wr_disjoint) simp
  then have "write_bytes ?d1 dst (read_bytes ?d1 src m) i = write_bytes d dst (read_bytes d src (m + n)) i" for i
    unfolding read_bytes_append [symmetric]
    by (auto simp: write_bytes_def nth_append)
  then show ?thesis by (simp add: Let_def ext)
qed

lemma writes_move_bitmap_loop:
  assumes "\<not> dry_run (i_options cx)" and "healthy w" and le: "src \<le> dst"
    and ok: "writable_range (i_options cx) cfg dst (dst + r)" and "dst + r \<le> dev_size w"
    and bm: "cfg_bm_offset cfg = of_nat dst"
  shows "\<exists>m \<le> buffer_size. m \<le> r \<and> writes (move_bitmap_loop cx cfg (int src) (int (src + r) - int buffer_size)) w
    (int (src + m) - int buffer_size) (write_bytes (disk w) (dst + m) (read_bytes (disk w) (src + m) (r - m)))"
  using assms(2,4,5)
proof (induction r arbitrary: w rule: less_induct)
  case (less r)
  show ?case
  proof (cases "r \<le> buffer_size")
    case True
    then show ?thesis
      by (intro exI [of _ r]) (simp add: move_bitmap_loop.simps [of cx cfg "int src"] read_bytes_def)
  next
    case False
    let ?B = buffer_size and ?q = "r - buffer_size"
    let ?d1 = "write_bytes (disk w) (dst + ?q) (read_bytes (disk w) (src + ?q) ?B)"
    have q: "?q < r" "int (src + r) - int ?B = int (src + ?q)" "dst + r = dst + ?q + ?B" "src + r = src + ?q + ?B"
      using False by (simp_all add: buffer_size_def)
    have copy: "writes (copy_chunk cx cfg (int ?B) (int (src + ?q)) (of_nat (dst + ?q))) w () ?d1"
    proof (rule writes_copy_chunk [OF assms(1) less.prems(1)])
      show "src + ?q + ?B \<le> dev_size w" "dst + ?q + ?B \<le> dev_size w"
        using less.prems(3) le unfolding q(3) by linarith+
      show "validate_offsets_or_die (i_options cx) cfg ?B (of_nat (dst + ?q)) = Inr ()"
        by (rule writable_rangeD [OF less.prems(2)]) (simp_all only: q(3) le_add1 le_refl)
    qed simp
    have ok: "writable_range (i_options cx) cfg dst (dst + ?q)"
      using q(1) by (intro writable_range_mono [OF less.prems(2)]) simp_all
    have step: "move_bitmap_loop cx cfg (int src) (int (src + r) - int ?B) =
        bind_io (copy_chunk cx cfg (int ?B) (int (src + ?q)) (of_nat (dst + ?q)))
          (\<lambda>_. move_bitmap_loop cx cfg (int src) (int (src + ?q) - int ?B))"
      unfolding q(2) using False by (subst move_bitmap_loop.simps) (simp add: bm algebra_simps)
    obtain w1 where w1: "copy_chunk cx cfg (int ?B) (int (src + ?q)) (of_nat (dst + ?q)) w = (Inr (), w1)"
      "disk w1 = ?d1" "same_device w w1" using copy by (auto simp: writes_def)
    have h1: "healthy w1" "dst + ?q \<le> dev_size w1"
      using healthy_same_device [OF less.prems(1) w1(3)] less.prems(3) w1(3) q(1) by (simp_all add: same_device_def)
    from less.IH [OF q(1) h1(1) ok h1(2)] obtain m where m: "m \<le> ?B" "m \<le> ?q"
      and rest: "writes (move_bitmap_loop cx cfg (int src) (int (src + ?q) - int ?B)) w1
        (int (src + m) - int ?B) (write_bytes ?d1 (dst + m) (read_bytes ?d1 (src + m) (?q - m)))"
      by (auto simp: w1(2))
    have "write_bytes ?d1 (dst + m) (read_bytes ?d1 (src + m) (?q - m)) =
        write_bytes (disk w) (dst + m) (read_bytes (disk w) (src + m) (r - m))"
      using write_front_part [of "src + m" "dst + m" "disk w" "?q - m" ?B] le m False by (simp add: Let_def)
    with rest have "writes (move_bitmap_loop cx cfg (int src) (int (src + r) - int ?B)) w
        (int (src + m) - int ?B) (write_bytes (disk w) (dst + m) (read_bytes (disk w) (src + m) (r - m)))"
      unfolding step using w1 same_device_trans [OF w1(3)] by (auto simp: writes_def bind_io_def)
    then show ?thesis using m by (intro exI [of _ m]) simp
  qed
qed

lemma writes_fill_loop:
  assumes "\<not> dry_run opts" and "healthy w" and "b \<le> dev_size w" and ok: "writable_range opts cfg a b"
  shows "writes (fill_loop opts cfg fill (int a) (int b)) w () (write_bytes (disk w) a (replicate (b - a) fill))"
  using assms(2-4)
proof (induction "b - a" arbitrary: a w rule: less_induct)
  case less
  show ?case
  proof (cases "a < b")
    case False
    then show ?thesis by (subst fill_loop.simps) simp
  next
    case True
    define n where "n = (if b - a > buffer_size then buffer_size else b - a)"
    have n: "0 < n" "a + n \<le> b" "int n = (if int b - int a > int buffer_size then int buffer_size else int b - int a)"
      using True by (auto simp: n_def buffer_size_def)
    have "writes (bind_io (pwrite_or_die opts cfg (replicate n fill) (of_nat a))
        (\<lambda>_. fill_loop opts cfg fill (int (a + n)) (int b))) w ()
      (write_bytes (write_bytes (disk w) a (replicate n fill)) (a + n) (replicate (b - (a + n)) fill))"
    proof (rule writes_bind)
      show "writes (pwrite_or_die opts cfg (replicate n fill) (of_nat a)) w () (write_bytes (disk w) a (replicate n fill))"
        using less.prems assms(1) n(2) by (intro writes_pwrite writable_rangeD [OF less.prems(3)]) simp_all
      fix w1 assume w1: "disk w1 = write_bytes (disk w) a (replicate n fill)" "same_device w w1"
      show "writes (fill_loop opts cfg fill (int (a + n)) (int b)) w1 ()
          (write_bytes (write_bytes (disk w) a (replicate n fill)) (a + n) (replicate (b - (a + n)) fill))"
        unfolding w1(1) [symmetric]
      proof (rule less.hyps)
        show "b - (a + n) < b - a" using n(1) True by simp
        show "healthy w1" "b \<le> dev_size w1"
          using less.prems w1(2) by (auto simp: healthy_same_device same_device_def)
        show "writable_range opts cfg (a + n) b" by (rule writable_range_mono [OF less.prems(3)]) simp_all
      qed
    qed
    moreover have "write_bytes (write_bytes (disk w) a (replicate n fill)) (a + n) (replicate (b - (a + n)) fill) =
        write_bytes (disk w) a (replicate (b - a) fill)"
      using n(2) by (subst write_bytes_append) (simp_all flip: replicate_add)
    moreover have "fill_loop opts cfg fill (int a) (int b) = bind_io (pwrite_or_die opts cfg (replicate n fill) (of_nat a))
        (\<lambda>_. fill_loop opts cfg fill (int (a + n)) (int b))"
      using True by (subst fill_loop.simps) (simp only: n(3) [symmetric] Let_def, simp)
    ultimately show ?thesis by simp
  qed
qed

lemma wipe_offset_valid: "off \<noteq> 0 \<Longrightarrow> validate_offsets_or_die opts (cfg\<lparr>wipe_resize := off\<rparr>) n off = Inr ()"
  by (simp add: validate_offsets_or_die_def)

lemma writes_wipe_loop:
  assumes "\<not> dry_run opts" and "healthy w" and "b \<le> dev_size w" and "0 < a"
  shows "\<exists>r. writes (wipe_loop opts cfg (int a) (int b)) w (cfg\<lparr>wipe_resize := r\<rparr>)
    (write_bytes (disk w) a (replicate (b - a) 0))"
  using assms(2-4)
proof (induction "b - a" arbitrary: a w cfg rule: less_induct)
  case less
  show ?case
  proof (cases "a < b")
    case False
    then show ?thesis by (intro exI [of _ "wipe_resize cfg"]) (subst wipe_loop.simps, simp)
  next
    case True
    define n where "n = (if b - a > buffer_size then buffer_size else b - a)"
    let ?c = "cfg\<lparr>wipe_resize := of_nat a\<rparr>"
    have n: "0 < n" "a + n \<le> b" "int n = (if int b - int a > int buffer_size then int buffer_size else int b - int a)"
      using True by (auto simp: n_def buffer_size_def)
    have "unat (of_nat a :: u64) = a" using less.prems True by (intro unat_of_nat_u64) (simp add: healthy_def)
    then have a0: "(of_nat a :: u64) \<noteq> 0" using less.prems(3) by (auto simp: unat_eq_0)
    have w: "writes (pwrite_or_die opts ?c (replicate n 0) (of_nat a)) w () (write_bytes (disk w) a (replicate n 0))"
      using less.prems assms(1) n(2) a0 by (intro writes_pwrite wipe_offset_valid) simp_all
    obtain w1 where w1: "pwrite_or_die opts ?c (replicate n 0) (of_nat a) w = (Inr (), w1)"
      "disk w1 = write_bytes (disk w) a (replicate n 0)" "same_device w w1" using w by (auto simp: writes_def)
    have "b - (a + n) < b - a" "healthy w1" "b \<le> dev_size w1" "0 < a + n"
      using n(1) True less.prems w1(3) by (auto simp: healthy_same_device same_device_def)
    from less.hyps [OF this, of ?c] obtain r where
      "writes (wipe_loop opts ?c (int (a + n)) (int b)) w1 (cfg\<lparr>wipe_resize := r\<rparr>)
        (write_bytes (disk w1) (a + n) (replicate (b - (a + n)) 0))" by auto
    moreover have "write_bytes (disk w1) (a + n) (replicate (b - (a + n)) 0) = write_bytes (disk w) a (replicate (b - a) 0)"
      unfolding w1(2) using n(2) by (subst write_bytes_append) (simp_all flip: replicate_add)
    moreover have "wipe_loop opts cfg (int a) (int b) = bind_io (pwrite_or_die opts ?c (replicate n 0) (of_nat a))
        (\<lambda>_. wipe_loop opts ?c (int (a + n)) (int b))"
      using True by (subst wipe_loop.simps) (simp only: n(3) [symmetric] Let_def, simp)
    ultimately have "writes (wipe_loop opts cfg (int a) (int b)) w (cfg\<lparr>wipe_resize := r\<rparr>)
        (write_bytes (disk w) a (replicate (b - a) 0))"
      using w1 same_device_trans [OF w1(3)] by (auto simp: writes_def bind_io_def)
    then show ?thesis by blast
  qed
qed

end
