(* ===== verification/Hamming.thy ===== *)
theory Hamming
  imports Endian
begin

text \<open>
  The Hamming weight routines of \<^verbatim>\<open>user/shared/drbd_endian.h\<close> count the set bits of
  their argument. Each line of the C code adds neighbouring bit fields in parallel; a word
  is read as a list of fields, and one line is one step from fields of \<open>k\<close> bits to
  fields of \<open>2 * k\<close> bits.
\<close>

unbundle bit_operations_syntax

section \<open>Words as lists of bit fields\<close>

fun fields :: "nat \<Rightarrow> nat list \<Rightarrow> nat" where
  "fields k [] = 0"
| "fields k (f # fs) = f + 2 ^ k * fields k fs"

fun pair_sums :: "nat list \<Rightarrow> nat list" where
  "pair_sums (a # b # fs) = (a + b) # pair_sums fs"
| "pair_sums fs = fs"

fun low_masks :: "nat \<Rightarrow> nat \<Rightarrow> nat" where
  "low_masks k 0 = 0"
| "low_masks k (Suc n) = mask k + 2 ^ (2 * k) * low_masks k n"

text \<open>One line of the C routines.\<close>

definition hw_step :: "nat \<Rightarrow> 'a::len word \<Rightarrow> 'a word \<Rightarrow> 'a word" where
  "hw_step k m w = (w AND m) + (drop_bit k w AND m)"

text \<open>The word holds \<open>n\<close> fields of \<open>k\<close> bits, each at most \<open>c\<close>, that add up to \<open>s\<close>.\<close>

definition packed :: "nat \<Rightarrow> nat \<Rightarrow> nat \<Rightarrow> nat \<Rightarrow> 'a::len word \<Rightarrow> bool" where
  "packed k n c s w \<longleftrightarrow>
    (\<exists>fs. unat w = fields k fs \<and> length fs = n \<and> (\<forall>f \<in> set fs. f \<le> c) \<and> sum_list fs = s)"

lemma fields_bound: "\<forall>f \<in> set fs. f < 2 ^ k \<Longrightarrow> fields k fs < 2 ^ (k * length fs)"
proof (induction fs)
  case (Cons f fs)
  then have "fields k fs \<le> 2 ^ (k * length fs) - 1" "f < 2 ^ k" by auto
  then have "f + 2 ^ k * fields k fs < 2 ^ k + 2 ^ k * (2 ^ (k * length fs) - 1)"
    by (meson add_less_le_mono mult_le_mono2)
  also have "\<dots> = 2 ^ (k * length (f # fs))"
    by (simp add: power_add algebra_simps)
  finally show ?case by simp
qed simp

lemma and_split:
  "x AND y = (take_bit j x AND take_bit j y) + 2 ^ j * (drop_bit j x AND drop_bit j (y::nat))"
  using bits_ident [of j "x AND y"] by (simp add: push_bit_eq_mult mult.commute add.commute)

lemma take_drop_fields:
  assumes "a < (2::nat) ^ j"
  shows "take_bit j (a + 2 ^ j * b) = a" "drop_bit j (a + 2 ^ j * b) = b"
  using assms by (simp_all add: take_bit_eq_mod drop_bit_eq_div)

text \<open>Masking out the even fields, and, after the shift, the odd ones.\<close>

lemma mask_even_field:
  assumes ab: "a < 2 ^ k" "b < (2::nat) ^ k"
  shows "(a + 2 ^ k * b + 2 ^ (2 * k) * g) AND (mask k + 2 ^ (2 * k) * m)
    = a + 2 ^ (2 * k) * (g AND m)"
proof -
  have low: "a + 2 ^ k * b < 2 ^ (2 * k)"
    using fields_bound [of "[a, b]" k] ab by (simp add: mult_2)
  have mk: "mask k < (2::nat) ^ (2 * k)"
    by (rule order_less_le_trans [of _ "2 ^ k"]) (simp_all add: mask_eq_exp_minus_1)
  show ?thesis
    by (subst and_split [where j = "2 * k"])
      (simp only: take_drop_fields [OF low] take_drop_fields [OF mk] take_bit_eq_mask [symmetric]
        take_drop_fields [OF ab(1)])
qed

lemma mask_odd_field:
  assumes b: "b < (2::nat) ^ k"
  shows "(b + 2 ^ k * g) AND (mask k + 2 ^ (2 * k) * m) = b + 2 ^ (2 * k) * (drop_bit k g AND m)"
proof -
  have mk: "mask k < (2::nat) ^ (2 * k)"
    by (rule order_less_le_trans [of _ "2 ^ k"]) (simp_all add: mask_eq_exp_minus_1)
  have "take_bit k (take_bit (2 * k) (b + 2 ^ k * g)) = b"
    using take_drop_fields(1) [OF b] by simp
  then have t: "take_bit (2 * k) (b + 2 ^ k * g) AND mask k = b"
    by (simp add: take_bit_eq_mask [symmetric])
  have "drop_bit (2 * k) (b + 2 ^ k * g) = drop_bit k (drop_bit k (b + 2 ^ k * g))"
    by (simp add: drop_bit_drop_bit mult_2)
  then have d: "drop_bit (2 * k) (b + 2 ^ k * g) = drop_bit k g"
    by (simp only: take_drop_fields(2) [OF b])
  show ?thesis
    by (subst and_split [where j = "2 * k"]) (simp only: take_drop_fields [OF mk] t d)
qed

lemma fold_fields:
  assumes "length fs = 2 * n" "\<forall>f \<in> set fs. f < 2 ^ k"
  shows "(fields k fs AND low_masks k n) + (drop_bit k (fields k fs) AND low_masks k n)
    = fields (2 * k) (pair_sums fs)"
  using assms
proof (induction n arbitrary: fs)
  case (Suc n)
  then obtain a b gs where fs: "fs = a # b # gs" and len: "length gs = 2 * n"
    by (auto simp: length_Suc_conv)
  have ab: "a < 2 ^ k" "b < 2 ^ k" and gs: "\<forall>f \<in> set gs. f < 2 ^ k" using Suc.prems fs by auto
  have even: "fields k fs = a + 2 ^ k * b + 2 ^ (2 * k) * fields k gs"
    by (simp add: fs mult_2 power_add distrib_left)
  have odd: "drop_bit k (fields k fs) = b + 2 ^ k * fields k gs"
    using ab(1) by (simp add: fs take_drop_fields)
  have "(fields k fs AND low_masks k (Suc n)) + (drop_bit k (fields k fs) AND low_masks k (Suc n))
      = (a + b) + 2 ^ (2 * k) * ((fields k gs AND low_masks k n)
        + (drop_bit k (fields k gs) AND low_masks k n))"
    unfolding odd unfolding even low_masks.simps mask_even_field [OF ab] mask_odd_field [OF ab(2)]
    by (simp add: distrib_left)
  then show ?case by (simp only: Suc.IH [OF len gs] fs pair_sums.simps fields.simps)
qed simp

lemma length_pair_sums: "length fs = 2 * n \<Longrightarrow> length (pair_sums fs) = n"
proof (induction fs arbitrary: n rule: pair_sums.induct)
  case (1 a b fs)
  then show ?case by (cases n) auto
qed auto

lemma sum_pair_sums: "sum_list (pair_sums fs) = sum_list fs"
  by (induction fs rule: pair_sums.induct) auto

lemma pair_sums_bound: "\<forall>f \<in> set fs. f \<le> c \<Longrightarrow> \<forall>f \<in> set (pair_sums fs). f \<le> 2 * c"
  by (induction fs rule: pair_sums.induct) auto

section \<open>One step, and the whole routine\<close>

lemma packed_hw_step:
  assumes w: "packed k (2 * n) c s (w::'a::len word)" and m: "unat m = low_masks k n"
    and len: "2 * k * n = LENGTH('a)" and c: "c < 2 ^ k" "2 * c < 2 ^ (2 * k)"
  shows "packed (2 * k) n (2 * c) s (hw_step k m w)"
proof -
  from w obtain fs where fs: "unat w = fields k fs" "length fs = 2 * n"
    "\<forall>f \<in> set fs. f \<le> c" "sum_list fs = s" by (auto simp: packed_def)
  have b: "\<forall>f \<in> set fs. f < 2 ^ k" using fs(3) c(1) by auto
  have l: "length (pair_sums fs) = n" using fs(2) by (rule length_pair_sums)
  have p: "\<forall>f \<in> set (pair_sums fs). f \<le> 2 * c" using fs(3) by (rule pair_sums_bound)
  have "fields (2 * k) (pair_sums fs) < 2 ^ LENGTH('a)"
    using fields_bound [of "pair_sums fs" "2 * k"] p c(2) l len by (metis order_le_less_trans)
  moreover have "unat (w AND m) + unat (drop_bit k w AND m) = fields (2 * k) (pair_sums fs)"
    using fold_fields [OF fs(2) b] by (simp only: unsigned_and_eq unsigned_drop_bit_eq fs(1) m)
      (simp add: fs(1) [symmetric] take_bit_nat_eq_self)
  ultimately have "unat (hw_step k m w) = fields (2 * k) (pair_sums fs)"
    by (simp add: hw_step_def unat_add_lem [THEN iffD1])
  with l p fs(4) show ?thesis by (auto simp: packed_def sum_pair_sums)
qed

lemma fields_bits: "fields 1 (map (\<lambda>i. of_bool (bit (x::nat) i)) [0..<n]) = take_bit n x"
proof (induction n arbitrary: x)
  case (Suc n)
  have "[0..<Suc n] = 0 # map Suc [0..<n]"
    by (simp add: upt_conv_Cons map_Suc_upt del: upt_Suc)
  then have "fields 1 (map (\<lambda>i. of_bool (bit x i)) [0..<Suc n])
     = of_bool (odd x) + 2 * fields 1 (map (\<lambda>i. of_bool (bit (x div 2) i)) [0..<n])"
    by (simp add: comp_def bit_Suc bit_0)
  with Suc show ?case by (simp add: take_bit_Suc mod_2_eq_odd)
qed simp

lemma packed_bits: "packed 1 LENGTH('a) 1 (popcount w) (w::'a::len word)"
proof -
  let ?fs = "map (\<lambda>i. of_bool (bit w i) :: nat) [0..<LENGTH('a)]"
  have "?fs = map (\<lambda>i. of_bool (bit (unat w) i)) [0..<LENGTH('a)]"
    by (simp add: bit_unsigned_iff)
  then have "unat w = fields 1 ?fs"
    by (simp only: fields_bits) (simp add: take_bit_nat_eq_self)
  moreover have "sum_list ?fs = popcount w"
    by (simp add: popcount_def interv_sum_list_conv_sum_set_nat lessThan_atLeast0)
  ultimately show ?thesis
    unfolding packed_def by (intro exI [of _ ?fs]) auto
qed

lemma packed_single: "packed k 1 c s w \<Longrightarrow> unat w = s"
  by (auto simp: packed_def length_Suc_conv)

lemma low_masks_numeral:
  "low_masks k (numeral v) = mask k + 2 ^ (2 * k) * low_masks k (pred_numeral v)"
  by (simp add: numeral_eq_Suc)

lemmas low_masks_eval = low_masks_numeral mask_eq_exp_minus_1

text \<open>
  \<^verbatim>\<open>generic_hweight32\<close> returns the number of bits set in its argument, for every
  32 bit word: the parallel summation never overflows a field.
\<close>

theorem generic_hweight32_popcount: "unat (generic_hweight32 w) = popcount w"
proof -
  have m: "unat (0x55555555::u32) = low_masks 1 16" "unat (0x33333333::u32) = low_masks 2 8"
    "unat (0x0F0F0F0F::u32) = low_masks 4 4" "unat (0x00FF00FF::u32) = low_masks 8 2"
    "unat (0x0000FFFF::u32) = low_masks 16 1"
    by (simp_all add: low_masks_eval)
  have "packed 1 (2 * 16) 1 (popcount w) w" using packed_bits [of w] by simp
  from packed_hw_step [OF this m(1)] have "packed 2 (2 * 8) 2 (popcount w) (hw_step 1 0x55555555 w)"
    by simp
  note packed_hw_step [OF this m(2), simplified]
  then have "packed 4 (2 * 4) 4 (popcount w) (hw_step 2 0x33333333 (hw_step 1 0x55555555 w))"
    by simp
  note packed_hw_step [OF this m(3), simplified]
  then have "packed 8 (2 * 2) 8 (popcount w)
      (hw_step 4 0x0F0F0F0F (hw_step 2 0x33333333 (hw_step 1 0x55555555 w)))"
    by simp
  note packed_hw_step [OF this m(4), simplified]
  then have "packed 16 (2 * 1) 16 (popcount w) (hw_step 8 0x00FF00FF
      (hw_step 4 0x0F0F0F0F (hw_step 2 0x33333333 (hw_step 1 0x55555555 w))))"
    by simp
  from packed_hw_step [OF this m(5)] show ?thesis
    by (simp add: packed_single generic_hweight32_def hw_step_def Let_def)
qed

text \<open>
  \<^verbatim>\<open>generic_hweight64\<close> (the branch for 64 bit hosts) returns the number of bits
  set in its 64 bit argument.
\<close>

theorem generic_hweight64_popcount: "unat (generic_hweight64 w) = popcount w"
proof -
  have m: "unat (0x5555555555555555::u64) = low_masks 1 32"
    "unat (0x3333333333333333::u64) = low_masks 2 16"
    "unat (0x0F0F0F0F0F0F0F0F::u64) = low_masks 4 8"
    "unat (0x00FF00FF00FF00FF::u64) = low_masks 8 4"
    "unat (0x0000FFFF0000FFFF::u64) = low_masks 16 2"
    "unat (0x00000000FFFFFFFF::u64) = low_masks 32 1"
    by (simp_all add: low_masks_eval)
  have "packed 1 (2 * 32) 1 (popcount w) w" using packed_bits [of w] by simp
  from packed_hw_step [OF this m(1)]
  have s1: "packed 2 (2 * 16) 2 (popcount w) (hw_step 1 0x5555555555555555 w)" (is "packed _ _ _ _ ?w1")
    by simp
  from packed_hw_step [OF this m(2)]
  have s2: "packed 4 (2 * 8) 4 (popcount w) (hw_step 2 0x3333333333333333 ?w1)" (is "packed _ _ _ _ ?w2")
    by simp
  from packed_hw_step [OF this m(3)]
  have s3: "packed 8 (2 * 4) 8 (popcount w) (hw_step 4 0x0F0F0F0F0F0F0F0F ?w2)" (is "packed _ _ _ _ ?w3")
    by simp
  from packed_hw_step [OF this m(4)]
  have s4: "packed 16 (2 * 2) 16 (popcount w) (hw_step 8 0x00FF00FF00FF00FF ?w3)" (is "packed _ _ _ _ ?w4")
    by simp
  from packed_hw_step [OF this m(5)]
  have s5: "packed 32 (2 * 1) 32 (popcount w) (hw_step 16 0x0000FFFF0000FFFF ?w4)"
    by simp
  from packed_hw_step [OF this m(6)] show ?thesis
    by (simp add: packed_single generic_hweight64_def hw_step_def Let_def)
qed

end
