(* ===== verification/Apply_Al.thy ===== *)
theory Apply_Al
  imports Activity_Log Hamming
begin

text \<open>
  \<^verbatim>\<open>apply_al\<close> of \<^verbatim>\<open>user/shared/drbdmeta.c\<close>: every extent of the activity log that was
  hot at the time of a crash is marked out of sync in the on-disk bitmap of every peer, in
  read-modify-write cycles over chunks of the bitmap. The positions fit easily into 64 bits (an
  extent number has 32 bits, an extent at most 1024 bits, there are at most 32 slots, so a
  byte position is below \<open>2^44\<close>); they are natural numbers here.
\<close>

unbundle bit_operations_syntax

section \<open>Where the bits of an extent are\<close>

definition AL_EXTENT_SHIFT :: nat where "AL_EXTENT_SHIFT = 22"

text \<open>The position of the highest set bit, which the code gets from the leading zeros.\<close>

fun ilog2 :: "nat \<Rightarrow> nat" where
  "ilog2 n = (if n < 2 then 0 else 1 + ilog2 (n div 2))"

declare ilog2.simps [simp del]

record extent_bit_range =
  bit_s :: nat
  bit_e :: nat
  on_disk_word32_pos_s :: nat
  on_disk_word32_pos_e :: nat
  aligned_4k_x_max_peers_on_disk_pos :: nat

definition round_down :: "nat \<Rightarrow> nat \<Rightarrow> nat" where
  "round_down i g = i div g * g"

definition enr_to_bit_range :: "nat \<Rightarrow> nat \<Rightarrow> nat \<Rightarrow> extent_bit_range" where
  "enr_to_bit_range enr bits_per_extent npeers =
    (let s = enr * bits_per_extent; e = s + bits_per_extent;
         pos_s = s div 32 * npeers * 4
     in \<lparr>bit_s = s, bit_e = e, on_disk_word32_pos_s = pos_s,
         on_disk_word32_pos_e = (e + 31) div 32 * npeers * 4,
         aligned_4k_x_max_peers_on_disk_pos = round_down pos_s (4096 * npeers)\<rparr>)"

abbreviation pos_s :: "nat \<Rightarrow> nat \<Rightarrow> u32 \<Rightarrow> nat" where
  "pos_s bpe np x \<equiv> on_disk_word32_pos_s (enr_to_bit_range (unat x) bpe np)"

abbreviation pos_e :: "nat \<Rightarrow> nat \<Rightarrow> u32 \<Rightarrow> nat" where
  "pos_e bpe np x \<equiv> on_disk_word32_pos_e (enr_to_bit_range (unat x) bpe np)"

abbreviation aligned_pos :: "nat \<Rightarrow> nat \<Rightarrow> u32 \<Rightarrow> nat" where
  "aligned_pos bpe np x \<equiv> aligned_4k_x_max_peers_on_disk_pos (enr_to_bit_range (unat x) bpe np)"

section \<open>Changing the buffer\<close>

definition fill_buffer :: "bytes \<Rightarrow> nat \<Rightarrow> nat \<Rightarrow> u8 \<Rightarrow> bytes" where
  "fill_buffer buf pos n c = take pos buf @ replicate n c @ drop (pos + n) buf"

definition get_word32 :: "host \<Rightarrow> bytes \<Rightarrow> nat \<Rightarrow> u32" where
  "get_word32 h buf i = load h (take 4 (drop (4 * i) buf))"

definition put_word32 :: "host \<Rightarrow> bytes \<Rightarrow> nat \<Rightarrow> u32 \<Rightarrow> bytes" where
  "put_word32 h buf i w = take (4 * i) buf @ store h 4 w @ drop (4 * i + 4) buf"

definition extent_mask :: "extent_bit_range \<Rightarrow> u32" where
  "extent_mask ex = push_bit (bit_s ex mod 32) (-1) AND drop_bit ((32 - bit_e ex mod 32) mod 32) (-1)"

text \<open>The loop over the words of all slots, which also counts the bits that were clear before.\<close>

fun or_words :: "host \<Rightarrow> u32 \<Rightarrow> nat \<Rightarrow> nat \<Rightarrow> bytes \<times> u32 \<Rightarrow> bytes \<times> u32" where
  "or_words h m i 0 st = st"
| "or_words h m i (Suc l) (buf, additional) =
    (let old = get_word32 h buf i; new = old OR m
     in or_words h m (i + 1) l
          (put_word32 h buf i new, additional + (generic_hweight32 new - generic_hweight32 old)))"

definition mark_extent ::
  "host \<Rightarrow> nat \<Rightarrow> nat \<Rightarrow> nat \<Rightarrow> u32 \<Rightarrow> bytes \<times> u32 \<Rightarrow> (bytes \<times> u32) res" where
  "mark_extent h bpe np bm_pos x = (\<lambda>(buf, additional).
    let ex = enr_to_bit_range (unat x) bpe np;
        s = on_disk_word32_pos_s ex; e = on_disk_word32_pos_e ex
    in assert_res (bm_pos \<le> s \<and> s - bm_pos < length buf) (
       assert_res (bm_pos \<le> e \<and> e - bm_pos \<le> length buf) (
       if bpe \<ge> 32 then Inr (fill_buffer buf (s - bm_pos) (e - s) 0xff, additional)
       else Inr (or_words h (cpu_to_le32 h (extent_mask ex)) ((s - bm_pos) div 4) np (buf, additional)))))"

fun mark_extents ::
  "host \<Rightarrow> nat \<Rightarrow> nat \<Rightarrow> nat \<Rightarrow> u32 list \<Rightarrow> bytes \<times> u32 \<Rightarrow> (bytes \<times> u32) res" where
  "mark_extents h bpe np bm_pos [] st = Inr st"
| "mark_extents h bpe np bm_pos (x # xs) st =
    bind_res (mark_extent h bpe np bm_pos x st) (mark_extents h bpe np bm_pos xs)"

section \<open>The main loop\<close>

text \<open>
  The inner search: how many of the following extents end inside the bitmap and inside a
  buffer that starts at \<open>start\<close>. A hot extent of \<open>-1\<close> ends the list.
\<close>

fun covered_by_buffer :: "nat \<Rightarrow> nat \<Rightarrow> nat \<Rightarrow> nat \<Rightarrow> u32 list \<Rightarrow> u32 list" where
  "covered_by_buffer bpe np bm_len start [] = []"
| "covered_by_buffer bpe np bm_len start (x # xs) =
    (if x = -1 \<or> pos_e bpe np x \<ge> bm_len \<or> pos_e bpe np x \<ge> start + buffer_size then []
     else x # covered_by_buffer bpe np bm_len start xs)"

text \<open>One read-modify-write cycle for a group of extents.\<close>

definition apply_al_cycle ::
  "host \<Rightarrow> options \<Rightarrow> format_cfg \<Rightarrow> nat \<Rightarrow> nat \<Rightarrow> nat \<Rightarrow> u32 list \<Rightarrow> u32 \<Rightarrow> u32 io" where
  "apply_al_cycle h opts cfg bpe np start grp additional =
    (let chunk_end = align_up (pos_e bpe np (last grp)) 4096;
         chunk = chunk_end - start;
         off = cfg_bm_offset cfg + of_nat start
     in if chunk_end < start \<or> chunk > buffer_size then stop_io Abort
        else bind_io (pread_or_die chunk off) (\<lambda>buf.
          bind_io (lift_res (mark_extents h bpe np start grp (buf, additional))) (\<lambda>(buf, additional).
          bind_io (pwrite_or_die opts cfg buf off) (\<lambda>_. ret additional))))"

text \<open>
  The outer loop over the sorted array; \<open>hot\<close> is what is left of it. The result is the
  number of additional bits.
\<close>

function apply_al_loop ::
  "host \<Rightarrow> options \<Rightarrow> format_cfg \<Rightarrow> nat \<Rightarrow> nat \<Rightarrow> nat \<Rightarrow> u32 list \<Rightarrow> u32 \<Rightarrow> u32 io" where
  "apply_al_loop h opts cfg bpe np bm_len [] additional = ret additional"
| "apply_al_loop h opts cfg bpe np bm_len (x # xs) additional =
    (if x = -1 then ret additional
     else if pos_e bpe np x \<ge> bm_len then apply_al_loop h opts cfg bpe np bm_len xs additional
     else let start = aligned_pos bpe np x; cov = covered_by_buffer bpe np bm_len start xs
       in bind_io (apply_al_cycle h opts cfg bpe np start (x # cov) additional) (\<lambda>additional.
            apply_al_loop h opts cfg bpe np bm_len (drop (length cov) xs) additional))"
  by pat_completeness auto
termination
  by (relation "measure (\<lambda>(h, opts, cfg, bpe, np, bm_len, hot, additional). length hot)") auto

declare apply_al_loop.simps(2) [simp del]

definition apply_al :: "headers \<Rightarrow> host \<Rightarrow> options \<Rightarrow> format_cfg \<Rightarrow> u32 list \<Rightarrow> u32 io" where
  "apply_al H h opts cfg hot =
    (let bm_len = unat (ALIGN (cfg_bm_bytes cfg) (md_hard_sect_size cfg));
         bpe = 2 ^ (AL_EXTENT_SHIFT - ilog2 (unat (bm_bytes_per_bit (cfg_md cfg))));
         np = unat (max_peers (cfg_md cfg))
     in if \<not> (4 \<le> bpe \<and> bpe \<le> 1024 \<and> is_power_of_2 (of_nat bpe)) then stop_io Abort
        else if \<not> (1 \<le> np \<and> np \<le> DRBD_PEERS_MAX H) then stop_io Abort
        else apply_al_loop h opts cfg bpe np bm_len hot 0)"

section \<open>The specification\<close>

text \<open>
  The layout comment of the source: words of 32 bits, interleaved over the slots. Byte
  \<open>pos\<close> of the bitmap, bit \<open>t\<close>, holds this bit number of its slot:
\<close>

definition logical_bit :: "nat \<Rightarrow> nat \<Rightarrow> nat \<Rightarrow> nat" where
  "logical_bit np pos t = 32 * (pos div 4 div np) + 8 * (pos mod 4) + t"

definition covers :: "nat \<Rightarrow> nat \<Rightarrow> nat \<Rightarrow> nat \<Rightarrow> nat \<Rightarrow> bool" where
  "covers bpe np enr pos t \<longleftrightarrow>
     enr * bpe \<le> logical_bit np pos t \<and> logical_bit np pos t < (enr + 1) * bpe"

section \<open>Words in the buffer\<close>

lemma nth_le_bytes_bit: "\<lbrakk>i < n; j < 8; 8 * n \<le> LENGTH('a)\<rbrakk> \<Longrightarrow> bit (le_bytes n (w :: 'a::len word) ! i) j = bit w (8 * i + j)"
  by (auto simp: nth_le_bytes bit_simps)

lemma le_bytes_or:
  assumes "length bs = 4"
  shows "le_bytes 4 (le_word bs OR m :: u32) = map2 (OR) bs (le_bytes 4 m)"
proof (rule nth_equalityI)
  fix i assume "i < length (le_bytes 4 (le_word bs OR m :: u32))"
  then have i: "i < 4" by simp
  have "le_bytes 4 (le_word bs OR m :: u32) ! i = bs ! i OR le_bytes 4 m ! i"
  proof (rule bit_eqI)
    fix j assume "possible_bit TYPE(8 word) j"
    then have j: "j < 8" by simp
    have "(8 * i + j) div 8 = i" "(8 * i + j) mod 8 = j" "8 * i + j < 32" using i j by simp_all
    then show "bit (le_bytes 4 (le_word bs OR m :: u32) ! i) j = bit (bs ! i OR le_bytes 4 m ! i) j"
      using i j assms by (simp add: nth_le_bytes_bit bit_or_iff bit_le_word)
  qed
  with i assms show "le_bytes 4 (le_word bs OR m :: u32) ! i = map2 (OR) bs (le_bytes 4 m) ! i"
    by simp
qed (simp add: assms)

lemma le_bytes_swab32: "le_bytes 4 (swab32 m) = rev (le_bytes 4 m)"
proof -
  have "le_bytes 4 (swab32 m) = be_bytes 4 m"
    by (rule le_bytes_swap) (simp_all add: bit_swab_byte)
  then show ?thesis by (simp add: be_bytes_def)
qed

lemma store_or_le:
  assumes "length bs = 4"
  shows "store h 4 (load h bs OR cpu_to_le32 h m) = map2 (OR) bs (le_bytes 4 m)"
proof (cases h)
  case BigEndian
  have "rev (map2 (OR) (rev bs) (rev (le_bytes 4 m))) = map2 (OR) bs (le_bytes 4 m)"
    using assms by (simp add: zip_rev rev_map)
  with BigEndian assms le_bytes_or [of "rev bs" "swab32 m"] show ?thesis
    by (simp add: le_bytes_swab32)
qed (use assms in \<open>simp add: le_bytes_or\<close>)

lemma put_word32_or:
  assumes "4 * i + 4 \<le> length buf"
  shows "length (put_word32 h buf i (get_word32 h buf i OR cpu_to_le32 h m)) = length buf"
    and "p < length buf \<Longrightarrow> put_word32 h buf i (get_word32 h buf i OR cpu_to_le32 h m) ! p
      = (if 4 * i \<le> p \<and> p < 4 * i + 4 then buf ! p OR le_bytes 4 m ! (p mod 4) else buf ! p)"
proof -
  have len: "length (take 4 (drop (4 * i) buf)) = 4" using assms by simp
  have eq: "put_word32 h buf i (get_word32 h buf i OR cpu_to_le32 h m)
      = take (4 * i) buf @ map2 (OR) (take 4 (drop (4 * i) buf)) (le_bytes 4 m) @ drop (4 * i + 4) buf"
    using store_or_le [OF len, of h m] by (simp add: put_word32_def get_word32_def)
  then show "length (put_word32 h buf i (get_word32 h buf i OR cpu_to_le32 h m)) = length buf"
    using assms by simp
  assume p: "p < length buf"
  show "put_word32 h buf i (get_word32 h buf i OR cpu_to_le32 h m) ! p
      = (if 4 * i \<le> p \<and> p < 4 * i + 4 then buf ! p OR le_bytes 4 m ! (p mod 4) else buf ! p)"
  proof (cases "4 * i \<le> p \<and> p < 4 * i + 4")
    case True
    then obtain q where q: "p = 4 * i + q" "q < 4" by (metis le_iff_add nat_add_left_cancel_less)
    then have "p mod 4 = q" by simp
    with True q assms show ?thesis unfolding eq by (simp add: nth_append)
  next
    case False
    then show ?thesis using p assms unfolding eq by (auto simp: nth_append)
  qed
qed

lemma or_words_effect:
  assumes "4 * (i + l) \<le> length buf"
  shows "length (fst (or_words h (cpu_to_le32 h m) i l (buf, a))) = length buf \<and>
    (\<forall>p<length buf. fst (or_words h (cpu_to_le32 h m) i l (buf, a)) ! p
      = (if 4 * i \<le> p \<and> p < 4 * (i + l) then buf ! p OR le_bytes 4 m ! (p mod 4) else buf ! p))"
  using assms
proof (induction l arbitrary: i buf a)
  case (Suc l)
  let ?buf = "put_word32 h buf i (get_word32 h buf i OR cpu_to_le32 h m)"
  have room: "4 * i + 4 \<le> length buf" using Suc.prems by simp
  note put = put_word32_or [OF room, where h = h and m = m]
  have "4 * (i + 1 + l) \<le> length ?buf" using Suc.prems put(1) by simp
  from Suc.IH [OF this] show ?case
    using put by (auto simp: Let_def simp del: cpu_to_le32.simps)
qed auto

section \<open>The code marks the bits of the specification\<close>

lemma pos_le_iff: "0 < np \<Longrightarrow> a * np * 4 \<le> pos \<longleftrightarrow> a \<le> pos div 4 div (np::nat)"
  by (simp add: less_eq_div_iff_mult_less_eq)

lemma pos_less_iff: "0 < np \<Longrightarrow> pos < a * np * 4 \<longleftrightarrow> pos div 4 div (np::nat) < a"
  using pos_le_iff [of np a pos] by linarith

lemma bit_in_word: "\<lbrakk>t < 8\<rbrakk> \<Longrightarrow> 8 * (pos mod 4) + t < (32::nat)"
  using mod_less_divisor [of 4 pos] by linarith

lemma mult_32_le: "r < 32 \<Longrightarrow> 32 * a \<le> 32 * q + r \<longleftrightarrow> a \<le> (q::nat)"
  by linarith

lemma mult_32_less: "r < 32 \<Longrightarrow> 32 * q + r < 32 * a \<longleftrightarrow> q < (a::nat)"
  by linarith

lemma same_word:
  assumes "r < 32" and "m + b \<le> (32::nat)"
  shows "32 * W + m \<le> 32 * q + r \<and> 32 * q + r < 32 * W + m + b \<longleftrightarrow> W = q \<and> m \<le> r \<and> r < m + b"
proof
  assume a: "32 * W + m \<le> 32 * q + r \<and> 32 * q + r < 32 * W + m + b"
  then have "W = q" using assms by arith
  with a show "W = q \<and> m \<le> r \<and> r < m + b" by simp
qed simp

lemma covers_words:
  assumes "32 dvd bpe" and np: "0 < np" and t: "t < 8"
  shows "covers bpe np (unat x) pos t \<longleftrightarrow> pos_s bpe np x \<le> pos \<and> pos < pos_e bpe np x"
proof -
  obtain c where c: "bpe = 32 * c" using assms(1) by (rule dvdE)
  let ?q = "pos div 4 div np" and ?r = "8 * (pos mod 4) + t"
  have r: "?r < 32" using t by (rule bit_in_word)
  have "logical_bit np pos t = 32 * ?q + ?r" by (simp add: logical_bit_def)
  then have "covers bpe np (unat x) pos t \<longleftrightarrow> 32 * (unat x * c) \<le> 32 * ?q + ?r \<and> 32 * ?q + ?r < 32 * ((unat x + 1) * c)"
    by (simp add: covers_def c algebra_simps)
  also have "\<dots> \<longleftrightarrow> unat x * c \<le> ?q \<and> ?q < (unat x + 1) * c"
    using mult_32_le [OF r] mult_32_less [OF r] by blast
  also have "\<dots> \<longleftrightarrow> unat x * c * np * 4 \<le> pos \<and> pos < (unat x + 1) * c * np * 4"
    using pos_le_iff [OF np] pos_less_iff [OF np] by blast
  moreover have "unat x * bpe div 32 = unat x * c" by (simp add: c)
  moreover have "unat x * bpe + bpe = 32 * ((unat x + 1) * c)" by (simp add: c algebra_simps)
  then have "(unat x * bpe + bpe + 31) div 32 = (unat x + 1) * c" by simp
  ultimately show ?thesis by (simp only: enr_to_bit_range_def Let_def extent_bit_range.simps)
qed

lemma bit_extent_mask:
  assumes "i < 32"
  shows "bit (extent_mask ex) i \<longleftrightarrow>
    bit_s ex mod 32 \<le> i \<and> i < (if bit_e ex mod 32 = 0 then 32 else bit_e ex mod 32)"
proof -
  have m: "bit_e ex mod 32 < 32" by simp
  have "bit (drop_bit ((32 - b) mod 32) (-1 :: u32)) i \<longleftrightarrow> i < (if b = 0 then 32 else b)" if "b < 32" for b
    using assms that by (cases "b = 0") (auto simp: bit_mask_iff bit_drop_bit_eq bit_minus_1_iff)
  note drop = this [OF m]
  have push: "bit (push_bit b (-1 :: u32)) i \<longleftrightarrow> b \<le> i" for b
    using assms by (auto simp: bit_push_bit_iff bit_minus_1_iff bit_not_iff bit_mask_iff)
  show ?thesis by (simp only: extent_mask_def bit_and_iff drop push)
qed

text \<open>An extent of less than 32 bits lies inside one word.\<close>

lemma small_extent:
  assumes dvd: "bpe dvd 32" and bpe: "bpe < 32"
  obtains W m where "n * bpe = 32 * W + m" and "m + bpe \<le> 32" and "m < 32"
    and "\<And>np. on_disk_word32_pos_s (enr_to_bit_range n bpe np) = W * np * 4"
    and "\<And>np. on_disk_word32_pos_e (enr_to_bit_range n bpe np) = (W + 1) * np * 4"
proof -
  obtain d where d: "32 = bpe * d" using dvd by (rule dvdE)
  have d0: "0 < d" "0 < bpe" using d by (auto intro: gr0I)
  define W m where "W = n div d" and "m = bpe * (n mod d)"
  have "n * bpe = bpe * (d * W + n mod d)" by (simp add: W_def)
  then have s: "n * bpe = 32 * W + m" unfolding d m_def by (simp only: distrib_left mult.assoc)
  have "bpe * (n mod d + 1) \<le> bpe * d"
    using d0 by (intro mult_le_mono2) (simp add: Suc_le_eq)
  then have me: "m + bpe \<le> 32" using d by (simp add: m_def algebra_simps)
  have word: "n * bpe div 32 = W" using me d0 by (simp add: s)
  have end': "(n * bpe + bpe + 31) div 32 = W + 1" unfolding s using me d0 by linarith
  show thesis
    by (rule that [OF s me])
      (use me d0 in \<open>simp_all only: enr_to_bit_range_def Let_def extent_bit_range.simps word end'\<close>)
qed

lemma covers_mask:
  assumes dvd: "bpe dvd 32" and bpe: "bpe < 32" and np: "0 < np" and t: "t < 8"
  shows "covers bpe np (unat x) pos t \<longleftrightarrow> pos_s bpe np x \<le> pos \<and> pos < pos_e bpe np x
    \<and> bit (extent_mask (enr_to_bit_range (unat x) bpe np)) (8 * (pos mod 4) + t)"
proof -
  obtain W m where s: "unat x * bpe = 32 * W + m" and me: "m + bpe \<le> 32" and m: "m < 32"
    and p: "pos_s bpe np x = W * np * 4" "pos_e bpe np x = (W + 1) * np * 4"
    by (rule small_extent [OF dvd bpe, of "unat x"]) blast
  have b0: "0 < bpe" using dvd by (auto intro: gr0I)
  let ?q = "pos div 4 div np" and ?r = "8 * (pos mod 4) + t"
  have r: "?r < 32" using t by (rule bit_in_word)
  have "(unat x + 1) * bpe = 32 * W + m + bpe" using s by (simp add: algebra_simps)
  then have cov: "covers bpe np (unat x) pos t \<longleftrightarrow> 32 * W + m \<le> 32 * ?q + ?r \<and> 32 * ?q + ?r < 32 * W + m + bpe"
    by (simp only: covers_def logical_bit_def s add.assoc)
  have mask: "bit (extent_mask (enr_to_bit_range (unat x) bpe np)) ?r \<longleftrightarrow> m \<le> ?r \<and> ?r < m + bpe"
  proof -
    have 1: "bit_s (enr_to_bit_range (unat x) bpe np) mod 32 = m"
      using m by (simp add: enr_to_bit_range_def s Let_def)
    have 2: "bit_e (enr_to_bit_range (unat x) bpe np) mod 32 = (m + bpe) mod 32"
      by (simp add: enr_to_bit_range_def s Let_def add.assoc)
    have 3: "(if (m + bpe) mod 32 = 0 then 32 else (m + bpe) mod 32) = m + bpe"
      using me b0 by (cases "m + bpe = 32") simp_all
    show ?thesis by (simp only: bit_extent_mask [OF r] 1 2 3)
  qed
  have "pos_s bpe np x \<le> pos \<longleftrightarrow> W \<le> ?q" "pos < pos_e bpe np x \<longleftrightarrow> ?q < W + 1"
    using pos_le_iff [OF np, of W pos] pos_less_iff [OF np, of pos "W + 1"] by (simp_all only: p)
  moreover have "32 * W + m \<le> 32 * ?q + ?r \<and> 32 * ?q + ?r < 32 * W + m + bpe
      \<longleftrightarrow> W = ?q \<and> m \<le> ?r \<and> ?r < m + bpe"
    using r me by (rule same_word)
  ultimately show ?thesis unfolding cov mask by auto
qed

definition extent_bits_ok :: "nat \<Rightarrow> bool" where
  "extent_bits_ok bpe \<longleftrightarrow> 0 < bpe \<and> bpe \<le> 1024 \<and> (bpe dvd 32 \<and> bpe < 32 \<or> 32 dvd bpe)"

lemma bit_0xff: "t < 8 \<Longrightarrow> bit (0xff :: u8) t"
proof -
  have "(0xff :: u8) = -1" by simp
  then show "t < 8 \<Longrightarrow> bit (0xff :: u8) t" by (simp only: bit_minus_1_iff) simp
qed

lemma pos_dvd_4: "4 dvd pos_s bpe np x" "4 dvd pos_e bpe np x"
  by (simp_all add: enr_to_bit_range_def Let_def)

text \<open>The buffer \<open>buf'\<close> is \<open>buf\<close> with the bits of \<open>P\<close> set, \<open>P\<close> in positions of the bitmap.\<close>

definition buffer_or :: "bytes \<Rightarrow> nat \<Rightarrow> (nat \<Rightarrow> nat \<Rightarrow> bool) \<Rightarrow> bytes \<Rightarrow> bool" where
  "buffer_or buf bm_pos P buf' \<longleftrightarrow> length buf' = length buf \<and>
    (\<forall>p<length buf. \<forall>t<8. bit (buf' ! p) t \<longleftrightarrow> bit (buf ! p) t \<or> P (bm_pos + p) t)"

lemma fill_buffer_effect:
  assumes "pos + n \<le> length buf" and "\<And>t. t < 8 \<Longrightarrow> bit c t"
  shows "buffer_or buf bm_pos (\<lambda>p t. bm_pos + pos \<le> p \<and> p < bm_pos + pos + n) (fill_buffer buf pos n c)"
  using assms unfolding buffer_or_def fill_buffer_def by (auto simp: nth_append)

lemma mark_extent_effect:
  assumes ok: "extent_bits_ok bpe" and np: "0 < np" and al: "4 dvd bm_pos"
    and run: "mark_extent h bpe np bm_pos x (buf, a) = Inr (buf', a')"
  shows "buffer_or buf bm_pos (covers bpe np (unat x)) buf'"
proof -
  let ?s = "pos_s bpe np x" and ?e = "pos_e bpe np x"
  have pos: "bm_pos \<le> ?s" "?s - bm_pos < length buf" "bm_pos \<le> ?e" "?e - bm_pos \<le> length buf"
    using run by (auto simp: mark_extent_def Let_def)
  have se: "?s \<le> ?e" by (auto simp: enr_to_bit_range_def Let_def intro!: mult_le_mono1 div_le_mono)
  show ?thesis
  proof (cases "bpe \<ge> 32")
    case True
    then have buf': "buf' = fill_buffer buf (?s - bm_pos) (?e - ?s) 0xff"
      using run by (simp add: mark_extent_def Let_def)
    have "32 dvd bpe" using True ok by (auto simp: extent_bits_ok_def)
    then have cov: "t < 8 \<Longrightarrow> covers bpe np (unat x) p t \<longleftrightarrow> ?s \<le> p \<and> p < ?e" for p t
      using covers_words np by blast
    have room: "?s - bm_pos + (?e - ?s) \<le> length buf" using pos se by linarith
    have eqs: "bm_pos + (?s - bm_pos) = ?s" "?s + (?e - ?s) = ?e" using pos se by simp_all
    show ?thesis
      using fill_buffer_effect [OF room bit_0xff, of bm_pos]
      by (auto simp: buffer_or_def buf' cov eqs)
  next
    case False
    define m where "m = extent_mask (enr_to_bit_range (unat x) bpe np)"
    have small: "bpe dvd 32" "bpe < 32" using False ok by (auto simp: extent_bits_ok_def)
    then have e: "?e = ?s + 4 * np"
      by (rule small_extent [of bpe "unat x"]) (simp add: algebra_simps)
    have i4: "4 * ((?s - bm_pos) div 4) = ?s - bm_pos"
      using al pos_dvd_4(1) by (metis dvd_diff_nat dvd_mult_div_cancel)
    have buf': "buf' = fst (or_words h (cpu_to_le32 h m) ((?s - bm_pos) div 4) np (buf, a))"
      using run False by (simp add: mark_extent_def Let_def m_def del: cpu_to_le32.simps)
    have room: "4 * ((?s - bm_pos) div 4 + np) \<le> length buf"
      unfolding add_mult_distrib2 i4 using e pos by linarith
    have range: "?s - bm_pos \<le> p \<and> p < ?s - bm_pos + 4 * np \<longleftrightarrow> ?s \<le> bm_pos + p \<and> bm_pos + p < ?e" for p
      using pos e by linarith
    have md: "(bm_pos + p) mod 4 = p mod 4" for p using al by (auto simp: mod_add_left_eq elim: dvdE)
    have byte: "bit (le_bytes 4 m ! (p mod 4)) t \<longleftrightarrow> bit m (8 * (p mod 4) + t)" if "t < 8" for p t
      by (rule nth_le_bytes_bit) (use that in simp_all)
    show ?thesis
      using or_words_effect [OF room, of h m a] unfolding buf' buffer_or_def
      by (auto simp: add_mult_distrib2 i4 range covers_mask [OF small np] m_def [symmetric] md byte bit_or_iff
          simp del: cpu_to_le32.simps)
  qed
qed

lemma buffer_or_trans:
  assumes "buffer_or b1 bm_pos P b2" and "buffer_or b2 bm_pos Q b3"
  shows "buffer_or b1 bm_pos (\<lambda>p t. P p t \<or> Q p t) b3"
  using assms by (auto simp: buffer_or_def)

lemma mark_extents_effect:
  assumes "extent_bits_ok bpe" and "0 < np" and "4 dvd bm_pos"
    and "mark_extents h bpe np bm_pos xs (buf, a) = Inr (buf', a')"
  shows "buffer_or buf bm_pos (\<lambda>p t. \<exists>x\<in>set xs. covers bpe np (unat x) p t) buf'"
  using assms(4)
proof (induction xs arbitrary: buf a)
  case Nil
  then show ?case by (simp add: buffer_or_def)
next
  case (Cons x xs)
  obtain b1 a1 where 1: "mark_extent h bpe np bm_pos x (buf, a) = Inr (b1, a1)"
      and 2: "mark_extents h bpe np bm_pos xs (b1, a1) = Inr (buf', a')"
    using Cons.prems by (auto simp: bind_res_Inr_iff)
  from buffer_or_trans [OF mark_extent_effect [OF assms(1-3) 1] Cons.IH [OF 2]]
  show ?case by simp
qed

lemma mark_extents_range:
  assumes "extent_bits_ok bpe" and "0 < np" and "4 dvd bm_pos"
    and "mark_extents h bpe np bm_pos xs (buf, a) = Inr (buf', a')" and "x \<in> set xs"
  shows "bm_pos \<le> pos_s bpe np x \<and> pos_e bpe np x \<le> bm_pos + length buf"
  using assms(4,5)
proof (induction xs arbitrary: buf a)
  case (Cons y xs)
  obtain b1 a1 where 1: "mark_extent h bpe np bm_pos y (buf, a) = Inr (b1, a1)"
      and 2: "mark_extents h bpe np bm_pos xs (b1, a1) = Inr (buf', a')"
    using Cons.prems by (auto simp: bind_res_Inr_iff)
  have "length b1 = length buf" using mark_extent_effect [OF assms(1-3) 1] by (simp add: buffer_or_def)
  moreover have "bm_pos \<le> pos_s bpe np y \<and> pos_e bpe np y \<le> bm_pos + length buf"
    using 1 by (auto simp: mark_extent_def Let_def)
  ultimately show ?case using Cons.IH [OF 2] Cons.prems(2) by auto
qed simp

section \<open>The loop marks what the log says\<close>

text \<open>The extents that the loop applies: those before the end mark whose words end before the
  end of the bitmap; the end of an extent is exclusive, so the last extent of a bitmap is not
  among them.\<close>

definition applied_extents :: "nat \<Rightarrow> nat \<Rightarrow> nat \<Rightarrow> u32 list \<Rightarrow> u32 set" where
  "applied_extents bpe np bm_len hot =
    {x \<in> set (takeWhile (\<lambda>x. x \<noteq> -1) hot). pos_e bpe np x < bm_len}"

definition marked :: "nat \<Rightarrow> nat \<Rightarrow> nat \<Rightarrow> u32 list \<Rightarrow> nat \<Rightarrow> nat \<Rightarrow> bool" where
  "marked bpe np bm_len hot p t \<longleftrightarrow> (\<exists>x\<in>applied_extents bpe np bm_len hot. covers bpe np (unat x) p t)"

lemma covered_by_buffer_prefix:
  "covered_by_buffer bpe np bm_len start xs @ drop (length (covered_by_buffer bpe np bm_len start xs)) xs = xs"
  by (induction xs) auto

lemma covered_by_buffer_set:
  "x \<in> set (covered_by_buffer bpe np bm_len start xs) \<Longrightarrow>
    x \<noteq> -1 \<and> pos_e bpe np x < bm_len \<and> pos_e bpe np x < start + buffer_size"
  by (induction xs) (auto split: if_splits)

lemma applied_extents_Cons [simp]:
  "applied_extents bpe np bm_len [] = {}"
  "applied_extents bpe np bm_len (x # xs) =
    (if x = -1 then {} else (if pos_e bpe np x < bm_len then {x} else {}) \<union> applied_extents bpe np bm_len xs)"
  unfolding applied_extents_def by (simp, cases "x = -1") auto

lemma applied_extents_append:
  "\<forall>y\<in>set ys. y \<noteq> -1 \<and> pos_e bpe np y < bm_len \<Longrightarrow>
    applied_extents bpe np bm_len (ys @ zs) = set ys \<union> applied_extents bpe np bm_len zs"
  by (induction ys) auto

lemma aligned_pos_le: "aligned_pos bpe np x \<le> pos_s bpe np x"
  by (simp add: enr_to_bit_range_def Let_def round_down_def)

lemma pos_s_le_e: "pos_s bpe np x \<le> pos_e bpe np x"
  by (auto simp: enr_to_bit_range_def Let_def intro!: mult_le_mono1 div_le_mono)

lemma aligned_pos_dvd: "4096 dvd aligned_pos bpe np x"
  by (simp add: enr_to_bit_range_def Let_def round_down_def)

lemma covers_in_bitmap:
  assumes "extent_bits_ok bpe" and "0 < np" and "t < 8" and "covers bpe np (unat x) p t"
  shows "pos_s bpe np x \<le> p \<and> p < pos_e bpe np x"
proof (cases "32 dvd bpe")
  case True
  then show ?thesis using covers_words [OF True assms(2,3), of x p] assms(4) by simp
next
  case False
  then have "bpe dvd 32" "bpe < 32" using assms(1) by (auto simp: extent_bits_ok_def)
  then show ?thesis using covers_mask [OF _ _ assms(2,3), of bpe x p] assms(4) by simp
qed

text \<open>One read-modify-write cycle: a chunk of the bitmap is read, changed and written back.\<close>

lemma write_back_bits:
  assumes "buffer_or (read_bytes d (off + start) n) start P buf"
    and "\<forall>p t. t < 8 \<and> P p t \<longrightarrow> start \<le> p \<and> p < start + n"
  shows "t < 8 \<Longrightarrow> bit (write_bytes d (off + start) buf (off + p)) t \<longleftrightarrow> bit (d (off + p)) t \<or> P p t"
    and "i < off \<Longrightarrow> write_bytes d (off + start) buf i = d i"
proof -
  have len: "length buf = n" using assms(1) by (simp add: buffer_or_def)
  then show "i < off \<Longrightarrow> write_bytes d (off + start) buf i = d i" by (simp add: write_bytes_def)
  assume t: "t < 8"
  show "bit (write_bytes d (off + start) buf (off + p)) t \<longleftrightarrow> bit (d (off + p)) t \<or> P p t"
  proof (cases "start \<le> p \<and> p < start + n")
    case True
    then obtain q where "p = start + q" "q < n" by (metis le_iff_add nat_add_left_cancel_less)
    then show ?thesis
      using assms(1) t len by (simp add: buffer_or_def write_bytes_def read_bytes_def add.assoc)
  next
    case False
    then have "\<not> P p t" using assms(2) t by blast
    with False show ?thesis using len by (auto simp: write_bytes_def)
  qed
qed

definition bits_added :: "nat \<Rightarrow> (nat \<Rightarrow> nat \<Rightarrow> bool) \<Rightarrow> content \<Rightarrow> content \<Rightarrow> bool" where
  "bits_added off P d d' \<longleftrightarrow> (\<forall>i<off. d' i = d i) \<and>
    (\<forall>p t. t < 8 \<longrightarrow> (bit (d' (off + p)) t \<longleftrightarrow> bit (d (off + p)) t \<or> P p t))"

lemma bits_added_trans:
  "\<lbrakk>bits_added off P d1 d2; bits_added off Q d2 d3\<rbrakk> \<Longrightarrow> bits_added off (\<lambda>p t. P p t \<or> Q p t) d1 d3"
  by (auto simp: bits_added_def)

lemma pread_Inr:
  assumes "pread_or_die n off w = (Inr buf, w')"
  shows "buf = read_bytes (disk w) (unat off) n" "w' = w" "\<not> kernel_error w n off"
    "unat off + n \<le> dev_size w \<or> n = 0"
  using assms by (auto simp: pread_or_die_def split: if_splits)

lemma apply_al_cycle_marks:
  assumes ok: "extent_bits_ok bpe" and np: "0 < np" and nd: "\<not> dry_run opts" and al: "4 dvd start"
    and range: "unat (cfg_bm_offset cfg) + start < 2 ^ 64"
    and run: "apply_al_cycle h opts cfg bpe np start grp a w = (Inr a', w')"
  shows "bits_added (unat (cfg_bm_offset cfg)) (\<lambda>p t. \<exists>y\<in>set grp. covers bpe np (unat y) p t) (disk w) (disk w')"
proof -
  define chunk where "chunk = align_up (pos_e bpe np (last grp)) 4096 - start"
  define off where "off = cfg_bm_offset cfg + of_nat start"
  let ?o = "unat (cfg_bm_offset cfg)" and ?P = "\<lambda>p t. \<exists>y\<in>set grp. covers bpe np (unat y) p t"
  from run have "bind_io (pread_or_die chunk off) (\<lambda>buf.
      bind_io (lift_res (mark_extents h bpe np start grp (buf, a))) (\<lambda>(buf, a).
      bind_io (pwrite_or_die opts cfg buf off) (\<lambda>_. ret a))) w = (Inr a', w')"
    unfolding apply_al_cycle_def Let_def chunk_def off_def by (simp add: stop_io_def split: if_splits)
  then obtain buf buf' where rd: "pread_or_die chunk off w = (Inr buf, w)"
      and mark: "mark_extents h bpe np start grp (buf, a) = Inr (buf', a')"
      and wr: "pwrite_or_die opts cfg buf' off w = (Inr (), w')"
    by (elim bind_io_InrE) (use pread_Inr(2) in \<open>fastforce simp: bind_io_simps elim!: bind_io_InrE\<close>)
  have off: "unat off = ?o + start"
    using range by (simp add: off_def unat_word_add unat_of_nat_u64)
  have buf: "buf = read_bytes (disk w) (?o + start) chunk" using pread_Inr(1) [OF rd] off by simp
  have 1: "buffer_or buf start ?P buf'" by (rule mark_extents_effect [OF ok np al mark])
  have 2: "\<forall>p t. t < 8 \<and> ?P p t \<longrightarrow> start \<le> p \<and> p < start + chunk"
  proof (intro allI impI)
    fix p t assume t: "t < 8 \<and> ?P p t"
    then obtain y where y: "y \<in> set grp" "covers bpe np (unat y) p t" by blast
    show "start \<le> p \<and> p < start + chunk"
      using mark_extents_range [OF ok np al mark y(1)] covers_in_bitmap [OF ok np _ y(2)] t
      by (simp add: buf)
  qed
  have "disk w' = write_bytes (disk w) (?o + start) buf'" using pwrite_Inr(1) [OF wr nd] off by simp
  then show ?thesis
    using write_back_bits [OF 1 [unfolded buf] 2] by (simp add: bits_added_def)
qed

lemma start_in_bitmap: "pos_e bpe np x < bm_len \<Longrightarrow> aligned_pos bpe np x < bm_len"
  using aligned_pos_le [of x bpe np] pos_s_le_e [of x bpe np] by linarith

lemma aligned_pos_dvd_4: "4 dvd aligned_pos bpe np x"
  using aligned_pos_dvd [of x bpe np] by (rule dvd_trans [rotated]) simp

lemma applied_extents_group:
  assumes "x \<noteq> -1" and "pos_e bpe np x < bm_len"
  shows "applied_extents bpe np bm_len (x # xs) = set (x # covered_by_buffer bpe np bm_len start xs)
    \<union> applied_extents bpe np bm_len (drop (length (covered_by_buffer bpe np bm_len start xs)) xs)"
proof -
  let ?cov = "covered_by_buffer bpe np bm_len start xs"
  have "\<forall>y\<in>set (x # ?cov). y \<noteq> -1 \<and> pos_e bpe np y < bm_len"
    using assms covered_by_buffer_set [of _ bpe np bm_len start xs] by auto
  from applied_extents_append [OF this, of "drop (length ?cov) xs"] show ?thesis
    by (simp add: covered_by_buffer_prefix)
qed

lemma apply_al_loop_marks:
  assumes ok: "extent_bits_ok bpe" and np: "0 < np" and nd: "\<not> dry_run opts"
    and range: "unat (cfg_bm_offset cfg) + bm_len < 2 ^ 64"
    and "apply_al_loop h opts cfg bpe np bm_len hot a w = (Inr a', w')"
  shows "bits_added (unat (cfg_bm_offset cfg)) (marked bpe np bm_len hot) (disk w) (disk w')"
  using assms(5)
proof (induction hot arbitrary: a w rule: length_induct)
  case (1 hot)
  show ?case
  proof (cases hot)
    case Nil
    then show ?thesis using "1.prems" by (simp add: ret_def bits_added_def marked_def)
  next
    case (Cons x xs)
    consider (at_end) "x = -1" | (beyond) "x \<noteq> -1" "pos_e bpe np x \<ge> bm_len" | (inside) "x \<noteq> -1" "pos_e bpe np x < bm_len"
      by linarith
    then show ?thesis
    proof cases
      case at_end
      then show ?thesis using "1.prems" by (simp add: Cons apply_al_loop.simps ret_def bits_added_def marked_def)
    next
      case beyond
      then have "apply_al_loop h opts cfg bpe np bm_len xs a w = (Inr a', w')"
        using "1.prems" by (simp add: Cons apply_al_loop.simps)
      with "1.IH" Cons have "bits_added (unat (cfg_bm_offset cfg)) (marked bpe np bm_len xs) (disk w) (disk w')"
        by simp
      then show ?thesis using beyond by (simp add: Cons marked_def [abs_def])
    next
      case inside
      let ?start = "aligned_pos bpe np x" and ?o = "unat (cfg_bm_offset cfg)"
      let ?cov = "covered_by_buffer bpe np bm_len ?start xs"
      let ?rest = "drop (length ?cov) xs" and ?P = "\<lambda>p t. \<exists>y\<in>set (x # ?cov). covers bpe np (unat y) p t"
      obtain a1 w1 where cyc: "apply_al_cycle h opts cfg bpe np ?start (x # ?cov) a w = (Inr a1, w1)"
          and rec: "apply_al_loop h opts cfg bpe np bm_len ?rest a1 w1 = (Inr a', w')"
        using "1.prems" inside by (auto simp: Cons apply_al_loop.simps Let_def elim: bind_io_InrE)
      have "?o + ?start < 2 ^ 64" using start_in_bitmap [OF inside(2)] range by linarith
      then have "bits_added ?o ?P (disk w) (disk w1)"
        by (rule apply_al_cycle_marks [OF ok np nd aligned_pos_dvd_4 _ cyc])
      moreover have "bits_added ?o (marked bpe np bm_len ?rest) (disk w1) (disk w')"
        using "1.IH" rec by (simp add: Cons)
      ultimately have "bits_added ?o (\<lambda>p t. ?P p t \<or> marked bpe np bm_len ?rest p t) (disk w) (disk w')"
        by (rule bits_added_trans)
      then show ?thesis
        by (simp only: marked_def [abs_def] bex_Un Cons applied_extents_group [OF inside, of xs ?start])
    qed
  qed
qed

section \<open>The loop ends without a failed assertion\<close>

lemma pos_mono:
  assumes "x \<le> y"
  shows "pos_s bpe np x \<le> pos_s bpe np y" and "pos_e bpe np x \<le> pos_e bpe np y"
proof -
  have "unat x \<le> unat y" using assms by (simp add: word_le_nat_alt)
  then show "pos_s bpe np x \<le> pos_s bpe np y" and "pos_e bpe np x \<le> pos_e bpe np y"
    by (simp_all add: enr_to_bit_range_def Let_def div_le_mono)
qed

lemma pos_s_less_e:
  assumes "0 < bpe" and "0 < np"
  shows "pos_s bpe np x < pos_e bpe np x"
proof -
  have "n div 32 < (n + bpe + 31) div 32" for n
    using assms(1) div_le_mono [of "n + 32" "n + bpe + 31" 32] by simp
  then show ?thesis using assms(2) by (simp add: enr_to_bit_range_def Let_def)
qed

lemma extent_in_buffer:
  assumes "bpe \<le> 1024" and "0 < np" and "np \<le> 32"
  shows "pos_e bpe np x < aligned_pos bpe np x + buffer_size"
proof -
  have "aligned_pos bpe np x = round_down (pos_s bpe np x) (4096 * np)"
    by (simp only: enr_to_bit_range_def Let_def extent_bit_range.simps)
  then have "pos_s bpe np x = aligned_pos bpe np x + pos_s bpe np x mod (4096 * np)"
    by (simp only: round_down_def div_mult_mod_eq)
  moreover have "pos_s bpe np x mod (4096 * np) < 4096 * np" using assms(2) by simp
  moreover have "(n + bpe + 31) div 32 \<le> n div 32 + 33" for n
    using assms(1) div_le_mono [of "n + bpe + 31" "n + 1056" 32] by simp
  then have "pos_e bpe np x \<le> (unat x * bpe div 32 + 33) * np * 4"
    by (simp add: enr_to_bit_range_def Let_def)
  then have "pos_e bpe np x \<le> pos_s bpe np x + 132 * np"
    by (simp add: enr_to_bit_range_def Let_def algebra_simps)
  ultimately show ?thesis using assms(3) unfolding buffer_size_def by linarith
qed

lemma mark_extents_ok:
  assumes ok: "extent_bits_ok bpe" and np: "0 < np" and al: "4 dvd bm_pos"
    and "\<forall>y\<in>set ys. bm_pos \<le> pos_s bpe np y \<and> pos_e bpe np y \<le> bm_pos + length buf"
  shows "\<exists>buf' a'. mark_extents h bpe np bm_pos ys (buf, a) = Inr (buf', a') \<and> length buf' = length buf"
  using assms(4)
proof (induction ys arbitrary: buf a)
  case (Cons y ys)
  have b0: "0 < bpe" using ok by (simp add: extent_bits_ok_def)
  have y: "bm_pos \<le> pos_s bpe np y" "pos_e bpe np y \<le> bm_pos + length buf" using Cons.prems by auto
  have "pos_s bpe np y < pos_e bpe np y" by (rule pos_s_less_e [OF b0 np])
  with y have "pos_s bpe np y - bm_pos < length buf" "bm_pos \<le> pos_e bpe np y"
      "pos_e bpe np y - bm_pos \<le> length buf" by linarith+
  with y have "\<exists>r. mark_extent h bpe np bm_pos y (buf, a) = Inr r"
    by (simp add: mark_extent_def Let_def del: cpu_to_le32.simps)
  then obtain b1 a1 where 1: "mark_extent h bpe np bm_pos y (buf, a) = Inr (b1, a1)" by auto
  have "length b1 = length buf" using mark_extent_effect [OF ok np al 1] by (simp add: buffer_or_def)
  with Cons.IH [of b1 a1] Cons.prems 1 show ?case by auto
qed simp

text \<open>The bitmap area can be read and written, and the range check allows it.\<close>

definition bitmap_accessible :: "format_cfg \<Rightarrow> nat \<Rightarrow> world \<Rightarrow> bool" where
  "bitmap_accessible cfg len w \<longleftrightarrow> unat (cfg_bm_offset cfg) + len \<le> dev_size w
    \<and> (\<forall>n pos. \<not> io_fails w n pos) \<and> unat (cfg_bm_offset cfg) + len < 2 ^ 63
    \<and> unat (md_min_offset cfg) \<le> unat (cfg_bm_offset cfg)
    \<and> unat (cfg_bm_offset cfg) + len \<le> unat (md_max_offset cfg)"

lemma validate_in_area:
  assumes "unat (md_min_offset cfg) \<le> unat off" and "unat off + n \<le> unat (md_max_offset cfg)" and "unat off + n < 2 ^ 63"
  shows "validate_offsets_or_die opts cfg n off = Inr ()"
proof -
  have "sint off = int (unat off)" "sint (md_min_offset cfg) = int (unat (md_min_offset cfg))"
    using assms by (simp_all add: sint_unat_u64)
  moreover have "unat (off + of_nat n) = unat off + n"
    using assms(3) by (simp add: unat_word_add unat_of_nat_u64)
  ultimately have "\<not> sint off < sint (md_min_offset cfg)" "\<not> off + of_nat n > md_max_offset cfg"
    using assms by (simp_all only: word_less_nat_alt of_nat_less_iff not_less)
  then show ?thesis by (simp add: validate_offsets_or_die_def)
qed

lemma bitmap_io_ok:
  assumes acc: "bitmap_accessible cfg len w" and "start + length buf \<le> len" and nd: "\<not> dry_run opts"
  shows "pread_or_die (length buf) (cfg_bm_offset cfg + of_nat start) w
      = (Inr (read_bytes (disk w) (unat (cfg_bm_offset cfg) + start) (length buf)), w)"
    and "pwrite_or_die opts cfg buf (cfg_bm_offset cfg + of_nat start) w
      = (Inr (), w\<lparr>n_writes := n_writes w + 1, disk := write_bytes (disk w) (unat (cfg_bm_offset cfg) + start) buf\<rparr>)"
proof -
  let ?off = "cfg_bm_offset cfg + of_nat start"
  have off: "unat ?off = unat (cfg_bm_offset cfg) + start"
    using assms by (simp add: bitmap_accessible_def unat_word_add unat_of_nat_u64)
  have k: "\<not> kernel_error w (length buf) ?off" and d: "unat ?off + length buf \<le> dev_size w"
    using assms off by (auto simp: bitmap_accessible_def kernel_error_def not_bit_63)
  from k d off show "pread_or_die (length buf) ?off w
      = (Inr (read_bytes (disk w) (unat (cfg_bm_offset cfg) + start) (length buf)), w)"
    by (simp add: pread_or_die_def)
  have "validate_offsets_or_die opts cfg (length buf) ?off = Inr ()"
    by (rule validate_in_area) (use assms off in \<open>auto simp: bitmap_accessible_def\<close>)
  then show "pwrite_or_die opts cfg buf ?off w
      = (Inr (), w\<lparr>n_writes := n_writes w + 1, disk := write_bytes (disk w) (unat (cfg_bm_offset cfg) + start) buf\<rparr>)"
    using pwrite_ok [OF _ nd k d] off by simp
qed

lemma sorted_last: "\<lbrakk>sorted (xs :: u32 list); x \<in> set xs\<rbrakk> \<Longrightarrow> x \<le> last xs"
  by (induction xs rule: rev_induct) (auto simp: sorted_append)

lemma apply_al_cycle_ok:
  assumes ok: "extent_bits_ok bpe" and np: "0 < np" and nd: "\<not> dry_run opts"
    and acc: "bitmap_accessible cfg (align_up bm_len 4096) w"
    and grp: "sorted (x # grp)" "\<forall>y\<in>set (x # grp). pos_e bpe np y < bm_len"
      "\<forall>y\<in>set (x # grp). pos_e bpe np y < aligned_pos bpe np x + buffer_size"
  shows "\<exists>a' d. apply_al_cycle h opts cfg bpe np (aligned_pos bpe np x) (x # grp) a w
    = (Inr a', w\<lparr>n_writes := n_writes w + 1, disk := d\<rparr>)"
proof -
  let ?start = "aligned_pos bpe np x" and ?e = "pos_e bpe np (last (x # grp))"
  let ?chunk = "align_up ?e 4096 - ?start"
  have last: "last (x # grp) \<in> set (x # grp)" by (rule last_in_set) simp
  have e: "?start \<le> ?e" "?e < bm_len" "?e < ?start + buffer_size"
    using grp(2,3) last aligned_pos_le [of x bpe np] pos_s_le_e [of x bpe np]
      pos_mono(2) [OF sorted_last [OF grp(1), of x], of bpe np] by (auto intro: order_trans)
  have end': "?e \<le> align_up ?e 4096" by (rule align_up_ge) simp
  have "align_up ?e 4096 \<le> align_up (?start + buffer_size) 4096" using e by (intro align_up_mono) simp
  moreover have "align_up (?start + buffer_size) 4096 = ?start + buffer_size"
    by (rule align_up_dvd_id) (simp_all add: aligned_pos_dvd buffer_size_def)
  ultimately have chunk: "\<not> align_up ?e 4096 < ?start" "\<not> ?chunk > buffer_size" using e end' by linarith+
  define buf where "buf = read_bytes (disk w) (unat (cfg_bm_offset cfg) + ?start) ?chunk"
  have "align_up ?e 4096 \<le> align_up bm_len 4096" using e by (intro align_up_mono) simp
  then have room: "?start + ?chunk \<le> align_up bm_len 4096" using chunk(1) by linarith
  have rd: "pread_or_die ?chunk (cfg_bm_offset cfg + of_nat ?start) w = (Inr buf, w)"
    using bitmap_io_ok(1) [OF acc _ nd, of ?start buf] room by (simp add: buf_def)
  have "?start \<le> pos_s bpe np y \<and> pos_e bpe np y \<le> ?start + length buf" if "y \<in> set (x # grp)" for y
  proof -
    have "x \<le> y" using grp(1) that by auto
    moreover have "y \<le> last (x # grp)" using grp(1) that by (rule sorted_last)
    ultimately show ?thesis
      using pos_mono [of x y bpe np] pos_mono(2) [of y "last (x # grp)" bpe np] aligned_pos_le [of x bpe np] e end'
      by (simp add: buf_def)
  qed
  then obtain buf' a' where mark: "mark_extents h bpe np ?start (x # grp) (buf, a) = Inr (buf', a')"
      and len: "length buf' = length buf"
    using mark_extents_ok [OF ok np aligned_pos_dvd_4, where ys = "x # grp" and buf = buf and h = h and a = a] by blast
  have wr: "pwrite_or_die opts cfg buf' (cfg_bm_offset cfg + of_nat ?start) w = (Inr (),
      w\<lparr>n_writes := n_writes w + 1, disk := write_bytes (disk w) (unat (cfg_bm_offset cfg) + ?start) buf'\<rparr>)"
    by (rule bitmap_io_ok(2) [OF acc _ nd]) (use room len in \<open>simp add: buf_def\<close>)
  have "apply_al_cycle h opts cfg bpe np ?start (x # grp) a w = (Inr a',
      w\<lparr>n_writes := n_writes w + 1, disk := write_bytes (disk w) (unat (cfg_bm_offset cfg) + ?start) buf'\<rparr>)"
    unfolding apply_al_cycle_def Let_def using chunk
    by (simp only: if_False disj_not1 HOL.simp_thms bind_io_def rd mark wr lift_res_def ret_def prod.case sum.case)
  then show ?thesis by blast
qed

lemma apply_al_loop_ok:
  assumes ok: "extent_bits_ok bpe" and np: "0 < np" "np \<le> 32" and nd: "\<not> dry_run opts"
    and "bitmap_accessible cfg (align_up bm_len 4096) w" and "sorted (takeWhile (\<lambda>x. x \<noteq> -1) hot)"
  shows "\<exists>a' w'. apply_al_loop h opts cfg bpe np bm_len hot a w = (Inr a', w')"
  using assms(5,6)
proof (induction hot arbitrary: a w rule: length_induct)
  case (1 hot)
  show ?case
  proof (cases hot)
    case Nil
    then show ?thesis by (simp add: ret_def)
  next
    case (Cons x xs)
    consider (at_end) "x = -1" | (beyond) "x \<noteq> -1" "pos_e bpe np x \<ge> bm_len" | (inside) "x \<noteq> -1" "pos_e bpe np x < bm_len"
      by linarith
    then show ?thesis
    proof cases
      case inside
      let ?start = "aligned_pos bpe np x"
      let ?cov = "covered_by_buffer bpe np bm_len ?start xs"
      let ?rest = "drop (length ?cov) xs"
      have cov: "\<forall>y\<in>set ?cov. y \<noteq> -1 \<and> pos_e bpe np y < bm_len \<and> pos_e bpe np y < ?start + buffer_size"
        using covered_by_buffer_set by blast
      have "takeWhile (\<lambda>x. x \<noteq> -1) hot = (x # ?cov) @ takeWhile (\<lambda>x. x \<noteq> -1) ?rest"
        using inside cov covered_by_buffer_prefix [of bpe np bm_len ?start xs]
          takeWhile_append2 [of ?cov "\<lambda>x. x \<noteq> -1" ?rest] by (simp add: Cons)
      then have srt: "sorted (x # ?cov)" "sorted (takeWhile (\<lambda>x. x \<noteq> -1) ?rest)"
        using "1.prems"(2) by (simp_all only: sorted_append)
      have "bpe \<le> 1024" using ok by (simp add: extent_bits_ok_def)
      then have "pos_e bpe np x < ?start + buffer_size" using np by (rule extent_in_buffer)
      then obtain a1 d where cyc: "apply_al_cycle h opts cfg bpe np ?start (x # ?cov) a w
          = (Inr a1, w\<lparr>n_writes := n_writes w + 1, disk := d\<rparr>)"
        using apply_al_cycle_ok [OF ok np(1) nd "1.prems"(1) srt(1), of h a] inside cov by auto
      have "bitmap_accessible cfg (align_up bm_len 4096) (w\<lparr>n_writes := n_writes w + 1, disk := d\<rparr>)"
        using "1.prems"(1) by (simp add: bitmap_accessible_def)
      with "1.IH" srt(2) have "\<exists>a' w'. apply_al_loop h opts cfg bpe np bm_len ?rest a1
          (w\<lparr>n_writes := n_writes w + 1, disk := d\<rparr>) = (Inr a', w')" by (simp add: Cons)
      then show ?thesis using inside by (simp add: Cons apply_al_loop.simps Let_def bind_io_def cyc)
    qed (use "1.IH" "1.prems" in \<open>simp_all add: Cons apply_al_loop.simps ret_def\<close>)
  qed
qed

section \<open>Properties\<close>

lemma ilog2_power: "ilog2 (2 ^ k) = k"
  by (induction k) (simp_all add: ilog2.simps)

lemma extent_bits_ok_power: "\<lbrakk>2 \<le> k; k \<le> 10\<rbrakk> \<Longrightarrow> extent_bits_ok (2 ^ k)"
proof -
  assume "2 \<le> k" "k \<le> 10"
  then have "k \<in> {2, 3, 4, 5, 6, 7, 8, 9, 10}" by (auto simp: numeral_eq_Suc)
  then show ?thesis by (auto simp: extent_bits_ok_def)
qed

definition bits_per_extent :: "format_cfg \<Rightarrow> nat" where
  "bits_per_extent cfg = 2 ^ (22 - ilog2 (unat (bm_bytes_per_bit (cfg_md cfg))))"

text \<open>A bitmap granularity of 4 KiB to 1 MiB, the range the source supports, and 1 to 32 slots.\<close>

definition al_bitmap_ok :: "format_cfg \<Rightarrow> bool" where
  "al_bitmap_ok cfg \<longleftrightarrow> (\<exists>k\<in>{12..20}. unat (bm_bytes_per_bit (cfg_md cfg)) = 2 ^ k) \<and>
     1 \<le> unat (max_peers (cfg_md cfg)) \<and> unat (max_peers (cfg_md cfg)) \<le> 32"

lemma bits_per_extent_ok:
  assumes "al_bitmap_ok cfg"
  shows "\<exists>j\<in>{2..10}. bits_per_extent cfg = 2 ^ j"
proof -
  obtain k where "k \<in> {12..20}" "unat (bm_bytes_per_bit (cfg_md cfg)) = 2 ^ k"
    using assms by (auto simp: al_bitmap_ok_def)
  then show ?thesis
    by (intro bexI [of _ "22 - k"]) (auto simp: bits_per_extent_def ilog2_power)
qed

lemma apply_al_eq_loop:
  assumes "al_bitmap_ok cfg" and "array_sizes_ok H"
  shows "apply_al H h opts cfg hot =
    apply_al_loop h opts cfg (bits_per_extent cfg) (unat (max_peers (cfg_md cfg))) (bitmap_area cfg) hot 0"
proof -
  obtain j where j: "j \<in> {2..10}" "bits_per_extent cfg = 2 ^ j" using bits_per_extent_ok [OF assms(1)] by blast
  have "(2::nat) ^ 2 \<le> 2 ^ j" "(2::nat) ^ j \<le> 2 ^ 10"
    using j(1) power_increasing [of 2 j "2::nat"] power_increasing [of j 10 "2::nat"] by simp_all
  moreover from this have "unat (of_nat (2 ^ j) :: u64) = 2 ^ j" by (intro unat_of_nat_u64) simp
  then have "is_power_of_2 (of_nat (2 ^ j))" unfolding is_power_of_2_iff by blast
  ultimately show ?thesis
    using assms j(2) unfolding apply_al_def Let_def AL_EXTENT_SHIFT_def bits_per_extent_def [symmetric]
    by (simp add: bitmap_area_def al_bitmap_ok_def array_sizes_ok_def)
qed

lemma bits_ok:
  assumes "al_bitmap_ok cfg"
  shows "extent_bits_ok (bits_per_extent cfg)" "0 < unat (max_peers (cfg_md cfg))" "unat (max_peers (cfg_md cfg)) \<le> 32"
  using assms bits_per_extent_ok [OF assms] extent_bits_ok_power by (fastforce simp: al_bitmap_ok_def)+

lemma apply_al_returns:
  assumes "al_bitmap_ok cfg" and "array_sizes_ok H" and "\<not> dry_run opts"
    and "bitmap_accessible cfg (align_up (bitmap_area cfg) 4096) w"
    and "sorted (takeWhile (\<lambda>x. x \<noteq> -1) hot)"
  obtains n w' where "apply_al H h opts cfg hot w = (Inr n, w')"
  using apply_al_loop_ok [OF bits_ok [OF assms(1)] assms(3-5), of h 0] apply_al_eq_loop [OF assms(1,2)] by metis

text \<open>
  C9. On a readable and writable device \<^verbatim>\<open>apply_al\<close> ends without a failed assertion for
  every sorted list of hot extents, and afterwards exactly those bits of the on-disk bitmap are
  set that were set before or belong, in any slot of the interleaved layout, to a hot
  extent in front of the end mark whose words end before the end of the bitmap. An extent that
  ends exactly there is skipped like one beyond the end, although it is inside. No other byte of the device changes. This holds for granularities of 4 KiB to 1 MiB, that is
  for the path that fills whole words and for the one that masks parts of words, and on
  hosts of both byte orders.
\<close>

theorem apply_al_marks:
  assumes "al_bitmap_ok cfg" and "array_sizes_ok H" and "\<not> dry_run opts"
    and "bitmap_accessible cfg (align_up (bitmap_area cfg) 4096) w"
    and "sorted (takeWhile (\<lambda>x. x \<noteq> -1) hot)"
  shows "\<exists>n w'. apply_al H h opts cfg hot w = (Inr n, w')
    \<and> bits_added (unat (cfg_bm_offset cfg))
        (marked (bits_per_extent cfg) (unat (max_peers (cfg_md cfg))) (bitmap_area cfg) hot) (disk w) (disk w')"
proof -
  have range: "unat (cfg_bm_offset cfg) + bitmap_area cfg < 2 ^ 64"
    using assms(4) align_up_ge [of 4096 "bitmap_area cfg"] by (simp add: bitmap_accessible_def)
  obtain n w' where run: "apply_al H h opts cfg hot w = (Inr n, w')" by (rule apply_al_returns [OF assms])
  with apply_al_loop_marks [OF bits_ok(1,2) [OF assms(1)] assms(3) range, of h hot 0 w n w'] show ?thesis
    using apply_al_eq_loop [OF assms(1,2)] by simp
qed

lemma example_al_ok:
  "al_bitmap_ok example_ext_cfg" "bits_per_extent example_ext_cfg = 1024" "bitmap_area example_ext_cfg = 4096"
  "bitmap_accessible example_ext_cfg (align_up (bitmap_area example_ext_cfg) 4096) example_world"
proof -
  have "ilog2 4096 = 12" using ilog2_power [of 12] by simp
  then show "bits_per_extent example_ext_cfg = 1024"
    by (simp add: bits_per_extent_def example_ext_cfg_def example_cfg_def)
  show "al_bitmap_ok example_ext_cfg"
    by (auto simp: al_bitmap_ok_def example_ext_cfg_def example_cfg_def intro!: bexI [of _ 12])
  show area: "bitmap_area example_ext_cfg = 4096"
    by (simp add: bitmap_area_def ALIGN_def example_ext_cfg_def example_cfg_def)
  show "bitmap_accessible example_ext_cfg (align_up (bitmap_area example_ext_cfg) 4096) example_world"
    unfolding area by (simp add: bitmap_accessible_def align_up_def)
      (simp add: example_ext_cfg_def example_cfg_def example_world_def)
qed

theorem apply_al_marks_witness:
  "\<exists>n w'. apply_al example_headers LittleEndian example_options example_ext_cfg [3, 5, -1] example_world = (Inr n, w')
    \<and> bit (disk w' (36864 + 3 * 128)) 4 \<and> \<not> bit (disk w' (36864 + 4 * 128)) 4"
proof -
  obtain n w' where run: "apply_al example_headers LittleEndian example_options example_ext_cfg [3, 5, -1] example_world = (Inr n, w')"
    and bits: "bits_added (unat (cfg_bm_offset example_ext_cfg)) (marked (bits_per_extent example_ext_cfg)
      (unat (max_peers (cfg_md example_ext_cfg))) (bitmap_area example_ext_cfg) [3, 5, -1]) (disk example_world) (disk w')"
    using apply_al_marks [OF example_al_ok(1) example_headers_ok(1) _ example_al_ok(4), of example_options "[3, 5, -1]" LittleEndian]
    by (auto simp: example_options_def)
  have c: "cfg_bm_offset example_ext_cfg = 36864" "max_peers (cfg_md example_ext_cfg) = 1"
    by (simp_all add: example_ext_cfg_def example_cfg_def)
  have "bit (disk w' (36864 + p)) t \<longleftrightarrow> bit (7 :: u8) t \<or> marked 1024 1 4096 [3, 5, -1] p t" if "t < 8" for p t
    using bits that unfolding bits_added_def example_al_ok(2,3) c by (simp add: example_world_def)
  from this [of 4 "3 * 128"] this [of 4 "4 * 128"]
  have "bit (disk w' (36864 + 3 * 128)) 4" "\<not> bit (disk w' (36864 + 4 * 128)) 4"
    by (simp_all add: marked_def enr_to_bit_range_def Let_def covers_def logical_bit_def bit_iff_odd)
  with run show ?thesis by blast
qed

text \<open>
  C37. The end of an extent is exclusive, but the loop compares it with \<^verbatim>\<open>>=\<close>: a hot extent
  whose bits end exactly at the end of the bitmap is taken for one beyond it. It is skipped
  and the device is left as it is, although all of its bits lie inside the bitmap.
\<close>

theorem apply_al_skips_last_extent:
  assumes "al_bitmap_ok cfg" and "array_sizes_ok H" and "x \<noteq> -1"
    and "pos_e (bits_per_extent cfg) (unat (max_peers (cfg_md cfg))) x = bitmap_area cfg"
  shows "apply_al H h opts cfg (x # replicate n (-1)) w = (Inr 0, w)
    \<and> (\<forall>p t. t < 8 \<and> covers (bits_per_extent cfg) (unat (max_peers (cfg_md cfg))) (unat x) p t
          \<longrightarrow> p < bitmap_area cfg)"
proof -
  let ?bpe = "bits_per_extent cfg" and ?np = "unat (max_peers (cfg_md cfg))"
  have "apply_al_loop h opts cfg ?bpe ?np (bitmap_area cfg) (replicate n (-1)) 0 w = (Inr 0, w)"
    by (cases n) (simp_all add: apply_al_loop.simps ret_def)
  then have "apply_al H h opts cfg (x # replicate n (-1)) w = (Inr 0, w)"
    using assms by (simp add: apply_al_eq_loop apply_al_loop.simps)
  then show ?thesis using covers_in_bitmap [OF bits_ok(1,2) [OF assms(1)], of _ x] assms(4) by auto
qed

theorem apply_al_skips_last_extent_witness:
  "apply_al example_headers LittleEndian example_options example_ext_cfg [31, -1] example_world = (Inr 0, example_world)"
proof -
  have "pos_e (bits_per_extent example_ext_cfg) (unat (max_peers (cfg_md example_ext_cfg))) 31
      = bitmap_area example_ext_cfg"
    unfolding example_al_ok(2,3) by (simp add: enr_to_bit_range_def Let_def example_ext_cfg_def example_cfg_def)
  from apply_al_skips_last_extent [OF example_al_ok(1) example_headers_ok(1) _ this, of LittleEndian example_options 1]
  show ?thesis by simp
qed

lemma mark_extents_uncounted:
  "\<lbrakk>32 \<le> bpe; mark_extents h bpe np bm_pos xs (buf, a) = Inr (buf', a')\<rbrakk> \<Longrightarrow> a' = a"
  by (induction xs arbitrary: buf a) (auto simp: bind_res_Inr_iff mark_extent_def Let_def)

lemma apply_al_cycle_uncounted:
  "\<lbrakk>32 \<le> bpe; apply_al_cycle h opts cfg bpe np start grp a w = (Inr a', w')\<rbrakk> \<Longrightarrow> a' = a"
  unfolding apply_al_cycle_def
  by (auto simp: Let_def bind_io_simps elim!: bind_io_InrE dest: mark_extents_uncounted split: if_splits)

lemma apply_al_loop_uncounted:
  "\<lbrakk>32 \<le> bpe; apply_al_loop h opts cfg bpe np bm_len hot a w = (Inr a', w')\<rbrakk> \<Longrightarrow> a' = a"
proof (induction hot arbitrary: a w rule: length_induct)
  case (1 hot)
  show ?case
  proof (cases hot)
    case Nil
    then show ?thesis using "1.prems" by (simp add: ret_def)
  next
    case (Cons x xs)
    show ?thesis
    proof (cases "x = -1 \<or> pos_e bpe np x \<ge> bm_len")
      case True
      then show ?thesis using "1.prems" "1.IH" by (auto simp: Cons apply_al_loop.simps ret_def split: if_splits)
    next
      case False
      then obtain a1 w1 k where cyc: "apply_al_cycle h opts cfg bpe np (aligned_pos bpe np x)
            (x # covered_by_buffer bpe np bm_len (aligned_pos bpe np x) xs) a w = (Inr a1, w1)"
          and rec: "apply_al_loop h opts cfg bpe np bm_len (drop k xs) a1 w1 = (Inr a', w')"
        using "1.prems"(2) by (auto simp: Cons apply_al_loop.simps Let_def elim: bind_io_InrE)
      have "length (drop k xs) < length hot" by (simp add: Cons)
      with rec "1.IH" "1.prems"(1) have "a' = a1" by blast
      with apply_al_cycle_uncounted [OF "1.prems"(1) cyc] show ?thesis by simp
    qed
  qed
qed

text \<open>
  The number of additionally marked bits is only counted where parts of words are masked:
  with a granularity of up to 128 KiB, the default included, the result is 0 whatever was
  marked, and the message about it says so.
\<close>

theorem apply_al_reports_zero:
  assumes "32 \<le> bits_per_extent cfg" and "apply_al H h opts cfg hot w = (Inr n, w')"
  shows "n = 0"
proof -
  have "apply_al_loop h opts cfg (bits_per_extent cfg) (unat (max_peers (cfg_md cfg)))
      (unat (ALIGN (cfg_bm_bytes cfg) (md_hard_sect_size cfg))) hot 0 w = (Inr n, w')"
    using assms(2) unfolding apply_al_def Let_def AL_EXTENT_SHIFT_def bits_per_extent_def [symmetric]
    by (simp add: stop_io_def split: if_splits)
  with assms(1) show ?thesis by (rule apply_al_loop_uncounted)
qed

theorem apply_al_reports_zero_witness:
  "\<exists>w'. apply_al example_headers BigEndian example_options example_ext_cfg [3, -1] example_world = (Inr 0, w')"
proof -
  have nd: "\<not> dry_run example_options" by (simp add: example_options_def)
  obtain n w' where run: "apply_al example_headers BigEndian example_options example_ext_cfg [3, -1] example_world = (Inr n, w')"
    by (rule apply_al_returns [OF example_al_ok(1) example_headers_ok(1) nd example_al_ok(4), of "[3, -1]" BigEndian])
      simp_all
  with apply_al_reports_zero [OF _ run] show ?thesis by (simp add: example_al_ok)
qed

end
