(* ===== verification/Md_Commands.thy ===== *)
theory Md_Commands
  imports Md_Move Apply_Al
begin

text \<open>
  The commands of \<^verbatim>\<open>drbdmeta\<close> that work on existing meta data: \<^verbatim>\<open>get-gi\<close>,
  \<^verbatim>\<open>dstate\<close>, \<^verbatim>\<open>set-gi\<close>, \<^verbatim>\<open>outdate\<close>, \<^verbatim>\<open>invalidate\<close>, \<^verbatim>\<open>read-dev-uuid\<close>,
  \<^verbatim>\<open>write-dev-uuid\<close>, \<^verbatim>\<open>forget-peer\<close>, \<^verbatim>\<open>repair-md\<close> and \<^verbatim>\<open>apply-al\<close>, with
  the helpers for their arguments. The abstract state is the meta data the next invocation
  finds on the device; a command that returns 0 changed it by its function on \<open>md_cpu\<close> and
  by nothing else.
\<close>

unbundle bit_operations_syntax

section \<open>The remaining columns of the table\<close>

definition say :: "string \<Rightarrow> unit io" where
  "say s w = (Inr (), w\<lparr>stdout := stdout w @ s\<rparr>)"

definition i_node_id :: "invocation \<Rightarrow> nat" where
  "i_node_id cx = nat (option_node_id (i_options cx))"

definition get_gi :: "invocation \<Rightarrow> md_format \<Rightarrow> md_cpu \<Rightarrow> string res" where
  "get_gi cx f md = (case f of
     DRBD_V06 \<Rightarrow> Inr (m_get_gc (i_headers cx) md (i_node_id cx))
   | DRBD_V07 \<Rightarrow> Inr (m_get_gc (i_headers cx) md (i_node_id cx))
   | DRBD_V08 \<Rightarrow> Inr (m_get_uuid (i_headers cx) md (i_node_id cx))
   | DRBD_V09 \<Rightarrow> Inr (m_get_v9_uuid (i_headers cx) md (i_node_id cx))
   | DRBD_UNKNOWN \<Rightarrow> Inl OutOfBounds)"

definition set_gi :: "invocation \<Rightarrow> md_format \<Rightarrow> string \<Rightarrow> md_cpu \<Rightarrow> md_cpu res" where
  "set_gi cx f arg md = (case f of
     DRBD_V06 \<Rightarrow> m_set_gc (i_headers cx) (i_node_id cx) arg md
   | DRBD_V07 \<Rightarrow> m_set_gc (i_headers cx) (i_node_id cx) arg md
   | DRBD_V08 \<Rightarrow> m_set_uuid (i_headers cx) (i_node_id cx) arg md
   | DRBD_V09 \<Rightarrow> m_set_v9_uuid (i_headers cx) (i_node_id cx) arg md
   | DRBD_UNKNOWN \<Rightarrow> Inl OutOfBounds)"

definition outdate_gi :: "invocation \<Rightarrow> md_format \<Rightarrow> md_cpu \<Rightarrow> (int \<times> md_cpu) res" where
  "outdate_gi cx f md = (case f of
     DRBD_V06 \<Rightarrow> Inr (m_outdate_gc md) | DRBD_V07 \<Rightarrow> Inr (m_outdate_gc md)
   | DRBD_V08 \<Rightarrow> Inr (m_outdate_uuid (i_headers cx) md) | DRBD_V09 \<Rightarrow> Inr (m_outdate_uuid (i_headers cx) md)
   | DRBD_UNKNOWN \<Rightarrow> Inl OutOfBounds)"

definition invalidate_gi :: "invocation \<Rightarrow> md_format \<Rightarrow> md_cpu \<Rightarrow> (int \<times> md_cpu) res" where
  "invalidate_gi cx f md = (case f of
     DRBD_V06 \<Rightarrow> Inr (m_invalidate_gc (i_headers cx) md)
   | DRBD_V07 \<Rightarrow> Inr (m_invalidate_gc (i_headers cx) md)
   | DRBD_V08 \<Rightarrow> Inr (m_invalidate_uuid (i_headers cx) md)
   | DRBD_V09 \<Rightarrow> Inr (m_invalidate_v9_uuid (i_headers cx) md)
   | DRBD_UNKNOWN \<Rightarrow> Inl OutOfBounds)"

section \<open>Commands\<close>

text \<open>
  \<open>with_md\<close> is how every command begins: open, and return -1 unless valid meta data was
  found in its place. \<open>write_and_close\<close> is how those that modify the meta data end.
\<close>

definition with_md :: "invocation \<Rightarrow> format_cfg \<Rightarrow> (format_cfg \<Rightarrow> int io) \<Rightarrow> int io" where
  "with_md cx cfg k = bind_io (md_open cx cfg) (\<lambda>(rc, cfg).
     if rc \<noteq> VALID_MD_FOUND then ret (-1) else k cfg)"

definition write_and_close :: "invocation \<Rightarrow> format_cfg \<Rightarrow> int io" where
  "write_and_close cx cfg = bind_io (md_cpu_to_disk cx cfg) (\<lambda>(err, cfg).
     bind_io (md_close cx cfg) (\<lambda>c. ret (if c \<noteq> 0 \<or> err \<noteq> 0 then 1 else 0)))"

definition set_md :: "format_cfg \<Rightarrow> md_cpu \<Rightarrow> format_cfg" where
  "set_md cfg md = cfg\<lparr>cfg_md := md\<rparr>"

definition meta_get_gi :: "invocation \<Rightarrow> format_cfg \<Rightarrow> int io" where
  "meta_get_gi cx cfg = with_md cx cfg (\<lambda>cfg.
     bind_io (lift_res (get_gi cx (ops cfg) (cfg_md cfg))) (\<lambda>s.
       bind_io (say s) (\<lambda>_. md_close cx cfg)))"

definition dstate_name :: "headers \<Rightarrow> u32 \<Rightarrow> string" where
  "dstate_name H fl =
    (if fl AND MDF_CONSISTENT H \<noteq> 0 then
       (if fl AND MDF_WAS_UP_TO_DATE H \<noteq> 0 then
          (if fl AND MDF_PEER_OUT_DATED \<noteq> 0 then ''UpToDate'' else ''Consistent'')
        else ''Outdated'')
     else ''Inconsistent'')"

definition meta_dstate :: "invocation \<Rightarrow> format_cfg \<Rightarrow> int io" where
  "meta_dstate cx cfg = with_md cx cfg (\<lambda>cfg.
     bind_io (say (dstate_name (i_headers cx) (flags (cfg_md cfg)) @ [CHR 0x0A])) (\<lambda>_. md_close cx cfg))"

definition meta_set_gi :: "invocation \<Rightarrow> format_cfg \<Rightarrow> string list \<Rightarrow> int io" where
  "meta_set_gi cx cfg argv = (case argv of
     [] \<Rightarrow> stop_io (Exit 10)
   | arg # _ \<Rightarrow> with_md cx cfg (\<lambda>cfg.
       bind_io (lift_res (set_gi cx (ops cfg) arg (cfg_md cfg))) (\<lambda>tmp.
       bind_io (lift_res (get_gi cx (ops cfg) (cfg_md cfg))) (\<lambda>old.
       bind_io (lift_res (get_gi cx (ops cfg) tmp)) (\<lambda>new.
       bind_io (say (''previously '' @ old @ ''set GI to  '' @ new)) (\<lambda>_.
       bind_io (confirmed (i_options cx)) (\<lambda>ok.
         if \<not> ok then stop_io (Exit 0)
         else write_and_close cx (set_md cfg tmp))))))))"

definition meta_outdate :: "invocation \<Rightarrow> format_cfg \<Rightarrow> int io" where
  "meta_outdate cx cfg = with_md cx cfg (\<lambda>cfg.
     bind_io (lift_res (outdate_gi cx (ops cfg) (cfg_md cfg))) (\<lambda>(err, md).
       if err \<noteq> 0 then stop_io (Exit 5) else write_and_close cx (set_md cfg md)))"

definition meta_invalidate :: "invocation \<Rightarrow> format_cfg \<Rightarrow> int io" where
  "meta_invalidate cx cfg = with_md cx cfg (\<lambda>cfg.
     bind_io (lift_res (invalidate_gi cx (ops cfg) (cfg_md cfg))) (\<lambda>(_, md).
       write_and_close cx (set_md cfg md)))"

definition meta_read_dev_uuid :: "invocation \<Rightarrow> format_cfg \<Rightarrow> int io" where
  "meta_read_dev_uuid cx cfg = with_md cx cfg (\<lambda>cfg.
     bind_io (say (show_hex 16 (unat (device_uuid (cfg_md cfg))) @ [CHR 0x0A])) (\<lambda>_. md_close cx cfg))"

definition meta_write_dev_uuid :: "invocation \<Rightarrow> format_cfg \<Rightarrow> string list \<Rightarrow> int io" where
  "meta_write_dev_uuid cx cfg argv = (case argv of
     [] \<Rightarrow> stop_io (Exit 10)
   | arg # _ \<Rightarrow> with_md cx cfg (\<lambda>cfg.
       write_and_close cx (set_md cfg ((cfg_md cfg)\<lparr>device_uuid := fst (strtoul 16 arg)\<rparr>))))"

section \<open>Unused peer slots\<close>

definition is_day0_peer :: "md_cpu \<Rightarrow> nat \<Rightarrow> bool" where
  "is_day0_peer md p =
    (if int p = sint (node_id md) then False
     else bitmap_index (peers md ! p) = -1 \<and> peer_flags (peers md ! p) = 0)"

text \<open>\<open>None\<close> is the result -1.\<close>

definition day0_peer_id :: "headers \<Rightarrow> md_cpu \<Rightarrow> nat option" where
  "day0_peer_id H md = find (is_day0_peer md) (rev [0..<DRBD_NODE_ID_MAX H])"

definition forget_peer :: "headers \<Rightarrow> nat \<Rightarrow> md_cpu \<Rightarrow> md_cpu" where
  "forget_peer H n md =
    (let day0_p = day0_peer_id H md;
         p = (peers md ! n)\<lparr>bitmap_index := -1, peer_flags := 0\<rparr>;
         md = md\<lparr>peers := (peers md)[n := p]\<rparr>
     in case day0_p of
          Some d \<Rightarrow> md\<lparr>peers := (peers md)[n := p\<lparr>bitmap_uuid := bitmap_uuid (peers md ! d),
            bitmap_dagtag := bitmap_dagtag (peers md ! d)\<rparr>]\<rparr>
        | None \<Rightarrow> md\<lparr>peers := (peers md)[n := p\<lparr>bitmap_uuid := 0, bitmap_dagtag := 0\<rparr>]\<rparr>)"

text \<open>The result of writing the super block is not looked at.\<close>

definition meta_forget_peer :: "invocation \<Rightarrow> format_cfg \<Rightarrow> int io" where
  "meta_forget_peer cx cfg = with_md cx cfg (\<lambda>cfg.
     bind_io (md_cpu_to_disk cx (set_md cfg (forget_peer (i_headers cx) (i_node_id cx) (cfg_md cfg))))
       (\<lambda>(_, cfg). bind_io (md_close cx cfg) (\<lambda>c. ret (if c \<noteq> 0 then 1 else 0))))"

definition repair_peer :: "u64 \<Rightarrow> nat \<Rightarrow> md_cpu \<times> bool \<Rightarrow> md_cpu \<times> bool" where
  "repair_peer day0_uuid p st = (case st of (md, dirty) \<Rightarrow>
     if is_day0_peer md p \<and> bitmap_uuid (peers md ! p) \<noteq> day0_uuid
     then (md\<lparr>peers := (peers md)[p := (peers md ! p)\<lparr>bitmap_uuid := day0_uuid\<rparr>]\<rparr>, True)
     else (md, dirty))"

definition repair_md :: "headers \<Rightarrow> nat \<Rightarrow> md_cpu \<Rightarrow> md_cpu \<times> bool" where
  "repair_md H day0_p md =
    fold (repair_peer (bitmap_uuid (peers md ! day0_p))) [0..<DRBD_NODE_ID_MAX H] (md, False)"

definition meta_repair_md :: "invocation \<Rightarrow> format_cfg \<Rightarrow> int io" where
  "meta_repair_md cx cfg =
    bind_io (bind_io (md_open cx cfg) (\<lambda>(rc, cfg).
      if rc = VALID_MD_FOUND_AT_LAST_KNOWN_LOCATION then
        bind_io (v08_move_internal_md_after_resize cx cfg) (\<lambda>(r, cfg). if r = 0 then md_open cx cfg else ret (rc, cfg))
      else ret (rc, cfg))) (\<lambda>(rc, cfg).
    if rc \<noteq> VALID_MD_FOUND then ret (-1)
    else case day0_peer_id (i_headers cx) (cfg_md cfg) of
      None \<Rightarrow> ret 0
    | Some day0_p \<Rightarrow>
        let (md, dirty) = repair_md (i_headers cx) day0_p (cfg_md cfg); cfg = set_md cfg md in
        bind_io (if \<not> dry_run (i_options cx) \<and> dirty then md_cpu_to_disk cx cfg else ret (0, cfg))
          (\<lambda>(_, cfg). bind_io (md_close cx cfg) (\<lambda>err.
            ret (if err \<noteq> 0 then err else if dry_run (i_options cx) \<and> dirty then -1 else 0))))"

section \<open>Applying the activity log\<close>

definition need_to_apply_al :: "headers \<Rightarrow> format_cfg \<Rightarrow> bool" where
  "need_to_apply_al H cfg = (case ops cfg of
     DRBD_V06 \<Rightarrow> False
   | DRBD_V07 \<Rightarrow> gc (cfg_md cfg) ! Flags AND MDF_PRIMARY_IND H \<noteq> 0
   | DRBD_V08 \<Rightarrow> flags (cfg_md cfg) AND MDF_PRIMARY_IND H \<noteq> 0
   | DRBD_V09 \<Rightarrow> flags (cfg_md cfg) AND MDF_PRIMARY_IND H \<noteq> 0
   | DRBD_UNKNOWN \<Rightarrow> False)"

text \<open>
  Which replay function fits the log: the result of the replay, the hot extents, and whether
  the log must be initialised in any case.
\<close>

definition replay_al :: "headers \<Rightarrow> host \<Rightarrow> format_cfg \<Rightarrow> bytes \<Rightarrow> u32 list \<Rightarrow> (int \<times> u32 list \<times> bool) res" where
  "replay_al H h cfg buf hot =
    (let md = cfg_md cfg; al_4k_disk = al_4k_blocks H h buf (length buf div 4096);
         add = (\<lambda>reinit r. bind_res r (\<lambda>(err, hot). Inr (err, hot, reinit)))
     in if ops cfg = DRBD_V07 then add False (replay_al_07 H h md buf hot)
        else if DRBD_MD_MAGIC_84_UNCLEAN H = magic md \<or> DRBD_MD_MAGIC_09 H = magic md
          \<or> DRBD_AL_MAGIC H = be32_to_cpu h (da_magic (al_4k_disk ! 0))
          \<or> DRBD_AL_MAGIC H = be32_to_cpu h (da_magic (al_4k_disk ! 1))
          \<or> al_stripes md \<noteq> 1 \<or> al_stripe_size_4k md \<noteq> 8
        then add False (if DRBD_AL_PMEM_MAGIC H = be32_to_cpu h (al_on_pmem_magic H h buf)
                  then replay_al_pmem H h md buf hot else replay_al_84 H h md al_4k_disk hot)
        else add True (replay_al_07 H h md buf hot))"

text \<open>
  The end of \<^verbatim>\<open>meta_apply_al\<close>: \<open>need_update\<close> says that extents were applied. The flag
  \<^verbatim>\<open>MDF_PRIMARY_IND\<close> is not touched.
\<close>

definition update_al_flags :: "invocation \<Rightarrow> format_cfg \<Rightarrow> bool \<Rightarrow> int io" where
  "update_al_flags cx cfg need_update =
    (let H = i_headers cx; md = cfg_md cfg;
         need_update = (need_update \<or> format_version (ops cfg) \<ge> format_version DRBD_V08 \<and>
           (flags md AND MDF_AL_CLEAN H = 0 \<or> magic md \<noteq> DRBD_MD_MAGIC_08 H))
     in if \<not> need_update then ret 0
        else
          let md = (if format_version (ops cfg) \<ge> format_version DRBD_V08
                    then md\<lparr>flags := flags md OR MDF_AL_CLEAN H\<rparr> else md);
              md = (if ops cfg = DRBD_V08 then md\<lparr>magic := DRBD_MD_MAGIC_08 H\<rparr> else md)
          in write_and_close cx (set_md cfg md))"

definition meta_apply_al :: "invocation \<Rightarrow> format_cfg \<Rightarrow> int io" where
  "meta_apply_al cx cfg =
    (let H = i_headers cx; h = i_host cx; opts = i_options cx in
     if format_version (ops cfg) < format_version DRBD_V07 then ret (-1)
     else with_md cx cfg (\<lambda>cfg.
       let al_size = unat (al_stripes (cfg_md cfg) * al_stripe_size_4k (cfg_md cfg) * 4096) in
       bind_io (pread_or_die (if al_size < buffer_size then al_size else buffer_size) (cfg_al_offset cfg)) (\<lambda>buf.
       bind_io (lift_res (replay_al H h cfg buf (replicate AL_EXTENTS_MAX (-1)))) (\<lambda>(err, hot_extent, reinit).
       if err < 0 \<and> need_to_apply_al H cfg then ret (if err = - ENODATA then 1 else 2)
       else
         let reinit = (reinit \<or> err < 0 \<and> (ops cfg = DRBD_V08 \<or> ops cfg = DRBD_V09));
             need = (err > 0 \<and> need_to_apply_al H cfg)
         in bind_io (if need then bind_io (apply_al H h opts cfg (sort hot_extent)) (\<lambda>_. ret ()) else ret ()) (\<lambda>_.
            bind_io (if reinit \<or> err > 0 \<and> ops cfg \<noteq> DRBD_V07 then initialize_al H h opts cfg else ret ()) (\<lambda>_.
              update_al_flags cx cfg need))))))"


section \<open>Commands as functions on the stored meta data\<close>

text \<open>The abstract state: what opening finds.\<close>

definition stored_md :: "invocation \<Rightarrow> format_cfg \<Rightarrow> world \<Rightarrow> md_cpu option" where
  "stored_md cx cfg w = (case md_open cx cfg w of
     (Inr (rc, c), _) \<Rightarrow> if rc = VALID_MD_FOUND then Some (cfg_md c) else None
   | (Inl _, _) \<Rightarrow> None)"

text \<open>What a command relies on: the headers, a format with its own super block, a free device.\<close>

definition md_available :: "invocation \<Rightarrow> format_cfg \<Rightarrow> world \<Rightarrow> bool" where
  "md_available cx cfg w \<longleftrightarrow> array_sizes_ok (i_headers cx) \<and> layout_9_ok (i_headers cx)
     \<and> flex_format (ops cfg) \<and> opens cfg w"

text \<open>
  A command implements the function \<open>f\<close>: valid meta data was found, afterwards the meta data
  that is found is its image under \<open>f\<close>, and the bytes outside the super block are the same.
\<close>

definition implements :: "invocation \<Rightarrow> format_cfg \<Rightarrow> (md_cpu \<Rightarrow> md_cpu) \<Rightarrow> world \<Rightarrow> world \<Rightarrow> bool" where
  "implements cx cfg f w w' \<longleftrightarrow> (\<exists>c. md_open cx cfg w = (Inr (VALID_MD_FOUND, c), w)
     \<and> stored_md cx cfg w' = Some (f (cfg_md c))
     \<and> (\<forall>i. i < unat (md_offset c) \<or> unat (md_offset c) + 4096 \<le> i \<longrightarrow> disk w' i = disk w i))"

lemma md_open_found:
  assumes "md_available cx cfg w" and "md_open cx cfg w = (Inr (VALID_MD_FOUND, c), w')"
  shows "w' = w" and "ops c = ops cfg" and "md_rep (i_headers cx) (ops cfg) (cfg_md c)"
    and "stored_md cx cfg w = Some (cfg_md c)"
proof -
  let ?H = "i_headers cx"
  have a: "flex_format (ops cfg)" "opens cfg w" "array_sizes_ok ?H" "layout_9_ok ?H"
    using assms(1) by (simp_all add: md_available_def)
  have v: "v07_style_md_open cx cfg w = (Inr (VALID_MD_FOUND, c), w')"
    using assms(2) md_open_found_iff [OF a(1)] by blast
  then obtain c1 buf where c1: "v07_style_md_open_device cx cfg w = (Inr c1, w)" and w': "w' = w"
    and ld: "loads cx (at_offset ?H c1) buf c"
    using v07_open_found_iff [OF a(1,2)] by blast
  show "w' = w" by fact
  have k: "ops c1 = ops cfg" using open_device_keeps [OF a(2) c1] by simp
  have l: "load_cfg ?H (at_offset ?H c1) (md_read ?H (ops cfg) (i_host cx) buf) = Inr c"
    using ld k by (simp add: loads_def Let_def at_offset_def)
  then show "ops c = ops cfg" using load_cfg_keeps [OF l] k by (simp add: at_offset_def)
  have "md_rep ?H (ops cfg) (md_read ?H (ops cfg) (i_host cx) buf)"
    using super_block.rep_read a by blast
  then show "md_rep ?H (ops cfg) (cfg_md c)"
    using load_cfg_keeps [OF l] by (auto simp: md_rep_def rep_08_def rep_09_def wf_md_def)
  show "stored_md cx cfg w = Some (cfg_md c)" by (simp add: stored_md_def assms(2))
qed

lemma with_md_InrE:
  assumes "with_md cx cfg k w = (Inr r, w')"
  obtains c w1 where "md_open cx cfg w = (Inr (VALID_MD_FOUND, c), w1)" and "k c w1 = (Inr r, w')"
    | "r = -1"
  using assms by (auto simp: with_md_def ret_def elim!: bind_io_InrE split: if_splits)

lemma md_close_keeps:
  assumes "md_close cx cfg w = (r, w')"
  shows "disk w' = disk w" and "same_device w w'"
  using assms
  by (auto simp: md_close_def v08_md_close_def generic_md_close_def bind_io_def get_env_def ret_def stop_io_def
      lk_bdev_delete_def lk_bdev_save_def Let_def same_device_def split: md_format.splits if_splits)

lemma write_and_close_0:
  assumes "write_and_close cx cfg w = (Inr 0, w')"
  obtains c w1 where "md_cpu_to_disk cx cfg w = (Inr (0, c), w1)" and "disk w' = disk w1" and "same_device w1 w'"
  using assms
  by (auto simp: write_and_close_def ret_def elim!: bind_io_InrE split: if_splits)
    (blast intro: md_close_keeps)

lemma md_cpu_to_disk_only:
  assumes "flex_format (ops cfg)" and "\<not> dry_run (i_options cx)" "array_sizes_ok (i_headers cx)" "layout_9_ok (i_headers cx)"
    and "md_rep (i_headers cx) (ops cfg) (cfg_md cfg)"
    and "md_cpu_to_disk cx cfg w = (Inr (0, c), w1)"
  shows "\<exists>bs. disk w1 = write_bytes (disk w) (unat (md_offset cfg)) bs \<and> length bs = 4096"
proof -
  let ?img = "md_image (i_headers cx) (ops cfg) (i_host cx) (cfg_md cfg)"
  have "pwrite_or_die (i_options cx) cfg ?img (md_offset cfg) w = (Inr (), w1)"
    using assms(1,6)
    by (auto simp: md_cpu_to_disk_eq bind_io_def lift_res_def ret_def split: sum.splits prod.splits if_splits)
  from pwrite_Inr(1) [OF this assms(2)] show ?thesis
    using super_block.length_image assms(3-5) by blast
qed


lemma md_open_same_block:
  assumes "md_available cx cfg w" and "md_open cx cfg w = (Inr (VALID_MD_FOUND, c), w)" and "same_device w w1"
    and "read_bytes (disk w1) (unat (md_offset c)) 4096 = read_bytes (disk w) (unat (md_offset c)) 4096"
  shows "md_open cx cfg w1 = (Inr (VALID_MD_FOUND, c), w1)"
proof -
  let ?H = "i_headers cx"
  have a: "flex_format (ops cfg)" "opens cfg w" "opens cfg w1"
    using assms(1,3) by (simp_all add: md_available_def opens_def same_device_def)
  obtain c1 buf where c1: "v07_style_md_open_device cx cfg w = (Inr c1, w)" "large_enough (at_offset ?H c1)"
    and rd: "pread_or_die 4096 (md_offset (at_offset ?H c1)) w = (Inr buf, w)" and ld: "loads cx (at_offset ?H c1) buf c"
    using assms(2) md_open_found_iff [OF a(1)] v07_open_found_iff [OF a(1,2)] by blast
  have off: "md_offset (at_offset ?H c1) = md_offset c"
    using ld load_cfg_keeps [of ?H "at_offset ?H c1" _ c] by (auto simp: loads_def Let_def)
  have "pread_or_die 4096 (md_offset (at_offset ?H c1)) w1 = (Inr buf, w1)"
    using rd assms(3,4) by (auto simp: off pread_or_die_def kernel_error_def same_device_def split: if_splits)
  moreover have "v07_style_md_open_device cx cfg w1 = (Inr c1, w1)"
    using c1(1) open_device_env [OF a(2) assms(3), of cx] by auto
  ultimately show ?thesis
    using c1(2) ld unfolding md_open_found_iff [OF a(1)] v07_open_found_iff [OF a(1,3)] by blast
qed

lemma md_open_same:
  assumes "md_available cx cfg w" and "md_open cx cfg w = (Inr (VALID_MD_FOUND, c), w)"
    and "disk w1 = disk w" and "same_device w w1"
  shows "md_open cx cfg w1 = (Inr (VALID_MD_FOUND, c), w1)"
  using md_open_same_block [OF assms(1,2,4)] assms(3) by simp

text \<open>
  A function on the meta data that a command may apply in place: it keeps the layout, and what
  the format can represent (for \<open>guard\<close>ed cases) it keeps representable. Then writing its
  result through the opened configuration implements it.
\<close>

locale in_place_update =
  fixes cx :: invocation and fmt :: md_format and guard :: bool and f :: "md_cpu \<Rightarrow> md_cpu"
  assumes keeps_layout: "same_layout md (f md)"
    and keeps_rep: "\<lbrakk>array_sizes_ok (i_headers cx); guard; md_rep (i_headers cx) fmt md\<rbrakk>
      \<Longrightarrow> md_rep (i_headers cx) fmt (f md)"
begin

lemma write_stored:
  assumes av: "md_available cx cfg w" and fmt: "ops cfg = fmt" and guard and nd: "\<not> dry_run (i_options cx)"
    and found: "md_open cx cfg w = (Inr (VALID_MD_FOUND, c), w)"
    and wr: "md_cpu_to_disk cx (set_md c (f (cfg_md c))) w = (Inr (0, c'), w2)"
    and w': "disk w' = disk w2" "same_device w2 w'"
  shows "stored_md cx cfg w' = Some (f (cfg_md c))"
    and "\<exists>bs. disk w2 = write_bytes (disk w) (unat (md_offset c)) bs \<and> length bs = 4096"
proof -
  let ?H = "i_headers cx"
  have a: "array_sizes_ok ?H" "layout_9_ok ?H" "flex_format (ops cfg)" "opens cfg w"
    using av by (simp_all add: md_available_def)
  have k: "ops c = ops cfg" "md_rep ?H (ops cfg) (cfg_md c)" using md_open_found [OF av found] by simp_all
  have rep: "md_rep ?H (ops cfg) (f (cfg_md c))" using keeps_rep [OF a(1) \<open>guard\<close>] k fmt by simp
  obtain c2 where "md_open cx cfg w' = (Inr (VALID_MD_FOUND, c2), w')" "cfg_md c2 = f (cfg_md c)"
    using written_md_found [OF a nd found keeps_layout rep _ w'] wr by (auto simp: set_md_def)
  then show "stored_md cx cfg w' = Some (f (cfg_md c))" by (simp add: stored_md_def)
  show "\<exists>bs. disk w2 = write_bytes (disk w) (unat (md_offset c)) bs \<and> length bs = 4096"
    using md_cpu_to_disk_only [OF _ nd a(1,2) _ wr] a(3) k rep by (auto simp: set_md_def)
qed

lemma write_implements:
  assumes av: "md_available cx cfg w" and fmt: "ops cfg = fmt" and guard and nd: "\<not> dry_run (i_options cx)"
    and found: "md_open cx cfg w = (Inr (VALID_MD_FOUND, c), w)"
    and w1: "disk w1 = disk w" "same_device w w1"
    and wr: "md_cpu_to_disk cx (set_md c (f (cfg_md c))) w1 = (Inr (0, c'), w2)"
    and w': "disk w' = disk w2" "same_device w2 w'"
  shows "implements cx cfg f w w'"
proof -
  have av1: "md_available cx cfg w1" using av w1(2) by (simp add: md_available_def opens_def same_device_def)
  note st = write_stored [OF av1 fmt \<open>guard\<close> nd md_open_same [OF av found w1] wr w']
  show ?thesis using st found w1 w' by (auto simp: implements_def write_bytes_outside)
qed

lemma write_and_close_implements:
  assumes "md_available cx cfg w" and "ops cfg = fmt" and guard and "\<not> dry_run (i_options cx)"
    and "md_open cx cfg w = (Inr (VALID_MD_FOUND, c), w)"
    and "disk w1 = disk w" "same_device w w1"
    and "write_and_close cx (set_md c (f (cfg_md c))) w1 = (Inr 0, w')"
  shows "implements cx cfg f w w'"
  using write_implements [OF assms(1-7)] assms(8) by (blast elim: write_and_close_0)

end

lemma same_layout_refl [simp]: "same_layout md md"
  by (simp add: same_layout_def)

lemmas md_rep_defs = md_rep_def rep_08_def rep_09_def wf_md_def

interpretation outdate: in_place_update cx fmt True "\<lambda>md. snd (m_outdate_uuid (i_headers cx) md)" for cx fmt
  by unfold_locales (auto simp: m_outdate_uuid_def same_layout_def md_rep_defs)

interpretation invalidate_08: in_place_update cx DRBD_V08 True "\<lambda>md. snd (m_invalidate_uuid (i_headers cx) md)" for cx
  by unfold_locales (auto simp: m_invalidate_uuid_def same_layout_def md_rep_defs)

interpretation invalidate_09: in_place_update cx DRBD_V09 True "\<lambda>md. snd (m_invalidate_v9_uuid (i_headers cx) md)" for cx
  by unfold_locales (auto simp: m_invalidate_v9_uuid_def same_layout_def md_rep_defs)

interpretation dev_uuid: in_place_update cx fmt True "\<lambda>md. md\<lparr>device_uuid := u\<rparr>" for cx fmt u
  by unfold_locales (auto simp: same_layout_def md_rep_defs)

interpretation forget: in_place_update cx DRBD_V09 True "forget_peer (i_headers cx) n" for cx n
  by unfold_locales (auto simp: forget_peer_def Let_def same_layout_def md_rep_defs split: option.split)


section \<open>Generation identifiers are set in place\<close>

fun field_keeps :: "(md_cpu \<Rightarrow> bool) \<Rightarrow> field \<Rightarrow> bool" where
  "field_keeps P (U32 rd wr) \<longleftrightarrow> (\<forall>v md. P md \<longrightarrow> P (wr v md))"
| "field_keeps P (U64 rd wr) \<longleftrightarrow> (\<forall>v md. P md \<longrightarrow> P (wr v md))"
| "field_keeps P (Bit rd wr m) \<longleftrightarrow> (\<forall>v md. P md \<longrightarrow> P (wr v md))"

lemma set_field_keeps: "\<lbrakk>field_keeps P f; P md; set_field f s md = Inr (rv, s', md')\<rbrakk> \<Longrightarrow> P md'"
  by (cases f) (auto simp: bind_res_Inr_iff)

lemma set_fields_keeps:
  "\<lbrakk>\<forall>f\<in>set fs. field_keeps P f; P md; set_fields fs s md = Inr md'\<rbrakk> \<Longrightarrow> P md'"
proof (induction fs arbitrary: s md)
  case (Cons f fs)
  then show ?case by (force simp: bind_res_Inr_iff split: if_splits dest: set_field_keeps)
qed simp

lemma uuid_members_keep_layout: "\<forall>f\<in>set (uuid_members H n). field_keeps (same_layout md0) f"
  by (auto simp: uuid_members_def same_layout_def)

lemma uuid_members_keep_09: "\<forall>f\<in>set (uuid_members H n). field_keeps (rep_09 H) f"
  by (auto simp: uuid_members_def rep_09_def wf_md_def)

lemma uuid_members_keep_08:
  assumes "array_sizes_ok H"
  shows "\<forall>f\<in>set (uuid_members H 0). field_keeps (rep_08 H) f"
  using array_sizes_simps [OF assms] by (auto simp: uuid_members_def rep_08_def)

lemmas gi_field_defs = flag_bit_def peer_bit_def

lemma set_gi_keeps_layout: "\<lbrakk>flex_format fmt; set_gi cx fmt arg md = Inr md'\<rbrakk> \<Longrightarrow> same_layout md md'"
  using uuid_members_keep_layout [of "i_headers cx" "i_node_id cx" md]
  by (auto simp: flex_format_def set_gi_def m_set_uuid_def m_set_v9_uuid_def
      elim!: set_fields_keeps [where P = "same_layout md", rotated 2])
    (auto simp: gi_field_defs same_layout_def)

lemma set_gi_keeps_rep:
  assumes "array_sizes_ok (i_headers cx)" and "flex_format fmt" and "fmt = DRBD_V08 \<longrightarrow> i_node_id cx = 0"
    and "md_rep (i_headers cx) fmt md" and "set_gi cx fmt arg md = Inr md'"
  shows "md_rep (i_headers cx) fmt md'"
proof (cases "fmt = DRBD_V08")
  case True
  then show ?thesis
    using assms uuid_members_keep_08 [OF assms(1)]
    by (auto simp: set_gi_def m_set_uuid_def md_rep_def elim!: set_fields_keeps [where P = "rep_08 _", rotated 2])
      (auto simp: gi_field_defs rep_08_def)
next
  case False
  then show ?thesis
    using assms uuid_members_keep_09 [of "i_headers cx" "i_node_id cx"]
    by (auto simp: flex_format_def set_gi_def m_set_v9_uuid_def md_rep_def
        elim!: set_fields_keeps [where P = "rep_09 _", rotated 2])
      (auto simp: gi_field_defs rep_09_def wf_md_def)
qed

definition gi_update :: "invocation \<Rightarrow> md_format \<Rightarrow> string \<Rightarrow> md_cpu \<Rightarrow> md_cpu" where
  "gi_update cx fmt arg md = (case set_gi cx fmt arg md of Inr md' \<Rightarrow> md' | Inl _ \<Rightarrow> md)"

definition gi_storable :: "invocation \<Rightarrow> md_format \<Rightarrow> bool" where
  "gi_storable cx fmt \<longleftrightarrow> flex_format fmt \<and> (fmt = DRBD_V08 \<longrightarrow> i_node_id cx = 0)"

interpretation gi: in_place_update cx fmt "gi_storable cx fmt" "\<lambda>md. if gi_storable cx fmt then gi_update cx fmt arg md else md"
  for cx fmt arg
  by unfold_locales (auto simp: gi_update_def gi_storable_def split: sum.split
      intro: set_gi_keeps_layout set_gi_keeps_rep)

section \<open>Repairing unused slots\<close>

definition repaired_peers :: "md_cpu \<Rightarrow> u64 \<Rightarrow> nat \<Rightarrow> peer_md_cpu list" where
  "repaired_peers md u n = map (\<lambda>p. if p < n \<and> is_day0_peer md p
     then (peers md ! p)\<lparr>bitmap_uuid := u\<rparr> else peers md ! p) [0..<length (peers md)]"

lemma length_repaired_peers [simp]: "length (repaired_peers md u n) = length (peers md)"
  by (simp add: repaired_peers_def)

lemma nth_repaired_peers:
  "p < length (peers md) \<Longrightarrow> repaired_peers md u n ! p =
    (if p < n \<and> is_day0_peer md p then (peers md ! p)\<lparr>bitmap_uuid := u\<rparr> else peers md ! p)"
  by (simp add: repaired_peers_def)

lemma is_day0_repaired:
  "p < length (peers md) \<Longrightarrow> is_day0_peer (md\<lparr>peers := repaired_peers md u n\<rparr>) p = is_day0_peer md p"
  by (simp add: is_day0_peer_def nth_repaired_peers)

lemma repaired_peers_Suc:
  assumes "n < length (peers md)"
  shows "repaired_peers md u (Suc n) = (if is_day0_peer md n
    then (repaired_peers md u n)[n := (peers md ! n)\<lparr>bitmap_uuid := u\<rparr>] else repaired_peers md u n)"
  using assms by (intro nth_equalityI) (auto simp: nth_repaired_peers nth_list_update less_Suc_eq)

lemma repair_fold:
  "n \<le> length (peers md) \<Longrightarrow> fold (repair_peer u) [0..<n] (md, False) =
    (md\<lparr>peers := repaired_peers md u n\<rparr>, \<exists>p<n. is_day0_peer md p \<and> bitmap_uuid (peers md ! p) \<noteq> u)"
proof (induction n)
  case 0
  then show ?case by (simp add: repaired_peers_def map_nth)
next
  case (Suc n)
  then have n: "n < length (peers md)" by simp
  have "(repaired_peers md u n)[n := peers md ! n] = repaired_peers md u n"
    using n by (intro nth_equalityI) (auto simp: nth_repaired_peers nth_list_update)
  moreover have "(peers md ! n)\<lparr>bitmap_uuid := bitmap_uuid (peers md ! n)\<rparr> = peers md ! n" by simp
  ultimately have "repair_peer u n (md\<lparr>peers := repaired_peers md u n\<rparr>, d) =
      (md\<lparr>peers := repaired_peers md u (Suc n)\<rparr>, d \<or> is_day0_peer md n \<and> bitmap_uuid (peers md ! n) \<noteq> u)" for d
    using n by (auto simp: repair_peer_def is_day0_repaired repaired_peers_Suc nth_repaired_peers)
  then show ?case using Suc by (auto simp: less_Suc_eq)
qed

lemma repair_md_eq:
  assumes "array_sizes_ok H" and "length (peers md) = DRBD_PEERS_MAX H"
  shows "repair_md H q md = (md\<lparr>peers := repaired_peers md (bitmap_uuid (peers md ! q)) (length (peers md))\<rparr>,
    \<exists>p<length (peers md). is_day0_peer md p \<and> bitmap_uuid (peers md ! p) \<noteq> bitmap_uuid (peers md ! q))"
  using repair_fold [of 32 md "bitmap_uuid (peers md ! q)"] array_sizes_simps [OF assms(1)] assms(2)
  by (simp add: repair_md_def)

lemma day0_peer_id_cong:
  "(\<forall>p<DRBD_NODE_ID_MAX H. is_day0_peer md' p = is_day0_peer md p) \<Longrightarrow> day0_peer_id H md' = day0_peer_id H md"
  unfolding day0_peer_id_def by (rule find_cong) auto

lemma day0_peer_id_Some:
  assumes "day0_peer_id H md = Some q"
  shows "q < DRBD_NODE_ID_MAX H" and "is_day0_peer md q"
proof -
  have "q < DRBD_NODE_ID_MAX H" and "is_day0_peer md q"
    using assms unfolding day0_peer_id_def find_Some_iff by (auto simp: rev_nth)
  then show "q < DRBD_NODE_ID_MAX H" "is_day0_peer md q" by simp_all
qed

lemma repaired_peers_same:
  "(\<forall>p<length (peers md). is_day0_peer md p \<longrightarrow> bitmap_uuid (peers md ! p) = u)
    \<longleftrightarrow> repaired_peers md u (length (peers md)) = peers md"
  (is "?A \<longleftrightarrow> ?B")
proof
  assume ?A
  have "(peers md ! p)\<lparr>bitmap_uuid := bitmap_uuid (peers md ! p)\<rparr> = peers md ! p" for p by simp
  with \<open>?A\<close> show ?B by (intro nth_equalityI) (auto simp: nth_repaired_peers)
next
  assume b: ?B
  show ?A
  proof (intro allI impI)
    fix p assume p: "p < length (peers md)" "is_day0_peer md p"
    then have "bitmap_uuid (repaired_peers md u (length (peers md)) ! p) = u" by (simp add: nth_repaired_peers)
    then show "bitmap_uuid (peers md ! p) = u" by (simp add: b)
  qed
qed

lemma peers_update_same: "md\<lparr>peers := ps\<rparr> = md \<longleftrightarrow> ps = peers (md :: md_cpu)"
  by (cases md) auto

lemma repair_md_converges_dirty:
  assumes "array_sizes_ok H" and "length (peers md) = DRBD_PEERS_MAX H" and "repair_md H q md = (md', dirty)"
  shows "dirty \<longleftrightarrow> md' \<noteq> md"
proof -
  have "md' = md\<lparr>peers := repaired_peers md (bitmap_uuid (peers md ! q)) (length (peers md))\<rparr>"
    and "dirty \<longleftrightarrow> (\<exists>p<length (peers md). is_day0_peer md p \<and> bitmap_uuid (peers md ! p) \<noteq> bitmap_uuid (peers md ! q))"
    using assms(3) repair_md_eq [OF assms(1,2), of q] by auto
  then show ?thesis by (simp only: peers_update_same repaired_peers_same [symmetric]) blast
qed

text \<open>
  C27. \<^verbatim>\<open>repair-md\<close> on the structure: the slot whose UUID is taken as the right one is an
  unused slot of another node; afterwards every unused slot has its UUID, the used slots, the own
  slot and everything else are as before, \<open>dirty\<close> says whether something changed, and a second
  run finds the same slot and changes nothing.
\<close>

theorem repair_md_converges:
  assumes "array_sizes_ok H" and "length (peers md) = DRBD_PEERS_MAX H" and "day0_peer_id H md = Some q"
    and "repair_md H q md = (md', dirty)"
  shows "is_day0_peer md q \<and> int q \<noteq> sint (node_id md)
    \<and> md' = md\<lparr>peers := map (\<lambda>p. if is_day0_peer md p
        then (peers md ! p)\<lparr>bitmap_uuid := bitmap_uuid (peers md ! q)\<rparr> else peers md ! p) [0..<length (peers md)]\<rparr>
    \<and> (dirty \<longleftrightarrow> md' \<noteq> md)
    \<and> day0_peer_id H md' = Some q \<and> repair_md H q md' = (md', False)"
proof -
  let ?u = "bitmap_uuid (peers md ! q)" and ?n = "length (peers md)"
  have n: "DRBD_PEERS_MAX H = 32" "DRBD_NODE_ID_MAX H = 32" using array_sizes_simps [OF assms(1)] by simp_all
  have q: "q < ?n" "is_day0_peer md q" using day0_peer_id_Some [OF assms(3)] n assms(2) by simp_all
  have md': "md' = md\<lparr>peers := repaired_peers md ?u ?n\<rparr>"
    and d: "dirty \<longleftrightarrow> (\<exists>p<?n. is_day0_peer md p \<and> bitmap_uuid (peers md ! p) \<noteq> ?u)"
    using assms(4) repair_md_eq [OF assms(1,2), of q] by auto
  have u': "bitmap_uuid (peers md' ! q) = ?u" using q by (simp add: md' nth_repaired_peers)
  have clean: "\<forall>p<length (peers md'). is_day0_peer md' p \<longrightarrow> bitmap_uuid (peers md' ! p) = ?u"
    using is_day0_repaired [of _ md ?u ?n] by (simp add: md' nth_repaired_peers)
  then have "repair_md H q md' = (md', False)"
    using repair_md_eq [OF assms(1), of md' q] assms(2) u' repaired_peers_same [of md' ?u]
    by (auto simp: md' peers_update_same)
  moreover have "dirty \<longleftrightarrow> md' \<noteq> md" by (rule repair_md_converges_dirty [OF assms(1,2,4)])
  moreover have "day0_peer_id H md' = Some q"
    using day0_peer_id_cong [of H md' md] assms(2,3) n is_day0_repaired [of _ md ?u ?n] by (simp add: md')
  moreover have "repaired_peers md ?u ?n = map (\<lambda>p. if is_day0_peer md p
      then (peers md ! p)\<lparr>bitmap_uuid := ?u\<rparr> else peers md ! p) [0..<?n]"
    by (simp add: repaired_peers_def)
  moreover have "int q \<noteq> sint (node_id md)" using q(2) by (auto simp: is_day0_peer_def)
  ultimately show ?thesis using q(2) unfolding md' by (intro conjI) simp_all
qed


section \<open>What the commands store\<close>

text \<open>
  The validity check does not look at the members that the commands change, and it accepts a
  bitmap slot that is given up.
\<close>

lemma valid_after_peer_change:
  assumes "is_valid_md H f md idx sz = Inr True" and "length (peers md) = 32" and "length ps = 32" and "array_sizes_ok H"
    and "\<forall>p<32. bitmap_index (ps ! p) = bitmap_index (peers md ! p) \<or> bitmap_index (ps ! p) = -1"
  shows "is_valid_md H f (md\<lparr>peers := ps\<rparr>) idx sz = Inr True"
proof -
  have n: "DRBD_PEERS_MAX H = 32" using array_sizes_simps [OF assms(4)] by simp
  have mp: "\<not> (max_peers md < 1 \<or> max_peers md > 31)" using assms(1) n by (auto simp: is_valid_md_def split: if_splits)
  then have few: "unat (max_peers md) < 32" by (simp add: word_less_nat_alt word_le_nat_alt not_less)
  have old: "-1 \<le> sint (bitmap_index (peers md ! p)) \<and> sint (bitmap_index (peers md ! p)) \<le> 31"
    if "p < unat (max_peers md)" for p
    using assms(1) n that by (auto simp: is_valid_md_def not_less split: if_splits)
  have "-1 \<le> sint (bitmap_index (ps ! p)) \<and> sint (bitmap_index (ps ! p)) \<le> 31"
    if "p < unat (max_peers md)" for p
    using assms(5) [rule_format, of p] that old [OF that] few by (cases "bitmap_index (ps ! p) = -1") simp_all
  with old have idx: "(\<exists>p\<in>set [0..<unat (max_peers md)]. sint (bitmap_index (q p)) < -1
      \<or> sint (bitmap_index (q p)) > int (DRBD_PEERS_MAX H) - 1) = False" if "q = (!) ps \<or> q = (!) (peers md)" for q
    using that n by (auto simp: not_less)
  have bm: "bm_bytes H (md\<lparr>peers := ps\<rparr>) s = bm_bytes H md s" for s by (rule bm_bytes_cong) simp_all
  have al: "al_size_sect (md\<lparr>peers := ps\<rparr>) = al_size_sect md" by (simp add: al_size_sect_def)
  have upd: "magic (md\<lparr>peers := ps\<rparr>) = magic md" "max_peers (md\<lparr>peers := ps\<rparr>) = max_peers md"
    "node_id (md\<lparr>peers := ps\<rparr>) = node_id md" "peers (md\<lparr>peers := ps\<rparr>) = ps"
    "al_offset (md\<lparr>peers := ps\<rparr>) = al_offset md" "bm_offset (md\<lparr>peers := ps\<rparr>) = bm_offset md"
    "md_size_sect (md\<lparr>peers := ps\<rparr>) = md_size_sect md" by simp_all
  have "is_valid_md H f (md\<lparr>peers := ps\<rparr>) idx sz = is_valid_md H f md idx sz"
    unfolding is_valid_md_def upd bm al idx [of "(!) ps", OF disjI1 [OF refl]]
      idx [of "(!) (peers md)", OF disjI2 [OF refl]] ..
  then show ?thesis using assms(1) by simp
qed

lemma implements_stored: "implements cx cfg f w w' \<Longrightarrow> \<exists>md. stored_md cx cfg w = Some md \<and> stored_md cx cfg w' = Some (f md)"
  by (auto simp: implements_def stored_md_def)

lemma md_available_found:
  assumes "md_available cx cfg w" and "with_md cx cfg k w = (Inr 0, w')"
  obtains c where "md_open cx cfg w = (Inr (VALID_MD_FOUND, c), w)" and "k c w = (Inr 0, w')" and "ops c = ops cfg"
  using assms(2)
proof (cases rule: with_md_InrE)
  case (1 c w1)
  then show ?thesis using md_open_found(1,2) [OF assms(1) 1(1)] that [of c] by simp
qed simp

lemma say_keeps: "say s w = (r, w1) \<Longrightarrow> disk w1 = disk w \<and> same_device w w1"
  by (auto simp: say_def same_device_def)

lemma confirmed_keeps: "confirmed opts w = (r, w1) \<Longrightarrow> disk w1 = disk w \<and> same_device w w1"
  by (auto simp: confirmed_def confirmed_ex_def same_device_def split: if_splits option.splits list.splits)

text \<open>
  C10. \<^verbatim>\<open>set-gi\<close> end to end: when it returns 0, the argument was accepted for the meta data
  that was found, the next invocation finds the result, and no byte outside the super block
  changed. For v08 this holds for \<^verbatim>\<open>--node-id\<close> 0, the only peer it stores.
\<close>

theorem set_gi_stored:
  assumes "md_available cx cfg w" and "gi_storable cx (ops cfg)" and "\<not> dry_run (i_options cx)"
    and "meta_set_gi cx cfg (arg # rest) w = (Inr 0, w')"
  shows "(\<exists>md md'. stored_md cx cfg w = Some md \<and> set_gi cx (ops cfg) arg md = Inr md' \<and> stored_md cx cfg w' = Some md')
    \<and> implements cx cfg (gi_update cx (ops cfg) arg) w w'"
proof -
  obtain c where c: "md_open cx cfg w = (Inr (VALID_MD_FOUND, c), w)" "ops c = ops cfg"
    and k: "bind_io (lift_res (set_gi cx (ops c) arg (cfg_md c))) (\<lambda>tmp.
       bind_io (lift_res (get_gi cx (ops c) (cfg_md c))) (\<lambda>old.
       bind_io (lift_res (get_gi cx (ops c) tmp)) (\<lambda>new.
       bind_io (say (''previously '' @ old @ ''set GI to  '' @ new)) (\<lambda>_.
       bind_io (confirmed (i_options cx)) (\<lambda>ok.
         if \<not> ok then stop_io (Exit 0) else write_and_close cx (set_md c tmp)))))) w = (Inr 0, w')"
    using assms(4) unfolding meta_set_gi_def by (auto elim: md_available_found [OF assms(1)])
  obtain md' w1 where md': "set_gi cx (ops cfg) arg (cfg_md c) = Inr md'" and w1: "disk w1 = disk w" "same_device w w1"
    and wr: "write_and_close cx (set_md c md') w1 = (Inr 0, w')"
  proof -
    obtain md' where md': "set_gi cx (ops cfg) arg (cfg_md c) = Inr md'"
      using k by (auto simp: lift_res_def c(2) elim: bind_io_InrE)
    obtain s w2 w1 ok where w2: "say s w = (Inr (), w2)" and w1: "confirmed (i_options cx) w2 = (Inr ok, w1)"
      and wr: "(if \<not> ok then stop_io (Exit 0) else write_and_close cx (set_md c md')) w1 = (Inr 0, w')"
      using k by (auto simp: lift_res_def c(2) md' elim!: bind_io_InrE)
    show ?thesis
      using that [OF md', of w1] wr say_keeps [OF w2] confirmed_keeps [OF w1]
      by (auto simp: stop_io_def same_device_def split: if_splits)
  qed
  have "md' = gi_update cx (ops cfg) arg (cfg_md c)" by (simp add: gi_update_def md')
  then have impl: "implements cx cfg (gi_update cx (ops cfg) arg) w w'"
    using gi.write_and_close_implements [OF assms(1) refl assms(2,3) c(1) w1] wr assms(2) by simp
  then show ?thesis
    using implements_stored [OF impl] md_open_found(4) [OF assms(1) c(1)] md' by (auto simp: gi_update_def)
qed

text \<open>
  C17. \<^verbatim>\<open>outdate\<close>, \<^verbatim>\<open>invalidate\<close> and \<^verbatim>\<open>write-dev-uuid\<close> on v08 and v09 meta data: when
  the command returns 0, the next invocation finds the meta data with the flags cleared, with a
  full sync requested, or with the new device uuid, and no byte outside the super block changed.
\<close>

theorem state_commands_stored:
  assumes "md_available cx cfg w" and "\<not> dry_run (i_options cx)"
  shows "(meta_outdate cx cfg w = (Inr 0, w') \<longrightarrow>
      implements cx cfg (\<lambda>md. md\<lparr>flags := flags md AND NOT (MDF_WAS_UP_TO_DATE (i_headers cx))\<rparr>) w w')
    \<and> (meta_invalidate cx cfg w = (Inr 0, w') \<longrightarrow>
      implements cx cfg (\<lambda>md. if ops cfg = DRBD_V08 then snd (m_invalidate_uuid (i_headers cx) md)
        else snd (m_invalidate_v9_uuid (i_headers cx) md)) w w')
    \<and> (meta_write_dev_uuid cx cfg (arg # rest) w = (Inr 0, w') \<longrightarrow>
      implements cx cfg (\<lambda>md. md\<lparr>device_uuid := fst (strtoul 16 arg)\<rparr>) w w')"
proof -
  have refl: "disk w = disk w" "same_device w w" by (simp_all add: same_device_def)
  have fmt: "flex_format (ops cfg)" using assms(1) by (simp add: md_available_def)
  have "implements cx cfg (\<lambda>md. md\<lparr>flags := flags md AND NOT (MDF_WAS_UP_TO_DATE (i_headers cx))\<rparr>) w w'"
    if run: "meta_outdate cx cfg w = (Inr 0, w')"
  proof -
    obtain c where c: "md_open cx cfg w = (Inr (VALID_MD_FOUND, c), w)" "ops c = ops cfg"
      and k: "bind_io (lift_res (outdate_gi cx (ops c) (cfg_md c))) (\<lambda>(err, md).
        if err \<noteq> 0 then stop_io (Exit 5) else write_and_close cx (set_md c md)) w = (Inr 0, w')"
      using run unfolding meta_outdate_def by (auto elim: md_available_found [OF assms(1)])
    then have ok: "fst (m_outdate_uuid (i_headers cx) (cfg_md c)) = 0"
      and wr: "write_and_close cx (set_md c (snd (m_outdate_uuid (i_headers cx) (cfg_md c)))) w = (Inr 0, w')"
      using fmt
      by (auto simp: outdate_gi_def flex_format_def bind_io_def lift_res_def stop_io_def split: if_splits prod.splits)
    have "implements cx cfg (\<lambda>md. snd (m_outdate_uuid (i_headers cx) md)) w w'"
      using outdate.write_and_close_implements [OF assms(1) HOL.refl TrueI assms(2) c(1) refl wr] .
    then show ?thesis using ok c(1) by (auto simp: implements_def m_outdate_uuid_def split: if_splits)
  qed
  moreover have "implements cx cfg (\<lambda>md. if ops cfg = DRBD_V08 then snd (m_invalidate_uuid (i_headers cx) md)
        else snd (m_invalidate_v9_uuid (i_headers cx) md)) w w'"
    if run: "meta_invalidate cx cfg w = (Inr 0, w')"
  proof -
    obtain c where c: "md_open cx cfg w = (Inr (VALID_MD_FOUND, c), w)" "ops c = ops cfg"
      and k: "bind_io (lift_res (invalidate_gi cx (ops c) (cfg_md c))) (\<lambda>(_, md).
        write_and_close cx (set_md c md)) w = (Inr 0, w')"
      using run unfolding meta_invalidate_def by (auto elim: md_available_found [OF assms(1)])
    show ?thesis
      using fmt k invalidate_08.write_and_close_implements [OF assms(1) _ TrueI assms(2) c(1) refl]
        invalidate_09.write_and_close_implements [OF assms(1) _ TrueI assms(2) c(1) refl]
      by (auto simp: invalidate_gi_def flex_format_def bind_io_def lift_res_def c(2) split: prod.splits)
  qed
  moreover have "implements cx cfg (\<lambda>md. md\<lparr>device_uuid := fst (strtoul 16 arg)\<rparr>) w w'"
    if run: "meta_write_dev_uuid cx cfg (arg # rest) w = (Inr 0, w')"
  proof -
    obtain c where "md_open cx cfg w = (Inr (VALID_MD_FOUND, c), w)"
      "write_and_close cx (set_md c ((cfg_md c)\<lparr>device_uuid := fst (strtoul 16 arg)\<rparr>)) w = (Inr 0, w')"
      using run unfolding meta_write_dev_uuid_def by (auto elim: md_available_found [OF assms(1)])
    then show ?thesis
      using dev_uuid.write_and_close_implements [OF assms(1) HOL.refl TrueI assms(2) _ refl] by blast
  qed
  ultimately show ?thesis by blast
qed


lemma valid_effective_size:
  "is_valid_md H f (md\<lparr>effective_size := e\<rparr>) idx sz = is_valid_md H f md idx sz"
proof -
  have bm: "bm_bytes H (md\<lparr>effective_size := e\<rparr>) s = bm_bytes H md s" for s by (rule bm_bytes_cong) simp_all
  have al: "al_size_sect (md\<lparr>effective_size := e\<rparr>) = al_size_sect md" by (simp add: al_size_sect_def)
  have upd: "magic (md\<lparr>effective_size := e\<rparr>) = magic md" "max_peers (md\<lparr>effective_size := e\<rparr>) = max_peers md"
    "node_id (md\<lparr>effective_size := e\<rparr>) = node_id md" "peers (md\<lparr>effective_size := e\<rparr>) = peers md"
    "al_offset (md\<lparr>effective_size := e\<rparr>) = al_offset md" "bm_offset (md\<lparr>effective_size := e\<rparr>) = bm_offset md"
    "md_size_sect (md\<lparr>effective_size := e\<rparr>) = md_size_sect md" by simp_all
  show ?thesis unfolding is_valid_md_def upd bm al ..
qed

lemma md_open_valid:
  assumes "md_available cx cfg w" and "md_open cx cfg w = (Inr (VALID_MD_FOUND, c), w)"
  shows "is_valid_md (i_headers cx) (ops cfg) (cfg_md c) (md_index c) (bd_size c) = Inr True"
proof -
  let ?H = "i_headers cx"
  have a: "flex_format (ops cfg)" "opens cfg w" using assms(1) by (simp_all add: md_available_def)
  obtain c1 buf where c1: "v07_style_md_open_device cx cfg w = (Inr c1, w)" and ld: "loads cx (at_offset ?H c1) buf c"
    using assms(2) md_open_found_iff [OF a(1)] v07_open_found_iff [OF a] by blast
  have "ops c1 = ops cfg" using open_device_keeps [OF a(2) c1] by simp
  then show ?thesis
    using ld load_cfg_keeps [of ?H "at_offset ?H c1" _ c]
    by (auto simp: loads_def Let_def at_offset_def valid_effective_size)
qed

definition repaired :: "headers \<Rightarrow> md_cpu \<Rightarrow> md_cpu" where
  "repaired H md = (case day0_peer_id H md of None \<Rightarrow> md | Some q \<Rightarrow> fst (repair_md H q md))"

lemma close_InrE:
  assumes "bind_io m (\<lambda>(_, cfg). bind_io (md_close cx cfg) (\<lambda>c. ret (h c))) w = (Inr r, w')"
  obtains err c2 w2 x where "m w = (Inr (err, c2), w2)" and "md_close cx c2 w2 = (Inr x, w')"
proof -
  from assms obtain p w2 where m: "m w = (Inr p, w2)"
    and rest: "(case p of (_, cfg) \<Rightarrow> bind_io (md_close cx cfg) (\<lambda>c. ret (h c))) w2 = (Inr r, w')"
    by (rule bind_io_InrE)
  obtain err c2 where p: "p = (err, c2)" by fastforce
  from rest obtain x w3 where "md_close cx c2 w2 = (Inr x, w3)" "ret (h x) w3 = (Inr r, w')"
    unfolding p prod.case by (rule bind_io_InrE)
  then show ?thesis using that m p by (simp add: ret_def)
qed

lemma fold_repair_keeps:
  "same_layout md (fst (fold (repair_peer u) ns (md, d))) \<and>
    (md_rep H DRBD_V09 md \<longrightarrow> md_rep H DRBD_V09 (fst (fold (repair_peer u) ns (md, d))))"
proof (induction ns arbitrary: md d)
  case (Cons n ns)
  obtain md1 d1 where st: "repair_peer u n (md, d) = (md1, d1)" by fastforce
  then have "same_layout md md1" "md_rep H DRBD_V09 md \<longrightarrow> md_rep H DRBD_V09 md1"
    by (auto simp: repair_peer_def same_layout_def md_rep_defs split: if_splits)
  then show ?case using Cons [of md1 d1] st by (auto simp: same_layout_def)
qed simp

interpretation repair: in_place_update cx DRBD_V09 True "repaired (i_headers cx)" for cx
  by unfold_locales (auto simp: repaired_def repair_md_def fold_repair_keeps split: option.split)

lemma valid_write_0:
  assumes "flex_format (ops cfg)" and "md_cpu_to_disk cx cfg w = (Inr (err, c), w1)"
    and "is_valid_md (i_headers cx) (ops cfg) (cfg_md cfg) (md_index cfg) (bd_size cfg) = Inr True"
  shows "err = 0"
  using assms by (auto simp: md_cpu_to_disk_eq bind_io_def lift_res_def ret_def split: sum.splits prod.splits)

lemma repaired_valid:
  assumes "array_sizes_ok H" and "length (peers md) = DRBD_PEERS_MAX H" and "is_valid_md H f md idx sz = Inr True"
  shows "is_valid_md H f (repaired H md) idx sz = Inr True"
proof (cases "day0_peer_id H md")
  case (Some q)
  have "length (peers md) = 32" using assms(1,2) array_sizes_simps by simp
  then show ?thesis
    using Some repair_md_eq [OF assms(1,2), of q] assms(3)
    by (auto simp: repaired_def nth_repaired_peers intro!: valid_after_peer_change [OF assms(3) _ _ assms(1)])
qed (simp add: repaired_def assms(3))

lemma forget_peer_valid:
  assumes "array_sizes_ok H" and "length (peers md) = DRBD_PEERS_MAX H" and "is_valid_md H f md idx sz = Inr True"
  shows "is_valid_md H f (forget_peer H n md) idx sz = Inr True"
proof -
  have len: "length (peers md) = 32" using assms(1,2) array_sizes_simps by simp
  have "\<exists>p. bitmap_index p = -1 \<and> forget_peer H n md = md\<lparr>peers := (peers md)[n := p]\<rparr>"
  proof (cases "day0_peer_id H md")
    case None
    then show ?thesis
      by (intro exI [of _ "(peers md ! n)\<lparr>bitmap_index := -1, peer_flags := 0, bitmap_uuid := 0, bitmap_dagtag := 0\<rparr>"])
        (simp add: forget_peer_def)
  next
    case (Some d)
    let ?q = "(peers md)[n := (peers md ! n)\<lparr>bitmap_index := -1, peer_flags := 0\<rparr>] ! d"
    show ?thesis
      by (intro exI [of _ "(peers md ! n)\<lparr>bitmap_index := -1, peer_flags := 0, bitmap_uuid := bitmap_uuid ?q,
          bitmap_dagtag := bitmap_dagtag ?q\<rparr>"]) (simp add: forget_peer_def Some Let_def)
  qed
  then obtain p where "bitmap_index p = -1" and "forget_peer H n md = md\<lparr>peers := (peers md)[n := p]\<rparr>" by blast
  then show ?thesis
    using len valid_after_peer_change [OF assms(3) len _ assms(1), of "(peers md)[n := p]"]
    by (metis length_list_update nth_list_update_eq nth_list_update_neq)
qed

text \<open>
  C19. \<^verbatim>\<open>forget-peer\<close> and \<^verbatim>\<open>repair-md\<close> on v09 meta data: both ignore the result of writing
  the super block, and are right to do so, since what they write always passes the validity check: when
  the command returns 0, the next invocation finds the slot given up, or all unused slots
  repaired, and no byte outside the super block changed.
\<close>

theorem slot_commands_stored:
  assumes av: "md_available cx cfg w" and fmt: "ops cfg = DRBD_V09" and nd: "\<not> dry_run (i_options cx)"
  shows "(meta_forget_peer cx cfg w = (Inr 0, w') \<longrightarrow>
      implements cx cfg (forget_peer (i_headers cx) (i_node_id cx)) w w')
    \<and> (meta_repair_md cx cfg w = (Inr 0, w') \<and> stored_md cx cfg w \<noteq> None \<longrightarrow>
      implements cx cfg (repaired (i_headers cx)) w w')"
proof -
  let ?H = "i_headers cx"
  have sz: "array_sizes_ok ?H" and ff: "flex_format (ops cfg)" using av by (simp_all add: md_available_def)
  have self: "disk w = disk w" "same_device w w" by (simp_all add: same_device_def)
  have "implements cx cfg (forget_peer ?H (i_node_id cx)) w w'" if run: "meta_forget_peer cx cfg w = (Inr 0, w')"
  proof -
    obtain c where found: "md_open cx cfg w = (Inr (VALID_MD_FOUND, c), w)"
      and k: "bind_io (md_cpu_to_disk cx (set_md c (forget_peer ?H (i_node_id cx) (cfg_md c))))
        (\<lambda>(_, cfg). bind_io (md_close cx cfg) (\<lambda>c. ret (if c \<noteq> 0 then 1 else 0))) w = (Inr (0 :: int), w')"
      and oc: "ops c = ops cfg"
      by (rule md_available_found [OF av run [unfolded meta_forget_peer_def]])
    note c = found oc
    from k obtain err c2 w2 r where wr: "md_cpu_to_disk cx (set_md c (forget_peer ?H (i_node_id cx) (cfg_md c))) w = (Inr (err, c2), w2)"
      and cl: "md_close cx c2 w2 = (Inr r, w')"
      by (rule close_InrE)
    have "length (peers (cfg_md c)) = DRBD_PEERS_MAX ?H"
      using md_open_found(3) [OF av c(1)] fmt by (simp add: md_rep_defs)
    then have "err = 0"
      using valid_write_0 [OF _ wr] ff c(2) forget_peer_valid [OF sz _ md_open_valid [OF av c(1)]]
      by (simp add: set_md_def)
    then show ?thesis
      using forget.write_implements [OF av fmt TrueI nd c(1) self] wr md_close_keeps [OF cl] by blast
  qed
  moreover have "implements cx cfg (repaired ?H) w w'"
    if run: "meta_repair_md cx cfg w = (Inr 0, w')" and st: "stored_md cx cfg w \<noteq> None"
  proof -
    obtain c w0 where "md_open cx cfg w = (Inr (VALID_MD_FOUND, c), w0)"
      using st by (auto simp: stored_md_def split: prod.splits sum.splits if_splits)
    moreover from this have w0: "w0 = w" by (rule md_open_found(1) [OF av])
    ultimately have c: "md_open cx cfg w = (Inr (VALID_MD_FOUND, c), w)" by simp
    have oc: "ops c = ops cfg" by (rule md_open_found(2) [OF av c])
    have len: "length (peers (cfg_md c)) = DRBD_PEERS_MAX ?H"
      using md_open_found(3) [OF av c] fmt by (simp add: md_rep_defs)
    have same: "implements cx cfg (repaired ?H) w w'"
      if "repaired ?H (cfg_md c) = cfg_md c" "disk w' = disk w" "same_device w w'"
      using that md_open_same [OF av c that(2,3)] c by (simp add: implements_def stored_md_def)
    show ?thesis
    proof (cases "day0_peer_id ?H (cfg_md c)")
      case None
      then have "w' = w" using run by (simp add: meta_repair_md_def bind_io_def c ret_def)
      then show ?thesis using same None self by (simp add: repaired_def)
    next
      case (Some q)
      obtain md d where rep: "repair_md ?H q (cfg_md c) = (md, d)" by fastforce
      have md: "md = repaired ?H (cfg_md c)" by (simp add: repaired_def Some rep)
      have found: "bind_io (md_open cx cfg) (\<lambda>(rc, cfg). if rc = VALID_MD_FOUND_AT_LAST_KNOWN_LOCATION
          then bind_io (v08_move_internal_md_after_resize cx cfg) (\<lambda>(r, cfg). if r = 0 then md_open cx cfg else ret (rc, cfg))
          else ret (rc, cfg)) w = (Inr (VALID_MD_FOUND, c), w)"
        by (simp add: bind_io_def c ret_def)
      have "bind_io (if \<not> dry_run (i_options cx) \<and> d then md_cpu_to_disk cx (set_md c md) else ret (0, set_md c md))
          (\<lambda>(_, cfg). bind_io (md_close cx cfg) (\<lambda>err.
            ret (if err \<noteq> 0 then err else if dry_run (i_options cx) \<and> d then -1 else 0))) w = (Inr 0, w')"
        using run
        by (simp only: meta_repair_md_def bind_io_def [of "bind_io (md_open cx cfg) _"] found sum.case
            prod.case Some option.case rep Let_def simp_thms if_False)
      then obtain err c2 w2 r where wr': "(if \<not> dry_run (i_options cx) \<and> d then md_cpu_to_disk cx (set_md c md) else ret (0, set_md c md)) w = (Inr (err, c2), w2)"
        and cl: "md_close cx c2 w2 = (Inr r, w')"
        by (rule close_InrE)
      have wr: "(if d then md_cpu_to_disk cx (set_md c md) else ret (0, set_md c md)) w = (Inr (err, c2), w2)"
        using wr' nd by simp
      show ?thesis
      proof (cases d)
        case True
        have "err = 0"
          using valid_write_0 [of "set_md c md" cx w err c2 w2] wr True ff oc
            repaired_valid [OF sz len md_open_valid [OF av c]] by (simp add: set_md_def md)
        then show ?thesis
          using repair.write_implements [OF av fmt TrueI nd c self] wr True md_close_keeps [OF cl] md by simp
      next
        case False
        then have "w2 = w" using wr by (simp add: ret_def)
        moreover have "repaired ?H (cfg_md c) = cfg_md c"
          using repair_md_converges_dirty [OF sz len rep] False by (simp add: md)
        ultimately show ?thesis using same md_close_keeps [OF cl] by simp
      qed
    qed
  qed
  ultimately show ?thesis by blast
qed

end
