(* ===== verification/Command_Runs.thy ===== *)
theory Command_Runs
  imports Md_Commands
begin

text \<open>
  The commands do return: on a device that can be read and written, whose super block lies
  inside its meta data area, \<^verbatim>\<open>outdate\<close>, \<^verbatim>\<open>invalidate\<close>, \<^verbatim>\<open>write-dev-uuid\<close> and
  \<^verbatim>\<open>set-gi\<close> end with 0, or with the documented exit code. The second half is a concrete
  device on which all of this happens.
\<close>

unbundle bit_operations_syntax

section \<open>Writing succeeds\<close>

lemma is_valid_cong:
  assumes "magic md' = magic md" "max_peers md' = max_peers md" "node_id md' = node_id md"
    and idx: "\<And>p. p < unat (max_peers md) \<Longrightarrow> bitmap_index (peers md' ! p) = bitmap_index (peers md ! p)"
    and "al_offset md' = al_offset md" "bm_offset md' = bm_offset md" "md_size_sect md' = md_size_sect md"
    and "bm_bytes_per_bit md' = bm_bytes_per_bit md"
    and "al_stripes md' = al_stripes md" "al_stripe_size_4k md' = al_stripe_size_4k md"
  shows "is_valid_md H f md' idx sz = is_valid_md H f md idx sz"
proof -
  have bm: "bm_bytes H md' s = bm_bytes H md s" for s by (rule bm_bytes_cong) (fact assms)+
  have al: "al_size_sect md' = al_size_sect md" by (simp add: al_size_sect_def assms)
  have "(\<exists>p\<in>set [0..<unat (max_peers md)]. P (bitmap_index (peers md' ! p))) \<longleftrightarrow>
      (\<exists>p\<in>set [0..<unat (max_peers md)]. P (bitmap_index (peers md ! p)))" for P
    using idx by (intro bex_cong) simp_all
  from this [of "\<lambda>i. sint i < -1 \<or> sint i > int (DRBD_PEERS_MAX H) - 1"] show ?thesis
    unfolding is_valid_md_def assms(1-3,5-10) bm al by (simp only:)
qed

lemma validate_cong:
  "same_layout (cfg_md c) md \<Longrightarrow>
    validate_offsets_or_die opts (set_md c md) n off = validate_offsets_or_die opts c n off"
  by (simp add: validate_offsets_or_die_def set_md_def md_min_offset_def md_max_offset_def same_layout_def Let_def)

lemma md_close_0:
  assumes "flex_format (ops c)" and "\<not> close_fails (env w)"
  shows "\<exists>w'. md_close cx c w = (Inr 0, w')"
proof -
  have "generic_md_close w' = (Inr 0, w')" if "env w' = env w" for w'
    using assms(2) that by (simp add: generic_md_close_def bind_io_def get_env_def ret_def)
  moreover have "md_close cx c = v08_md_close cx c" using assms(1) by (auto simp: md_close_def flex_format_def)
  ultimately show ?thesis
    by (simp add: v08_md_close_def bind_io_def lk_bdev_delete_def lk_bdev_save_def ret_def Let_def)
qed

text \<open>The super block can be written in its place.\<close>

definition md_writable :: "invocation \<Rightarrow> format_cfg \<Rightarrow> world \<Rightarrow> bool" where
  "md_writable cx c w \<longleftrightarrow> \<not> dry_run (i_options cx) \<and> \<not> close_fails (env w)
     \<and> validate_offsets_or_die (i_options cx) c 4096 (md_offset c) = Inr ()"

lemma write_and_close_succeeds:
  assumes av: "md_available cx cfg w" and found: "md_open cx cfg w = (Inr (VALID_MD_FOUND, c), w)"
    and wr: "md_writable cx c w" and lay: "same_layout (cfg_md c) md" and rep: "md_rep (i_headers cx) (ops cfg) md"
    and valid: "is_valid_md (i_headers cx) (ops cfg) md (md_index c) (bd_size c) = Inr True"
    and w1: "disk w1 = disk w" "same_device w w1"
  shows "\<exists>w'. write_and_close cx (set_md c md) w1 = (Inr 0, w')"
proof -
  let ?H = "i_headers cx" and ?off = "md_offset c"
  let ?img = "md_image ?H (ops cfg) (i_host cx) md"
  have a: "array_sizes_ok ?H" "layout_9_ok ?H" "flex_format (ops cfg)" "opens cfg w"
    using av by (simp_all add: md_available_def)
  have oc: "ops c = ops cfg" by (rule md_open_found(2) [OF av found])
  obtain c1 buf where rd: "pread_or_die 4096 (md_offset (at_offset ?H c1)) w = (Inr buf, w)"
    and ld: "loads cx (at_offset ?H c1) buf c"
    using found md_open_found_iff [OF a(3)] v07_open_found_iff [OF a(3,4)] by blast
  have "md_offset (at_offset ?H c1) = ?off"
    using ld load_cfg_keeps [of ?H "at_offset ?H c1" _ c] by (auto simp: loads_def Let_def)
  then have "\<not> kernel_error w 4096 ?off" "unat ?off + 4096 \<le> dev_size w"
    using rd by (auto simp: pread_or_die_def min_def split: if_splits)
  then have ok: "\<not> kernel_error w1 4096 ?off" "unat ?off + 4096 \<le> dev_size w1"
    using w1 by (simp_all add: kernel_error_def same_device_def)
  have len: "length ?img = 4096" using super_block.length_image a rep by blast
  have "validate_offsets_or_die (i_options cx) (set_md c md) (length ?img) ?off = Inr ()"
    using wr validate_cong [OF lay] by (simp add: md_writable_def len)
  then obtain w2 where pw: "pwrite_or_die (i_options cx) (set_md c md) ?img ?off w1 = (Inr (), w2)" and "env w2 = env w1"
    using pwrite_ok [of "i_options cx" "set_md c md" ?img ?off w1] wr ok by (simp add: len md_writable_def)
  then have nc: "\<not> close_fails (env w2)" using wr w1 by (simp add: md_writable_def same_device_def)
  have "md_cpu_to_disk cx (set_md c md) w1 = (Inr (0, (set_md c md)\<lparr>update_lk_bdev := True\<rparr>), w2)"
    using pw valid a(3) oc
    by (subst md_cpu_to_disk_eq) (simp_all add: set_md_def bind_io_def lift_res_def ret_def)
  moreover obtain w' where "md_close cx ((set_md c md)\<lparr>update_lk_bdev := True\<rparr>) w2 = (Inr 0, w')"
    using md_close_0 [of "(set_md c md)\<lparr>update_lk_bdev := True\<rparr>" w2 cx] a(3) oc nc by (auto simp: set_md_def)
  ultimately show ?thesis by (simp add: write_and_close_def bind_io_def ret_def)
qed

lemma with_md_found: "md_open cx cfg w = (Inr (VALID_MD_FOUND, c), w) \<Longrightarrow> with_md cx cfg k w = k c w"
  by (simp add: with_md_def bind_io_def)

lemma outdate_returns:
  assumes av: "md_available cx cfg w" and found: "md_open cx cfg w = (Inr (VALID_MD_FOUND, c), w)"
    and wr: "md_writable cx c w"
  shows "if flags (cfg_md c) AND MDF_CONSISTENT (i_headers cx) = 0 then meta_outdate cx cfg w = (Inl (Exit 5), w)
    else \<exists>w'. meta_outdate cx cfg w = (Inr 0, w')"
proof -
  let ?H = "i_headers cx" and ?md = "cfg_md c"
  let ?new = "?md\<lparr>flags := flags ?md AND NOT (MDF_WAS_UP_TO_DATE ?H)\<rparr>"
  have a: "array_sizes_ok ?H" and ff: "flex_format (ops cfg)" using av by (simp_all add: md_available_def)
  have oc: "ops c = ops cfg" and rep: "md_rep ?H (ops cfg) ?md" using md_open_found [OF av found] by simp_all
  have self: "disk w = disk w" "same_device w w" by (simp_all add: same_device_def)
  have "is_valid_md ?H (ops cfg) ?new (md_index c) (bd_size c) = Inr True"
    using md_open_valid [OF av found] by (subst is_valid_cong [where md = ?md]) simp_all
  then have "\<exists>w'. write_and_close cx (set_md c ?new) w = (Inr 0, w')"
    using rep by (intro write_and_close_succeeds [OF av found wr _ _ _ self]) (auto simp: same_layout_def md_rep_defs)
  moreover have "outdate_gi cx (ops c) ?md = Inr (m_outdate_uuid ?H ?md)"
    using ff by (auto simp: outdate_gi_def flex_format_def oc)
  ultimately show ?thesis
    by (auto simp: meta_outdate_def with_md_found [OF found] bind_io_def lift_res_def stop_io_def m_outdate_uuid_def)
qed

text \<open>
  C20. The commands end: with valid meta data in a writable place, \<^verbatim>\<open>invalidate\<close> and
  \<^verbatim>\<open>write-dev-uuid\<close> return 0, and \<^verbatim>\<open>outdate\<close> returns 0 for consistent data and exits with 5,
  leaving everything as it was, for inconsistent data.
\<close>

theorem state_commands_return:
  assumes av: "md_available cx cfg w" and found: "md_open cx cfg w = (Inr (VALID_MD_FOUND, c), w)"
    and wr: "md_writable cx c w"
  shows "(\<exists>w'. meta_invalidate cx cfg w = (Inr 0, w'))
    \<and> (\<exists>w'. meta_write_dev_uuid cx cfg (arg # rest) w = (Inr 0, w'))
    \<and> (if flags (cfg_md c) AND MDF_CONSISTENT (i_headers cx) = 0 then meta_outdate cx cfg w = (Inl (Exit 5), w)
       else \<exists>w'. meta_outdate cx cfg w = (Inr 0, w'))"
proof -
  let ?H = "i_headers cx" and ?md = "cfg_md c"
  have a: "array_sizes_ok ?H" and ff: "flex_format (ops cfg)" using av by (simp_all add: md_available_def)
  have oc: "ops c = ops cfg" and rep: "md_rep ?H (ops cfg) ?md" using md_open_found [OF av found] by simp_all
  have self: "disk w = disk w" "same_device w w" by (simp_all add: same_device_def)
  have go: "\<exists>w'. write_and_close cx (set_md c md) w = (Inr 0, w')"
    if "same_layout ?md md" "md_rep ?H (ops cfg) md" "is_valid_md ?H (ops cfg) md (md_index c) (bd_size c) =
      is_valid_md ?H (ops cfg) ?md (md_index c) (bd_size c)" for md
    using write_and_close_succeeds [OF av found wr that(1,2) _ self] that(3) md_open_valid [OF av found] by simp
  have flags: "is_valid_md ?H (ops cfg) (?md\<lparr>flags := fl\<rparr>) (md_index c) (bd_size c) =
      is_valid_md ?H (ops cfg) ?md (md_index c) (bd_size c)" for fl
    by (rule is_valid_cong) simp_all
  have v9: "ops cfg \<noteq> DRBD_V08 \<Longrightarrow> is_valid_md ?H (ops cfg) (snd (m_invalidate_v9_uuid ?H ?md)) (md_index c) (bd_size c) =
      is_valid_md ?H (ops cfg) ?md (md_index c) (bd_size c)"
  proof (rule is_valid_cong)
    fix p assume "ops cfg \<noteq> DRBD_V08" and "p < unat (max_peers ?md)"
    then have "p < length (peers ?md)"
      using rep array_sizes_simps [OF a] by (auto simp: md_rep_defs word_le_nat_alt)
    then show "bitmap_index (peers (snd (m_invalidate_v9_uuid ?H ?md)) ! p) = bitmap_index (peers ?md ! p)"
      by (simp add: m_invalidate_v9_uuid_def nth_fill_array)
  qed (simp_all add: m_invalidate_v9_uuid_def)
  have "\<exists>w'. meta_invalidate cx cfg w = (Inr 0, w')"
  proof (cases "ops cfg = DRBD_V08")
    case True
    then show ?thesis
      using go [of "snd (m_invalidate_uuid ?H ?md)"] invalidate_08.keeps_layout [of ?md]
        invalidate_08.keeps_rep [OF a TrueI, of ?md] rep flags
      by (simp add: meta_invalidate_def with_md_found [OF found] invalidate_gi_def oc bind_io_def lift_res_def
          m_invalidate_uuid_def)
  next
    case False
    then have f9: "ops cfg = DRBD_V09" using ff by (simp add: flex_format_def)
    obtain w' where "write_and_close cx (set_md c (snd (m_invalidate_v9_uuid ?H ?md))) w = (Inr 0, w')"
      using go [OF invalidate_09.keeps_layout _ v9 [OF False]] invalidate_09.keeps_rep [OF a TrueI, of ?md] rep f9
      by auto
    then show ?thesis
      by (cases "m_invalidate_v9_uuid ?H ?md")
        (simp add: meta_invalidate_def with_md_found [OF found] invalidate_gi_def oc f9 bind_io_def lift_res_def)
  qed
  moreover have "\<exists>w'. meta_write_dev_uuid cx cfg (arg # rest) w = (Inr 0, w')"
  proof -
    have "is_valid_md ?H (ops cfg) (?md\<lparr>device_uuid := u\<rparr>) (md_index c) (bd_size c) =
        is_valid_md ?H (ops cfg) ?md (md_index c) (bd_size c)" for u
      by (rule is_valid_cong) simp_all
    from go [OF dev_uuid.keeps_layout dev_uuid.keeps_rep [OF a TrueI rep] this]
    show ?thesis by (simp add: meta_write_dev_uuid_def with_md_found [OF found])
  qed
  ultimately show ?thesis using outdate_returns [OF av found wr] by blast
qed


section \<open>A concrete device\<close>

text \<open>
  An indexed external meta data area on a 128 MiB device; all peer slots are unused, and one of
  them has lost its UUID.
\<close>

definition example_stored :: md_cpu where
  "example_stored = (cfg_md example_ext_cfg)\<lparr>flags := 17,
     peers := (replicate 32 (zero_peer\<lparr>bitmap_index := -1, bitmap_uuid := 8\<rparr>))
       [2 := zero_peer\<lparr>bitmap_index := -1\<rparr>]\<rparr>"

definition example_cx :: invocation where
  "example_cx = \<lparr>i_headers = example_headers, i_host = LittleEndian,
     i_options = example_options\<lparr>force := True, option_node_id := 2\<rparr>, i_libdir = ''/var/lib/drbd'', i_minor = 0,
     i_md_device_name = ''/dev/sda'', i_is_apply_al_cmd = False\<rparr>"

definition example_fresh :: format_cfg where
  "example_fresh = example_ext_cfg\<lparr>cfg_md := zero_md example_headers, bd_size := 0,
     md_offset := 0, cfg_al_offset := 0, cfg_bm_offset := 0, cfg_bm_bytes := 0\<rparr>"

definition example_image :: bytes where
  "example_image = md_image example_headers DRBD_V09 LittleEndian example_stored"

definition example_device :: world where
  "example_device = example_world\<lparr>disk := write_bytes (\<lambda>_. 0) 0 example_image\<rparr>"

definition example_open :: format_cfg where
  "example_open = example_ext_cfg\<lparr>cfg_md := example_stored, bits_set := 0xFFFFFFFF, cfg_bm_bytes := 0,
     max_usable_sect := 8587575296\<rparr>"

lemma example_rep: "md_rep example_headers DRBD_V09 example_stored"
  by (simp add: md_rep_defs example_stored_def example_ext_cfg_def example_cfg_def zero_md_def GEN_CNT_SIZE_def)

lemma length_example_image: "length example_image = 4096"
  unfolding example_image_def by (rule super_block.length_image) (simp_all add: example_rep)

lemma example_available: "md_available example_cx example_fresh example_device"
  by (simp add: md_available_def example_cx_def flex_format_def example_fresh_def example_ext_cfg_def example_cfg_def
      opens_def example_device_def example_world_def example_env_def)

lemma example_open_device:
  "v07_style_md_open_device example_cx example_fresh example_device
    = (Inr (example_fresh\<lparr>md_hard_sect_size := 512, bd_size := 134217728\<rparr>), example_device)"
  by (simp add: v07_style_md_open_device_def bind_io_def open_retry_free example_device_def example_world_def example_env_def
      get_env_def get_dev_size_def ret_def example_fresh_def example_ext_cfg_def example_cfg_def Let_def example_cx_def
      bdev_size_def)

lemma example_valid: "is_valid_md example_headers DRBD_V09 example_stored 0 134217728 = Inr True"
proof -
  have "\<not> (\<exists>n\<in>set [0..<1]. sint (bitmap_index (peers example_stored ! n)) < -1
      \<or> sint (bitmap_index (peers example_stored ! n)) > 31)"
    by (simp add: example_stored_def)
  then show ?thesis
    by (simp add: is_valid_md_def magic_matches_def al_size_sect_def MD_AL_OFFSET_07_def example_stored_def
        example_ext_cfg_def example_cfg_def zero_md_def)
qed

lemma example_load:
  "load_cfg example_headers (at_offset example_headers (example_fresh\<lparr>md_hard_sect_size := 512, bd_size := 134217728\<rparr>))
    example_stored = Inr example_open"
  by (simp add: load_cfg_def at_offset_def v07_style_md_get_byte_offset_def example_fresh_def example_stored_def
      example_ext_cfg_def example_cfg_def zero_md_def Let_def max_usable_sectors_def clip_eq bm_bytes_def
      is_power_of_2_def example_open_def assert_res_def ALIGN_def)


text \<open>Any valid super block at the start of such a device is found.\<close>

lemma example_finds:
  assumes rep: "md_rep example_headers DRBD_V09 md" and valid: "is_valid_md example_headers DRBD_V09 md 0 134217728 = Inr True"
    and load: "load_cfg example_headers (at_offset example_headers (example_fresh\<lparr>md_hard_sect_size := 512, bd_size := 134217728\<rparr>))
      md = Inr c"
    and w: "same_device example_device w" "read_bytes (disk w) 0 4096 = md_image example_headers DRBD_V09 LittleEndian md"
  shows "md_open example_cx example_fresh w = (Inr (VALID_MD_FOUND, c), w)"
proof -
  let ?c = "example_fresh\<lparr>md_hard_sect_size := 512, bd_size := 134217728\<rparr>"
  let ?img = "md_image example_headers DRBD_V09 LittleEndian md"
  have f: "flex_format (ops example_fresh)" "opens example_fresh example_device" "opens example_fresh w"
    using example_available w(1) by (simp_all add: md_available_def opens_def same_device_def)
  have off: "md_offset (at_offset example_headers ?c) = 0" "ops ?c = DRBD_V09" "md_index ?c = 0"
    by (simp_all add: at_offset_def v07_style_md_get_byte_offset_def example_fresh_def example_ext_cfg_def example_cfg_def)
  have "pread_or_die 4096 0 w = (Inr ?img, w)"
    using w by (simp add: pread_or_die_def kernel_error_def same_device_def example_device_def example_world_def)
  moreover have "large_enough (at_offset example_headers ?c)"
    using off by (simp add: large_enough_def SO_MUCH_def) (simp add: at_offset_def)
  moreover have "md_read example_headers DRBD_V09 LittleEndian ?img = md"
    by (rule super_block.read_image) (simp_all add: rep)
  then have "loads example_cx (at_offset example_headers ?c) ?img c"
    using load valid off by (simp add: loads_def Let_def example_cx_def at_offset_def)
  moreover have "v07_style_md_open_device example_cx example_fresh w = (Inr ?c, w)"
    using open_device_env [OF f(2) w(1), of example_cx] example_open_device by auto
  ultimately have "v07_style_md_open example_cx example_fresh w = (Inr (VALID_MD_FOUND, c), w)"
    unfolding v07_open_found_iff [OF f(1,3)] using off(1)
    by (intro conjI exI [of _ ?c] exI [of _ ?img]) (simp_all add: example_cx_def)
  then show ?thesis using md_open_found_iff [OF f(1)] by blast
qed

lemma example_found: "md_open example_cx example_fresh example_device = (Inr (VALID_MD_FOUND, example_open), example_device)"
proof (rule example_finds [OF example_rep example_valid example_load])
  show "read_bytes (disk example_device) 0 4096 = md_image example_headers DRBD_V09 LittleEndian example_stored"
    using store.rd_wr_same [of "\<lambda>_. 0" 0 example_image] length_example_image
    by (simp add: example_device_def example_image_def)
qed (simp add: same_device_def)

lemma example_writable: "md_writable example_cx example_open example_device"
  by (simp add: md_writable_def example_cx_def example_options_def example_device_def example_world_def example_env_def
      validate_offsets_or_die_def example_open_def example_stored_def example_ext_cfg_def example_cfg_def
      md_min_offset_def md_max_offset_def min_def)

lemma example_stored_md: "stored_md example_cx example_fresh example_device = Some example_stored"
  by (simp add: stored_md_def example_found) (simp add: example_open_def)

lemma example_md [simp]: "cfg_md example_open = example_stored" "flags example_stored = 17"
  "ops example_open = DRBD_V09" "ops example_fresh = DRBD_V09"
  by (simp_all add: example_open_def example_stored_def example_fresh_def example_ext_cfg_def example_cfg_def)

lemma example_cx_simps [simp]: "i_headers example_cx = example_headers" "i_node_id example_cx = 2"
  "dry_run (i_options example_cx) = False" "force (i_options example_cx) = True"
  by (simp_all add: example_cx_def i_node_id_def example_options_def)

theorem state_commands_return_witness:
  "\<exists>w'. meta_outdate example_cx example_fresh example_device = (Inr 0, w')"
  using state_commands_return [OF example_available example_found example_writable, of "[]" "[]"]
  by simp

theorem state_commands_stored_witness:
  "\<exists>w' md. meta_outdate example_cx example_fresh example_device = (Inr 0, w')
    \<and> stored_md example_cx example_fresh w' = Some md \<and> flags md = 1"
proof -
  have "flags example_stored AND MDF_CONSISTENT (i_headers example_cx) \<noteq> 0" by simp
  moreover have "\<not> dry_run (i_options example_cx)" by simp
  ultimately obtain w' where run: "meta_outdate example_cx example_fresh example_device = (Inr 0, w')"
    using outdate_returns [OF example_available example_found example_writable] by auto
  then have "implements example_cx example_fresh
      (\<lambda>md. md\<lparr>flags := flags md AND NOT (MDF_WAS_UP_TO_DATE example_headers)\<rparr>) example_device w'"
    using state_commands_stored [OF example_available, of w' "[]" "[]"] by simp
  then show ?thesis using run implements_stored [of example_cx example_fresh _ example_device w'] by (auto simp: example_stored_md)
qed


lemma example_set_gi: "set_gi example_cx DRBD_V09 ''AA'' example_stored = Inr (example_stored\<lparr>current_uuid := 0xAA\<rparr>)"
proof -
  have n: "scan_number 16 ''AA'' = Some (False, 170, [])"
    by (simp add: scan_number_def isspace_def scan_sign_def scan_base_def digit_value_def)
  have "strtoul 16 ''AA'' = (0xAA, [], False)" by (simp add: strtoul_def n)
  moreover have "strsep (CHR '':'') (Some ''AA'') = (Some ''AA'', None)" by (rule strsep_last) simp
  ultimately have "m_strsep_u64 (Some ''AA'') v = Inr (True, None, 0xAA)" for v by (simp add: m_strsep_u64_def)
  moreover have "m_strsep_u64 None v = Inr (False, None, v)" for v by (simp add: m_strsep_u64_def)
  moreover have "(peers example_stored)[2 := (peers example_stored ! 2)\<lparr>bitmap_uuid := bitmap_uuid (peers example_stored ! 2)\<rparr>]
      = peers example_stored" by simp
  ultimately show ?thesis by (simp add: set_gi_def m_set_v9_uuid_def uuid_members_def example_stored_def)
qed

lemma example_set_gi_returns: "\<exists>w'. meta_set_gi example_cx example_fresh [''AA''] example_device = (Inr 0, w')"
proof -
  let ?md = "example_stored\<lparr>current_uuid := 0xAA\<rparr>"
  have w1: "\<exists>w'. write_and_close example_cx (set_md example_open ?md) w1 = (Inr 0, w')"
    if "disk w1 = disk example_device" "same_device example_device w1" for w1
  proof (rule write_and_close_succeeds [OF example_available example_found example_writable _ _ _ that])
    show "is_valid_md (i_headers example_cx) (ops example_fresh) ?md (md_index example_open) (bd_size example_open) = Inr True"
      using example_valid by (subst is_valid_cong [where md = example_stored])
        (simp_all add: example_open_def example_ext_cfg_def example_cfg_def)
    show "md_rep (i_headers example_cx) (ops example_fresh) ?md" using example_rep by (simp add: md_rep_defs)
  qed (simp add: same_layout_def)
  have "get_gi example_cx DRBD_V09 md = Inr (m_get_v9_uuid example_headers md 2)" for md by (simp add: get_gi_def)
  then show ?thesis
    using w1
    by (simp add: meta_set_gi_def with_md_found [OF example_found] example_set_gi bind_io_def lift_res_def
        say_def confirmed_def confirmed_ex_def same_device_def)
qed

theorem set_gi_stored_witness:
  "\<exists>w'. meta_set_gi example_cx example_fresh [''AA''] example_device = (Inr 0, w')
    \<and> stored_md example_cx example_fresh w' = Some (example_stored\<lparr>current_uuid := 0xAA\<rparr>)"
proof -
  obtain w' where run: "meta_set_gi example_cx example_fresh [''AA''] example_device = (Inr 0, w')"
    using example_set_gi_returns by blast
  show ?thesis
    using run set_gi_stored [OF example_available _ _ run] example_set_gi
    by (auto simp: gi_storable_def flex_format_def example_stored_md)
qed

section \<open>The slots of the concrete device\<close>

lemma example_peers:
  "p < 32 \<Longrightarrow> peers example_stored ! p = zero_peer\<lparr>bitmap_index := -1, bitmap_uuid := if p = 2 then 0 else 8\<rparr>"
  by (simp add: example_stored_def nth_list_update zero_peer_def)

lemma example_length_peers: "length (peers example_stored) = 32"
  by (simp add: example_stored_def)

lemma example_day0: "is_day0_peer example_stored p \<longleftrightarrow> p \<noteq> 0" if "p < 32"
proof -
  have "node_id example_stored = 0" by (simp add: example_stored_def example_ext_cfg_def example_cfg_def zero_md_def)
  then show ?thesis using that by (simp add: is_day0_peer_def example_peers zero_peer_def)
qed

lemma example_day0_id: "day0_peer_id example_headers example_stored = Some 31"
proof -
  have "rev [0..<32] = 31 # rev [0..<31]" by (simp add: upt_rec)
  then show ?thesis using example_day0 [of 31] by (simp add: day0_peer_id_def)
qed

theorem repair_md_converges_witness:
  "\<exists>md'. repair_md example_headers 31 example_stored = (md', True) \<and> bitmap_uuid (peers md' ! 2) = 8
    \<and> bitmap_uuid (peers md' ! 0) = 8 \<and> repair_md example_headers 31 md' = (md', False)"
proof -
  obtain md' d where rep: "repair_md example_headers 31 example_stored = (md', d)" by fastforce
  note * = repair_md_converges [OF example_headers_ok(1) _ example_day0_id rep]
  have "bitmap_uuid (peers example_stored ! 31) = 8" "bitmap_uuid (peers example_stored ! 0) = 8"
    "bitmap_uuid (peers example_stored ! 2) = 0"
    by (simp_all add: example_peers zero_peer_def)
  moreover have nth: "peers md' ! p = (if is_day0_peer example_stored p
      then (peers example_stored ! p)\<lparr>bitmap_uuid := bitmap_uuid (peers example_stored ! 31)\<rparr>
      else peers example_stored ! p)" if "p < 32" for p
    using * that by (simp add: example_length_peers)
  ultimately have u: "bitmap_uuid (peers md' ! 2) = 8" "bitmap_uuid (peers md' ! 0) = 8"
    "bitmap_uuid (peers example_stored ! 2) = 0"
    using nth [of 2] nth [of 0] example_day0 [of 2] by simp_all
  then have "md' \<noteq> example_stored" by auto
  moreover have "d \<longleftrightarrow> md' \<noteq> example_stored" "repair_md example_headers 31 md' = (md', False)"
    using * [unfolded example_headers_simps, OF example_length_peers] by blast+
  ultimately show ?thesis using rep u by simp
qed

theorem slot_commands_stored_witness:
  "\<exists>w' md. meta_forget_peer example_cx example_fresh example_device = (Inr 0, w')
    \<and> stored_md example_cx example_fresh w' = Some md \<and> bitmap_uuid (peers md ! 2) = 8"
proof -
  let ?md = "forget_peer example_headers 2 example_stored"
  have rep: "md_rep example_headers DRBD_V09 ?md" "same_layout example_stored ?md"
    using forget.keeps_rep [of example_cx, OF _ TrueI] forget.keeps_layout [of example_stored example_cx] example_rep
    by simp_all
  have "is_valid_md example_headers DRBD_V09 ?md 0 134217728 = Inr True"
    by (rule forget_peer_valid [OF _ _ example_valid]) (simp_all add: example_length_peers)
  then obtain w' where "write_and_close example_cx (set_md example_open ?md) example_device = (Inr 0, w')"
    using write_and_close_succeeds [OF example_available example_found example_writable, of ?md example_device] rep
    by (auto simp: same_device_def) (auto simp: example_open_def example_ext_cfg_def example_cfg_def)
  then have run: "meta_forget_peer example_cx example_fresh example_device = (Inr 0, w')"
    by (auto simp: meta_forget_peer_def with_md_found [OF example_found] write_and_close_def bind_io_def ret_def
        split: prod.splits sum.splits if_splits)
  have impl: "implements example_cx example_fresh (forget_peer example_headers 2) example_device w'"
    using slot_commands_stored [OF example_available, of w'] run by simp
  have "bitmap_uuid (peers ?md ! 2) = 8"
    using example_day0_id by (simp add: forget_peer_def Let_def example_length_peers nth_list_update example_peers)
  then show ?thesis using run implements_stored [OF impl] by (auto simp: example_stored_md)
qed

end
