(* ===== verification/Apply_Al_Cmd.thy ===== *)
theory Apply_Al_Cmd
  imports Command_Runs
begin

text \<open>
  \<^verbatim>\<open>apply-al\<close> as a whole, \<^verbatim>\<open>meta_apply_al\<close> of \<^verbatim>\<open>user/shared/drbdmeta.c\<close>: the
  composition of opening, replay, marking of the bitmap, initialisation of the log and update of
  the super block. A log that cannot be replayed is left alone; a log that can be replayed
  ends up in the bitmap before it is cleared and before the super block says so.
\<close>

unbundle bit_operations_syntax

section \<open>What it does not touch\<close>

lemma pwrite_env: "pwrite_or_die opts cfg buf off w = (r, w') \<Longrightarrow> same_env w w'"
  by (rule pwrite_result(1))

lemma apply_al_cycle_env:
  assumes "apply_al_cycle h opts cfg bpe np start grp a w = (r, w')"
  shows "same_env w w'"
  using assms
  by (auto simp: apply_al_cycle_def Let_def stop_io_def bind_io_def ret_def lift_res_def
      split: if_splits prod.splits sum.splits dest!: pread_env pwrite_env)

lemma apply_al_loop_env:
  "apply_al_loop h opts cfg bpe np bm_len hot a w = (r, w') \<Longrightarrow> same_env w w'"
proof (induction hot arbitrary: a w r rule: length_induct)
  case (1 hot)
  show ?case
  proof (cases hot)
    case Nil
    then show ?thesis using "1.prems" by (simp add: ret_def)
  next
    case (Cons x xs)
    let ?start = "aligned_pos bpe np x"
    let ?cov = "covered_by_buffer bpe np bm_len ?start xs"
    have IH: "same_env w1 w'" if "apply_al_loop h opts cfg bpe np bm_len ys a1 w1 = (r1, w')" "length ys < length hot"
      for ys a1 w1 r1 using "1.IH" that by blast
    consider "x = -1" | "x \<noteq> -1" "pos_e bpe np x \<ge> bm_len" | "x \<noteq> -1" "pos_e bpe np x < bm_len" by linarith
    then show ?thesis
    proof cases
      case 3
      obtain r1 w1 where cyc: "apply_al_cycle h opts cfg bpe np ?start (x # ?cov) a w = (r1, w1)" by fastforce
      have w1: "same_env w w1" by (rule apply_al_cycle_env [OF cyc])
      show ?thesis
      proof (cases r1)
        case (Inl e)
        then show ?thesis using "1.prems" 3 cyc w1 by (simp add: Cons apply_al_loop.simps Let_def bind_io_def)
      next
        case (Inr a1)
        then have "apply_al_loop h opts cfg bpe np bm_len (drop (length ?cov) xs) a1 w1 = (r, w')"
          using "1.prems" 3 cyc by (simp add: Cons apply_al_loop.simps Let_def bind_io_def)
        from IH [OF this] w1 show ?thesis by (auto simp: Cons intro: same_env_trans)
      qed
    qed (use "1.prems" IH in \<open>simp_all add: Cons apply_al_loop.simps ret_def\<close>)
  qed
qed

lemma apply_al_env: "apply_al H h opts cfg hot w = (r, w') \<Longrightarrow> same_env w w'"
  by (auto simp: apply_al_def Let_def stop_io_def split: if_splits dest: apply_al_loop_env)

lemma initialize_al_env: "initialize_al H h opts cfg w = (r, w') \<Longrightarrow> same_env w w'"
  by (auto simp: initialize_al_def Let_def stop_io_def split: if_splits dest: pwrite_env)

lemma same_env_device: "same_env w w' \<Longrightarrow> same_device w w'"
  by (simp add: same_env_def same_device_def)

lemma marked_inside:
  assumes "extent_bits_ok bpe" and "0 < np" and "t < 8" and "marked bpe np bm_len hot p t"
  shows "p < bm_len"
  using assms(4) covers_in_bitmap [OF assms(1-3)] by (fastforce simp: marked_def applied_extents_def)

lemma byte_eq: "(\<And>t. t < 8 \<Longrightarrow> bit (x :: u8) t = bit y t) \<Longrightarrow> x = y"
  by (rule bit_word_eqI) simp

lemma bits_added_outside:
  assumes "bits_added off P d d'" and "\<And>p t. t < 8 \<Longrightarrow> P p t \<Longrightarrow> p < n" and "i < off \<or> off + n \<le> i"
  shows "d' i = d i"
proof (cases "i < off")
  case False
  then obtain p where p: "i = off + p" using le_Suc_ex not_less by blast
  then have "\<not> P p t" if "t < 8" for t using assms(2,3) that by force
  then show ?thesis using assms(1) unfolding p bits_added_def by (intro byte_eq) blast
qed (use assms(1) in \<open>simp add: bits_added_def\<close>)


section \<open>The result of the replay decides\<close>

definition al_read_size :: "md_cpu \<Rightarrow> nat" where
  "al_read_size md = (let al_size = unat (al_stripes md * al_stripe_size_4k md * 4096)
     in if al_size < buffer_size then al_size else buffer_size)"

text \<open>The log on the device and what its replay gives.\<close>

definition log_replays :: "invocation \<Rightarrow> format_cfg \<Rightarrow> world \<Rightarrow> int \<Rightarrow> u32 list \<Rightarrow> bool \<Rightarrow> bool" where
  "log_replays cx c w err hot reinit \<longleftrightarrow> (\<exists>buf.
     pread_or_die (al_read_size (cfg_md c)) (cfg_al_offset c) w = (Inr buf, w)
     \<and> replay_al (i_headers cx) (i_host cx) c buf (replicate AL_EXTENTS_MAX (-1)) = Inr (err, hot, reinit))"

lemma meta_apply_al_unfold:
  assumes av: "md_available cx cfg w" and found: "md_open cx cfg w = (Inr (VALID_MD_FOUND, c), w)"
    and log: "log_replays cx c w err hot reinit"
  shows "meta_apply_al cx cfg w =
    (let H = i_headers cx; h = i_host cx; opts = i_options cx; need = err > 0 \<and> need_to_apply_al H c
     in (if err < 0 \<and> need_to_apply_al H c then ret (if err = - ENODATA then 1 else 2)
         else bind_io (if need then bind_io (apply_al H h opts c (sort hot)) (\<lambda>_. ret ()) else ret ()) (\<lambda>_.
           bind_io (if reinit \<or> err \<noteq> 0 then initialize_al H h opts c else ret ()) (\<lambda>_.
             update_al_flags cx c need))) w)"
proof -
  have f: "flex_format (ops cfg)" and oc: "ops c = ops cfg"
    using av md_open_found(2) [OF av found] by (simp_all add: md_available_def)
  obtain buf where buf: "pread_or_die (al_read_size (cfg_md c)) (cfg_al_offset c) w = (Inr buf, w)"
    and rep: "replay_al (i_headers cx) (i_host cx) c buf (replicate AL_EXTENTS_MAX (-1)) = Inr (err, hot, reinit)"
    using log by (auto simp: log_replays_def)
  have v: "\<not> format_version (ops cfg) < format_version DRBD_V07" "ops c \<noteq> DRBD_V07" "ops c = DRBD_V08 \<or> ops c = DRBD_V09"
    using f oc by (auto simp: flex_format_def)
  have r: "(reinit \<or> err < 0) \<or> err > 0 \<longleftrightarrow> reinit \<or> err \<noteq> 0" by auto
  show ?thesis
    unfolding meta_apply_al_def Let_def if_not_P [OF v(1)] with_md_found [OF found]
    using buf rep v(2,3)
    by (simp add: al_read_size_def Let_def bind_io_def [of "pread_or_die _ _"] bind_io_def [of "lift_res _"]
        lift_res_def r)
qed

text \<open>
  C26. A log that cannot be replayed is left alone: when the device was primary and crashed, and the
  log holds no valid transaction, or only corrupt ones, \<^verbatim>\<open>apply-al\<close> returns 1 respectively 2
  without having written anything, so that the evidence and the flags stay for the
  administrator.
\<close>

theorem corrupt_log_untouched:
  assumes "md_available cx cfg w" and "md_open cx cfg w = (Inr (VALID_MD_FOUND, c), w)"
    and "log_replays cx c w err hot reinit" and "err < 0" and "need_to_apply_al (i_headers cx) c"
  shows "meta_apply_al cx cfg w = (Inr (if err = - ENODATA then 1 else 2), w)"
  using assms(4,5) by (subst meta_apply_al_unfold [OF assms(1-3)]) (simp add: Let_def ret_def)


section \<open>A log that is applied\<close>

text \<open>The super block after the log was applied.\<close>

definition clean_md :: "headers \<Rightarrow> md_format \<Rightarrow> md_cpu \<Rightarrow> md_cpu" where
  "clean_md H fmt md =
    (let md = md\<lparr>flags := flags md OR MDF_AL_CLEAN H\<rparr>
     in if fmt = DRBD_V08 then md\<lparr>magic := DRBD_MD_MAGIC_08 H\<rparr> else md)"

interpretation clean: in_place_update cx fmt True "clean_md (i_headers cx) fmt" for cx fmt
  by unfold_locales (auto simp: clean_md_def Let_def same_layout_def md_rep_defs)

text \<open>The three areas do not overlap.\<close>

definition areas_apart :: "format_cfg \<Rightarrow> bool" where
  "areas_apart c \<longleftrightarrow>
    (let sb = unat (md_offset c); al = unat (cfg_al_offset c); al_len = 4096 * al_blocks (cfg_md c);
         bm = unat (cfg_bm_offset c); bm_len = bitmap_area c
     in (sb + 4096 \<le> al \<or> al + al_len \<le> sb) \<and> (sb + 4096 \<le> bm \<or> bm + bm_len \<le> sb)
        \<and> (al + al_len \<le> bm \<or> bm + bm_len \<le> al))"

lemma apply_al_phases:
  assumes av: "md_available cx cfg w" and found: "md_open cx cfg w = (Inr (VALID_MD_FOUND, c), w)"
    and log: "log_replays cx c w err hot reinit" and "err > 0" and "need_to_apply_al (i_headers cx) c"
    and run: "meta_apply_al cx cfg w = (Inr 0, w')"
  obtains n w1 w2 where "apply_al (i_headers cx) (i_host cx) (i_options cx) c (sort hot) w = (Inr n, w1)"
    and "initialize_al (i_headers cx) (i_host cx) (i_options cx) c w1 = (Inr (), w2)"
    and "write_and_close cx (set_md c (clean_md (i_headers cx) (ops cfg) (cfg_md c))) w2 = (Inr 0, w')"
proof -
  have f: "flex_format (ops cfg)" and oc: "ops c = ops cfg"
    using av md_open_found(2) [OF av found] by (simp_all add: md_available_def)
  have "update_al_flags cx c True = write_and_close cx (set_md c (clean_md (i_headers cx) (ops cfg) (cfg_md c)))"
    using f oc by (auto simp: update_al_flags_def clean_md_def Let_def flex_format_def)
  then have "bind_io (bind_io (apply_al (i_headers cx) (i_host cx) (i_options cx) c (sort hot)) (\<lambda>_. ret ())) (\<lambda>_.
      bind_io (initialize_al (i_headers cx) (i_host cx) (i_options cx) c) (\<lambda>_.
        write_and_close cx (set_md c (clean_md (i_headers cx) (ops cfg) (cfg_md c))))) w = (Inr 0, w')"
    using run assms(4,5) unfolding meta_apply_al_unfold [OF av found log] by (simp add: Let_def)
  then show ?thesis using that by (auto simp: ret_def elim!: bind_io_InrE)
qed

text \<open>
  C1. \<^verbatim>\<open>apply-al\<close> after a crash, end to end: when the log was replayed and the command returns 0,
  every bit of the bitmap is set that was set before or belongs, in any slot, to a hot extent
  whose words end before the end of the bitmap, and every other bit is as before: an extent
  that ends exactly at the end of the bitmap is skipped like one beyond it. The log on the
  device is clean, the next invocation finds the meta data with \<^verbatim>\<open>MDF_AL_CLEAN\<close> set and otherwise
  unchanged, \<^verbatim>\<open>MDF_PRIMARY_IND\<close> included, and no byte outside of the bitmap, the log and the
  super block changed.
\<close>

theorem applied_log_effect:
  assumes av: "md_available cx cfg w" and found: "md_open cx cfg w = (Inr (VALID_MD_FOUND, c), w)"
    and nd: "\<not> dry_run (i_options cx)"
    and log: "log_replays cx c w err hot reinit" and need: "err > 0" "need_to_apply_al (i_headers cx) c"
    and al: "layout_al_ok (i_headers cx)" "al_fits (cfg_md c)" "0 < al_blocks (cfg_md c)"
    and bm: "al_bitmap_ok c" "unat (cfg_bm_offset c) + bitmap_area c < 2 ^ 64" and apart: "areas_apart c"
    and run: "meta_apply_al cx cfg w = (Inr 0, w')"
  shows "(\<forall>p<bitmap_area c. \<forall>t<8. bit (disk w' (unat (cfg_bm_offset c) + p)) t \<longleftrightarrow>
      bit (disk w (unat (cfg_bm_offset c) + p)) t
      \<or> marked (bits_per_extent c) (unat (max_peers (cfg_md c))) (bitmap_area c) (sort hot) p t)
    \<and> (\<forall>hot'. replay_al_84 (i_headers cx) (i_host cx) (cfg_md c)
        (al_4k_blocks (i_headers cx) (i_host cx)
          (read_bytes (disk w') (unat (cfg_al_offset c)) (4096 * al_blocks (cfg_md c))) (al_blocks (cfg_md c))) hot'
        = Inr (0, hot'))
    \<and> stored_md cx cfg w' = Some (clean_md (i_headers cx) (ops cfg) (cfg_md c))
    \<and> (\<forall>i. (i < unat (cfg_bm_offset c) \<or> unat (cfg_bm_offset c) + bitmap_area c \<le> i)
        \<and> (i < unat (cfg_al_offset c) \<or> unat (cfg_al_offset c) + 4096 * al_blocks (cfg_md c) \<le> i)
        \<and> (i < unat (md_offset c) \<or> unat (md_offset c) + 4096 \<le> i) \<longrightarrow> disk w' i = disk w i)"
proof -
  let ?H = "i_headers cx" and ?h = "i_host cx" and ?o = "i_options cx"
  let ?sb = "unat (md_offset c)" and ?al = "unat (cfg_al_offset c)" and ?n = "4096 * al_blocks (cfg_md c)"
  let ?bm = "unat (cfg_bm_offset c)" and ?m = "bitmap_area c"
  let ?P = "marked (bits_per_extent c) (unat (max_peers (cfg_md c))) ?m (sort hot)"
  have sz: "array_sizes_ok ?H" and oc: "ops c \<in> {DRBD_V08, DRBD_V09}"
    using av md_open_found(2) [OF av found] by (auto simp: md_available_def flex_format_def)
  obtain k w1 w2 where w1: "apply_al ?H ?h ?o c (sort hot) w = (Inr k, w1)"
    and w2: "initialize_al ?H ?h ?o c w1 = (Inr (), w2)"
    and wr: "write_and_close cx (set_md c (clean_md ?H (ops cfg) (cfg_md c))) w2 = (Inr 0, w')"
    by (rule apply_al_phases [OF av found log need run])
  have marks: "bits_added ?bm ?P (disk w) (disk w1)"
    using apply_al_loop_marks [OF bits_ok(1,2) [OF bm(1)] nd bm(2)] w1 apply_al_eq_loop [OF bm(1) sz] by simp
  have in_bm: "p < ?m" if "t < 8" "?P p t" for p t using marked_inside [OF bits_ok(1,2) [OF bm(1)] that] .
  obtain buf where d2: "disk w2 = write_bytes (disk w1) ?al buf" and len: "length buf = ?n"
    and clean: "\<forall>hot'. replay_al_84 ?H ?h (cfg_md c) (al_4k_blocks ?H ?h buf (al_blocks (cfg_md c))) hot' = Inr (0, hot')"
    by (rule initialize_al_disk [OF w2 al(1) nd oc al(2,3)])
  have dev: "same_device w w2"
    using apply_al_env [OF w1] initialize_al_env [OF w2] by (auto dest: same_env_trans intro: same_env_device)
  have sb_same: "disk w2 i = disk w i" if "?sb \<le> i" "i < ?sb + 4096" for i
    using apart that len bits_added_outside [OF marks in_bm, where i = i]
    by (auto simp: d2 areas_apart_def Let_def write_bytes_def)
  then have "read_bytes (disk w2) ?sb 4096 = read_bytes (disk w) ?sb 4096" by (simp add: read_bytes_def)
  then have found2: "md_open cx cfg w2 = (Inr (VALID_MD_FOUND, c), w2)" by (rule md_open_same_block [OF av found dev])
  have av2: "md_available cx cfg w2" using av dev by (simp add: md_available_def opens_def same_device_def)
  obtain c3 w3 where w3: "md_cpu_to_disk cx (set_md c (clean_md ?H (ops cfg) (cfg_md c))) w2 = (Inr (0, c3), w3)"
    and w': "disk w' = disk w3" "same_device w3 w'" using wr by (rule write_and_close_0)
  note st = clean.write_stored [OF av2 refl TrueI nd found2 w3 w']
  then obtain bs where d3: "disk w' = write_bytes (disk w2) ?sb bs" "length bs = 4096" using w' by auto
  have "read_bytes (disk w') ?al ?n = read_bytes (disk w2) ?al ?n"
    unfolding d3(1) using apart d3(2) by (intro store.rd_wr_disjoint) (auto simp: areas_apart_def Let_def)
  also have "\<dots> = buf" using store.rd_wr_same [of "disk w1" ?al buf] len d2 by simp
  finally have log': "read_bytes (disk w') ?al ?n = buf" .
  have "disk w' (?bm + p) = disk w1 (?bm + p)" if "p < ?m" for p
    using apart that d3(2) len by (auto simp: d3(1) d2 areas_apart_def Let_def write_bytes_def)
  then have "bit (disk w' (?bm + p)) t \<longleftrightarrow> bit (disk w (?bm + p)) t \<or> ?P p t" if "p < ?m" "t < 8" for p t
    using marks that by (simp add: bits_added_def)
  moreover have "disk w' i = disk w i"
    if "i < ?bm \<or> ?bm + ?m \<le> i" "i < ?al \<or> ?al + ?n \<le> i" "i < ?sb \<or> ?sb + 4096 \<le> i" for i
    using that d3(2) len bits_added_outside [OF marks in_bm that(1)] by (auto simp: d3(1) d2 write_bytes_def)
  ultimately show ?thesis using log' clean st(1) by simp
qed


section \<open>A concrete crash\<close>

text \<open>
  The device of a crashed primary, once with an empty log area and once with a log in
  persistent memory format that names extent 3.
\<close>

definition crash_md :: md_cpu where
  "crash_md = example_stored\<lparr>flags := 19, al_nr_extents := 1, effective_size := 262144\<rparr>"

definition crash_image :: bytes where
  "crash_image = md_image example_headers DRBD_V09 LittleEndian crash_md"

definition crash_open :: format_cfg where
  "crash_open = example_ext_cfg\<lparr>cfg_md := crash_md, bits_set := 0xFFFFFFFF, cfg_bm_bytes := 4096,
     max_usable_sect := 8587575296\<rparr>"

definition crash_empty :: world where
  "crash_empty = example_world\<lparr>disk := write_bytes (\<lambda>_. 0) 0 crash_image\<rparr>"

definition crash_device :: world where
  "crash_device = crash_empty\<lparr>disk := write_bytes (write_bytes (disk crash_empty) 4096 [0x6a, 0xad, 0x6b, 0x74]) 8192 [0, 0, 0, 3]\<rparr>"

lemma crash_rep: "md_rep example_headers DRBD_V09 crash_md"
  using example_rep by (simp add: md_rep_defs crash_md_def)

lemma length_crash_image: "length crash_image = 4096"
  unfolding crash_image_def by (rule super_block.length_image) (simp_all add: crash_rep)

lemma crash_valid: "is_valid_md example_headers DRBD_V09 crash_md 0 134217728 = Inr True"
  using example_valid by (subst is_valid_cong [where md = example_stored]) (simp_all add: crash_md_def)

lemma crash_load:
  "load_cfg example_headers (at_offset example_headers (example_fresh\<lparr>md_hard_sect_size := 512, bd_size := 134217728\<rparr>))
    crash_md = Inr crash_open"
  by (simp add: load_cfg_def at_offset_def v07_style_md_get_byte_offset_def example_fresh_def example_stored_def
      example_ext_cfg_def example_cfg_def zero_md_def Let_def max_usable_sectors_def clip_eq bm_bytes_def crash_md_def
      is_power_of_2_def crash_open_def assert_res_def ALIGN_def min_def)

lemma crash_found:
  "md_open example_cx example_fresh crash_empty = (Inr (VALID_MD_FOUND, crash_open), crash_empty)"
  "md_open example_cx example_fresh crash_device = (Inr (VALID_MD_FOUND, crash_open), crash_device)"
proof -
  have r: "read_bytes (disk crash_empty) 0 4096 = crash_image"
    using store.rd_wr_same [of "\<lambda>_. 0" 0 crash_image] length_crash_image by (simp add: crash_empty_def)
  moreover have "read_bytes (disk crash_device) 0 4096 = read_bytes (disk crash_empty) 0 4096"
    by (simp add: crash_device_def store.rd_wr_disjoint)
  moreover have "same_device example_device crash_empty" "same_device example_device crash_device"
    by (simp_all add: same_device_def example_device_def crash_device_def crash_empty_def)
  ultimately show "md_open example_cx example_fresh crash_empty = (Inr (VALID_MD_FOUND, crash_open), crash_empty)"
    "md_open example_cx example_fresh crash_device = (Inr (VALID_MD_FOUND, crash_open), crash_device)"
    using example_finds [OF crash_rep crash_valid crash_load] by (simp_all add: crash_image_def)
qed

lemma crash_available: "md_available example_cx example_fresh crash_empty" "md_available example_cx example_fresh crash_device"
  using example_available by (simp_all add: md_available_def opens_def crash_device_def crash_empty_def example_device_def)

lemma crash_open_simps [simp]: "cfg_md crash_open = crash_md" "ops crash_open = DRBD_V09" "cfg_al_offset crash_open = 4096"
  "md_offset crash_open = 0" "cfg_bm_offset crash_open = 36864"
  by (simp_all add: crash_open_def example_ext_cfg_def example_cfg_def)

lemma crash_md_simps [simp]: "al_stripes crash_md = 1" "al_stripe_size_4k crash_md = 8" "flags crash_md = 19"
  "al_nr_extents crash_md = 1" "magic crash_md = DRBD_MD_MAGIC_09 example_headers" "bm_bytes_per_bit crash_md = 4096"
  "max_peers crash_md = 1" "md_size_sect crash_md = 262144" "al_offset crash_md = 8" "bm_offset crash_md = 72"
  by (simp_all add: crash_md_def example_stored_def example_ext_cfg_def example_cfg_def)

lemma crash_need: "need_to_apply_al example_headers crash_open"
  by (simp add: need_to_apply_al_def)

lemma crash_read_size: "al_read_size crash_md = 32768"
  by (simp add: al_read_size_def buffer_size_def)


lemma example_pmem:
  "al_on_pmem_magic example_headers h bs = fst (get32 h bs)"
  "al_on_pmem_slot example_headers h bs i = fst (get32 h (drop (4096 + 4 * i) bs))"
  by (simp_all add: example_headers_def)

lemma zero_blocks:
  assumes "layout_al_ok H"
  shows "al_4k_blocks H h (replicate (n * 4096) 0) n = replicate n (zero_al H)"
proof -
  have "wf_al H (zero_al H)" by (simp add: wf_al_def zero_al_def)
  then have "al_4k_blocks H h (concat (map (put_al H h) (replicate n (zero_al H)))) (length (replicate n (zero_al H)))
      = replicate n (zero_al H)"
    by (intro al_4k_blocks_concat [OF assms]) auto
  moreover have "put_al H h (zero_al H) = replicate 4096 0" using assms by (simp add: layout_al_ok_def)
  then have "concat (map (put_al H h) (replicate n (zero_al H))) = replicate (n * 4096) 0"
    by (simp only: map_replicate) (induction n, simp_all add: replicate_add)
  ultimately show ?thesis by simp
qed

lemma zero_al_invalid:
  assumes "DRBD_AL_MAGIC H \<noteq> 0"
  shows "\<not> a_is_valid (fst (v84_al_disk_to_cpu H h (zero_al H)))"
proof -
  have "be32_to_cpu h 0 = 0" by (cases h) (simp_all add: swab32_def)
  then show ?thesis using assms by (simp add: v84_al_disk_to_cpu_def Let_def zero_al_def)
qed

lemma zero_log_replay:
  assumes "layout_al_ok H" and "DRBD_AL_MAGIC H \<noteq> 0" and "al_fits md" and "al_blocks md = n"
  shows "replay_al_84 H h md (replicate n (zero_al H)) hot = Inr (- ENODATA, hot)"
proof -
  let ?ds = "replicate n (zero_al H)"
  obtain d where dec: "al_decode H h md ?ds = Inr (map (ring_transaction H h md ?ds) [0..<n], d)"
    using al_decode_eq [OF assms(3), of ?ds H h] assms(4) by auto
  have "ring_transaction H h md ?ds b = fst (v84_al_disk_to_cpu H h (zero_al H))" if "b < n" for b
    using stripe_slot_less [of b "unat (al_stripes md)" "unat (al_stripe_size_4k md)"] that assms(4)
    by (simp add: ring_transaction_def al_blocks_def)
  then have "filter a_is_valid (map (ring_transaction H h md ?ds) [0..<n]) = []"
    using zero_al_invalid [OF assms(2)] by (simp add: filter_empty_conv)
  then show ?thesis by (simp add: replay_al_84_def dec Let_def case_prod_beta)
qed

lemma crash_empty_log: "log_replays example_cx crash_open crash_empty (- ENODATA) (replicate AL_EXTENTS_MAX (-1)) False"
proof -
  let ?buf = "replicate 32768 (0 :: u8)"
  have fits: "al_fits crash_md" "al_blocks crash_md = 8" by (simp_all add: al_fits_def al_blocks_def)
  have "read_bytes (disk crash_empty) 4096 32768 = ?buf"
    by (rule nth_equalityI) (simp_all add: read_bytes_def crash_empty_def write_bytes_def length_crash_image del: upt_rec_numeral)
  then have rd: "pread_or_die 32768 4096 crash_empty = (Inr ?buf, crash_empty)"
    by (simp add: pread_or_die_def kernel_error_def not_bit_63) (simp add: crash_empty_def example_world_def)
  have blocks: "al_4k_blocks example_headers LittleEndian ?buf 8 = replicate 8 (zero_al example_headers)"
    using zero_blocks [OF example_layout_al_ok, of LittleEndian 8] by simp
  have "al_on_pmem_magic example_headers LittleEndian ?buf = 0"
    by (simp add: example_pmem get32_def replicate_4)
  moreover have "be32_to_cpu LittleEndian 0 = 0" by (simp add: swab32_def)
  moreover have "i_host example_cx = LittleEndian" by (simp add: example_cx_def)
  ultimately show ?thesis
    using rd blocks zero_log_replay [OF example_layout_al_ok _ fits, of LittleEndian]
    by (simp add: log_replays_def crash_read_size replay_al_def Let_def)
qed

theorem corrupt_log_untouched_witness: "meta_apply_al example_cx example_fresh crash_empty = (Inr 1, crash_empty)"
proof -
  have "- ENODATA < 0" by (simp add: ENODATA_def)
  from corrupt_log_untouched [OF crash_available(1) crash_found(1) crash_empty_log this] crash_need show ?thesis by simp
qed


lemma crash_bytes:
  "disk crash_device 4096 = 0x6a" "disk crash_device 4097 = 0xad" "disk crash_device 4098 = 0x6b"
  "disk crash_device 4099 = 0x74" "disk crash_device 8192 = 0" "disk crash_device 8193 = 0"
  "disk crash_device 8194 = 0" "disk crash_device 8195 = 3"
  by (simp_all add: crash_device_def write_bytes_def)

lemma take_read_bytes: "m \<le> n \<Longrightarrow> take m (drop k (read_bytes d off (k + n))) = read_bytes d (off + k) m"
  by (rule nth_equalityI) (simp_all add: read_bytes_def add.assoc)

lemma read_4: "read_bytes d off 4 = [d off, d (off + 1), d (off + 2), d (off + 3)]"
  by (simp add: read_bytes_def numeral_eq_Suc)

definition crash_hot :: "u32 list" where
  "crash_hot = (replicate AL_EXTENTS_MAX (-1))[0 := 3]"

lemma crash_log: "log_replays example_cx crash_open crash_device 1 crash_hot False"
proof -
  let ?buf = "read_bytes (disk crash_device) 4096 32768"
  have rd: "pread_or_die 32768 4096 crash_device = (Inr ?buf, crash_device)"
    by (simp add: pread_or_die_def kernel_error_def not_bit_63) (simp add: crash_device_def crash_empty_def example_world_def)
  have "take 4 ?buf = [0x6a, 0xad, 0x6b, 0x74]" "take 4 (drop 4096 ?buf) = [0, 0, 0, 3]"
    using take_read_bytes [of 4 32768 0 "disk crash_device" 4096] take_read_bytes [of 4 28672 4096 "disk crash_device" 4096]
    by (simp_all add: read_4 crash_bytes)
  then have pm: "be32_to_cpu LittleEndian (al_on_pmem_magic example_headers LittleEndian ?buf) = 0x6aad6b74"
    "be32_to_cpu LittleEndian (al_on_pmem_slot example_headers LittleEndian ?buf 0) = 3"
    by (simp_all add: example_pmem get32_def swab32_def)
  have "replay_al_pmem example_headers LittleEndian crash_md ?buf (replicate AL_EXTENTS_MAX (-1)) = Inr (1, crash_hot)"
    by (simp add: replay_al_pmem_def AL_EXTENTS_MAX_def fill_array_def pm crash_hot_def
        del: be32_to_cpu.simps)
  moreover have "i_host example_cx = LittleEndian" by (simp add: example_cx_def)
  ultimately show ?thesis
    using rd pm by (simp add: log_replays_def crash_read_size replay_al_def Let_def del: be32_to_cpu.simps)
qed

lemma replicate_update: "(replicate (Suc n) y)[0 := x] = x # replicate n y"
  by simp

lemma crash_sorted: "sort crash_hot = 3 # replicate 65533 (-1)"
proof -
  have n: "AL_EXTENTS_MAX = Suc 65533" by (simp add: AL_EXTENTS_MAX_def)
  have h: "crash_hot = 3 # replicate 65533 (-1)"
    unfolding crash_hot_def n replicate_update ..
  have "sorted ((3 :: u32) # replicate n (-1))" for n by (induction n) auto
  then show ?thesis unfolding h by (rule sorted_sort_id)
qed


lemma crash_fits: "al_fits crash_md" "al_blocks crash_md = 8" "al_bitmap_ok crash_open" "bitmap_area crash_open = 4096"
  "bits_per_extent crash_open = 1024"
proof -
  show "al_fits crash_md" "al_blocks crash_md = 8" by (simp_all add: al_fits_def al_blocks_def)
  show "bitmap_area crash_open = 4096"
    by (simp add: bitmap_area_def crash_open_def example_ext_cfg_def example_cfg_def ALIGN_def)
  have "unat (bm_bytes_per_bit (cfg_md crash_open)) = 2 ^ 12" by simp
  then show "al_bitmap_ok crash_open" unfolding al_bitmap_ok_def by (intro conjI bexI [of _ 12]) simp_all
  show "bits_per_extent crash_open = 1024" using example_al_ok(2)
    by (simp add: bits_per_extent_def) (simp add: example_ext_cfg_def example_cfg_def)
qed

lemma crash_offsets: "md_min_offset crash_open = 0" "md_max_offset crash_open = 134217728"
  "wipe_fixed crash_open = 0" "wipe_flex crash_open = 0" "wipe_resize crash_open = 0"
  by (simp_all add: md_min_offset_def md_max_offset_def min_def)
    (simp_all add: crash_open_def example_ext_cfg_def example_cfg_def)

lemma crash_accessible: "bitmap_accessible crash_open (align_up (bitmap_area crash_open) 4096) crash_device"
  unfolding bitmap_accessible_def crash_offsets crash_fits(4)
  by (simp add: align_up_def) (simp add: crash_device_def crash_empty_def example_world_def)

lemma crash_apply:
  obtains n w1 where "apply_al example_headers LittleEndian (i_options example_cx) crash_open (sort crash_hot) crash_device = (Inr n, w1)"
proof -
  have "sorted (takeWhile (\<lambda>x. x \<noteq> -1) (sort crash_hot))" by (simp add: crash_sorted)
  then show ?thesis
    using that apply_al_returns [OF crash_fits(3) example_headers_ok(1) _ crash_accessible, of "i_options example_cx"]
    by (metis example_cx_simps(3))
qed

lemma crash_initialize:
  assumes "same_env crash_device w1"
  obtains w2 where "initialize_al example_headers LittleEndian (i_options example_cx) crash_open w1 = (Inr (), w2)"
proof -
  let ?buf = "concat (map (put_al example_headers LittleEndian) (initial_al_blocks example_headers LittleEndian 8))"
  have len: "length ?buf = 32768"
    using length_al_blocks [OF example_layout_al_ok, of "initial_al_blocks example_headers LittleEndian 8" LittleEndian]
    by (simp add: initial_al_blocks_sealed wf_initialized del: example_headers_simps)
  have "dev_size w1 = 134217728" "io_fails w1 = (\<lambda>_ _. False)"
    using assms by (simp_all add: same_env_def crash_device_def crash_empty_def example_world_def)
  then obtain w2 where "pwrite_or_die (i_options example_cx) crash_open ?buf 4096 w1 = (Inr (), w2)"
    using pwrite_ok [of "i_options example_cx" crash_open ?buf 4096 w1] len
    by (simp add: validate_offsets_or_die_def crash_offsets kernel_error_def not_bit_63)
  then show ?thesis
    using that by (simp add: initialize_al_def al_mx_def buffer_size_def Let_def del: example_headers_simps)
qed


lemma crash_apart: "areas_apart crash_open"
  by (simp add: areas_apart_def Let_def crash_fits)

lemma crash_run: "\<exists>w'. meta_apply_al example_cx example_fresh crash_device = (Inr 0, w')"
proof -
  let ?clean = "clean_md example_headers DRBD_V09 crash_md"
  have host: "i_host example_cx = LittleEndian" by (simp add: example_cx_def)
  obtain n w1 where w1: "apply_al example_headers LittleEndian (i_options example_cx) crash_open (sort crash_hot) crash_device = (Inr n, w1)"
    by (rule crash_apply)
  obtain w2 where w2: "initialize_al example_headers LittleEndian (i_options example_cx) crash_open w1 = (Inr (), w2)"
    by (rule crash_initialize [OF apply_al_env [OF w1]])
  have range: "unat (cfg_bm_offset crash_open) + bitmap_area crash_open < 2 ^ 64" by (simp add: crash_fits)
  have marks: "bits_added 36864 (marked 1024 1 4096 (sort crash_hot)) (disk crash_device) (disk w1)"
    using apply_al_loop_marks [OF bits_ok(1,2) [OF crash_fits(3)] _ range, of "i_options example_cx"] w1
      apply_al_eq_loop [OF crash_fits(3) example_headers_ok(1)] by (simp add: crash_fits)
  obtain buf where d2: "disk w2 = write_bytes (disk w1) 4096 buf" and len: "length buf = 32768"
    using initialize_al_disk [OF w2 example_layout_al_ok] by (auto simp: crash_fits)
  have sb: "disk w2 i = disk crash_device i" if "i < 4096" for i
    using marks that by (simp add: d2 write_bytes_def bits_added_def)
  have dev: "same_device crash_device w2"
    using apply_al_env [OF w1] initialize_al_env [OF w2] by (auto dest: same_env_trans intro: same_env_device)
  have "read_bytes (disk w2) (unat (md_offset crash_open)) 4096 = read_bytes (disk crash_device) (unat (md_offset crash_open)) 4096"
    using sb by (intro nth_equalityI) (simp_all add: read_bytes_def)
  then have found2: "md_open example_cx example_fresh w2 = (Inr (VALID_MD_FOUND, crash_open), w2)"
    by (rule md_open_same_block [OF crash_available(2) crash_found(2) dev])
  have av2: "md_available example_cx example_fresh w2"
    using crash_available(2) dev by (simp add: md_available_def opens_def same_device_def)
  have "\<not> close_fails (env w2)"
    using dev by (simp add: same_device_def crash_device_def crash_empty_def example_world_def example_env_def)
  then have wr: "md_writable example_cx crash_open w2"
    by (simp add: md_writable_def validate_offsets_or_die_def crash_offsets)
  have "is_valid_md example_headers DRBD_V09 ?clean 0 134217728 = Inr True"
    using crash_valid by (subst is_valid_cong [where md = crash_md]) (simp_all add: clean_md_def Let_def)
  then obtain w' where w': "write_and_close example_cx (set_md crash_open ?clean) w2 = (Inr 0, w')"
    using write_and_close_succeeds [OF av2 found2 wr, of ?clean w2] clean.keeps_layout [of crash_md example_cx DRBD_V09]
      clean.keeps_rep [of example_cx DRBD_V09 crash_md] crash_rep
    by (auto simp: same_device_def) (auto simp: crash_open_def example_ext_cfg_def example_cfg_def)
  have "update_al_flags example_cx crash_open True = write_and_close example_cx (set_md crash_open ?clean)"
    by (simp add: update_al_flags_def clean_md_def Let_def)
  then show ?thesis
    using w1 w2 w' crash_need unfolding meta_apply_al_unfold [OF crash_available(2) crash_found(2) crash_log]
    by (simp add: Let_def bind_io_def ret_def host)
qed

theorem applied_log_effect_witness:
  "\<exists>w'. meta_apply_al example_cx example_fresh crash_device = (Inr 0, w')
    \<and> \<not> bit (disk crash_device (36864 + 3 * 128)) 4 \<and> bit (disk w' (36864 + 3 * 128)) 4
    \<and> stored_md example_cx example_fresh w' = Some (crash_md\<lparr>flags := 147\<rparr>)"
proof -
  obtain w' where run: "meta_apply_al example_cx example_fresh crash_device = (Inr 0, w')" using crash_run by blast
  have nd: "\<not> dry_run (i_options example_cx)" by simp
  have "layout_al_ok (i_headers example_cx)" by simp
  moreover have "need_to_apply_al (i_headers example_cx) crash_open" using crash_need by simp
  moreover have "0 < al_blocks (cfg_md crash_open)" "al_fits (cfg_md crash_open)" by (simp_all add: crash_fits)
  moreover have "unat (cfg_bm_offset crash_open) + bitmap_area crash_open < 2 ^ 64" by (simp add: crash_fits)
  ultimately have eff: "\<forall>p<4096. \<forall>t<8. bit (disk w' (36864 + p)) t \<longleftrightarrow>
      bit (disk crash_device (36864 + p)) t \<or> marked 1024 1 4096 (sort crash_hot) p t"
    "stored_md example_cx example_fresh w' = Some (clean_md example_headers DRBD_V09 crash_md)"
    using applied_log_effect [OF crash_available(2) crash_found(2) nd crash_log zero_less_one _ _ _ _ crash_fits(3) _ crash_apart run]
    by (simp_all add: crash_fits)
  have "marked 1024 1 4096 (sort crash_hot) (3 * 128) 4"
    by (simp add: crash_sorted marked_def enr_to_bit_range_def Let_def covers_def logical_bit_def)
  moreover have "disk crash_device (36864 + 3 * 128) = 0"
    by (simp add: crash_device_def crash_empty_def write_bytes_def length_crash_image)
  moreover have "clean_md example_headers DRBD_V09 crash_md = crash_md\<lparr>flags := 147\<rparr>" by (simp add: clean_md_def)
  ultimately show ?thesis using run eff(1) [rule_format, of "3 * 128" 4] eff(2) by simp
qed

end
