(* ===== verification/Escape.thy ===== *)
theory Escape
  imports Cstring
begin

text \<open>
  The quoting functions of \<^verbatim>\<open>user/shared/shared_tool.c\<close>: \<^verbatim>\<open>shell_escape\<close> for commands,
  \<^verbatim>\<open>esc\<close> and \<^verbatim>\<open>unescape\<close> for the configuration language, and \<^verbatim>\<open>esc_xml\<close>. All
  write to a static buffer of 1024 bytes; the position in the buffer is part of the loops.
  Shown is that the reader gets back what was quoted and that the buffer is large enough for
  everything that is written, the terminating zero included.
\<close>

definition E_SYNTAX :: nat where "E_SYNTAX = 2"

abbreviation backslash :: char where "backslash \<equiv> CHR 0x5C"
abbreviation dquote :: char where "dquote \<equiv> CHR 0x22"
abbreviation squote :: char where "squote \<equiv> CHR 0x27"
abbreviation newline :: char where "newline \<equiv> CHR 0x0A"

section \<open>Definitions\<close>

definition clean_char :: "char \<Rightarrow> bool" where
  "clean_char c \<longleftrightarrow> c \<in> set ''%+-./:=@_'' \<or> isdigit c
     \<or> 65 \<le> code c \<and> code c \<le> 90 \<or> 97 \<le> code c \<and> code c \<le> 122"

text \<open>\<open>n\<close> is the position in the buffer; the loop ends at 1022.\<close>

fun shell_escape_loop :: "nat \<Rightarrow> string \<Rightarrow> string" where
  "shell_escape_loop n [] = []"
| "shell_escape_loop n (c # cs) =
    (if n \<ge> 1024 - 2 then []
     else if clean_char c then c # shell_escape_loop (n + 1) cs
     else backslash # c # shell_escape_loop (n + 2) cs)"

definition shell_escape :: "string option \<Rightarrow> string" where
  "shell_escape s = (case s of None \<Rightarrow> [] | Some s \<Rightarrow> shell_escape_loop 0 s)"

fun unescape :: "string \<Rightarrow> string" where
  "unescape [] = []"
| "unescape (c # cs) =
    (if c = dquote then unescape cs
     else if c = backslash then (case cs of [] \<Rightarrow> [] | d # ds \<Rightarrow> d # unescape ds)
     else c # unescape cs)"

text \<open>The pattern \<^verbatim>\<open>*[!a-zA-Z0-9/._-]*\<close> matches a string with another character.\<close>

definition plain_char :: "char \<Rightarrow> bool" where
  "plain_char c \<longleftrightarrow> c \<in> set ''/._-'' \<or> isdigit c
     \<or> 65 \<le> code c \<and> code c \<le> 90 \<or> 97 \<le> code c \<and> code c \<le> 122"

fun esc_loop :: "nat \<Rightarrow> string \<Rightarrow> string res" where
  "esc_loop n [] = Inr []"
| "esc_loop n (c # cs) =
    (let special = (c = dquote \<or> c = backslash); n = (if special then n + 1 else n) in
     if n \<ge> 1022 then Inl (Exit E_SYNTAX)
     else if n + 1 \<ge> 1022 then Inl (Exit E_SYNTAX)
     else bind_res (esc_loop (n + 1) cs) (\<lambda>r. Inr (if special then backslash # c # r else c # r)))"

definition esc :: "string option \<Rightarrow> string res" where
  "esc str = (case str of
     None \<Rightarrow> Inr [dquote, dquote]
   | Some s \<Rightarrow>
       if s = [] then Inr [dquote, dquote]
       else if \<not> list_all plain_char s \<or> length s > 80
       then bind_res (esc_loop 1 s) (\<lambda>r. Inr (dquote # r @ [dquote]))
       else Inr s)"

definition xml_encode_special :: "char \<Rightarrow> string option" where
  "xml_encode_special c =
    (if c = squote then Some ''&apos;''
     else if c = dquote then Some ''&quot;''
     else if c = CHR ''<'' then Some ''&lt;''
     else if c = CHR ''>'' then Some ''&gt;''
     else if c = CHR ''&'' then Some ''&amp;''
     else None)"

fun esc_xml_loop :: "nat \<Rightarrow> string \<Rightarrow> string res" where
  "esc_xml_loop n [] = Inr []"
| "esc_xml_loop n (c # cs) = (case xml_encode_special c of
     Some repl \<Rightarrow>
       if n \<ge> 1024 - 1 - length repl then Inl (Exit E_SYNTAX)
       else bind_res (esc_xml_loop (n + length repl) cs) (\<lambda>r. Inr (repl @ r))
   | None \<Rightarrow>
       if n + 1 \<ge> 1022 then Inl (Exit E_SYNTAX)
       else bind_res (esc_xml_loop (n + 1) cs) (\<lambda>r. Inr (c # r)))"

definition esc_xml :: "string option \<Rightarrow> string res" where
  "esc_xml str = (case str of
     None \<Rightarrow> Inr []
   | Some s \<Rightarrow>
       if s = [] then Inr []
       else if dquote \<in> set s \<or> squote \<in> set s \<or> CHR ''<'' \<in> set s \<or> CHR ''>'' \<in> set s
         \<or> CHR ''&'' \<in> set s \<or> backslash \<in> set s
       then esc_xml_loop 0 s
       else Inr s)"

section \<open>The readers\<close>

text \<open>
  How a shell reads an unquoted word: a backslash takes the next character literally, except
  that a backslash in front of a newline is dropped together with it.
\<close>

fun shell_word :: "string \<Rightarrow> string" where
  "shell_word [] = []"
| "shell_word (c # cs) =
    (if c = backslash then (case cs of [] \<Rightarrow> [c] | d # ds \<Rightarrow> if d = newline then shell_word ds else d # shell_word ds)
     else c # shell_word cs)"

text \<open>The predefined entities of XML.\<close>

fun xml_decode :: "string \<Rightarrow> string" where
  "xml_decode [] = []"
| "xml_decode (c # cs) =
    (if take 6 (c # cs) = ''&apos;'' then squote # xml_decode (drop 5 cs)
     else if take 6 (c # cs) = ''&quot;'' then dquote # xml_decode (drop 5 cs)
     else if take 4 (c # cs) = ''&lt;'' then CHR ''<'' # xml_decode (drop 3 cs)
     else if take 4 (c # cs) = ''&gt;'' then CHR ''>'' # xml_decode (drop 3 cs)
     else if take 5 (c # cs) = ''&amp;'' then CHR ''&'' # xml_decode (drop 4 cs)
     else c # xml_decode cs)"

section \<open>A quoting function and its reader\<close>

text \<open>
  What the users of a quoting function rely on: what it returns reads back as the original, and
  where a buffer is always used, it fits. So different texts never get the same quoted form, and quoting what was
  read gives the same form again.
\<close>

locale quoting =
  fixes enc :: "string \<Rightarrow> string res" and dec :: "string \<Rightarrow> string"
  assumes dec_enc: "enc s = Inr t \<Longrightarrow> dec t = s"
begin

lemma inj: "\<lbrakk>enc s = Inr t; enc s' = Inr t\<rbrakk> \<Longrightarrow> s = s'"
  using dec_enc by metis

lemma stable: "enc s = Inr t \<Longrightarrow> enc (dec t) = Inr t"
  using dec_enc by simp

end

locale buffered_quoting = quoting +
  assumes fits: "enc s = Inr t \<Longrightarrow> length t + 1 \<le> 1024"
begin

lemma quoted:
  assumes "enc s = Inr t"
  shows "dec t = s \<and> length t + 1 \<le> 1024 \<and> enc (dec t) = Inr t \<and> (\<forall>s'. enc s' = Inr t \<longrightarrow> s' = s)"
  using assms dec_enc fits stable inj by blast

end

section \<open>Configuration strings\<close>

lemma esc_loop_result:
  "esc_loop n s = Inr r \<Longrightarrow> n + length r \<le> 1021 \<or> s = [] \<and> r = []"
  by (induction s arbitrary: n r) (fastforce simp: Let_def bind_res_Inr_iff split: if_splits)+

lemma unescape_esc_loop: "esc_loop n s = Inr r \<Longrightarrow> unescape (r @ [dquote]) = s"
  by (induction s arbitrary: n r) (auto simp: Let_def bind_res_Inr_iff split: if_splits)

lemma unescape_plain: "list_all plain_char s \<Longrightarrow> unescape s = s"
  by (induction s) (auto simp: plain_char_def isdigit_def)

interpretation config: buffered_quoting "\<lambda>s. esc (Some s)" unescape
proof
  fix s t assume "esc (Some s) = Inr t"
  then show "unescape t = s" "length t + 1 \<le> 1024"
    using unescape_plain unescape_esc_loop [of 1 s] esc_loop_result [of 1 s]
    by (auto simp: esc_def bind_res_Inr_iff split: if_splits)
qed

lemma esc_loop_ok: "n + 2 * length s < 1021 \<Longrightarrow> \<exists>r. esc_loop n s = Inr r"
proof (induction s arbitrary: n)
  case (Cons c cs)
  have "\<exists>r. esc_loop (n + 1) cs = Inr r" "\<exists>r. esc_loop (n + 2) cs = Inr r" using Cons by simp_all
  with Cons.prems show ?case by (auto simp: Let_def)
qed simp

section \<open>XML\<close>

lemma esc_xml_loop_result: "esc_xml_loop n s = Inr r \<Longrightarrow> n + length r \<le> 1023 \<or> s = [] \<and> r = []"
proof (induction s arbitrary: n r)
  case (Cons c cs)
  show ?case
  proof (cases "xml_encode_special c")
    case None
    with Cons show ?thesis by (fastforce simp: bind_res_Inr_iff split: if_splits)
  next
    case (Some repl)
    with Cons.prems obtain r' where "esc_xml_loop (n + length repl) cs = Inr r'" "r = repl @ r'"
        "n < 1023 - length repl"
      by (auto simp: bind_res_Inr_iff split: if_splits)
    with Cons.IH [of "n + length repl" r'] show ?thesis by auto
  qed
qed simp

lemma xml_decode_append: "xml_encode_special c = Some repl \<Longrightarrow> xml_decode (repl @ r) = c # xml_decode r"
  by (auto simp: xml_encode_special_def split: if_splits)

lemma xml_decode_plain: "xml_encode_special c = None \<Longrightarrow> xml_decode (c # r) = c # xml_decode r"
  by (auto simp: xml_encode_special_def split: if_splits)

lemma xml_decode_loop: "esc_xml_loop n s = Inr r \<Longrightarrow> xml_decode r = s"
proof (induction s arbitrary: n r)
  case (Cons c cs)
  then show ?case
    by (cases "xml_encode_special c")
      (auto simp: bind_res_Inr_iff xml_decode_append xml_decode_plain simp del: xml_decode.simps split: if_splits)
qed simp

text \<open>
  A text without special characters is returned as it is, without a buffer; then there is no
  bound on its length.
\<close>

lemma xml_decode_no_special: "list_all (\<lambda>c. xml_encode_special c = None) s \<Longrightarrow> xml_decode s = s"
  by (induction s) (simp_all add: xml_decode_plain del: xml_decode.simps(2))

lemma esc_xml_loop_clean:
  "esc_xml_loop n s = Inr r \<Longrightarrow> dquote \<notin> set r \<and> squote \<notin> set r \<and> CHR ''<'' \<notin> set r \<and> CHR ''>'' \<notin> set r"
proof (induction s arbitrary: n r)
  case (Cons c cs)
  then show ?case
    by (cases "xml_encode_special c")
      (auto simp: bind_res_Inr_iff xml_encode_special_def split: if_splits)
qed simp

interpretation xml: quoting "\<lambda>s. esc_xml (Some s)" xml_decode
proof
  fix s t assume "esc_xml (Some s) = Inr t"
  then show "xml_decode t = s"
    by (auto simp: esc_xml_def xml_decode_loop list_all_iff xml_encode_special_def split: if_splits
        intro!: xml_decode_no_special)
qed

section \<open>Shell words\<close>

lemma shell_escape_loop_length: "n \<le> 1023 \<Longrightarrow> n + length (shell_escape_loop n s) \<le> 1023"
proof (induction s arbitrary: n)
  case (Cons c cs)
  show ?case
  proof (cases "n \<ge> 1022")
    case False
    then show ?thesis using Cons.IH [of "n + 1"] Cons.IH [of "n + 2"] by simp
  qed (use Cons.prems in simp)
qed simp

lemma clean_not_backslash: "clean_char c \<Longrightarrow> c \<noteq> backslash \<and> c \<noteq> newline"
  by (auto simp: clean_char_def isdigit_def)

lemma shell_word_escape:
  "n + 2 * length s \<le> 1022 \<Longrightarrow> shell_word (shell_escape_loop n s) = filter (\<lambda>c. c \<noteq> newline) s"
proof (induction s arbitrary: n)
  case (Cons c cs)
  have "shell_word (shell_escape_loop (n + 1) cs) = filter (\<lambda>c. c \<noteq> newline) cs"
    "shell_word (shell_escape_loop (n + 2) cs) = filter (\<lambda>c. c \<noteq> newline) cs"
    by (rule Cons.IH; use Cons.prems in simp)+
  then show ?case using Cons.prems clean_not_backslash [of c] by auto
qed simp

text \<open>Every character with a meaning for the shell is escaped.\<close>

fun escaped_ok :: "string \<Rightarrow> bool" where
  "escaped_ok [] \<longleftrightarrow> True"
| "escaped_ok (c # cs) \<longleftrightarrow> (if c = backslash then cs \<noteq> [] \<and> escaped_ok (tl cs) else clean_char c \<and> escaped_ok cs)"

lemma escaped_ok_loop: "escaped_ok (shell_escape_loop n s)"
  by (induction s arbitrary: n) (use clean_not_backslash in auto)

section \<open>Properties\<close>

text \<open>
  C29. Quoting for the configuration language: what \<^verbatim>\<open>esc\<close> returns, the parser's
  \<^verbatim>\<open>unescape\<close> turns back into the original, it fits into the static buffer together with
  its terminating zero, quoting what was read back gives the same text again, and no other
  string is quoted the same way. Every string of less than 510 characters is quoted; longer
  ones end the program rather than overrun the buffer.
\<close>

theorem esc_roundtrip:
  "(esc (Some s) = Inr t \<longrightarrow> unescape t = s \<and> length t + 1 \<le> 1024 \<and> esc (Some (unescape t)) = Inr t
      \<and> (\<forall>s'. esc (Some s') = Inr t \<longrightarrow> s' = s))
   \<and> (length s < 510 \<longrightarrow> (\<exists>t. esc (Some s) = Inr t)) \<and> (\<forall>e. esc (Some s) = Inl e \<longrightarrow> e = Exit E_SYNTAX)"
proof (intro conjI impI allI)
  assume "esc (Some s) = Inr t"
  note q = config.quoted [OF this]
  from q show "unescape t = s" "length t + 1 \<le> 1024" "esc (Some (unescape t)) = Inr t" by blast+
  fix s' assume "esc (Some s') = Inr t" with q show "s' = s" by blast
next
  assume "length s < 510"
  then have "\<exists>r. esc_loop 1 s = Inr r" by (intro esc_loop_ok) simp
  then show "\<exists>t. esc (Some s) = Inr t" by (auto simp: esc_def)
next
  have "esc_loop n s = Inl e \<Longrightarrow> e = Exit E_SYNTAX" for n s e
    by (induction s arbitrary: n) (auto simp: Let_def bind_res_def split: if_splits sum.splits)
  then show "\<And>e. esc (Some s) = Inl e \<Longrightarrow> e = Exit E_SYNTAX"
    by (auto simp: esc_def bind_res_def split: if_splits sum.splits)
qed

theorem esc_roundtrip_witness:
  "esc (Some [CHR ''a'', dquote, CHR '' '']) = Inr [dquote, CHR ''a'', backslash, dquote, CHR '' '', dquote]
    \<and> unescape [dquote, CHR ''a'', backslash, dquote, CHR '' '', dquote] = [CHR ''a'', dquote, CHR '' '']"
  using esc_roundtrip [of "[CHR ''a'', dquote, CHR '' '']" "[dquote, CHR ''a'', backslash, dquote, CHR '' '', dquote]"]
  by (simp add: esc_def plain_char_def isdigit_def)

text \<open>
  \<^verbatim>\<open>esc_xml\<close>: the result decodes to the original with the predefined XML entities; if
  the text needed quoting it contains no quote and no angle bracket any more and fits into the
  buffer.
\<close>

theorem esc_xml_roundtrip:
  assumes "esc_xml (Some s) = Inr t"
  shows "xml_decode t = s \<and> dquote \<notin> set t \<and> squote \<notin> set t \<and> CHR ''<'' \<notin> set t \<and> CHR ''>'' \<notin> set t
    \<and> (t \<noteq> s \<longrightarrow> length t + 1 \<le> 1024)"
proof (intro conjI impI)
  show "xml_decode t = s" using assms by (rule xml.dec_enc)
  have "esc_xml_loop 0 s = Inr t \<or> t = s \<and> dquote \<notin> set s \<and> squote \<notin> set s \<and> CHR ''<'' \<notin> set s \<and> CHR ''>'' \<notin> set s"
    using assms by (auto simp: esc_xml_def split: if_splits)
  then show "dquote \<notin> set t" "squote \<notin> set t" "CHR ''<'' \<notin> set t" "CHR ''>'' \<notin> set t"
    using esc_xml_loop_clean [of 0 s t] by auto
  assume "t \<noteq> s"
  with assms have "esc_xml_loop 0 s = Inr t" by (auto simp: esc_xml_def split: if_splits)
  with esc_xml_loop_result [OF this] show "length t + 1 \<le> 1024" by auto
qed

theorem esc_xml_roundtrip_witness:
  "esc_xml (Some ''a<b'') = Inr ''a&lt;b'' \<and> xml_decode ''a&lt;b'' = ''a<b''"
proof -
  have "esc_xml (Some ''a<b'') = Inr ''a&lt;b''" by (simp add: esc_xml_def xml_encode_special_def)
  with esc_xml_roundtrip [OF this] show ?thesis by simp
qed

text \<open>
  C39. \<^verbatim>\<open>shell_escape\<close>: every character that is not harmless is escaped, the result fits into
  the buffer for every input (longer ones are cut off), and a shell reads the word as the
  original text of up to 511 characters, less its newlines: an escaped newline is a line
  continuation.
\<close>

theorem shell_escape_word:
  "escaped_ok (shell_escape (Some s)) \<and> length (shell_escape (Some s)) + 1 \<le> 1024
    \<and> (length s \<le> 511 \<longrightarrow> shell_word (shell_escape (Some s)) = filter (\<lambda>c. c \<noteq> newline) s)"
  using escaped_ok_loop shell_escape_loop_length [of 0 s] shell_word_escape [of 0 s]
  by (simp add: shell_escape_def)

theorem shell_escape_word_witness:
  "shell_escape (Some ''a b;c'') = [CHR ''a'', backslash, CHR '' '', CHR ''b'', backslash, CHR '';'', CHR ''c'']
    \<and> shell_word (shell_escape (Some ''a b;c'')) = ''a b;c''"
  using shell_escape_word [of "''a b;c''"] by (simp add: shell_escape_def clean_char_def isdigit_def)

end
