(* ===== verification/Dump_Scanner.thy ===== *)
theory Dump_Scanner
  imports Escape
begin

text \<open>
  The scanner for dumped meta data, \<^verbatim>\<open>user/shared/drbdmeta_scanner.fl\<close> with the tokens of
  \<^verbatim>\<open>user/shared/drbdmeta_parser.h\<close>. As in flex the longest match wins, and among matches of
  the same length the first rule. Scanning does not depend on the parser, so the parser of
  \<^verbatim>\<open>restore-md\<close> is given the list of all tokens. Printed numbers, keywords, punctuation,
  blanks and comments are scanned as what was printed.
\<close>

section \<open>Tokens and rules\<close>

text \<open>A token carries the value that the scanner leaves in \<^verbatim>\<open>yylval\<close>, where the parser uses it.\<close>

datatype token = TK_OP char | TK_STRING string | TK_U64 u64 | TK_U32 u64 | TK_NUM u64
  | TK_GC | TK_BM | TK_UUID | TK_VERSION | TK_MEMBERS | TK_LA_SIZE | TK_BM_BYTE_PER_BIT | TK_DEVICE_UUID
  | TK_TIMES | TK_FLAGS | TK_INVALID | TK_INVALID_CHAR | TK_LA_BIO_SIZE | TK_NODE_ID | TK_BITMAP_INDEX
  | TK_CURRENT_UUID | TK_BITMAP | TK_BITMAP_UUID | TK_BITMAP_DAGTAG | TK_HISTORY_UUIDS | TK_PEER | TK_HASH
  | TK_MAX_PEERS | TK_AL_STRIPES | TK_AL_STRIPE_SIZE_4K

definition keyword_table :: "(string \<times> token) list" where
  "keyword_table = [(''gc'', TK_GC), (''bm'', TK_BM), (''uuid'', TK_UUID), (''version'', TK_VERSION),
     (''members'', TK_MEMBERS), (''la-size-sect'', TK_LA_SIZE), (''bm-byte-per-bit'', TK_BM_BYTE_PER_BIT),
     (''device-uuid'', TK_DEVICE_UUID), (''times'', TK_TIMES), (''flags'', TK_FLAGS), (''al-stripes'', TK_AL_STRIPES),
     (''al-stripe-size-4k'', TK_AL_STRIPE_SIZE_4K), (''la-peer-max-bio-size'', TK_LA_BIO_SIZE), (''node-id'', TK_NODE_ID),
     (''current-uuid'', TK_CURRENT_UUID), (''bitmap'', TK_BITMAP), (''bitmap-uuid'', TK_BITMAP_UUID),
     (''bitmap-dagtag'', TK_BITMAP_DAGTAG), (''history-uuids'', TK_HISTORY_UUIDS), (''peer'', TK_PEER),
     (''hash'', TK_HASH), (''max-peers'', TK_MAX_PEERS), (''bitmap-index'', TK_BITMAP_INDEX)]"

text \<open>The classes of characters, and the length of the longest match of each rule; 0 is no match.\<close>

definition ws_char :: "char \<Rightarrow> bool" where "ws_char c \<longleftrightarrow> c \<in> {CHR '' '', CHR 0x0D, CHR 0x09, CHR 0x0A}"
definition op_char :: "char \<Rightarrow> bool" where "op_char c \<longleftrightarrow> c \<in> {CHR ''{'', CHR ''}'', CHR '';'', CHR ''['', CHR '']''}"
definition isxdigit :: "char \<Rightarrow> bool" where "isxdigit c \<longleftrightarrow> digit_value c < 16"
definition string_char :: "char \<Rightarrow> bool" where "string_char c \<longleftrightarrow> c \<notin> {dquote, CHR 0x0D, CHR 0x0A}"

definition token_char :: "char \<Rightarrow> bool" where
  "token_char c \<longleftrightarrow> c = CHR ''-'' \<or> c = CHR ''_'' \<or> digit_value c < 36"

definition match_one :: "(char \<Rightarrow> bool) \<Rightarrow> string \<Rightarrow> nat" where
  "match_one P s = (case s of [] \<Rightarrow> 0 | c # _ \<Rightarrow> if P c then 1 else 0)"

text \<open>\<^verbatim>\<open>P{lo,hi}\<close> after a prefix.\<close>

definition match_run :: "string \<Rightarrow> (char \<Rightarrow> bool) \<Rightarrow> nat \<Rightarrow> nat \<Rightarrow> string \<Rightarrow> nat" where
  "match_run pre P lo hi s =
    (if take (length pre) s = pre then
       let k = min hi (length (takeWhile P (drop (length pre) s))) in if lo \<le> k then length pre + k else 0
     else 0)"

definition match_comment :: "string \<Rightarrow> nat" where
  "match_comment s = (case s of [] \<Rightarrow> 0
     | c # cs \<Rightarrow> if c = CHR ''#'' then 1 + length (takeWhile (\<lambda>x. x \<noteq> CHR 0x0A) cs) else 0)"

definition match_string :: "string \<Rightarrow> nat" where
  "match_string s =
    (let k = match_run [dquote] string_char 1 20 s in if k \<noteq> 0 \<and> match_one (\<lambda>c. c = dquote) (drop k s) = 1 then k + 1 else 0)"

definition match_empty_string :: "string \<Rightarrow> nat" where
  "match_empty_string s = (if take 2 s = [dquote, dquote] then 2 else match_one (\<lambda>c. c = dquote) s)"

text \<open>An optional minus sign in front of the digits.\<close>

definition match_num :: "nat \<Rightarrow> nat \<Rightarrow> string \<Rightarrow> nat" where
  "match_num lo hi s = (if match_run ''-'' isdigit lo hi s \<noteq> 0 then match_run ''-'' isdigit lo hi s else match_run [] isdigit lo hi s)"

definition match_word :: "string \<Rightarrow> string \<Rightarrow> nat" where
  "match_word w s = (if take (length w) s = w then length w else 0)"

definition invalid_char :: "char \<Rightarrow> bool" where
  "invalid_char c \<longleftrightarrow> \<not> token_char c \<and> c \<notin> {CHR '' '', CHR 0x09, CHR 0x0D, CHR 0x0A, dquote, CHR '';'', CHR ''{'', CHR ''}''}"

text \<open>
  The rules in the order of the source: what they match, and the token they return for the
  matched text (\<open>None\<close>: skip it).
\<close>

definition scanner_rules :: "((string \<Rightarrow> nat) \<times> (string \<Rightarrow> token option)) list" where
  "scanner_rules =
    [(match_one ws_char, \<lambda>_. None),
     (match_comment, \<lambda>_. None),
     (match_one op_char, \<lambda>t. Some (TK_OP (hd t))),
     (match_string, \<lambda>t. Some (TK_STRING (unescape t))),
     (match_run ''0x'' isxdigit 16 16, \<lambda>t. Some (TK_U64 (fst (strtoul 16 t)))),
     (match_run ''0x'' isxdigit 8 8, \<lambda>t. Some (TK_U32 (fst (strtoul 16 t)))),
     (match_num 1 19, \<lambda>t. Some (TK_NUM (fst (strtoul 10 t))))] @
    map (\<lambda>(w, tk). (match_word w, \<lambda>_. Some tk)) keyword_table @
    [(match_run [dquote] string_char 1 20, \<lambda>_. Some TK_INVALID),
     (match_empty_string, \<lambda>_. Some TK_INVALID),
     (match_run ''0x'' isxdigit 0 17, \<lambda>_. Some TK_INVALID),
     (match_num 2 20, \<lambda>_. Some TK_INVALID),
     (match_run [] token_char 1 100, \<lambda>_. Some TK_INVALID),
     (match_one invalid_char, \<lambda>_. Some TK_INVALID_CHAR)]"

definition best_match :: "string \<Rightarrow> nat \<times> (string \<Rightarrow> token option)" where
  "best_match s = fold (\<lambda>(m, act) (n, best). if n < m s then (m s, act) else (n, best)) scanner_rules (0, \<lambda>_. None)"

text \<open>
  All tokens of the input. Text that no rule matches would be copied to the output, one
  character at a time.
\<close>

function yylex_all :: "string \<Rightarrow> token list" where
  "yylex_all s =
    (if s = [] then []
     else let (n, act) = best_match s; k = max 1 n;
              rest = yylex_all (drop k s)
          in if n = 0 then rest
             else case act (take k s) of None \<Rightarrow> rest | Some t \<Rightarrow> t # rest)"
  by auto
termination by (relation "measure length") auto

declare yylex_all.simps [simp del]

section \<open>The longest match\<close>

abbreviation delim :: "string \<Rightarrow> bool" where "delim rest \<equiv> rest = [] \<or> \<not> token_char (hd rest)"

lemma fold_best_le:
  fixes rs :: "((string \<Rightarrow> nat) \<times> 'a) list"
  shows "\<forall>(m, a)\<in>set rs. m s \<le> fst nb \<Longrightarrow> fold (\<lambda>(m, act) (n, best). if n < m s then (m s, act) else (n, best)) rs nb = nb"
proof (induction rs)
  case (Cons r rs)
  then show ?case by (cases r; cases nb) (simp add: not_less)
qed simp

lemma fold_best_less:
  fixes rs :: "((string \<Rightarrow> nat) \<times> 'a) list"
  shows "\<forall>(m, a)\<in>set rs. m s < k \<Longrightarrow> fst nb < k \<Longrightarrow>
    fst (fold (\<lambda>(m, act) (n, best). if n < m s then (m s, act) else (n, best)) rs nb) < k"
  by (induction rs arbitrary: nb) (auto split: prod.splits)

lemma best_matchI:
  assumes "scanner_rules = pre @ (m, a) # post" and "m s = k" "0 < k"
    and "\<forall>(m', _)\<in>set pre. m' s < k" and "\<forall>(m', _)\<in>set post. m' s \<le> k"
  shows "best_match s = (k, a)"
proof -
  let ?nb = "fold (\<lambda>(m, act) (n, best). if n < m s then (m s, act) else (n, best)) pre (0, \<lambda>_. None)"
  have "fst ?nb < k" by (rule fold_best_less) (use assms in auto)
  then show ?thesis
    using assms(2) fold_best_le [of post s "(k, a)"] assms(5) by (auto simp: best_match_def assms(1) split: prod.splits)
qed

lemma yylex_match:
  assumes "best_match (t @ rest) = (length t, a)" and "t \<noteq> []"
  shows "yylex_all (t @ rest) = (case a t of None \<Rightarrow> yylex_all rest | Some x \<Rightarrow> x # yylex_all rest)"
proof -
  have "max 1 (length t) = length t" using assms(2) by (cases t) auto
  then show ?thesis using assms by (subst yylex_all.simps) (simp add: Let_def split: option.split)
qed

text \<open>In front of a delimiter no rule matches more than the word.\<close>

lemma token_prefix_le:
  assumes "\<forall>c\<in>set p. token_char c" and "delim rest" and "take (length p) (t @ rest) = p"
  shows "length p \<le> length t"
proof (rule ccontr)
  assume "\<not> length p \<le> length t"
  then have n: "length t < length p" by simp
  have "p ! length t = take (length p) (t @ rest) ! length t" using assms(3) by simp
  also have "\<dots> = rest ! 0" using n by (simp add: nth_append)
  finally have "token_char (rest ! 0)" using assms(1) n nth_mem [of "length t" p] by simp
  moreover have "rest \<noteq> []" using assms(3) n by (auto dest: arg_cong [where f = length])
  ultimately show False using assms(2) by (simp add: hd_conv_nth)
qed

lemma takeWhile_delim:
  assumes "\<And>c. P c \<Longrightarrow> token_char c" and "delim rest"
  shows "takeWhile P (t @ rest) = takeWhile P t"
proof (cases "\<forall>c\<in>set t. P c")
  case True
  have "takeWhile P rest = []" using assms by (cases rest) auto
  moreover have "takeWhile P t = t" using True by (simp add: takeWhile_eq_all_conv)
  moreover have "takeWhile P (t @ rest) = t @ takeWhile P rest" using True by (intro takeWhile_append2) blast
  ultimately show ?thesis by (metis append_Nil2)
qed (auto simp: takeWhile_append1)

text \<open>A word: characters of tokens in front of a delimiter.\<close>

definition word :: "string \<Rightarrow> string \<Rightarrow> bool" where
  "word t rest \<longleftrightarrow> t \<noteq> [] \<and> length t \<le> 100 \<and> (\<forall>c\<in>set t. token_char c) \<and> delim rest"

lemma match_run_word:
  assumes "\<And>c. P c \<Longrightarrow> token_char c" and "\<forall>c\<in>set pre. token_char c" and "word t rest"
  shows "match_run pre P lo hi (t @ rest) = match_run pre P lo hi t" and "match_run pre P lo hi t \<le> length t"
proof -
  have d: "delim rest" using assms(3) by (simp add: word_def)
  have len: "take (length pre) (t @ r) = pre \<longleftrightarrow> take (length pre) t = pre" if "length pre \<le> length t" for r
    using that by simp
  have short: "take (length pre) t \<noteq> pre" if "\<not> length pre \<le> length t"
    using that by (metis length_take min.commute min.absorb_iff1 nat_le_linear)
  have "take (length pre) (t @ rest) = pre \<longleftrightarrow> take (length pre) t = pre"
    using token_prefix_le [OF assms(2) d] len short by metis
  moreover have "take (length pre) t = pre \<Longrightarrow> drop (length pre) (t @ rest) = drop (length pre) t @ rest"
    using short by fastforce
  ultimately show "match_run pre P lo hi (t @ rest) = match_run pre P lo hi t"
    using takeWhile_delim [OF assms(1) d] by (auto simp: match_run_def Let_def)
  have "length (takeWhile P (drop (length pre) t)) \<le> length t - length pre"
    using length_takeWhile_le [of P "drop (length pre) t"] by simp
  then show "match_run pre P lo hi t \<le> length t"
    using short by (cases "length pre \<le> length t") (auto simp: match_run_def Let_def)
qed

lemma token_chars [simp]:
  "isdigit c \<Longrightarrow> token_char c" "isxdigit c \<Longrightarrow> token_char c" "token_char (CHR ''0'')" "token_char (CHR ''x'')" "token_char (CHR ''-'')"
  by (auto simp: isdigit_def isxdigit_def token_char_def digit_value_def)

lemma token_char_other:
  assumes "token_char c"
  shows "\<not> ws_char c" "\<not> op_char c" "c \<noteq> dquote" "c \<noteq> CHR ''#''" "\<not> invalid_char c"
  using assms by (auto simp: ws_char_def op_char_def invalid_char_def token_char_def digit_value_def Let_def split: if_splits)

definition keyword_ok :: "string \<Rightarrow> bool" where
  "keyword_ok w \<longleftrightarrow> w \<noteq> [] \<and> length w \<le> 20 \<and> list_all token_char w \<and> \<not> isdigit (hd w) \<and> hd w \<noteq> CHR ''-''"

lemma keyword_table_ok: "list_all (\<lambda>(w, tk). keyword_ok w) keyword_table"
  by code_simp

lemma keyword_chars:
  "(w, tk) \<in> set keyword_table \<Longrightarrow> w \<noteq> [] \<and> length w \<le> 20 \<and> (\<forall>c\<in>set w. token_char c) \<and> \<not> isdigit (hd w) \<and> hd w \<noteq> CHR ''-''"
  using keyword_table_ok by (auto simp: list_all_iff keyword_ok_def)

lemma match_word_word:
  assumes "word t rest" and "(w, tk) \<in> set keyword_table"
  shows "match_word w (t @ rest) \<le> length t" "match_word w (t @ rest) = length t \<longleftrightarrow> w = t"
proof -
  have le: "take (length w) (t @ rest) = w \<Longrightarrow> length w \<le> length t"
    using assms(1) keyword_chars [OF assms(2)] by (intro token_prefix_le) (simp_all add: word_def)
  then show "match_word w (t @ rest) \<le> length t" by (simp only: match_word_def split: if_split) blast
  have "0 < length t" using assms(1) by (simp add: word_def)
  then show "match_word w (t @ rest) = length t \<longleftrightarrow> w = t"
    using le by (metis match_word_def append_eq_conv_conj less_numeral_extra(3) append_take_drop_id take_all_iff)
qed

section \<open>Blanks, comments and punctuation\<close>

lemma match_one_le: "match_one P s \<le> 1"
  by (simp add: match_one_def split: list.split)

lemma match_run_other:
  assumes "\<not> token_char c" and "\<And>x. P x \<Longrightarrow> token_char x" and "\<forall>x\<in>set pre. token_char x" and "pre \<noteq> [] \<or> 0 < lo"
  shows "match_run pre P lo hi (c # rest) = 0"
  using assms by (cases pre) (auto simp: match_run_def)

lemma match_word_other: "\<not> token_char c \<Longrightarrow> (w, tk) \<in> set keyword_table \<Longrightarrow> match_word w (c # rest) = 0"
  using keyword_chars [of w tk] by (cases w) (auto simp: match_word_def)

lemma keyword_rules: "(m, a) \<in> set (map (\<lambda>(w, tk). (match_word w, \<lambda>_. Some tk)) keyword_table) \<Longrightarrow>
    \<exists>w tk. (w, tk) \<in> set keyword_table \<and> m = match_word w"
  by auto

text \<open>All rules but the first three match at most one character that is no part of a token.\<close>

lemma rules_other:
  assumes c: "\<not> token_char c" "c \<noteq> dquote" and r: "(m, a) \<in> set (drop 3 scanner_rules)"
  shows "m (c # rest) \<le> 1"
proof -
  note zero = match_run_other [OF c(1)]
  have "match_word w (c # rest) \<le> 1" if "(w, tk) \<in> set keyword_table" for w tk using match_word_other [OF c(1) that] by simp
  moreover have "match_run [dquote] string_char 1 20 (c # rest) = 0" using c(2) by (simp add: match_run_def)
  moreover have "match_string (c # rest) = 0" using calculation(2) by (simp add: match_string_def)
  ultimately show ?thesis
    using r c(2) zero match_one_le [of invalid_char "c # rest"] match_one_le [of "\<lambda>x. x = dquote" "c # rest"]
    unfolding scanner_rules_def by (auto simp: match_num_def match_empty_string_def)
qed

lemma scanner_rules_split:
  "scanner_rules = [] @ (match_one ws_char, \<lambda>_. None) # drop (Suc 0) scanner_rules"
  "scanner_rules = [(match_one ws_char, \<lambda>_. None)] @ (match_comment, \<lambda>_. None) # drop 2 scanner_rules"
  "scanner_rules = take 2 scanner_rules @ (match_one op_char, \<lambda>t. Some (TK_OP (hd t))) # drop 3 scanner_rules"
  by (simp_all add: scanner_rules_def)

lemma first_rules:
  "set (drop (Suc 0) scanner_rules) = {(match_comment, \<lambda>_. None), (match_one op_char, \<lambda>t. Some (TK_OP (hd t)))} \<union> set (drop 3 scanner_rules)"
  "set (drop 2 scanner_rules) = {(match_one op_char, \<lambda>t. Some (TK_OP (hd t)))} \<union> set (drop 3 scanner_rules)"
  "set (take 2 scanner_rules) = {(match_one ws_char, \<lambda>_. None), (match_comment, \<lambda>_. None)}"
  by (simp_all add: scanner_rules_def insert_commute)

lemma yylex_ws: "ws_char c \<Longrightarrow> yylex_all (c # rest) = yylex_all rest"
proof -
  assume c: "ws_char c"
  then have n: "\<not> token_char c" "c \<noteq> dquote" "c \<noteq> CHR ''#''" using token_char_other by (auto simp: ws_char_def)
  have "best_match (c # rest) = (1, \<lambda>_. None)"
    using c n rules_other [OF n(1,2)]
    by (intro best_matchI [OF scanner_rules_split(1)])
      (auto simp: match_one_def match_comment_def first_rules)
  then show ?thesis using yylex_match [of "[c]" rest] by simp
qed

lemma yylex_op: "op_char c \<Longrightarrow> yylex_all (c # rest) = TK_OP c # yylex_all rest"
proof -
  assume c: "op_char c"
  then have n: "\<not> token_char c" "c \<noteq> dquote" "c \<noteq> CHR ''#''" "\<not> ws_char c"
    using token_char_other by (auto simp: op_char_def ws_char_def)
  have "best_match (c # rest) = (1, \<lambda>t. Some (TK_OP (hd t)))"
    using c n rules_other [OF n(1,2)]
    by (intro best_matchI [OF scanner_rules_split(3)]) (auto simp: match_one_def match_comment_def first_rules)
  then show ?thesis using yylex_match [of "[c]" rest] by simp
qed

lemma yylex_comment:
  assumes "CHR 0x0A \<notin> set s"
  shows "yylex_all (CHR ''#'' # s @ CHR 0x0A # rest) = yylex_all rest"
proof -
  let ?c = "CHR ''#''"
  have n: "\<not> token_char ?c" "?c \<noteq> dquote" "\<not> ws_char ?c" using token_char_other(4) by (auto simp: ws_char_def)
  have "takeWhile (\<lambda>x. x \<noteq> CHR 0x0A) (s @ CHR 0x0A # rest) = s" using assms by (induction s) auto
  then have k: "match_comment (?c # s @ CHR 0x0A # rest) = Suc (length s)" by (simp add: match_comment_def)
  have "best_match (?c # s @ CHR 0x0A # rest) = (Suc (length s), \<lambda>_. None)"
  proof (rule best_matchI [OF scanner_rules_split(2)])
    have "m (?c # s @ CHR 0x0A # rest) \<le> Suc (length s)" if "(m, a) \<in> set (drop 2 scanner_rules)" for m and a :: "string \<Rightarrow> token option"
    proof -
      have "m (?c # s @ CHR 0x0A # rest) \<le> 1"
        using that rules_other [OF n(1,2)] match_one_le by (auto simp: first_rules)
      then show ?thesis by simp
    qed
    then show "\<forall>(m', _)\<in>set (drop 2 scanner_rules). m' (?c # s @ CHR 0x0A # rest) \<le> Suc (length s)" by blast
  qed (use k n in \<open>simp_all add: match_one_def\<close>)
  then have "yylex_all ((?c # s) @ CHR 0x0A # rest) = yylex_all (CHR 0x0A # rest)" using yylex_match [of "?c # s" "CHR 0x0A # rest"] by simp
  then show ?thesis using yylex_ws [of "CHR 0x0A" rest] by (simp add: ws_char_def)
qed

section \<open>Words and numbers\<close>

lemma word_first:
  assumes "word t rest"
  shows "match_one ws_char (t @ rest) = 0" "match_comment (t @ rest) = 0" "match_one op_char (t @ rest) = 0"
    "match_run [dquote] string_char 1 20 (t @ rest) = 0" "match_string (t @ rest) = 0" "match_empty_string (t @ rest) = 0"
    "match_one invalid_char (t @ rest) = 0"
proof -
  obtain c cs where t: "t = c # cs" and "token_char c" using assms by (cases t) (auto simp: word_def)
  note o = token_char_other [OF this(2)]
  show "match_run [dquote] string_char 1 20 (t @ rest) = 0" using o(3) by (simp add: t match_run_def)
  then show "match_string (t @ rest) = 0" by (simp add: match_string_def)
  show "match_one ws_char (t @ rest) = 0" "match_comment (t @ rest) = 0" "match_one op_char (t @ rest) = 0"
    "match_empty_string (t @ rest) = 0" "match_one invalid_char (t @ rest) = 0"
    using o by (simp_all add: t match_one_def match_comment_def match_empty_string_def)
qed

lemma match_num_word:
  assumes "word t rest"
  shows "match_num lo hi (t @ rest) = match_num lo hi t" "match_num lo hi t \<le> length t"
  using match_run_word [OF _ _ assms, of isdigit] by (auto simp: match_num_def)

lemma rules_word_le:
  assumes w: "word t rest" and r: "(m, a) \<in> set scanner_rules"
  shows "m (t @ rest) \<le> length t"
proof -
  have "match_run pre isxdigit lo hi (t @ rest) \<le> length t" if "pre = ''0x''" for pre lo hi
    using match_run_word [OF _ _ w, of isxdigit pre lo hi] that by auto
  moreover have "match_run [] token_char lo hi (t @ rest) \<le> length t" for lo hi
    using match_run_word [OF _ _ w, of token_char "[]" lo hi] by auto
  moreover have "match_num lo hi (t @ rest) \<le> length t" for lo hi using match_num_word [OF w] by simp
  moreover have "match_word k (t @ rest) \<le> length t" if "(k, tk) \<in> set keyword_table" for k tk
    using match_word_word [OF w that] by simp
  ultimately show ?thesis
    using r word_first [OF w] unfolding scanner_rules_def by auto
qed

lemma yylex_word:
  assumes w: "word t rest" and rules: "scanner_rules = pre @ (m, a) # post" and m: "m (t @ rest) = length t"
    and pre: "\<forall>(m', _)\<in>set pre. m' (t @ rest) \<noteq> length t" and a: "a t = Some tk"
  shows "yylex_all (t @ rest) = tk # yylex_all rest"
proof -
  have ne: "t \<noteq> []" using w by (simp add: word_def)
  have le: "m' (t @ rest) \<le> length t" if "(m', a') \<in> set pre \<union> set post" for m' a'
  proof (rule rules_word_le [OF w])
    show "(m', a') \<in> set scanner_rules" using that by (subst rules) auto
  qed
  have "best_match (t @ rest) = (length t, a)"
    using m ne le pre by (intro best_matchI [OF rules]) (fastforce simp: order_less_le)+
  then show ?thesis using yylex_match [OF _ ne] a by simp
qed

lemma scanner_rules_words:
  "scanner_rules = take 4 scanner_rules @ (match_run ''0x'' isxdigit 16 16, \<lambda>t. Some (TK_U64 (fst (strtoul 16 t)))) # drop 5 scanner_rules"
  "scanner_rules = take 5 scanner_rules @ (match_run ''0x'' isxdigit 8 8, \<lambda>t. Some (TK_U32 (fst (strtoul 16 t)))) # drop 6 scanner_rules"
  "scanner_rules = take 6 scanner_rules @ (match_num 1 19, \<lambda>t. Some (TK_NUM (fst (strtoul 10 t)))) # drop 7 scanner_rules"
  by (simp_all add: scanner_rules_def)

lemma first_word_rules:
  "set (take 4 scanner_rules) = {(match_one ws_char, \<lambda>_. None), (match_comment, \<lambda>_. None),
     (match_one op_char, \<lambda>t. Some (TK_OP (hd t))), (match_string, \<lambda>t. Some (TK_STRING (unescape t)))}"
  "set (take 5 scanner_rules) = insert (match_run ''0x'' isxdigit 16 16, \<lambda>t. Some (TK_U64 (fst (strtoul 16 t)))) (set (take 4 scanner_rules))"
  "set (take 6 scanner_rules) = insert (match_run ''0x'' isxdigit 8 8, \<lambda>t. Some (TK_U32 (fst (strtoul 16 t)))) (set (take 5 scanner_rules))"
  by (auto simp: scanner_rules_def)

lemma match_hex:
  assumes "\<forall>c\<in>set ds. isxdigit c" and "lo \<le> hi"
  shows "match_run ''0x'' isxdigit lo hi (''0x'' @ ds) = (if lo \<le> length ds then 2 + min hi (length ds) else 0)"
proof -
  have "length (takeWhile isxdigit ds) = length ds" using assms(1) takeWhile_eq_all_conv [of isxdigit ds] by metis
  then show ?thesis using assms(2) by (simp add: match_run_def)
qed

lemma yylex_hex:
  assumes ds: "\<forall>c\<in>set ds. isxdigit c" and rest: "delim rest"
  shows "length ds = 16 \<Longrightarrow> yylex_all (''0x'' @ ds @ rest) = TK_U64 (fst (strtoul 16 (''0x'' @ ds))) # yylex_all rest"
    and "length ds = 8 \<Longrightarrow> yylex_all (''0x'' @ ds @ rest) = TK_U32 (fst (strtoul 16 (''0x'' @ ds))) # yylex_all rest"
proof -
  let ?t = "''0x'' @ ds"
  have w: "word ?t rest" if "length ds \<le> 98" using that ds rest by (auto simp: word_def)
  have m: "match_run ''0x'' isxdigit lo lo (?t @ rest) = (if lo \<le> length ds then 2 + min lo (length ds) else 0)" if "length ds \<le> 98" for lo
    using match_run_word(1) [OF _ _ w [OF that], of isxdigit "''0x''"] match_hex [OF ds] by simp
  show "length ds = 16 \<Longrightarrow> yylex_all (''0x'' @ ds @ rest) = TK_U64 (fst (strtoul 16 ?t)) # yylex_all rest"
    using yylex_word [OF w scanner_rules_words(1)] m [of 16] word_first [OF w] by (simp add: first_word_rules)
  show "length ds = 8 \<Longrightarrow> yylex_all (''0x'' @ ds @ rest) = TK_U32 (fst (strtoul 16 ?t)) # yylex_all rest"
    using yylex_word [OF w scanner_rules_words(2)] m [of 8] m [of 16] word_first [OF w] by (simp add: first_word_rules)
qed

text \<open>The numbers as they are printed.\<close>

lemma length_show_hex: "n < 16 ^ w \<Longrightarrow> 0 < w \<Longrightarrow> length (show_hex w n) = w"
  using length_show_base [of 16 n w True] by (simp add: show_hex_def pad_zero_def)

lemma show_hex_digits: "\<forall>c\<in>set (show_hex w n). isxdigit c"
  unfolding isxdigit_def show_hex_def by (intro pad_zero_digits show_base_digits) simp_all

lemma strtoul_0x_digits:
  assumes ds: "ds \<noteq> []" "\<forall>c\<in>set ds. isxdigit c" and v: "foldl (\<lambda>a c. a * 16 + digit_value c) 0 ds = n" "n < 2 ^ 64"
  shows "fst (strtoul 16 (''0x'' @ ds)) = of_nat n"
proof -
  obtain c cs where c: "ds = c # cs" using ds(1) by (cases ds) auto
  have cs: "digit_value c < 16" using ds(2) by (simp add: c isxdigit_def)
  then have "scan_base 16 ds = (16, ds)"
    using digit_not_special [of "hd cs"] ds(2) by (cases cs; cases "tl cs") (auto simp: c scan_base_def isxdigit_def)
  moreover have "scan_sign (dropWhile isspace ds) = (False, ds)"
    using digit_not_special [OF cs] by (simp add: c scan_sign_def)
  moreover have "scan_sign (dropWhile isspace (''0x'' @ ds)) = (False, ''0x'' @ ds)"
    by (simp add: scan_sign_def isspace_def)
  moreover have "scan_base 16 (''0x'' @ ds) = (16, ds)" using cs by (simp add: c scan_base_def)
  ultimately have "scan_number 16 (''0x'' @ ds) = scan_number 16 ds" by (simp add: scan_number_def)
  also have "\<dots> = Some (False, n, [])"
    using scan_number_digits [of ds 16 "[]" 16] ds v(1) by (simp add: isxdigit_def)
  finally show ?thesis using v(2) by (simp add: strtoul_def)
qed

lemma show_hex_value: "foldl (\<lambda>a c. a * 16 + digit_value c) 0 (show_hex w n) = n"
  by (simp add: show_hex_def pad_zero_value show_base_value)

lemma strtoul_0x: "n < 2 ^ 64 \<Longrightarrow> fst (strtoul 16 (''0x'' @ show_hex w n)) = of_nat n"
  using show_hex_digits show_hex_value by (intro strtoul_0x_digits) simp_all

lemma foldl_digits:
  "foldl (\<lambda>a c. a * b + digit_value c) a ds = a * b ^ length ds + foldl (\<lambda>a c. a * b + digit_value c) 0 ds"
proof (induction ds rule: rev_induct)
  case (snoc d ds)
  then show ?case by (simp add: algebra_simps)
qed simp

lemma yylex_u64: "delim rest \<Longrightarrow> n < 2 ^ 64 \<Longrightarrow> yylex_all (''0x'' @ show_hex 16 n @ rest) = TK_U64 (of_nat n) # yylex_all rest"
  using yylex_hex(1) [OF show_hex_digits [of 16 n], of rest] length_show_hex [of n 16] strtoul_0x [of n 16] by simp

lemma yylex_u32: "delim rest \<Longrightarrow> n < 2 ^ 32 \<Longrightarrow> yylex_all (''0x'' @ show_hex 8 n @ rest) = TK_U32 (of_nat n) # yylex_all rest"
  using yylex_hex(2) [OF show_hex_digits [of 8 n], of rest] length_show_hex [of n 8] strtoul_0x [of n 8] by simp

text \<open>A 64 bit number printed as two halves.\<close>

lemma yylex_u64_halves:
  assumes "delim rest" and "hi < 2 ^ 32" "lo < 2 ^ 32"
  shows "yylex_all (''0x'' @ show_hex 8 hi @ show_hex 8 lo @ rest) = TK_U64 (of_nat (hi * 2 ^ 32 + lo)) # yylex_all rest"
proof -
  let ?ds = "show_hex 8 hi @ show_hex 8 lo"
  have len: "length (show_hex 8 hi) = 8" "length (show_hex 8 lo) = 8" using assms by (simp_all add: length_show_hex)
  have v: "foldl (\<lambda>a c. a * 16 + digit_value c) 0 ?ds = hi * 2 ^ 32 + lo"
    by (simp add: show_hex_value foldl_digits [of 16 hi] len)
  have ds: "\<forall>c\<in>set ?ds. isxdigit c" using show_hex_digits [of 8] by auto
  have "hi * 2 ^ 32 + lo < 2 ^ 64" using assms by simp
  then show ?thesis using yylex_hex(1) [OF ds assms(1)] strtoul_0x_digits [OF _ ds v] len by simp
qed

lemma yylex_digits:
  assumes ds: "ds \<noteq> []" "\<forall>c\<in>set ds. isdigit c" "length ds \<le> 19" and s: "s = [] \<or> s = ''-''" and rest: "delim rest"
  shows "yylex_all (s @ ds @ rest) = TK_NUM (fst (strtoul 10 (s @ ds))) # yylex_all rest"
proof -
  let ?t = "s @ ds"
  have w: "word ?t rest" using ds s rest by (auto simp: word_def)
  have tw: "length (takeWhile isdigit ds) = length ds" using ds(2) takeWhile_eq_all_conv [of isdigit ds] by metis
  obtain c cs where c: "ds = c # cs" "isdigit c" using ds by (cases ds) auto
  have nm: "c \<noteq> CHR ''-''" using c(2) by (auto simp: isdigit_def)
  have n: "match_num 1 19 (?t @ rest) = length ?t"
    using s tw ds(1,3) nm match_num_word(1) [OF w, of 1 19] by (auto simp: match_num_def match_run_def c(1) Suc_le_eq)
  have "length cs = 0 \<or> isdigit (hd cs)" using ds(2) by (cases cs) (auto simp: c(1))
  then have "take 2 ?t \<noteq> ''0x''" using s nm ds(2) by (cases cs) (auto simp: c(1) isdigit_def)
  then have z: "match_run ''0x'' isxdigit k k (?t @ rest) = 0" for k
    using match_run_word(1) [OF _ _ w, of isxdigit "''0x''" k k] by (simp add: match_run_def numeral_2_eq_2)
  have "yylex_all (?t @ rest) = TK_NUM (fst (strtoul 10 ?t)) # yylex_all rest"
    using w n z word_first [OF w] ds(1) by (intro yylex_word [OF w scanner_rules_words(3)]) (auto simp: first_word_rules)
  then show ?thesis by simp
qed

lemma length_show_nat: "n < 10 ^ 19 \<Longrightarrow> length (show_nat n) \<le> 19"
  using length_show_base [of 10 n 19 False] by (simp add: show_nat_def)

lemma yylex_nat:
  assumes "delim rest" and "n < 10 ^ 19"
  shows "yylex_all (show_nat n @ rest) = TK_NUM (of_nat n) # yylex_all rest"
proof -
  have "n < 2 ^ 64" using assms(2) by simp
  then show ?thesis
    using yylex_digits [of "show_nat n" "[]" rest] assms length_show_nat show_nat_digits strtoul_dec [of "[]" 10 n] by simp
qed

lemma yylex_int:
  assumes "delim rest" and "- (10 ^ 19) < i" "i < 10 ^ 19"
  shows "yylex_all (show_int i @ rest) = TK_NUM (of_int i) # yylex_all rest"
proof (cases "i < 0")
  case False
  then show ?thesis using yylex_nat [OF assms(1), of "nat i"] assms(3) by (simp add: show_int_def)
next
  case True
  let ?n = "nat (- i)"
  have n: "?n < 10 ^ 19" using assms(2) by simp
  have "scan_number 10 (show_nat ?n) = Some (False, ?n, [])" using scan_number_10 [of "[]" ?n] by simp
  moreover obtain c cs where c: "show_nat ?n = c # cs" "isdigit c"
    using show_nat_digits [of "hd (show_nat ?n)" ?n] by (cases "show_nat ?n") auto
  then have "\<not> isspace c" "c \<noteq> CHR ''-''" "c \<noteq> CHR ''+''" by (auto simp: isdigit_def isspace_def)
  ultimately have "scan_number 10 (''-'' @ show_nat ?n) = Some (True, ?n, [])"
    by (auto simp: scan_number_def scan_sign_def c(1) isspace_def split: prod.splits list.splits if_splits)
  then have "fst (strtoul 10 (''-'' @ show_nat ?n)) = of_int i"
    using n True by (simp add: strtoul_def)
  then show ?thesis
    using True yylex_digits [of "show_nat ?n" "''-''" rest] assms(1) length_show_nat [OF n] show_nat_digits
    by (simp add: show_int_def)
qed

section \<open>Keywords and strings\<close>

lemma keywords_distinct: "distinct (map fst keyword_table)"
  by (simp add: keyword_table_def)

lemma yylex_keyword:
  assumes k: "(w, tk) \<in> set keyword_table" and rest: "delim rest"
  shows "yylex_all (w @ rest) = tk # yylex_all rest"
proof -
  let ?f = "map (\<lambda>(w, tk). (match_word w, \<lambda>_. Some tk))"
  note c = keyword_chars [OF k]
  have wd: "word w rest" using c rest by (auto simp: word_def)
  obtain k1 k2 where t: "keyword_table = k1 @ (w, tk) # k2" using k by (meson split_list)
  have k1: "(w', tk') \<in> set keyword_table \<and> w' \<noteq> w" if "(w', tk') \<in> set k1" for w' tk'
    using that keywords_distinct by (force simp: t)
  obtain x xs where x: "w = x # xs" "\<not> isdigit x" "x \<noteq> CHR ''-''" using c by (cases w) auto
  have z: "match_run ''0x'' isxdigit lo hi (w @ rest) = 0" "match_num 1 19 (w @ rest) = 0" for lo hi
    using x by (auto simp: match_run_def match_num_def isdigit_def)
  obtain post where rules: "scanner_rules = (take 7 scanner_rules @ ?f k1) @ (match_word w, \<lambda>_. Some tk) # post"
    by (simp add: scanner_rules_def t)
  have seven: "set (take 7 scanner_rules) = insert (match_num 1 19, \<lambda>t. Some (TK_NUM (fst (strtoul 10 t)))) (set (take 6 scanner_rules))"
    by (auto simp: scanner_rules_def)
  have ne: "0 < length w" using c by simp
  have "m (w @ rest) = 0" if "(m, a) \<in> set (take 7 scanner_rules)" for m and a :: "string \<Rightarrow> token option"
    using that z word_first [OF wd] unfolding seven first_word_rules by auto
  moreover have "match_word w' (w @ rest) \<noteq> length w" if "(w', tk') \<in> set k1" for w' tk'
    using match_word_word(2) [OF wd] k1 [OF that] by blast
  ultimately have "\<forall>(m', _)\<in>set (take 7 scanner_rules @ ?f k1). m' (w @ rest) \<noteq> length w" using ne by fastforce
  moreover have "match_word w (w @ rest) = length w" by (simp add: match_word_def)
  ultimately show ?thesis by (intro yylex_word [OF wd rules]) simp_all
qed

lemma yylex_string:
  assumes s: "s \<noteq> []" "length s \<le> 20" "\<forall>c\<in>set s. string_char c \<and> c \<noteq> backslash"
  shows "yylex_all (dquote # s @ dquote # rest) = TK_STRING s # yylex_all rest"
proof -
  let ?in = "dquote # s @ dquote # rest"
  have nt: "\<not> token_char dquote" using token_char_other(3) by blast
  have "takeWhile string_char (s @ dquote # rest) = s" using s(3) by (induction s) (auto simp: string_char_def)
  then have run: "match_run [dquote] string_char 1 20 ?in = Suc (length s)" using s(1,2) by (cases s) (auto simp: match_run_def)
  then have m: "match_string ?in = Suc (Suc (length s))" by (simp add: match_string_def match_one_def)
  have e: "match_empty_string ?in \<le> Suc (Suc (length s))" using match_one_le [of "\<lambda>c. c = dquote" ?in] by (simp add: match_empty_string_def)
  have w: "match_word k ?in = 0" if "(k, tk) \<in> set keyword_table" for k tk using match_word_other [OF nt that] by simp
  have rules: "scanner_rules = take 3 scanner_rules @ (match_string, \<lambda>t. Some (TK_STRING (unescape t))) # drop 4 scanner_rules"
    by (simp add: scanner_rules_def)
  have three: "set (take 3 scanner_rules) = {(match_one ws_char, \<lambda>_. None), (match_comment, \<lambda>_. None), (match_one op_char, \<lambda>t. Some (TK_OP (hd t)))}"
    by (auto simp: scanner_rules_def)
  have "best_match ?in = (Suc (Suc (length s)), \<lambda>t. Some (TK_STRING (unescape t)))"
  proof (rule best_matchI [OF rules m])
    show "\<forall>(m', _)\<in>set (take 3 scanner_rules). m' ?in < Suc (Suc (length s))"
      by (auto simp: three match_one_def match_comment_def)
    have "m ?in \<le> Suc (Suc (length s))" if "(m, a) \<in> set (drop 4 scanner_rules)" for m and a :: "string \<Rightarrow> token option"
      using that run e w match_run_other [OF nt] unfolding scanner_rules_def
      by (auto simp: match_num_def match_one_def)
    then show "\<forall>(m', _)\<in>set (drop 4 scanner_rules). m' ?in \<le> Suc (Suc (length s))" by blast
  qed simp
  then have "yylex_all (dquote # s @ [dquote] @ rest) = TK_STRING (unescape (dquote # s @ [dquote])) # yylex_all rest"
    using yylex_match [of "dquote # s @ [dquote]" rest] by simp
  moreover have "unescape (s @ [dquote]) = s" using s(3) by (induction s) (auto simp: string_char_def)
  ultimately show ?thesis by simp
qed

end
