(* ===== verification/Bitmap_Dump.thy ===== *)
theory Bitmap_Dump
  imports Md_Move Apply_Al Dump_Scanner
begin

text \<open>
  Dumping the bitmap as text: \<^verbatim>\<open>fprintf_bm_eol\<close>, \<^verbatim>\<open>fprintf_bm\<close> and
  \<^verbatim>\<open>printf_bm\<close> of \<^verbatim>\<open>user/shared/drbdmeta.c\<close>. The words of the peers are interleaved on
  disk; the dump of one peer is read in chunks, 64 bit words are printed from two 32 bit
  words, and long runs of equal words are printed as a repeat count. The text says exactly
  what is on the disk.
\<close>

unbundle bit_operations_syntax

section \<open>One peer\<close>

text \<open>
  The calls of \<^verbatim>\<open>fprintf\<close>. Positions and counts are natural numbers: the number of words is
  a multiple of 1024 below \<open>2 ^ 32\<close>, so that no \<^verbatim>\<open>unsigned int\<close> of the loop wraps.
\<close>

datatype bm_print = Bm_eol nat | Bm_times nat u32 | Bm_words u32 u32

definition fprintf_bm_eol :: "nat \<Rightarrow> nat \<Rightarrow> string \<Rightarrow> string" where
  "fprintf_bm_eol i peer_nr indent =
    (if i mod 64 = peer_nr
     then CHR 0x0A # indent @ ''   # at '' @ show_nat (128 * (i - peer_nr)) @ ''kB'' @ CHR 0x0A # indent @ ''   ''
     else CHR 0x0A # indent @ ''   '')"

definition show_word64 :: "host \<Rightarrow> u32 \<Rightarrow> u32 \<Rightarrow> string" where
  "show_word64 h hi lo = ''0x'' @ show_hex 8 (unat (le32_to_cpu h hi)) @ show_hex 8 (unat (le32_to_cpu h lo)) @ '';''"

fun show_bm_print :: "host \<Rightarrow> nat \<Rightarrow> string \<Rightarrow> bm_print \<Rightarrow> string" where
  "show_bm_print h peer_nr indent (Bm_eol r) = fprintf_bm_eol r peer_nr indent"
| "show_bm_print h peer_nr indent (Bm_times count cw) = '' '' @ show_nat (count div 2) @ '' times '' @ show_word64 h cw cw"
| "show_bm_print h peer_nr indent (Bm_words hi lo) = '' '' @ show_word64 h hi lo"

abbreviation WPL :: nat where "WPL \<equiv> 8"

definition max_chunk_size :: "nat \<Rightarrow> nat" where
  "max_chunk_size mp = round_down buffer_size (4096 * mp)"

text \<open>
  The variables of the loop: \<open>i\<close> is the index in the buffer, \<open>r\<close> the real one; \<open>cw\<close> is the
  word that is being counted and \<open>lw\<close> the low half of the current 64 bit word.
\<close>

record bm_state =
  bs_i :: nat
  bs_r :: nat
  bs_count :: nat
  bs_cw :: u32
  bs_lw :: u32
  bs_buf :: bytes
  bs_off :: u64
  bs_bits :: u32

text \<open>The inner loop over \<open>j\<close>: the first position from \<open>j\<close> on that is another word or not in the buffer.\<close>

function run_end :: "host \<Rightarrow> nat \<Rightarrow> bytes \<Rightarrow> u32 \<Rightarrow> nat \<Rightarrow> nat" where
  "run_end h mp buf cw j =
    (if 0 < mp \<and> j < length buf div 4 \<and> cw = get_word32 h buf j then run_end h mp buf cw (j + mp) else j)"
  by auto
termination by (relation "measure (\<lambda>(h, mp, buf, cw, j). length buf div 4 - j)") auto

declare run_end.simps [simp del]

text \<open>Where the body goes on: the head of the loop, the label \<^verbatim>\<open>next\<close>, or the end.\<close>

datatype bm_jump = Continue | Next | Break

definition bm_word :: "host \<Rightarrow> nat \<Rightarrow> bm_print list \<Rightarrow> bm_state \<Rightarrow> (bm_print list \<times> bm_jump \<times> bm_state) res" where
  "bm_word h mp out s =
    (let i = bs_i s; x = get_word32 h (bs_buf s) i;
         s' = s\<lparr>bs_bits := bs_bits s + generic_hweight32 x, bs_r := bs_r s + mp, bs_i := i + mp\<rparr>
     in if \<not> i < length (bs_buf s) div 4 then Inl Abort
        else if i div mp mod 2 = 0 then Inr (out, Continue, s'\<lparr>bs_lw := x\<rparr>)
        else Inr (out @ [Bm_words x (bs_lw s)], Continue, s'))"

definition bm_step :: "host \<Rightarrow> nat \<Rightarrow> nat \<Rightarrow> nat \<Rightarrow> bm_state \<Rightarrow> (bm_print list \<times> bm_jump \<times> bm_state) res" where
  "bm_step h mp peer_nr n s =
    (let i = bs_i s; n_buffer = length (bs_buf s) div 4 in
     if \<not> i < n_buffer then Inl Abort
     else let cw = (if bs_count s = 0 then get_word32 h (bs_buf s) i else bs_cw s); s = s\<lparr>bs_cw := cw\<rparr> in
       if i mod (WPL * mp) = peer_nr then
         let eol = (if bs_count s = 0 then [Bm_eol (bs_r s)] else []);
             j = run_end h mp (bs_buf s) cw i;
             tmp = round_down (j div mp - i div mp) WPL;
             s = (if tmp > WPL then s\<lparr>bs_count := bs_count s + tmp, bs_r := bs_r s + tmp * mp, bs_i := i + tmp * mp\<rparr> else s)
         in if tmp > WPL \<and> j \<ge> n_buffer \<and> bs_r s < n then Inr (eol, Continue, s)
            else if bs_count s \<noteq> 0 then
              let out = eol @ [Bm_times (bs_count s) cw];
                  s = s\<lparr>bs_bits := bs_bits s + of_nat (bs_count s) * generic_hweight32 cw, bs_count := 0\<rparr>
              in Inr (out, if bs_r s \<ge> n then Break else Next, s)
            else bm_word h mp eol s
       else bm_word h mp [] s)"

definition bm_chunk :: "format_cfg \<Rightarrow> nat \<Rightarrow> nat \<Rightarrow> nat \<Rightarrow> nat" where
  "bm_chunk cfg mp n r =
    (let chunk = unat (ALIGN (of_nat ((n - round_down r mp) * 4)) (md_hard_sect_size cfg))
     in min chunk (max_chunk_size mp))"

definition read_bm_chunk :: "format_cfg \<Rightarrow> nat \<Rightarrow> nat \<Rightarrow> nat \<Rightarrow> u64 \<Rightarrow> (bytes \<times> u64) io" where
  "read_bm_chunk cfg mp n r off =
    (let chunk = bm_chunk cfg mp n r in
     if chunk = 0 then stop_io Abort
     else bind_io (pread_or_die chunk off) (\<lambda>buf. ret (buf, off + of_nat chunk)))"

lemma bm_word_progress:
  assumes "bm_word h mp out s = Inr (o', jmp, s')"
  shows "jmp = Continue \<and> bs_r s' = bs_r s + mp"
  using assms by (auto simp: bm_word_def Let_def split: if_splits)

lemma bm_step_progress:
  assumes "bm_step h mp peer_nr n s = Inr (out, jmp, s')" and "0 < mp"
  shows "jmp = Continue \<Longrightarrow> bs_r s < bs_r s'" and "jmp = Next \<Longrightarrow> bs_r s' < n"
    and "jmp = Next \<Longrightarrow> bs_r s < bs_r s' \<or> bs_r s = bs_r s' \<and> 0 < bs_count s \<and> bs_count s' = 0"
  using assms
  by (auto simp: bm_step_def Let_def dest!: bm_word_progress split: if_splits)

text \<open>
  The loop with its labels: \<open>head\<close> says whether the condition of \<^verbatim>\<open>while\<close> and the test for
  the end of the buffer come first. Result: what was printed, and the number of set bits.
\<close>

function fprintf_bm_loop :: "format_cfg \<Rightarrow> host \<Rightarrow> nat \<Rightarrow> nat \<Rightarrow> nat \<Rightarrow> bool \<Rightarrow> bm_state \<Rightarrow> (bm_print list \<times> u32) io" where
  "fprintf_bm_loop cfg h mp peer_nr n head s =
    (if mp = 0 then stop_io Abort
     else if head then
       if bs_r s < n then
         if bs_i s * 4 \<ge> max_chunk_size mp then
           bind_io (read_bm_chunk cfg mp n (bs_r s) (bs_off s)) (\<lambda>(buf, off).
             fprintf_bm_loop cfg h mp peer_nr n False
               (s\<lparr>bs_i := bs_i s - max_chunk_size mp div 4, bs_buf := buf, bs_off := off\<rparr>))
         else fprintf_bm_loop cfg h mp peer_nr n False s
       else ret ([], bs_bits s)
     else case bm_step h mp peer_nr n s of
         Inl e \<Rightarrow> stop_io e
       | Inr (out, jmp, s') \<Rightarrow>
           bind_io (case jmp of
               Continue \<Rightarrow> fprintf_bm_loop cfg h mp peer_nr n True s'
             | Next \<Rightarrow> fprintf_bm_loop cfg h mp peer_nr n False s'
             | Break \<Rightarrow> ret ([], bs_bits s')) (\<lambda>(out', bits). ret (out @ out', bits)))"
  by auto
termination
proof (relation "inv_image (less_than <*lex*> less_than)
    (\<lambda>(cfg, h, mp, peer_nr, n, head, s). (if head then 3 * (n - bs_r s) else if bs_r s < n then 3 * (n - bs_r s) - 1 else 1, bs_count s))",
    goal_cases)
  case (4 cfg h mp peer_nr n head s b out x jmp s')
  then show ?case using bm_step_progress(1) [of h mp peer_nr n s out jmp s'] by auto
next
  case (5 cfg h mp peer_nr n head s b out x jmp s')
  then show ?case using bm_step_progress(2,3) [of h mp peer_nr n s out jmp s'] by auto
qed auto

declare fprintf_bm_loop.simps [simp del]

text \<open>
  The label \<^verbatim>\<open>start\<close> reads the first chunk. The number of words is an \<^verbatim>\<open>unsigned int\<close>; without
  peers the computation of the chunk size divides by zero.
\<close>

definition fprintf_bm_prints :: "headers \<Rightarrow> host \<Rightarrow> format_cfg \<Rightarrow> nat \<Rightarrow> (bm_print list \<times> u32) io" where
  "fprintf_bm_prints H h cfg peer_nr =
    (let mp = unat (max_peers (cfg_md cfg)); n = unat (ucast (cfg_bm_bytes cfg div 4) :: u32) in
     if mp = 0 \<or> \<not> buffer_size \<ge> DRBD_PEERS_MAX H * 4096 \<or> max_chunk_size mp = 0 then stop_io Abort
     else if peer_nr < n then
       bind_io (read_bm_chunk cfg mp n peer_nr (cfg_bm_offset cfg)) (\<lambda>(buf, off).
         fprintf_bm_loop cfg h mp peer_nr n False
           \<lparr>bs_i = peer_nr, bs_r = peer_nr, bs_count = 0, bs_cw = 0, bs_lw = 0, bs_buf = buf, bs_off = off, bs_bits = 0\<rparr>)
     else ret ([], 0))"

definition fprintf_bm :: "headers \<Rightarrow> host \<Rightarrow> format_cfg \<Rightarrow> nat \<Rightarrow> string \<Rightarrow> (string \<times> format_cfg) io" where
  "fprintf_bm H h cfg peer_nr indent =
    bind_io (fprintf_bm_prints H h cfg peer_nr) (\<lambda>(out, bits).
      ret (''{'' @ concat (map (show_bm_print h peer_nr indent) out) @ CHR 0x0A # indent @ ''}'' @ [CHR 0x0A],
           cfg\<lparr>bits_set := ucast bits\<rparr>))"

section \<open>All peers\<close>

fun fprintf_bm_peers :: "headers \<Rightarrow> host \<Rightarrow> nat list \<Rightarrow> format_cfg \<Rightarrow> (string \<times> format_cfg) io" where
  "fprintf_bm_peers H h [] cfg = ret ([], cfg)"
| "fprintf_bm_peers H h (i # is) cfg =
    bind_io (fprintf_bm H h cfg i []) (\<lambda>(text, cfg).
    bind_io (fprintf_bm_peers H h is cfg) (\<lambda>(texts, cfg).
      ret (''bitmap['' @ show_nat i @ ''] '' @ text @ texts, cfg)))"

definition printf_bm :: "headers \<Rightarrow> host \<Rightarrow> format_cfg \<Rightarrow> (string \<times> format_cfg) io" where
  "printf_bm H h cfg = (case ops cfg of
     DRBD_V06 \<Rightarrow> ret ([], cfg)
   | DRBD_V09 \<Rightarrow> fprintf_bm_peers H h [0..<unat (max_peers (cfg_md cfg))] cfg
   | DRBD_UNKNOWN \<Rightarrow> ret ([], cfg)
   | _ \<Rightarrow> bind_io (fprintf_bm H h cfg 0 []) (\<lambda>(text, cfg). ret (''bm '' @ text, cfg)))"

section \<open>What was printed\<close>

fun bm_decode :: "bm_print \<Rightarrow> u32 list" where
  "bm_decode (Bm_eol r) = []"
| "bm_decode (Bm_times count cw) = replicate count cw"
| "bm_decode (Bm_words hi lo) = [lo, hi]"

fun bm_print_ok :: "nat \<Rightarrow> bm_print \<Rightarrow> bool" where
  "bm_print_ok m (Bm_times count cw) = (even count \<and> 0 < count \<and> count \<le> m)"
| "bm_print_ok m _ = True"

abbreviation bm_decodes :: "bm_print list \<Rightarrow> u32 list" where "bm_decodes out \<equiv> concat (map bm_decode out)"

text \<open>A list without its last element if the length is odd.\<close>

definition take_even :: "'a list \<Rightarrow> 'a list" where "take_even xs = take (2 * (length xs div 2)) xs"

lemma take_even_append: "even (length xs) \<Longrightarrow> take_even (xs @ ys) = xs @ take_even ys"
  by (auto simp: take_even_def elim!: evenE)

lemma take_even_short [simp]: "take_even [] = []" "take_even [x] = []"
  by (simp_all add: take_even_def)

lemma take_even_Cons2: "take_even (x # y # xs) = x # y # take_even xs"
  by (simp add: take_even_def)

text \<open>The inner loop stops after \<open>d\<close> equal words of the peer.\<close>

lemma run_end_spec:
  assumes "0 < mp"
  shows "\<exists>d. run_end h mp buf cw (p + k * mp) = p + (k + d) * mp
    \<and> (\<forall>l<d. p + (k + l) * mp < length buf div 4 \<and> get_word32 h buf (p + (k + l) * mp) = cw)"
proof (induction "length buf div 4 - (p + k * mp)" arbitrary: k rule: less_induct)
  case less
  show ?case
  proof (cases "p + k * mp < length buf div 4 \<and> cw = get_word32 h buf (p + k * mp)")
    case True
    then have "length buf div 4 - (p + Suc k * mp) < length buf div 4 - (p + k * mp)" using assms by auto
    then obtain d where d: "run_end h mp buf cw (p + Suc k * mp) = p + (Suc k + d) * mp"
      "\<forall>l<d. p + (Suc k + l) * mp < length buf div 4 \<and> get_word32 h buf (p + (Suc k + l) * mp) = cw"
      using less by blast
    have "run_end h mp buf cw (p + k * mp) = p + (k + Suc d) * mp"
      using True assms d(1) by (subst run_end.simps) (simp add: algebra_simps)
    moreover have "p + (k + l) * mp < length buf div 4 \<and> get_word32 h buf (p + (k + l) * mp) = cw" if "l < Suc d" for l
      using that True d(2) by (cases l) auto
    ultimately show ?thesis by blast
  next
    case False
    then show ?thesis by (subst run_end.simps) (auto intro!: exI [of _ 0])
  qed
qed

lemma aligned_iff: "0 < mp \<Longrightarrow> p < mp \<Longrightarrow> (p + k * mp) mod (WPL * mp) = p \<longleftrightarrow> 8 dvd (k::nat)"
proof -
  assume mp: "0 < mp" "p < mp"
  have "(p + k * mp) mod (WPL * mp) = (p + k mod 8 * mp) mod (WPL * mp)"
    by (metis mod_add_right_eq mult_mod_left)
  moreover have "p + k mod 8 * mp < WPL * mp"
  proof -
    have "p + k mod 8 * mp < (1 + k mod 8) * mp" using mp by simp
    also have "\<dots> \<le> WPL * mp" by (rule mult_le_mono1) (simp add: Suc_leI)
    finally show ?thesis .
  qed
  ultimately have "(p + k * mp) mod (WPL * mp) = p + k mod 8 * mp" by simp
  then show ?thesis using mp by auto
qed

text \<open>
  The geometry of the loop: \<open>T\<close> words of each peer are in a full buffer, \<open>K\<close> is the number of
  words of the peer. The state after \<open>k = b * T + kk\<close> of them, \<open>D\<close> being the words on disk.
\<close>

definition dump_geometry :: "nat \<Rightarrow> nat \<Rightarrow> nat \<Rightarrow> nat \<Rightarrow> bool" where
  "dump_geometry mp p n T \<longleftrightarrow> 0 < mp \<and> p < mp \<and> 1024 dvd n \<and> 0 < T \<and> 1024 dvd T \<and> max_chunk_size mp = 4 * (T * mp)"

definition peer_words :: "nat \<Rightarrow> nat \<Rightarrow> nat \<Rightarrow> nat" where
  "peer_words mp p n = (n - p + mp - 1) div mp"

definition buffered :: "host \<Rightarrow> (nat \<Rightarrow> u32) \<Rightarrow> nat \<Rightarrow> nat \<Rightarrow> nat \<Rightarrow> nat \<Rightarrow> bytes \<Rightarrow> bool" where
  "buffered h D mp n T b buf \<longleftrightarrow>
    (let nb = min (n - b * T * mp) (T * mp) in length buf div 4 = nb \<and> (\<forall>x<nb. get_word32 h buf x = D (b * T * mp + x)))"

lemma peer_words_iff:
  assumes "0 < mp" "p < mp"
  shows "p + k * mp < n \<longleftrightarrow> k < peer_words mp p n"
proof (cases "p < n")
  case True
  have "k < (n - p + mp - 1) div mp \<longleftrightarrow> Suc k * mp \<le> n - p + mp - 1"
    using assms(1) by (simp add: Suc_le_eq [symmetric] less_eq_div_iff_mult_less_eq del: mult_Suc)
  also have "\<dots> \<longleftrightarrow> p + k * mp < n" using assms True by auto
  finally show ?thesis by (simp add: peer_words_def)
next
  case False
  then show ?thesis using assms by (simp add: peer_words_def)
qed

lemma local_in_buffer:
  assumes "0 < mp" "p < mp" and "p + (b * T + kk) * mp < n" and "(kk::nat) < T"
  shows "p + kk * mp < min (n - b * T * mp) (T * mp)"
proof -
  have "p + kk * mp < Suc kk * mp" using assms(2) by simp
  also have "\<dots> \<le> T * mp" using assms(4) by (intro mult_le_mono1) simp
  finally show ?thesis using assms(3) by (simp add: algebra_simps)
qed

definition bm_inv :: "host \<Rightarrow> (nat \<Rightarrow> u32) \<Rightarrow> nat \<Rightarrow> nat \<Rightarrow> nat \<Rightarrow> nat \<Rightarrow> nat \<Rightarrow> nat \<Rightarrow> bool \<Rightarrow> bm_state \<Rightarrow> bool" where
  "bm_inv h D mp p n T b kk head s \<longleftrightarrow>
    (let k = b * T + kk; K = peer_words mp p n in
     bs_r s = p + k * mp \<and> bs_i s = p + kk * mp \<and> buffered h D mp n T b (bs_buf s) \<and>
     kk \<le> T \<and> (if head then k \<le> K else k < K \<and> kk < T) \<and>
     (0 < bs_count s \<longrightarrow> 8 dvd k \<and> even (bs_count s) \<and> bs_count s \<le> k \<and> k < K))"

text \<open>What is still to be printed in a state.\<close>

definition bm_todo :: "(nat \<Rightarrow> u32) \<Rightarrow> nat \<Rightarrow> nat \<Rightarrow> nat \<Rightarrow> nat \<Rightarrow> bm_state \<Rightarrow> u32 list" where
  "bm_todo D mp p n k s =
    replicate (bs_count s) (bs_cw s) @ (if odd k then [bs_lw s] else []) @ map (\<lambda>k. D (p + k * mp)) [k..<peer_words mp p n]"

lemma bm_word_inv:
  assumes g: "dump_geometry mp p n T" and s: "bm_inv h D mp p n T b kk False s" and c: "bs_count s = 0"
    and step: "bm_word h mp out s = r"
  shows "\<exists>out' s'. r = Inr (out @ out', Continue, s') \<and> bm_inv h D mp p n T b (kk + 1) True s' \<and> bs_off s' = bs_off s \<and> bs_buf s' = bs_buf s
    \<and> list_all (bm_print_ok (peer_words mp p n)) out'
    \<and> take_even (bm_todo D mp p n (b * T + kk) s) = bm_decodes out' @ take_even (bm_todo D mp p n (b * T + kk + 1) s')"
proof -
  let ?k = "b * T + kk" and ?W = "\<lambda>k. D (p + k * mp)"
  have gg: "0 < mp" "p < mp" "even T" using g by (auto simp: dump_geometry_def)
  have i: "bs_i s = p + kk * mp" "bs_r s = p + ?k * mp" and k: "?k < peer_words mp p n" "kk < T" and buf: "buffered h D mp n T b (bs_buf s)"
    using s by (auto simp: bm_inv_def Let_def)
  have inb: "bs_i s < min (n - b * T * mp) (T * mp)"
    using local_in_buffer [OF gg(1,2) _ k(2)] k(1) peer_words_iff [OF gg(1,2)] by (simp add: i)
  then have x: "get_word32 h (bs_buf s) (bs_i s) = ?W ?k" "bs_i s < length (bs_buf s) div 4"
    using buf by (auto simp: buffered_def Let_def i algebra_simps)
  have par: "bs_i s div mp mod 2 = 0 \<longleftrightarrow> even ?k" using gg by (simp add: i even_iff_mod_2_eq_zero [symmetric])
  have up: "map ?W [?k..<peer_words mp p n] = ?W ?k # map ?W [?k + 1..<peer_words mp p n]" using k(1) by (simp add: upt_conv_Cons)
  show ?thesis
    using step x par k c s up
    by (auto simp: bm_word_def Let_def bm_inv_def bm_todo_def i take_even_Cons2 algebra_simps)
qed

text \<open>A run of equal words: where the inner loop ends, and what the counted words are.\<close>

lemma run_counted:
  assumes g: "dump_geometry mp p n T" and s: "bm_inv h D mp p n T b kk False s"
  obtains d where "run_end h mp (bs_buf s) cw (bs_i s) = p + (kk + d) * mp"
    and "run_end h mp (bs_buf s) cw (bs_i s) div mp - bs_i s div mp = d"
    and "kk + d \<le> T" "b * T + kk + d \<le> peer_words mp p n"
    and "\<And>m. m \<le> d \<Longrightarrow> map (\<lambda>k. D (p + k * mp)) [b * T + kk..<b * T + kk + m] = replicate m cw"
    and "p + (kk + d) * mp < length (bs_buf s) div 4 \<Longrightarrow> kk + d < T"
proof -
  have gg: "0 < mp" "p < mp" using g by (auto simp: dump_geometry_def)
  let ?nb = "min (n - b * T * mp) (T * mp)"
  have i: "bs_i s = p + kk * mp" and k: "b * T + kk < peer_words mp p n" "kk < T" and nb: "length (bs_buf s) div 4 = ?nb"
    and buf: "\<And>x. x < ?nb \<Longrightarrow> get_word32 h (bs_buf s) x = D (b * T * mp + x)"
    using s by (auto simp: bm_inv_def Let_def buffered_def)
  obtain d where d: "run_end h mp (bs_buf s) cw (bs_i s) = p + (kk + d) * mp"
    "\<And>l. l < d \<Longrightarrow> p + (kk + l) * mp < ?nb \<and> get_word32 h (bs_buf s) (p + (kk + l) * mp) = cw"
    using run_end_spec [OF gg(1), of h "bs_buf s" cw p kk] by (auto simp: i nb)
  have below: "kk + l < T \<and> b * T + kk + l < peer_words mp p n" if "p + (kk + l) * mp < ?nb" for l
  proof -
    have "(kk + l) * mp < T * mp" using that by (meson add_lessD1 add.commute le_add2 le_less_trans min_less_iff_conj)
    moreover have "p + (b * T + kk + l) * mp < n" using that by (auto simp: algebra_simps)
    ultimately show ?thesis using peer_words_iff [OF gg] by simp
  qed
  have "kk + d \<le> T \<and> b * T + kk + d \<le> peer_words mp p n"
    using below [of "d - 1"] d(2) [of "d - 1"] k by (cases d) auto
  moreover have "D (p + (b * T + kk + l) * mp) = cw" if "l < d" for l
    using d(2) [OF that] buf [of "p + (kk + l) * mp"] by (simp add: algebra_simps)
  then have "map (\<lambda>k. D (p + k * mp)) [b * T + kk..<b * T + kk + m] = replicate m cw" if "m \<le> d" for m
    using that by (intro nth_equalityI) auto
  moreover have "run_end h mp (bs_buf s) cw (bs_i s) div mp - bs_i s div mp = d" using gg unfolding d(1) by (simp add: i)
  ultimately show ?thesis using that d(1) below [of d] nb by auto
qed

lemma todo_run:
  assumes "b + m \<le> peer_words mp p n" and "map (\<lambda>k. D (p + k * mp)) [b..<b + m] = replicate m cw" and "even b" "even m"
    and "bs_count s = 0 \<or> bs_cw s = cw" "bs_cw s' = cw" "bs_count s' = bs_count s + m"
  shows "bm_todo D mp p n b s = bm_todo D mp p n (b + m) s'"
proof -
  have "[b..<peer_words mp p n] = [b..<b + m] @ [b + m..<peer_words mp p n]"
    using assms(1) by (metis le_add1 le_add_diff_inverse upt_add_eq_append)
  then show ?thesis using assms by (auto simp: bm_todo_def replicate_add)
qed

lemma bm_step_inv:
  assumes g: "dump_geometry mp p n T" and s: "bm_inv h D mp p n T b kk False s"
  shows "\<exists>out jmp s' kk'. bm_step h mp p n s = Inr (out, jmp, s') \<and> bs_off s' = bs_off s \<and> bs_buf s' = bs_buf s
    \<and> list_all (bm_print_ok (peer_words mp p n)) out
    \<and> (case jmp of Continue \<Rightarrow> bm_inv h D mp p n T b kk' True s' | Next \<Rightarrow> bm_inv h D mp p n T b kk' False s'
        | Break \<Rightarrow> take_even (bm_todo D mp p n (b * T + kk') s') = [])
    \<and> take_even (bm_todo D mp p n (b * T + kk) s) = bm_decodes out @ take_even (bm_todo D mp p n (b * T + kk') s')"
proof -
  let ?K = "peer_words mp p n" and ?k = "b * T + kk" and ?buf = "bs_buf s"
  have gg: "0 < mp" "p < mp" "8 dvd T" using g by (auto simp: dump_geometry_def intro: dvd_trans [of 8 1024])
  have i: "bs_i s = p + kk * mp" "bs_r s = p + ?k * mp" and k: "?k < ?K" "kk < T" and buf: "buffered h D mp n T b ?buf"
    and cnt: "0 < bs_count s \<Longrightarrow> 8 dvd ?k \<and> even (bs_count s) \<and> bs_count s \<le> ?k"
    using s by (auto simp: bm_inv_def Let_def)
  have inb: "bs_i s < length ?buf div 4"
    using local_in_buffer [OF gg(1,2) _ k(2), of b n] k(1) peer_words_iff [OF gg(1,2)] buf by (simp add: i buffered_def Let_def)
  have al: "bs_i s mod (WPL * mp) = p \<longleftrightarrow> 8 dvd ?k" using aligned_iff [OF gg(1,2), of kk] gg(3) by (simp add: i dvd_add_right_iff)
  define cw where "cw = (if bs_count s = 0 then get_word32 h ?buf (bs_i s) else bs_cw s)"
  let ?s = "s\<lparr>bs_cw := cw\<rparr>"
  have s1: "bm_inv h D mp p n T b kk False ?s" using s by (simp add: bm_inv_def Let_def)
  have t1: "bm_todo D mp p n ?k ?s = bm_todo D mp p n ?k s" by (simp add: bm_todo_def cw_def)
  have word: ?thesis if "bs_count s = 0" "bm_step h mp p n s = bm_word h mp out ?s" "list_all (bm_print_ok ?K) out" "bm_decodes out = []" for out
  proof -
    have c0: "bs_count ?s = 0" using that(1) by simp
    obtain out' s' where "bm_word h mp out ?s = Inr (out @ out', Continue, s')" "bm_inv h D mp p n T b (kk + 1) True s'" "bs_off s' = bs_off s" "bs_buf s' = bs_buf s"
      "list_all (bm_print_ok ?K) out'" "take_even (bm_todo D mp p n ?k ?s) = bm_decodes out' @ take_even (bm_todo D mp p n (?k + 1) s')"
      using bm_word_inv [OF g s1 c0 refl, of out] by auto
    then show ?thesis using that t1 by (intro exI [of _ "out @ out'"] exI [of _ Continue] exI [of _ s'] exI [of _ "kk + 1"]) simp
  qed
  show ?thesis
  proof (cases "8 dvd ?k")
    case False
    then have "bs_count s = 0" using cnt by auto
    moreover have "bm_step h mp p n s = bm_word h mp [] ?s" using False inb al by (simp add: bm_step_def Let_def cw_def)
    ultimately show ?thesis by (rule word) simp_all
  next
    case True
    define eol where "eol = (if bs_count s = 0 then [Bm_eol (bs_r s)] else [])"
    have eol: "list_all (bm_print_ok ?K) eol" "bm_decodes eol = []" by (simp_all add: eol_def)
    obtain d where d: "run_end h mp ?buf cw (bs_i s) = p + (kk + d) * mp" "run_end h mp ?buf cw (bs_i s) div mp - bs_i s div mp = d"
      "kk + d \<le> T" "?k + d \<le> ?K" "\<And>m. m \<le> d \<Longrightarrow> map (\<lambda>k. D (p + k * mp)) [?k..<?k + m] = replicate m cw"
      "p + (kk + d) * mp < length ?buf div 4 \<Longrightarrow> kk + d < T"
      using run_counted [OF g s1] by auto
    define tmp where "tmp = round_down d WPL"
    define m where "m = (if WPL < tmp then tmp else 0)"
    have m: "m \<le> d" "8 dvd m" "even m" by (auto simp: m_def tmp_def round_down_def)
    let ?s2 = "?s\<lparr>bs_count := bs_count s + m, bs_r := bs_r s + m * mp, bs_i := bs_i s + m * mp\<rparr>"
    have ek: "even ?k" using True by (rule dvd_trans [rotated]) simp
    have t2: "bm_todo D mp p n ?k s = bm_todo D mp p n (?k + m) ?s2"
      using d(4) d(5) [OF m(1)] m ek by (intro todo_run [where cw = cw]) (simp_all add: cw_def)
    have cle: "bs_count s \<le> ?k" "even (bs_count s)" using cnt by (cases "bs_count s = 0"; simp)+
    have ev: "even (bs_count s + m)" "bs_count s + m \<le> ?K" using cle m d(4) by simp_all
    have step: "bm_step h mp p n s = (if WPL < tmp \<and> length ?buf div 4 \<le> p + (kk + d) * mp \<and> bs_r ?s2 < n then Inr (eol, Continue, ?s2)
        else if bs_count s + m \<noteq> 0 then Inr (eol @ [Bm_times (bs_count s + m) cw], if n \<le> bs_r ?s2 then Break else Next,
          ?s2\<lparr>bs_bits := bs_bits s + of_nat (bs_count s + m) * generic_hweight32 cw, bs_count := 0\<rparr>)
        else bm_word h mp eol ?s)"
      using inb al True d(1,2) by (simp add: bm_step_def Let_def cw_def [symmetric] eol_def tmp_def [symmetric] m_def)
    have r2: "bs_r ?s2 < n \<longleftrightarrow> ?k + m < ?K" using peer_words_iff [OF gg(1,2), of "?k + m" n] by (simp add: i algebra_simps)
    have fits: "bm_inv h D mp p n T b (kk + m) hd (?s2\<lparr>bs_bits := x, bs_count := c\<rparr>)"
      if "?k + m < ?K" "hd \<or> kk + m < T" "c = 0 \<or> c = bs_count s + m" for hd x c
    proof -
      have "8 dvd ?k + m" using True m(2) by (rule dvd_add)
      then have "8 dvd b * T + (kk + m)" "bs_count s + m \<le> b * T + (kk + m)" using cle(1) by (simp_all add: add.assoc)
      moreover have "p + ?k * mp + m * mp = p + (b * T + (kk + m)) * mp" "p + kk * mp + m * mp = p + (kk + m) * mp"
        by (simp_all add: algebra_simps)
      ultimately show ?thesis using that buf d(3) m(1) ev(1) by (auto simp: bm_inv_def Let_def i add.assoc)
    qed
    consider (more) "WPL < tmp" "length ?buf div 4 \<le> p + (kk + d) * mp" "?k + m < ?K"
      | (stop) "\<not> (WPL < tmp \<and> length ?buf div 4 \<le> p + (kk + d) * mp \<and> ?k + m < ?K)" "bs_count s + m \<noteq> 0"
      | (single) "\<not> (WPL < tmp \<and> length ?buf div 4 \<le> p + (kk + d) * mp \<and> ?k + m < ?K)" "bs_count s = 0" "m = 0"
      by fastforce
    then show ?thesis
    proof cases
      case more
      have "bm_inv h D mp p n T b (kk + m) True ?s2"
        using fits [of True "bs_count s + m" "bs_bits s"] more(3) by (simp add: bm_inv_def Let_def)
      then show ?thesis
        using step more r2 eol t2 by (intro exI [of _ eol] exI [of _ Continue] exI [of _ ?s2] exI [of _ "kk + m"]) (simp add: add.assoc)
    next
      case stop
      let ?s3 = "?s2\<lparr>bs_bits := bs_bits s + of_nat (bs_count s + m) * generic_hweight32 cw, bs_count := 0\<rparr>"
      let ?out = "eol @ [Bm_times (bs_count s + m) cw]" and ?jmp = "if n \<le> bs_r ?s2 then Break else Next"
      have "kk + m < T" if "?k + m < ?K" using that stop(1) d(6) m(1) k(2) by (cases "WPL < tmp") (auto simp: m_def not_le)
      then have inv: "bm_inv h D mp p n T b (kk + m) False ?s3" if "?k + m < ?K" using fits [of False 0] that by simp
      have even_k: "even (?k + m)" using ek m(3) by simp
      have t3: "bm_todo D mp p n (?k + m) ?s2 = replicate (bs_count s + m) cw @ bm_todo D mp p n (?k + m) ?s3"
        using even_k by (simp add: bm_todo_def)
      have "take_even (bm_todo D mp p n ?k s) = bm_decodes ?out @ take_even (bm_todo D mp p n (?k + m) ?s3)"
        unfolding t2 t3 using ev(1) eol(2) by (subst take_even_append) simp_all
      moreover have "take_even (bm_todo D mp p n (?k + m) ?s3) = []" if "\<not> ?k + m < ?K"
        using that even_k by (simp add: bm_todo_def)
      moreover have "bm_step h mp p n s = Inr (?out, ?jmp, ?s3)"
        using step stop r2 by (simp add: not_less)
      ultimately show ?thesis
        using inv r2 eol ev stop(2)
        by (intro exI [of _ ?out] exI [of _ ?jmp] exI [of _ ?s3] exI [of _ "kk + m"]) (auto simp: add.assoc not_less)
    next
      case single
      then show ?thesis using step r2 eol by (intro word [of eol]) auto
    qed
  qed
qed

text \<open>The words of the bitmap on disk, and what reading a chunk needs.\<close>

definition disk_word :: "host \<Rightarrow> content \<Rightarrow> nat \<Rightarrow> nat \<Rightarrow> u32" where
  "disk_word h d off x = load h (read_bytes d (off + 4 * x) 4)"

lemma get_word32_read: "4 * x + 4 \<le> len \<Longrightarrow> get_word32 h (read_bytes d off len) x = disk_word h d off x"
proof -
  assume "4 * x + 4 \<le> len"
  then have "take 4 (drop (4 * x) (read_bytes d off len)) = read_bytes d (off + 4 * x) 4"
    by (intro nth_equalityI) (auto simp: read_bytes_def add.assoc)
  then show ?thesis by (simp add: get_word32_def disk_word_def)
qed

definition bitmap_readable :: "format_cfg \<Rightarrow> nat \<Rightarrow> nat \<Rightarrow> world \<Rightarrow> bool" where
  "bitmap_readable cfg off n w \<longleftrightarrow> healthy w \<and> cfg_bm_offset cfg = of_nat off \<and> off + 4 * n \<le> dev_size w \<and> n < 2 ^ 32
     \<and> (\<exists>j\<le>12. md_hard_sect_size cfg = 2 ^ j)"

lemma read_chunk:
  assumes g: "dump_geometry mp p n T" and w: "bitmap_readable cfg off n w" and r: "r = p + b * T * mp" "r < n"
  shows "\<exists>buf. read_bm_chunk cfg mp n r (of_nat (off + 4 * (b * T * mp))) w = (Inr (buf, of_nat (off + 4 * (b * T * mp) + length buf)), w)
    \<and> buffered h (disk_word h (disk w) off) mp n T b buf \<and> length buf = 4 * min (n - b * T * mp) (T * mp)"
proof -
  let ?base = "b * T * mp" and ?nb = "min (n - b * T * mp) (T * mp)"
  obtain j where j: "j \<le> 12" "md_hard_sect_size cfg = 2 ^ j" using w by (auto simp: bitmap_readable_def)
  have gg: "0 < mp" "p < mp" "0 < T" "1024 dvd n" "1024 dvd T" "max_chunk_size mp = 4 * (T * mp)" using g by (auto simp: dump_geometry_def)
  have n: "n < 2 ^ 32" using w by (simp add: bitmap_readable_def)
  have rd: "round_down r mp = ?base" using gg(1,2) by (simp add: r(1) round_down_def)
  have "1024 dvd n - ?base" using gg(4,5) by (simp add: dvd_diff_nat)
  then have "4096 dvd (n - ?base) * 4" using mult_dvd_mono [of 1024 "n - ?base" 4 4] by simp
  then have d: "(2 ^ j :: nat) dvd (n - ?base) * 4" using le_imp_power_dvd [OF j(1), of "2::nat"] by (auto intro: dvd_trans)
  have "(n - ?base) * 4 + 2 ^ j - 1 < 2 ^ 64" using n j(1) power_increasing [OF j(1), of "2::nat"] by simp
  then have "unat (ALIGN (of_nat ((n - ?base) * 4) :: u64) (2 ^ j)) = align_up ((n - ?base) * 4) (2 ^ j)"
    using n j(1) unat_of_nat_u64 [of "(n - ?base) * 4"] by (subst unat_ALIGN) simp_all
  also have "\<dots> = (n - ?base) * 4" using d by (intro align_up_dvd_id) simp_all
  finally have al: "unat (ALIGN (of_nat ((n - ?base) * 4) :: u64) (2 ^ j)) = (n - ?base) * 4" .
  have c: "bm_chunk cfg mp n r = 4 * ?nb" unfolding bm_chunk_def Let_def rd j(2) al gg(6) by (simp add: min_def)
  have pos: "0 < ?nb" using r gg by simp
  have rng: "off + 4 * ?base + 4 * ?nb \<le> off + 4 * n"
  proof -
    have "?base < n" "?nb \<le> n - ?base" using pos by simp_all
    then show ?thesis by linarith
  qed
  have dev: "off + 4 * n \<le> dev_size w" "healthy w" using w by (simp_all add: bitmap_readable_def)
  let ?buf = "read_bytes (disk w) (off + 4 * ?base) (4 * ?nb)"
  have "pread_or_die (4 * ?nb) (of_nat (off + 4 * ?base)) w = (Inr ?buf, w)"
  proof -
    have u: "unat (of_nat (off + 4 * ?base) :: u64) = off + 4 * ?base" using dev rng by (intro unat_of_nat_u64) (simp add: healthy_def)
    show ?thesis using dev rng u by (simp add: pread_or_die_def kernel_error_def healthy_def not_bit_63 del: of_nat_add of_nat_mult)
  qed
  then have "read_bm_chunk cfg mp n r (of_nat (off + 4 * ?base)) w = (Inr (?buf, of_nat (off + 4 * ?base + length ?buf)), w)"
    using less_imp_neq [OF pos, symmetric] by (simp add: read_bm_chunk_def Let_def c bind_io_def ret_def del: min_less_iff_conj)
  moreover have "get_word32 h ?buf x = disk_word h (disk w) off (?base + x)" if "x < ?nb" for x
  proof -
    have "4 * x + 4 \<le> 4 * ?nb" using Suc_leI [OF that] by linarith
    from get_word32_read [OF this, of h "disk w" "off + 4 * ?base"] show ?thesis by (simp add: disk_word_def algebra_simps)
  qed
  then have "buffered h (disk_word h (disk w) off) mp n T b ?buf" by (simp add: buffered_def Let_def)
  ultimately show ?thesis by (intro exI [of _ ?buf]) simp
qed


lemma fprintf_bm_loop_decodes:
  assumes g: "dump_geometry mp p n T" and w: "bitmap_readable cfg off n w"
    and "bm_inv h (disk_word h (disk w) off) mp p n T b kk head s"
    and "bs_off s = of_nat (off + 4 * (b * T * mp) + length (bs_buf s))" and "length (bs_buf s) = 4 * min (n - b * T * mp) (T * mp)"
  shows "\<exists>out bits. fprintf_bm_loop cfg h mp p n head s w = (Inr (out, bits), w) \<and> list_all (bm_print_ok (peer_words mp p n)) out
    \<and> bm_decodes out = take_even (bm_todo (disk_word h (disk w) off) mp p n (b * T + kk) s)"
  using assms
proof (induction cfg h mp p n head s arbitrary: b kk rule: fprintf_bm_loop.induct)
  case (1 cfg h mp p n head s)
  let ?D = "disk_word h (disk w) off" and ?K = "peer_words mp p n" and ?k = "b * T + kk"
  note g = "1.prems"(1) and rd = "1.prems"(2) and inv = "1.prems"(3) and off = "1.prems"(4) and len = "1.prems"(5)
  have gg: "0 < mp" "p < mp" "0 < T" "max_chunk_size mp = 4 * (T * mp)" using g by (auto simp: dump_geometry_def)
  have r: "bs_r s = p + ?k * mp" "bs_i s = p + kk * mp" "kk \<le> T" using inv by (simp_all add: bm_inv_def Let_def)
  have more: "bs_r s < n \<longleftrightarrow> ?k < ?K" using peer_words_iff [OF gg(1,2)] r(1) by simp
  consider (ended) "head" "\<not> ?k < ?K" | (read) "head" "?k < ?K" "kk = T" | (go) "head" "?k < ?K" "kk < T" | (body) "\<not> head"
    using r(3) by linarith
  then show ?case
  proof cases
    case ended
    then have "bs_count s = 0" "?k = ?K" using inv by (auto simp: bm_inv_def Let_def)
    then have "take_even (bm_todo ?D mp p n ?k s) = []" by (simp add: bm_todo_def)
    then show ?thesis using ended more gg(1) by (subst fprintf_bm_loop.simps) (simp add: ret_def)
  next
    case go
    have "\<not> 4 * (T * mp) \<le> bs_i s * 4"
      using local_in_buffer [OF gg(1,2) _ go(3), of b n] more go(2) r by simp
    moreover have "bm_inv h ?D mp p n T b kk False s" using inv go by (simp add: bm_inv_def Let_def)
    ultimately show ?thesis
      using "1.IH"(2) [OF _ _ _ _ g rd _ off len] gg go more by (subst fprintf_bm_loop.simps) simp
  next
    case read
    have i: "4 * (T * mp) \<le> bs_i s * 4" "bs_i s - T * mp = p" using r read by simp_all
    have b': "b * T + T = Suc b * T" "b * T * mp + T * mp = Suc b * T * mp" by (simp_all add: algebra_simps)
    have rr: "bs_r s = p + Suc b * T * mp" using r(1) read(3) by (simp add: algebra_simps)
    have full: "T * mp \<le> n - b * T * mp" using more read(2) rr by (simp add: algebra_simps)
    then have off': "bs_off s = of_nat (off + 4 * (Suc b * T * mp))" using off len by (simp add: min_def b'(2) [symmetric] algebra_simps)
    obtain buf where buf: "read_bm_chunk cfg mp n (bs_r s) (bs_off s) w = (Inr (buf, of_nat (off + 4 * (Suc b * T * mp) + length buf)), w)"
      "buffered h ?D mp n T (Suc b) buf" "length buf = 4 * min (n - Suc b * T * mp) (T * mp)"
      using read_chunk [OF g rd rr, of h] more read(2) off' by auto
    let ?s = "s\<lparr>bs_i := bs_i s - max_chunk_size mp div 4, bs_buf := buf, bs_off := of_nat (off + 4 * (Suc b * T * mp) + length buf)\<rparr>"
    have "bm_inv h ?D mp p n T (Suc b) 0 False ?s"
      using inv read buf(2) gg i rr by (auto simp: bm_inv_def Let_def b'(1) [symmetric] algebra_simps)
    moreover have e: "Suc b * T + 0 = ?k" using read(3) by simp
    have "bm_todo ?D mp p n (Suc b * T + 0) ?s = bm_todo ?D mp p n ?k s" unfolding e by (simp add: bm_todo_def)
    ultimately show ?thesis
      using "1.IH"(1) [OF _ read(1) _ _ g rd, where x = buf and xa = "of_nat (off + 4 * (Suc b * T * mp) + length buf)" and b = "Suc b" and kk = 0] buf gg i read more
      by (subst fprintf_bm_loop.simps) (simp add: bind_io_def)
  next
    case body
    then have "bm_inv h ?D mp p n T b kk False s" using inv by simp
    then obtain out jmp s' kk' where st: "bm_step h mp p n s = Inr (out, jmp, s')" "bs_off s' = bs_off s" "bs_buf s' = bs_buf s"
      "list_all (bm_print_ok ?K) out"
      "case jmp of Continue \<Rightarrow> bm_inv h ?D mp p n T b kk' True s' | Next \<Rightarrow> bm_inv h ?D mp p n T b kk' False s'
        | Break \<Rightarrow> take_even (bm_todo ?D mp p n (b * T + kk') s') = []"
      "take_even (bm_todo ?D mp p n ?k s) = bm_decodes out @ take_even (bm_todo ?D mp p n (b * T + kk') s')"
      using bm_step_inv [OF g, of h ?D b kk s] by blast
    note off' = off [folded st(2,3)] and len' = len [folded st(3)]
    show ?thesis
    proof (cases jmp)
      case Continue
      then have "bm_inv h ?D mp p n T b kk' True s'" using st(5) by simp
      from "1.IH"(3) [OF _ body st(1) refl refl Continue g rd this off' len'] gg(1)
      obtain out2 bits where "fprintf_bm_loop cfg h mp p n True s' w = (Inr (out2, bits), w)" "list_all (bm_print_ok ?K) out2"
        "bm_decodes out2 = take_even (bm_todo ?D mp p n (b * T + kk') s')" by auto
      then show ?thesis using st gg(1) Continue body
        by (subst fprintf_bm_loop.simps) (simp add: bind_io_def ret_def)
    next
      case Next
      then have "bm_inv h ?D mp p n T b kk' False s'" using st(5) by simp
      from "1.IH"(4) [OF _ body st(1) refl refl Next g rd this off' len'] gg(1)
      obtain out2 bits where "fprintf_bm_loop cfg h mp p n False s' w = (Inr (out2, bits), w)" "list_all (bm_print_ok ?K) out2"
        "bm_decodes out2 = take_even (bm_todo ?D mp p n (b * T + kk') s')" by auto
      then show ?thesis using st gg(1) Next body
        by (subst fprintf_bm_loop.simps) (simp add: bind_io_def ret_def)
    next
      case Break
      then show ?thesis using st gg by (subst fprintf_bm_loop.simps) (auto simp: bind_io_def ret_def body)
    qed
  qed
qed

lemma dump_geometry_exists:
  assumes "0 < mp" "mp \<le> 8192" "p < mp" "1024 dvd n"
  shows "dump_geometry mp p n (buffer_size div (4096 * mp) * 1024)"
proof -
  have "4096 * mp \<le> buffer_size" using assms(2) by (simp add: buffer_size_def)
  then have "0 < buffer_size div (4096 * mp)" using assms(1) by (simp add: div_greater_zero_iff)
  then show ?thesis using assms by (simp add: dump_geometry_def max_chunk_size_def round_down_def)
qed

lemma fprintf_bm_prints_decodes:
  assumes mp: "mp = unat (max_peers (cfg_md cfg))" "0 < mp" "mp \<le> 8192" "p < mp" and H: "DRBD_PEERS_MAX H \<le> 8192"
    and n: "cfg_bm_bytes cfg = of_nat (4 * n)" "1024 dvd n" and w: "bitmap_readable cfg off n w"
  shows "\<exists>out bits. fprintf_bm_prints H h cfg p w = (Inr (out, bits), w) \<and> list_all (bm_print_ok (peer_words mp p n)) out
    \<and> bm_decodes out = take_even (map (\<lambda>k. disk_word h (disk w) off (p + k * mp)) [0..<peer_words mp p n])"
proof -
  let ?T = "buffer_size div (4096 * mp) * 1024" and ?D = "disk_word h (disk w) off"
  have g: "dump_geometry mp p n ?T" using mp n by (intro dump_geometry_exists) simp_all
  have lt: "n < 2 ^ 32" using w by (simp add: bitmap_readable_def)
  have "unat (cfg_bm_bytes cfg) = 4 * n" using lt n(1) unat_of_nat_u64 [of "4 * n"] by simp
  then have nn: "unat (ucast (cfg_bm_bytes cfg div 4) :: u32) = n" using lt by (simp add: unat_div unsigned_ucast_eq take_bit_nat_eq_self)
  have ok: "DRBD_PEERS_MAX H * 4096 \<le> buffer_size" "max_chunk_size mp \<noteq> 0" using H g by (simp_all add: buffer_size_def dump_geometry_def)
  show ?thesis
  proof (cases "p < n")
    case False
    then have "peer_words mp p n = 0" using peer_words_iff [OF mp(2,4), of 0 n] by simp
    then show ?thesis using False mp nn ok by (simp add: fprintf_bm_prints_def Let_def ret_def)
  next
    case True
    obtain buf where buf: "read_bm_chunk cfg mp n p (of_nat off) w = (Inr (buf, of_nat (off + length buf)), w)"
      "buffered h ?D mp n ?T 0 buf" "length buf = 4 * min n (?T * mp)"
      using read_chunk [OF g w, of p 0 h] True by auto
    let ?s = "\<lparr>bs_i = p, bs_r = p, bs_count = 0, bs_cw = 0, bs_lw = 0, bs_buf = buf, bs_off = of_nat (off + length buf), bs_bits = 0\<rparr>"
    have "bm_inv h ?D mp p n ?T 0 0 False ?s"
      using buf(2) g peer_words_iff [OF mp(2,4), of 0 n] True by (simp add: bm_inv_def Let_def dump_geometry_def)
    then obtain out bits where "fprintf_bm_loop cfg h mp p n False ?s w = (Inr (out, bits), w)" "list_all (bm_print_ok (peer_words mp p n)) out"
      "bm_decodes out = take_even (bm_todo ?D mp p n 0 ?s)"
      using fprintf_bm_loop_decodes [OF g w, of h 0 0 False ?s] buf(3) by auto
    moreover have "cfg_bm_offset cfg = of_nat off" using w by (simp add: bitmap_readable_def)
    ultimately show ?thesis
      using True buf(1) mp nn ok by (simp add: fprintf_bm_prints_def Let_def bind_io_def bm_todo_def)
  qed
qed

section \<open>What the scanner makes of it\<close>

definition word64 :: "u32 \<Rightarrow> u32 \<Rightarrow> u64" where
  "word64 hi lo = of_nat (unat hi * 2 ^ 32 + unat lo)"

fun bm_tokens :: "host \<Rightarrow> bm_print \<Rightarrow> token list" where
  "bm_tokens h (Bm_eol r) = []"
| "bm_tokens h (Bm_times count cw) = [TK_NUM (of_nat (count div 2)), TK_TIMES, TK_U64 (word64 (le32_to_cpu h cw) (le32_to_cpu h cw)), TK_OP (CHR '';'')]"
| "bm_tokens h (Bm_words hi lo) = [TK_U64 (word64 (le32_to_cpu h hi) (le32_to_cpu h lo)), TK_OP (CHR '';'')]"

lemma yylex_simps [simp]:
  "yylex_all [] = []"
  "yylex_all (CHR '' '' # rest) = yylex_all rest" "yylex_all (CHR 0x0A # rest) = yylex_all rest"
  "yylex_all (CHR ''{'' # rest) = TK_OP (CHR ''{'') # yylex_all rest" "yylex_all (CHR ''}'' # rest) = TK_OP (CHR ''}'') # yylex_all rest"
  "yylex_all (CHR '';'' # rest) = TK_OP (CHR '';'') # yylex_all rest"
  "yylex_all (CHR ''['' # rest) = TK_OP (CHR ''['') # yylex_all rest" "yylex_all (CHR '']'' # rest) = TK_OP (CHR '']'') # yylex_all rest"
  using yylex_ws yylex_op by (simp_all add: ws_char_def op_char_def yylex_all.simps)

lemma delim_simps [simp]:
  "\<not> token_char (CHR '' '')" "\<not> token_char (CHR 0x0A)" "\<not> token_char (CHR ''{'')" "\<not> token_char (CHR ''}'')"
  "\<not> token_char (CHR '';'')" "\<not> token_char (CHR ''['')" "\<not> token_char (CHR '']'')"
  by (simp_all add: token_char_def digit_value_def)

lemma yylex_word64: "yylex_all (show_word64 h hi lo @ rest) = TK_U64 (word64 (le32_to_cpu h hi) (le32_to_cpu h lo)) # TK_OP (CHR '';'') # yylex_all rest"
  using yylex_u64_halves [of "CHR '';'' # rest" "unat (le32_to_cpu h hi)" "unat (le32_to_cpu h lo)"] unsigned_less [of "le32_to_cpu h hi"] unsigned_less [of "le32_to_cpu h lo"]
  by (simp add: show_word64_def word64_def)

lemma no_newline [simp]: "CHR 0x0A \<notin> set (show_nat n)"
  using show_nat_digits by (fastforce simp: isdigit_def)

lemma yylex_bm_print:
  assumes "bm_print_ok m x" "m < 10 ^ 19"
  shows "yylex_all (show_bm_print h p [] x @ rest) = bm_tokens h x @ yylex_all rest"
proof (cases x)
  case (Bm_eol r)
  have "yylex_all (CHR ''#'' # ('' at '' @ show_nat (128 * (r - p)) @ ''kB'') @ CHR 0x0A # '' '' @ '' '' @ '' '' @ rest) = yylex_all rest"
    by (subst yylex_comment) simp_all
  then show ?thesis by (simp add: Bm_eol fprintf_bm_eol_def)
next
  case (Bm_times count cw)
  have "count \<le> m" using assms(1) by (simp add: Bm_times)
  then have c: "count div 2 < 10 ^ 19" using assms(2) by linarith
  have k: "yylex_all (''times'' @ CHR '' '' # r) = TK_TIMES # yylex_all r" for r
    using yylex_keyword [of "''times''" TK_TIMES "CHR '' '' # r"] by (simp add: keyword_table_def)
  have "yylex_all (show_nat (count div 2) @ CHR '' '' # r) = TK_NUM (of_nat (count div 2)) # yylex_all r" for r
    using yylex_nat [OF _ c, of "CHR '' '' # r"] by simp
  then show ?thesis using k yylex_word64 by (simp add: Bm_times)
next
  case (Bm_words hi lo)
  then show ?thesis using yylex_word64 by simp
qed

lemma yylex_bm_prints:
  assumes "list_all (bm_print_ok m) out" "m < 10 ^ 19"
  shows "yylex_all (concat (map (show_bm_print h p []) out) @ rest) = concat (map (bm_tokens h) out) @ yylex_all rest"
  using assms(1) by (induction out) (simp_all add: yylex_bm_print [OF _ assms(2)])

end
