(* ===== verification/Bitmap_Restore.thy ===== *)
theory Bitmap_Restore
  imports Bitmap_Dump
begin

text \<open>
  Reading a dumped bitmap: \<^verbatim>\<open>EXP\<close>, \<^verbatim>\<open>assign_32_of_64bit\<close>,
  \<^verbatim>\<open>parse_bitmap_window_one_peer\<close>, \<^verbatim>\<open>parse_bitmap_window\<close> and \<^verbatim>\<open>parse_bitmap\<close> of
  \<^verbatim>\<open>user/shared/drbdmeta.c\<close>. A bitmap of at most one buffer is written back exactly as it
  was dumped; of a larger one only the first buffer is restored.
\<close>

unbundle bit_operations_syntax

section \<open>Expecting tokens\<close>

text \<open>A parse error ends the program with status 10. At the end of the input there are no tokens.\<close>

definition EXP :: "token \<Rightarrow> token list \<Rightarrow> token list res" where
  "EXP t ts = (case ts of [] \<Rightarrow> Inl (Exit 10) | x # ts' \<Rightarrow> if x = t then Inr ts' else Inl (Exit 10))"

definition EXP_NUM :: "token list \<Rightarrow> (u64 \<times> token list) res" where
  "EXP_NUM ts = (case ts of TK_NUM v # ts' \<Rightarrow> Inr (v, ts') | _ \<Rightarrow> Inl (Exit 10))"

definition EXP_U64 :: "token list \<Rightarrow> (u64 \<times> token list) res" where
  "EXP_U64 ts = (case ts of TK_U64 v # ts' \<Rightarrow> Inr (v, ts') | _ \<Rightarrow> Inl (Exit 10))"

definition EXP_U32 :: "token list \<Rightarrow> (u64 \<times> token list) res" where
  "EXP_U32 ts = (case ts of TK_U32 v # ts' \<Rightarrow> Inr (v, ts') | _ \<Rightarrow> Inl (Exit 10))"

abbreviation OP :: "char \<Rightarrow> token list \<Rightarrow> token list res" where "OP c \<equiv> EXP (TK_OP c)"

lemma EXP_simps [simp]:
  "EXP t (t # ts) = Inr ts" "EXP_NUM (TK_NUM v # ts) = Inr (v, ts)" "EXP_U64 (TK_U64 v # ts) = Inr (v, ts)"
  "EXP_U32 (TK_U32 v # ts) = Inr (v, ts)"
  by (simp_all add: EXP_def EXP_NUM_def EXP_U64_def EXP_U32_def)

section \<open>One peer\<close>

text \<open>
  The index \<open>i\<close> is an \<^verbatim>\<open>int\<close>, but it is compared with a \<^verbatim>\<open>size_t\<close>: a negative index counts as
  beyond the window and is not advanced.
\<close>

definition window_words :: nat where "window_words = buffer_size div 4"

definition assign_32_of_64bit :: "host \<Rightarrow> nat \<Rightarrow> u64 \<Rightarrow> int \<times> bytes \<Rightarrow> int \<times> bytes" where
  "assign_32_of_64bit h mp value = (\<lambda>(i, bm).
    if (of_int i :: u64) \<ge> of_nat window_words then (i, bm)
    else (i + int mp,
      if i \<ge> 0 then put_word32 h bm (nat i)
        (cpu_to_le32 h (if nat i div mp mod 2 = 0 then ucast value else ucast (drop_bit 32 value)))
      else bm))"

definition assign_64bit :: "host \<Rightarrow> nat \<Rightarrow> u64 \<Rightarrow> int \<times> bytes \<Rightarrow> int \<times> bytes" where
  "assign_64bit h mp value st = assign_32_of_64bit h mp value (assign_32_of_64bit h mp value st)"

definition to_int32 :: "int \<Rightarrow> int" where "to_int32 x = sint (of_int x :: u32)"

text \<open>
  The loop over the entries. A negative repeat count makes \<^verbatim>\<open>while(times--)\<close> overflow a signed
  integer, which is undefined.
\<close>

fun parse_bm_items :: "host \<Rightarrow> bool \<Rightarrow> nat \<Rightarrow> int \<times> bytes \<Rightarrow> token list \<Rightarrow> (int \<times> bytes \<times> token list) res" where
  "parse_bm_items h parse_only mp (i, bm) [] = Inl (Exit 10)"
| "parse_bm_items h parse_only mp (i, bm) (tok # ts) = (case tok of
     TK_U64 value \<Rightarrow> (case ts of
         semi # ts' \<Rightarrow>
           if semi = TK_OP (CHR '';'')
           then parse_bm_items h parse_only mp
             (if parse_only then (to_int32 (i + 2 * int mp), bm) else assign_64bit h mp value (i, bm)) ts'
           else Inl (Exit 10)
       | [] \<Rightarrow> Inl (Exit 10))
   | TK_NUM n \<Rightarrow>
       let times = sint (ucast n :: u32) in (case ts of
         t # v # semi # ts' \<Rightarrow>
           (case v of TK_U64 value \<Rightarrow>
              if t = TK_TIMES \<and> semi = TK_OP (CHR '';'') then
                if parse_only then parse_bm_items h parse_only mp (to_int32 (i + times * int mp * 2), bm) ts'
                else if times < 0 then Inl OutOfBounds
                else parse_bm_items h parse_only mp ((assign_64bit h mp value ^^ nat times) (i, bm)) ts'
              else Inl (Exit 10)
            | _ \<Rightarrow> Inl (Exit 10))
       | _ \<Rightarrow> Inl (Exit 10))
   | TK_OP c \<Rightarrow> if c = CHR ''}'' then Inr (i, bm, ts) else Inl (Exit 10)
   | _ \<Rightarrow> Inl (Exit 10))"

text \<open>The result is the number of words, the buffer, and what is left of the input.\<close>

definition parse_bitmap_window_one_peer ::
  "host \<Rightarrow> format_cfg \<Rightarrow> nat \<Rightarrow> nat \<Rightarrow> bool \<Rightarrow> bytes \<Rightarrow> token list \<Rightarrow> (int \<times> bytes \<times> token list) res" where
  "parse_bitmap_window_one_peer h cfg window peer_nr parse_only bm ts =
    (let mp = unat (max_peers (cfg_md cfg)); i = to_int32 (int peer_nr - int window * int window_words) in
     bind_res (if format_version (ops cfg) < format_version DRBD_V09 then EXP TK_BM ts
       else bind_res (EXP TK_BITMAP ts) (\<lambda>ts. bind_res (OP (CHR ''['') ts) (\<lambda>ts.
         bind_res (EXP_NUM ts) (\<lambda>(v, ts). bind_res (OP (CHR '']'') ts) (\<lambda>ts.
           if v \<noteq> of_nat peer_nr then Inl (Exit 10) else Inr ts))))) (\<lambda>ts.
     bind_res (OP (CHR ''{'') ts) (\<lambda>ts.
     bind_res (parse_bm_items h parse_only mp (i, bm) ts) (\<lambda>(i, bm, ts).
       Inr (i - int peer_nr, bm, ts)))))"

section \<open>All peers, all windows\<close>

fun parse_peers :: "host \<Rightarrow> format_cfg \<Rightarrow> nat \<Rightarrow> bool \<Rightarrow> nat list \<Rightarrow> int \<times> bytes \<times> token list \<Rightarrow> (int \<times> bytes \<times> token list) res" where
  "parse_peers h cfg window parse_only [] st = Inr st"
| "parse_peers h cfg window parse_only (p # ps) (words, bm, ts) =
    bind_res (parse_bitmap_window_one_peer h cfg window p parse_only bm ts) (parse_peers h cfg window parse_only ps)"

definition parse_bitmap_window :: "host \<Rightarrow> format_cfg \<Rightarrow> nat \<Rightarrow> bool \<Rightarrow> bytes \<Rightarrow> token list \<Rightarrow> (int \<times> bytes \<times> token list) res" where
  "parse_bitmap_window h cfg window parse_only bm ts =
    (if format_version (ops cfg) < format_version DRBD_V09 then parse_bitmap_window_one_peer h cfg window 0 parse_only bm ts
     else parse_peers h cfg window parse_only [0..<unat (max_peers (cfg_md cfg))] (0, bm, ts))"

text \<open>
  What happens to the words of one window: the rest of the buffer is cleared (a count that does
  not fit into the buffer makes \<^verbatim>\<open>memset\<close> run out of bounds), then it is written up to the end
  of the bitmap area. The result says whether something was cut off.
\<close>

definition write_window :: "options \<Rightarrow> format_cfg \<Rightarrow> bool \<Rightarrow> u64 \<Rightarrow> nat \<Rightarrow> nat \<Rightarrow> bytes \<Rightarrow> (bool \<times> bytes) io" where
  "write_window opts cfg parse_only bm_max window words bm =
    (let s = words * 4; pos = cfg_bm_offset cfg + of_nat window * of_nat buffer_size in
     if s > buffer_size then stop_io OutOfBounds
     else let bm = take s bm @ replicate (buffer_size - s) 0; s = unat (ALIGN (of_nat s) (md_hard_sect_size cfg)) in
       bind_io (if parse_only then ret (min s (unat (bm_max - pos)))
                else pwrite_with_limit_or_die opts cfg (take s bm) pos bm_max) (\<lambda>c.
         ret (s \<noteq> c, bm)))"

text \<open>
  The loop over the windows, with a bound \<open>fuel\<close> on their number; two are always enough. The
  input is scanned again from the start of the bitmap for every window.
\<close>

fun parse_bitmap_loop ::
  "nat \<Rightarrow> options \<Rightarrow> host \<Rightarrow> format_cfg \<Rightarrow> bool \<Rightarrow> u64 \<Rightarrow> nat \<Rightarrow> bool \<Rightarrow> bytes \<Rightarrow> token list \<Rightarrow> token list option io" where
  "parse_bitmap_loop 0 opts h cfg parse_only bm_max window truncated bm ts = ret None"
| "parse_bitmap_loop (Suc fuel) opts h cfg parse_only bm_max window truncated bm ts =
    bind_io (lift_res (parse_bitmap_window h cfg window parse_only bm ts)) (\<lambda>(words, bm, rest).
    bind_io (if words > 0 \<and> \<not> truncated then write_window opts cfg parse_only bm_max window (nat words) bm
             else ret (truncated, bm)) (\<lambda>(truncated, bm).
      if words = int window_words then parse_bitmap_loop fuel opts h cfg parse_only bm_max (window + 1) truncated bm ts
      else ret (Some rest)))"

definition parse_bitmap :: "nat \<Rightarrow> options \<Rightarrow> host \<Rightarrow> format_cfg \<Rightarrow> bool \<Rightarrow> bytes \<Rightarrow> token list \<Rightarrow> token list option io" where
  "parse_bitmap fuel opts h cfg parse_only bm ts =
    parse_bitmap_loop fuel opts h cfg parse_only (cfg_bm_offset cfg + ALIGN (cfg_bm_bytes cfg) 4096) 0 False bm ts"

section \<open>The words in the buffer\<close>

lemma length_put_word32 [simp]: "4 * i + 4 \<le> length bm \<Longrightarrow> length (put_word32 h bm i x) = length bm"
  by (simp add: put_word32_def)

lemma get_put_word32:
  assumes "4 * i + 4 \<le> length bm"
  shows "get_word32 h (put_word32 h bm i x) j = (if i = j then x else get_word32 h bm j)"
proof -
  let ?a = "take (4 * i) bm" and ?b = "store h 4 x" and ?c = "drop (4 * i + 4) bm"
  have la: "length ?a = 4 * i" using assms by simp
  consider "j = i" | "j < i" | "i < j" by linarith
  then show ?thesis
  proof cases
    case 1
    then show ?thesis using la by (simp add: get_word32_def put_word32_def load_store)
  next
    case 2
    then have "take 4 (drop (4 * j) (?a @ ?b @ ?c)) = take 4 (drop (4 * j) bm)"
    proof (intro nth_equalityI)
      fix l assume "l < length (take 4 (drop (4 * j) (?a @ ?b @ ?c)))"
      moreover have "4 * j + 4 \<le> 4 * i" using 2 by simp
      ultimately show "take 4 (drop (4 * j) (?a @ ?b @ ?c)) ! l = take 4 (drop (4 * j) bm) ! l"
        using assms by (simp add: nth_append)
    qed (use assms 2 in simp)
    then show ?thesis using 2 by (simp add: get_word32_def put_word32_def)
  next
    case 3
    have "drop (4 * j) (?a @ ?b @ ?c) = drop (4 * j) bm" using la 3 by (simp add: add.commute)
    then show ?thesis using 3 by (simp add: get_word32_def put_word32_def)
  qed
qed

fun put_words :: "host \<Rightarrow> nat \<Rightarrow> nat \<Rightarrow> u32 list \<Rightarrow> bytes \<Rightarrow> bytes" where
  "put_words h mp i [] bm = bm"
| "put_words h mp i (w # ws) bm = put_words h mp (i + mp) ws (put_word32 h bm i w)"

lemma put_words_append: "put_words h mp i (ws @ vs) bm = put_words h mp (i + length ws * mp) vs (put_words h mp i ws bm)"
  by (induction ws arbitrary: i bm) (simp_all add: algebra_simps)

lemma length_put_words:
  "ws \<noteq> [] \<longrightarrow> 4 * (i + (length ws - 1) * mp) + 4 \<le> length bm \<Longrightarrow> length (put_words h mp i ws bm) = length bm"
proof (induction ws arbitrary: i bm)
  case (Cons w ws)
  have "4 * i + 4 \<le> length bm" using Cons.prems by simp
  moreover have "ws \<noteq> [] \<longrightarrow> 4 * (i + mp + (length ws - 1) * mp) + 4 \<le> length bm" using Cons.prems by (cases ws) (simp_all add: algebra_simps)
  ultimately show ?case using Cons.IH [of "i + mp" "put_word32 h bm i w"] by simp
qed simp

lemma get_put_words:
  assumes "0 < mp"
  shows "ws \<noteq> [] \<longrightarrow> 4 * (i + (length ws - 1) * mp) + 4 \<le> length bm \<Longrightarrow> get_word32 h (put_words h mp i ws bm) j =
    (if \<exists>k<length ws. j = i + k * mp then ws ! ((j - i) div mp) else get_word32 h bm j)"
proof (induction ws arbitrary: i bm)
  case (Cons w ws)
  have b: "4 * i + 4 \<le> length bm" using Cons.prems by simp
  have b': "ws \<noteq> [] \<longrightarrow> 4 * (i + mp + (length ws - 1) * mp) + 4 \<le> length (put_word32 h bm i w)"
    using Cons.prems b by (cases ws) (simp_all add: algebra_simps)
  have ex: "(\<exists>k<length (w # ws). j = i + k * mp) \<longleftrightarrow> j = i \<or> (\<exists>k<length ws. j = i + mp + k * mp)"
    by (auto simp: less_Suc_eq_0_disj)
  have nth: "(w # ws) ! ((j - i) div mp) = ws ! ((j - (i + mp)) div mp)" if "\<exists>k<length ws. j = i + mp + k * mp"
    using that assms by auto
  have ne: "j \<noteq> i" if "\<exists>k<length ws. j = i + mp + k * mp" using that assms by auto
  show ?case
    using Cons.IH [OF b'] ex nth ne get_put_word32 [OF b, of h w j] by (cases "j = i") auto
qed simp

section \<open>Parsing what was printed\<close>

lemma word64_halves [simp]: "ucast (word64 hi lo) = lo" "ucast (drop_bit 32 (word64 hi lo)) = hi"
proof -
  have u: "unat (word64 hi lo) = unat hi * 2 ^ 32 + unat lo"
    unfolding word64_def using unat_less [of hi] unat_less [of lo] by (intro unat_of_nat_u64) simp
  have lo: "unat lo < 2 ^ 32" using unat_less [of lo] by simp
  show "ucast (word64 hi lo) = lo"
    by (simp add: word_unat_eq_iff unsigned_ucast_eq u take_bit_eq_mod mod_less [OF lo [simplified]])
  have "unat (drop_bit 32 (word64 hi lo)) = unat hi" using lo by (simp add: drop_bit_eq_div unat_div u)
  then show "ucast (drop_bit 32 (word64 hi lo)) = hi"
    using unat_less [of hi] by (simp add: word_unat_eq_iff unsigned_ucast_eq take_bit_eq_mod)
qed

lemma window_words: "window_words = 8388608"
  by (simp add: window_words_def buffer_size_def)

lemma assign_in_window:
  assumes "x < window_words"
  shows "assign_32_of_64bit h mp v (int x, bm) =
    (int (x + mp), put_word32 h bm x (cpu_to_le32 h (if x div mp mod 2 = 0 then ucast v else ucast (drop_bit 32 v))))"
proof -
  have "unat (of_int (int x) :: u64) = x" using assms unat_of_nat_u64 [of x] by (simp add: window_words)
  moreover have "unat (of_nat window_words :: u64) = window_words" by (simp add: window_words)
  ultimately have "\<not> (of_nat window_words :: u64) \<le> of_int (int x)" using assms by (simp add: word_le_nat_alt)
  then show ?thesis by (simp add: assign_32_of_64bit_def)
qed

lemma assign_64bit_words:
  assumes "p < mp" "even k" "p + (k + 1) * mp < window_words"
  shows "assign_64bit h mp (word64 (le32_to_cpu h hi) (le32_to_cpu h lo)) (int (p + k * mp), bm) =
    (int (p + (k + 2) * mp), put_words h mp (p + k * mp) [lo, hi] bm)"
proof -
  let ?v = "word64 (le32_to_cpu h hi) (le32_to_cpu h lo)"
  have d: "(p + m * mp) div mp = m" for m using assms(1) by simp
  have "p + k * mp < window_words" using assms(3) by simp
  note first = assign_in_window [OF this, of h mp ?v bm] and second = assign_in_window [OF assms(3), of h mp ?v]
  have e: "p + k * mp + mp = p + (k + 1) * mp" "p + (k + 1) * mp + mp = p + (k + 2) * mp" by simp_all
  show ?thesis
    unfolding assign_64bit_def first e(1) second unfolding d e(2) using assms(2) by (simp add: e(1) even_iff_mod_2_eq_zero [symmetric])
qed

lemma assign_64bit_times:
  assumes "p < mp" "even k" "c \<noteq> 0 \<longrightarrow> p + (k + 2 * c - 1) * mp < window_words"
  shows "(assign_64bit h mp (word64 (le32_to_cpu h x) (le32_to_cpu h x)) ^^ c) (int (p + k * mp), bm) =
    (int (p + (k + 2 * c) * mp), put_words h mp (p + k * mp) (replicate (2 * c) x) bm)"
  using assms(3)
proof (induction c)
  case (Suc c)
  have "p + (k + 2 * c + 1) * mp < window_words" using Suc.prems by simp
  note step = assign_64bit_words [OF assms(1) _ this, of h x x]
  have "p + (k + 2 * c - 1) * mp \<le> p + (k + 2 * Suc c - 1) * mp" by (intro add_left_mono mult_le_mono1) simp
  then have "(assign_64bit h mp (word64 (le32_to_cpu h x) (le32_to_cpu h x)) ^^ c) (int (p + k * mp), bm) =
    (int (p + (k + 2 * c) * mp), put_words h mp (p + k * mp) (replicate (2 * c) x) bm)"
    using Suc by (intro Suc.IH) simp
  moreover have "replicate (2 * Suc c) x = replicate (2 * c) x @ [x, x]"
    using replicate_add [of "2 * c" 2 x] by (simp add: numeral_2_eq_2)
  moreover have "p + k * mp + 2 * c * mp = p + (k + 2 * c) * mp" "k + 2 * c + 2 = k + 2 * Suc c" by (simp_all add: algebra_simps)
  ultimately show ?case using step assms(2) by (simp only: funpow.simps o_apply put_words_append length_replicate) simp
qed simp

lemma sint_count: "c < 2 ^ 31 \<Longrightarrow> sint (ucast (of_nat c :: u64) :: u32) = int c"
proof -
  assume c: "c < 2 ^ 31"
  have "(ucast (of_nat c :: u64) :: u32) = of_int (int c)" using ucast_of_int_u32 [of "int c"] by simp
  then show ?thesis using c sint_of_int_u32 [of "int c"] by simp
qed

lemma parse_bm_items_prints:
  assumes p: "p < mp" and ok: "list_all (bm_print_ok m) out" "m < 2 ^ 31"
  shows "even k \<Longrightarrow> bm_decodes out \<noteq> [] \<longrightarrow> p + (k + length (bm_decodes out) - 1) * mp < window_words \<Longrightarrow>
    parse_bm_items h False mp (int (p + k * mp), bm) (concat (map (bm_tokens h) out) @ TK_OP (CHR ''}'') # rest) =
      Inr (int (p + (k + length (bm_decodes out)) * mp), put_words h mp (p + k * mp) (bm_decodes out) bm, rest)
    \<and> even (length (bm_decodes out))"
  using ok(1)
proof (induction out arbitrary: k bm)
  case (Cons x out)
  let ?n = "length (bm_decode x)"
  have x: "bm_print_ok m x" "list_all (bm_print_ok m) out" using Cons.prems(3) by simp_all
  have ev: "even ?n" using x(1) by (cases x) simp_all
  have next_range: "bm_decodes out \<noteq> [] \<longrightarrow> p + (k + ?n + length (bm_decodes out) - 1) * mp < window_words"
    using Cons.prems(2) by (auto simp: add.assoc)
  have range: "?n \<noteq> 0 \<longrightarrow> p + (k + ?n - 1) * mp < window_words"
  proof
    assume "?n \<noteq> 0"
    then have "p + (k + length (bm_decodes (x # out)) - 1) * mp < window_words" using Cons.prems(2) by auto
    moreover have "p + (k + ?n - 1) * mp \<le> p + (k + length (bm_decodes (x # out)) - 1) * mp" by (intro add_left_mono mult_le_mono1) simp
    ultimately show "p + (k + ?n - 1) * mp < window_words" by (rule order_le_less_trans [rotated])
  qed
  let ?bm = "put_words h mp (p + k * mp) (bm_decode x) bm"
  have IH: "parse_bm_items h False mp (int (p + (k + ?n) * mp), ?bm) (concat (map (bm_tokens h) out) @ TK_OP (CHR ''}'') # rest) =
      Inr (int (p + (k + ?n + length (bm_decodes out)) * mp), put_words h mp (p + (k + ?n) * mp) (bm_decodes out) ?bm, rest)
    \<and> even (length (bm_decodes out))"
    using Cons.IH [OF _ next_range x(2)] ev Cons.prems(1) by simp
  have "parse_bm_items h False mp (int (p + k * mp), bm) (bm_tokens h x @ ts) = parse_bm_items h False mp (int (p + (k + ?n) * mp), ?bm) ts" for ts
  proof (cases x)
    case (Bm_times c w)
    obtain c2 where c2: "c = 2 * c2" "c2 < 2 ^ 31" "c2 \<noteq> 0" using x(1) ok(2) by (auto simp: Bm_times elim!: evenE)
    have "(assign_64bit h mp (word64 (le32_to_cpu h w) (le32_to_cpu h w)) ^^ c2) (int (p + k * mp), bm) = (int (p + (k + ?n) * mp), ?bm)"
      using assign_64bit_times [OF p Cons.prems(1), of c2 h w bm] range c2 by (simp add: Bm_times)
    then show ?thesis using sint_count [OF c2(2)] by (simp add: Bm_times c2(1))
  next
    case (Bm_words hi lo)
    then show ?thesis using assign_64bit_words [OF p Cons.prems(1), of h hi lo bm] range by simp
  qed simp
  moreover have "put_words h mp (p + k * mp) (bm_decodes (x # out)) bm = put_words h mp (p + (k + ?n) * mp) (bm_decodes out) ?bm"
    by (simp add: put_words_append algebra_simps)
  ultimately show ?case using IH ev by (simp add: algebra_simps)
qed simp

section \<open>All peers\<close>

definition peer_heading :: "md_format \<Rightarrow> nat \<Rightarrow> token list" where
  "peer_heading f p = (if format_version f < format_version DRBD_V09 then [TK_BM]
     else [TK_BITMAP, TK_OP (CHR ''[''), TK_NUM (of_nat p), TK_OP (CHR '']'')])"

definition peer_tokens :: "host \<Rightarrow> md_format \<Rightarrow> (nat \<Rightarrow> bm_print list) \<Rightarrow> nat \<Rightarrow> token list" where
  "peer_tokens h f outs p = peer_heading f p @ TK_OP (CHR ''{'') # concat (map (bm_tokens h) (outs p)) @ [TK_OP (CHR ''}'')]"

text \<open>The dump \<open>outs\<close> of the peers fits into one window.\<close>

definition in_window :: "nat \<Rightarrow> (nat \<Rightarrow> bm_print list) \<Rightarrow> nat \<Rightarrow> bool" where
  "in_window mp outs p \<longleftrightarrow> list_all (bm_print_ok (2 ^ 31 - 1)) (outs p) \<and>
     (bm_decodes (outs p) \<noteq> [] \<longrightarrow> p + (length (bm_decodes (outs p)) - 1) * mp < window_words)"

lemma parse_one_peer:
  assumes "p < unat (max_peers (cfg_md cfg))" and w: "in_window (unat (max_peers (cfg_md cfg))) outs p"
    and f: "p < 2 ^ 31"
  shows "parse_bitmap_window_one_peer h cfg 0 p False bm (peer_tokens h (ops cfg) outs p @ rest) =
    Inr (int (length (bm_decodes (outs p)) * unat (max_peers (cfg_md cfg))),
      put_words h (unat (max_peers (cfg_md cfg))) p (bm_decodes (outs p)) bm, rest)"
proof -
  let ?mp = "unat (max_peers (cfg_md cfg))"
  have i: "to_int32 (int p - int 0 * int window_words) = int p" using sint_of_int_u32 [of "int p"] f by (simp add: to_int32_def)
  have "parse_bm_items h False ?mp (int p, bm) (concat (map (bm_tokens h) (outs p)) @ TK_OP (CHR ''}'') # rest) =
      Inr (int (p + length (bm_decodes (outs p)) * ?mp), put_words h ?mp p (bm_decodes (outs p)) bm, rest)"
    using parse_bm_items_prints [OF assms(1), of "2 ^ 31 - 1" "outs p" 0 h bm rest] w by (simp add: in_window_def)
  then show ?thesis
    using i by (simp add: parse_bitmap_window_one_peer_def Let_def peer_tokens_def peer_heading_def)
qed

lemma parse_peers_tokens:
  assumes mp: "mp = unat (max_peers (cfg_md cfg))" "mp < 2 ^ 31" and w: "\<And>p. p < mp \<Longrightarrow> in_window mp outs p" and q: "q \<le> mp"
  shows "parse_peers h cfg 0 False [q..<mp] (x, bm, concat (map (peer_tokens h (ops cfg) outs) [q..<mp]) @ rest) =
    Inr (if q < mp then int (length (bm_decodes (outs (mp - 1))) * mp) else x, fold (\<lambda>p. put_words h mp p (bm_decodes (outs p))) [q..<mp] bm, rest)"
  using q
proof (induction "mp - q" arbitrary: q x bm)
  case (Suc n)
  then have q: "q < mp" by simp
  have "parse_peers h cfg 0 False [Suc q..<mp] (y, bm', concat (map (peer_tokens h (ops cfg) outs) [Suc q..<mp]) @ rest) =
    Inr (if Suc q < mp then int (length (bm_decodes (outs (mp - 1))) * mp) else y, fold (\<lambda>p. put_words h mp p (bm_decodes (outs p))) [Suc q..<mp] bm', rest)"
    for y bm' using Suc.hyps(2) q by (intro Suc.hyps(1)) simp_all
  moreover have "parse_bitmap_window_one_peer h cfg 0 q False bm (peer_tokens h (ops cfg) outs q @ ts) =
    Inr (int (length (bm_decodes (outs q)) * mp), put_words h mp q (bm_decodes (outs q)) bm, ts)" for ts
    using parse_one_peer [of q cfg outs h bm ts] q w [OF q] mp by simp
  moreover have "\<not> Suc q < mp \<Longrightarrow> q = mp - 1" using q by simp
  ultimately show ?case using q by (auto simp: upt_conv_Cons)
qed simp

lemma fold_put_words:
  assumes mp: "0 < mp" and len: "length bm = buffer_size" and w: "\<And>p. p < mp \<Longrightarrow> in_window mp outs p" and q: "q \<le> mp"
  shows "length (fold (\<lambda>p. put_words h mp p (bm_decodes (outs p))) [0..<q] bm) = buffer_size \<and>
    (\<forall>x. x mod mp < q \<longrightarrow> x div mp < length (bm_decodes (outs (x mod mp))) \<longrightarrow>
      get_word32 h (fold (\<lambda>p. put_words h mp p (bm_decodes (outs p))) [0..<q] bm) x = bm_decodes (outs (x mod mp)) ! (x div mp))"
  using q
proof (induction q)
  case (Suc q)
  let ?ws = "bm_decodes (outs q)" and ?bm = "fold (\<lambda>p. put_words h mp p (bm_decodes (outs p))) [0..<q] bm"
  have q: "q < mp" using Suc.prems by simp
  have b: "?ws \<noteq> [] \<longrightarrow> 4 * (q + (length ?ws - 1) * mp) + 4 \<le> length ?bm"
    using w [OF q] Suc by (auto simp: in_window_def window_words buffer_size_def)
  have key: "(\<exists>k<length ?ws. x = q + k * mp) \<longleftrightarrow> x mod mp = q \<and> x div mp < length ?ws" for x
    using q by (auto intro!: exI [of _ "x div mp"])
  have "get_word32 h (put_words h mp q ?ws ?bm) x = bm_decodes (outs (x mod mp)) ! (x div mp)"
    if "x mod mp < Suc q" "x div mp < length (bm_decodes (outs (x mod mp)))" for x
  proof (cases "x mod mp = q")
    case True
    have "(x - q) div mp = x div mp" using True by (metis minus_mod_eq_div_mult nonzero_mult_div_cancel_right mp less_not_refl)
    then show ?thesis using get_put_words [OF mp b, of h x] key that True by auto
  next
    case False
    then show ?thesis using get_put_words [OF mp b, of h x] key that Suc by auto
  qed
  then show ?case using length_put_words [OF b, of h] Suc by simp
qed (simp add: len)

section \<open>Beyond the first window\<close>

lemma assign_negative: "- (2 ^ 31) \<le> i \<Longrightarrow> i < 0 \<Longrightarrow> assign_64bit h mp v (i, bm) = (i, bm)"
proof -
  assume i: "- (2 ^ 31) \<le> i" "i < 0"
  have "uint (of_int i :: u64) = i mod 2 ^ 64" by (simp add: uint_word_of_int)
  also have "\<dots> = (i + 2 ^ 64) mod 2 ^ 64" by simp
  also have "\<dots> = i + 2 ^ 64" using i by (intro mod_pos_pos_trivial) simp_all
  finally have "uint (of_int i :: u64) = i + 2 ^ 64" .
  then have "(of_nat window_words :: u64) \<le> of_int i" using i by (simp add: word_le_def window_words)
  then show ?thesis by (simp add: assign_64bit_def assign_32_of_64bit_def)
qed

lemma assign_negative_times: "- (2 ^ 31) \<le> i \<Longrightarrow> i < 0 \<Longrightarrow> (assign_64bit h mp v ^^ c) (i, bm) = (i, bm)"
  by (induction c) (simp_all add: assign_negative)

lemma parse_bm_items_negative:
  "parse_bm_items h False mp (i, bm) ts = Inr (i', bm', rest) \<Longrightarrow> - (2 ^ 31) \<le> i \<Longrightarrow> i < 0 \<Longrightarrow> i' = i \<and> bm' = bm"
proof (induction ts arbitrary: rule: length_induct)
  case (1 ts)
  show ?case
  proof (cases ts)
    case Nil
    then show ?thesis using "1.prems" by simp
  next
    case (Cons tok ts')
    have IH: "parse_bm_items h False mp (i, bm) ys = Inr (i', bm', rest) \<Longrightarrow> length ys < Suc (length ts') \<Longrightarrow> i' = i \<and> bm' = bm" for ys
      using "1.IH" "1.prems"(2,3) by (simp add: Cons)
    show ?thesis
      using "1.prems" assign_negative [OF "1.prems"(2,3)] assign_negative_times [OF "1.prems"(2,3)]
      by (auto simp: Cons Let_def dest: IH split: token.splits list.splits if_splits)
  qed
qed

lemma second_window_one_peer:
  assumes "parse_bitmap_window_one_peer h cfg 1 p False bm ts = Inr (words, bm', rest)" and "p < 2 ^ 20"
  shows "words = - int window_words"
proof -
  have i: "to_int32 (int p - int window_words) = int p - int window_words"
    using sint_of_int_u32 [of "int p - int window_words"] assms(2) by (simp add: to_int32_def window_words)
  obtain ts' i' where "parse_bm_items h False (unat (max_peers (cfg_md cfg))) (int p - int window_words, bm) ts' = Inr (i', bm', rest)"
    "words = i' - int p"
    using assms(1) i by (auto simp: parse_bitmap_window_one_peer_def Let_def bind_res_def split: sum.splits if_splits)
  then show ?thesis using parse_bm_items_negative assms(2) by (force simp: window_words)
qed

lemma parse_peers_second:
  "parse_peers h cfg 1 False ps (x, bm, ts) = Inr (words, bm', rest) \<Longrightarrow> \<forall>p\<in>set ps. p < 2 ^ 20 \<Longrightarrow> words = x \<or> words = - int window_words"
proof (induction ps arbitrary: x bm ts)
  case (Cons p ps)
  from Cons.prems(1) obtain x2 bm2 ts2 where o: "parse_bitmap_window_one_peer h cfg 1 p False bm ts = Inr (x2, bm2, ts2)"
    and r: "parse_peers h cfg 1 False ps (x2, bm2, ts2) = Inr (words, bm', rest)"
    by (auto simp: bind_res_def split: sum.splits)
  have "x2 = - int window_words" using second_window_one_peer [OF o] Cons.prems(2) by simp
  then show ?case using Cons.IH [OF r] Cons.prems(2) by auto
qed simp

lemma second_window:
  assumes "parse_bitmap_window h cfg 1 False bm ts = Inr (words, bm', rest)" and "unat (max_peers (cfg_md cfg)) \<le> 2 ^ 20"
  shows "words \<le> 0"
  using assms second_window_one_peer [of h cfg 0 bm ts words bm' rest] parse_peers_second [of h cfg "[0..<unat (max_peers (cfg_md cfg))]" 0 bm ts words bm' rest]
  by (auto simp: parse_bitmap_window_def split: if_splits)

lemma parse_bm_items_cases:
  assumes "parse_bm_items h parse_only mp (i, bm) ts = Inr (i', bm', rest)"
  obtains (word) v ys where "ts = TK_U64 v # TK_OP (CHR '';'') # ys"
    | (times) n v ys where "ts = TK_NUM n # TK_TIMES # TK_U64 v # TK_OP (CHR '';'') # ys" "parse_only \<or> 0 \<le> sint (ucast n :: u32)"
    | (end_) "ts = TK_OP (CHR ''}'') # rest" "i' = i"
  using assms by (cases ts) (auto simp: Let_def split: token.splits list.splits if_splits)

text \<open>In a pass that only checks the syntax the index moves by the same distance in every window.\<close>

lemma to_int32_add: "to_int32 (to_int32 a + b) = to_int32 (a + b)"
  by (simp add: to_int32_def)

lemma to_int32_id: "- (2 ^ 31) \<le> i \<Longrightarrow> i < 2 ^ 31 \<Longrightarrow> to_int32 i = i"
  by (simp add: to_int32_def sint_of_int_u32)

lemma parse_only_distance:
  assumes "parse_bm_items h True mp (i, bm) ts = Inr (i', bm', rest)" and "to_int32 i = i"
  shows "\<exists>d. i' = to_int32 (i + d) \<and> (\<forall>j b. to_int32 j = j \<longrightarrow> parse_bm_items h True mp (j, b) ts = Inr (to_int32 (j + d), b, rest))"
  using assms
proof (induction ts arbitrary: i bm rule: length_induct)
  case (1 ts)
  have step: "\<exists>d. i' = to_int32 (i + d) \<and> (\<forall>j b. to_int32 j = j \<longrightarrow> parse_bm_items h True mp (j, b) ts = Inr (to_int32 (j + d), b, rest))"
    if len: "length ys < length ts" and eq: "\<And>j b. parse_bm_items h True mp (j, b) ts = parse_bm_items h True mp (to_int32 (j + e), b) ys" for ys e
  proof -
    have idem: "to_int32 (to_int32 x) = to_int32 x" for x using to_int32_add [of x 0] by simp
    obtain d where d: "i' = to_int32 (to_int32 (i + e) + d)"
      "\<And>j b. to_int32 j = j \<Longrightarrow> parse_bm_items h True mp (j, b) ys = Inr (to_int32 (j + d), b, rest)"
      using "1.IH" [rule_format, OF len, of "to_int32 (i + e)" bm] "1.prems"(1) eq [of i bm] idem by fastforce
    show ?thesis
      using d(1) d(2) [OF idem] eq by (intro exI [of _ "e + d"]) (simp add: to_int32_add add.assoc)
  qed
  show ?case
    using "1.prems"(1)
  proof (cases rule: parse_bm_items_cases)
    case (word v ys)
    then show ?thesis by (intro step [of ys "2 * int mp"]) simp_all
  next
    case (times n v ys)
    then show ?thesis by (intro step [of ys "sint (ucast n :: u32) * int mp * 2"]) (simp_all add: Let_def)
  next
    case end_
    then show ?thesis using "1.prems"(2) by (intro exI [of _ 0]) simp
  qed
qed

lemma windows_one_peer:
  assumes one: "parse_bitmap_window_one_peer h cfg 0 p True bm ts = Inr (words, bm', rest)"
    and two: "parse_bitmap_window_one_peer h cfg 1 p True b2 ts = Inr (words2, b2', rest2)" and p: "p < 2 ^ 20"
  shows "rest2 = rest \<and> (words = int window_words \<longrightarrow> words2 = 0)"
proof -
  let ?mp = "unat (max_peers (cfg_md cfg))"
  have i: "to_int32 (int p) = int p" "to_int32 (int p - int window_words) = int p - int window_words"
    using p by (simp_all add: to_int32_id window_words)
  obtain ts' i' where one': "parse_bm_items h True ?mp (int p, bm) ts' = Inr (i', bm', rest)" "words = i' - int p"
    and two': "parse_bm_items h True ?mp (int p - int window_words, b2) ts' = Inr (words2 + int p, b2', rest2)"
    using one two i by (auto simp: parse_bitmap_window_one_peer_def Let_def bind_res_def split: sum.splits if_splits)
  obtain d where d: "i' = to_int32 (int p + d)" "rest2 = rest" "words2 + int p = to_int32 (int p - int window_words + d)"
    using parse_only_distance [OF one'(1) i(1)] two' i(2) by fastforce
  have "words2 + int p = to_int32 (to_int32 (int p + d) + - int window_words)" unfolding to_int32_add d(3) by (simp add: algebra_simps)
  then have "words2 + int p = to_int32 (i' - int window_words)" using d(1) by simp
  moreover have "i' - int window_words = int p" if "words = int window_words" using that one'(2) by simp
  ultimately show ?thesis using d(2) i(1) by auto
qed

lemma windows_peers:
  "parse_peers h cfg 0 True ps (x, bm, ts) = Inr (words, bm', rest) \<Longrightarrow> parse_peers h cfg 1 True ps (y, b2, ts) = Inr (words2, b2', rest2) \<Longrightarrow>
    \<forall>p\<in>set ps. p < 2 ^ 20 \<Longrightarrow> (x = int window_words \<longrightarrow> y = 0) \<Longrightarrow> words = int window_words \<longrightarrow> words2 = 0"
proof (induction ps arbitrary: x bm ts y b2)
  case (Cons p ps)
  from Cons.prems(1) obtain x2 bm2 ts2 where a: "parse_bitmap_window_one_peer h cfg 0 p True bm ts = Inr (x2, bm2, ts2)"
    "parse_peers h cfg 0 True ps (x2, bm2, ts2) = Inr (words, bm', rest)"
    by (auto simp: bind_res_def split: sum.splits)
  from Cons.prems(2) obtain y2 b3 ts3 where b: "parse_bitmap_window_one_peer h cfg 1 p True b2 ts = Inr (y2, b3, ts3)"
    "parse_peers h cfg 1 True ps (y2, b3, ts3) = Inr (words2, b2', rest2)"
    by (auto simp: bind_res_def split: sum.splits)
  have "ts3 = ts2 \<and> (x2 = int window_words \<longrightarrow> y2 = 0)" using windows_one_peer [OF a(1) b(1)] Cons.prems(3) by simp
  then show ?case using Cons.IH [OF a(2), of y2 b3] b(2) Cons.prems(3) by simp
qed simp

lemma two_windows:
  assumes "parse_bitmap_window h cfg 0 parse_only bm ts = Inr (int window_words, bm', rest)"
    and "parse_bitmap_window h cfg 1 parse_only b2 ts = Inr (words, b2', rest2)" and "unat (max_peers (cfg_md cfg)) \<le> 2 ^ 20"
  shows "words \<le> 0"
proof (cases parse_only)
  case False
  then show ?thesis using second_window [of h cfg b2 ts words b2' rest2] assms(2,3) by simp
next
  case True
  have "words = 0"
    using assms windows_one_peer [of h cfg 0 bm ts _ bm' rest b2 words b2' rest2]
      windows_peers [of h cfg "[0..<unat (max_peers (cfg_md cfg))]" 0 bm ts _ bm' rest 0 b2 words b2' rest2]
    by (auto simp: parse_bitmap_window_def True split: if_splits)
  then show ?thesis by simp
qed

text \<open>
  C16. Reading the bitmap of a dump always comes to an end, whatever the input is: after at
  most two windows \<^verbatim>\<open>parse_bitmap\<close> returns or stops with an error, both when it restores and when
  it only checks the file.
\<close>

theorem parse_bitmap_returns:
  assumes "unat (max_peers (cfg_md cfg)) \<le> 2 ^ 20"
  shows "fst (parse_bitmap (Suc (Suc fuel)) opts h cfg parse_only bm ts w) \<noteq> Inr None"
proof -
  have second: "words \<noteq> int window_words" if "parse_bitmap_window h cfg 0 parse_only bm ts = Inr (int window_words, bm1, rest1)"
    and "parse_bitmap_window h cfg (Suc 0) parse_only b ts = Inr (words, bm2, rest2)" for bm1 rest1 b words bm2 rest2
    using two_windows [OF that(1) that(2) [folded One_nat_def] assms] by (simp add: window_words)
  show ?thesis
    using second window_words by (auto simp: parse_bitmap_def bind_io_def ret_def lift_res_def split: sum.splits prod.splits)
qed

lemma pwrite_limit_outside:
  assumes "pwrite_with_limit_or_die opts cfg buf pos lim w = (r, w')" and i: "i < unat pos \<or> unat pos + length buf \<le> i"
  shows "disk w' i = disk w i"
proof -
  let ?count = "if length buf > unat (lim - pos) then unat (lim - pos) else length buf"
  obtain r1 w1 where p: "pwrite_or_die opts cfg (take ?count buf) pos w = (r1, w1)" by (rule prod.exhaust)
  have "disk w' = disk w1 \<or> disk w' = disk w"
    using assms(1) p unfolding pwrite_with_limit_or_die_def Let_def
    by (cases "sint lim \<le> sint pos"; cases r1) (simp_all add: bind_io_def ret_def stop_io_def)
  moreover have "write_bytes (disk w) (unat pos) (take c (take ?count buf)) i = disk w i" for c
    using i by (intro write_bytes_outside) auto
  ultimately show ?thesis using pwrite_result(2) [OF p(1)] by auto
qed

lemma write_window_outside:
  assumes run: "write_window opts cfg False bm_max window words bm w = (r, w')"
    and pos: "pos = unat (cfg_bm_offset cfg + of_nat window * of_nat buffer_size)" and i: "i < pos \<or> pos + buffer_size \<le> i"
  shows "disk w' i = disk w i"
proof (cases "words * 4 > buffer_size")
  case True
  then show ?thesis using run by (simp add: write_window_def Let_def stop_io_def)
next
  case False
  let ?bm = "take (words * 4) bm @ replicate (buffer_size - words * 4) 0"
  let ?buf = "take (unat (ALIGN (of_nat (words * 4) :: u64) (md_hard_sect_size cfg))) ?bm"
  obtain r1 where "pwrite_with_limit_or_die opts cfg ?buf (cfg_bm_offset cfg + of_nat window * of_nat buffer_size) bm_max w = (r1, w')"
    using run False by (auto simp: write_window_def Let_def bind_io_def ret_def split: prod.splits sum.splits)
  moreover have "length ?buf \<le> buffer_size" using False by simp
  then have "i < pos \<or> pos + length ?buf \<le> i" using i by linarith
  ultimately show ?thesis unfolding pos by (rule pwrite_limit_outside)
qed

text \<open>
  C15. Whatever the dump says, \<^verbatim>\<open>restore-md\<close> changes no byte of the bitmap beyond the first
  buffer of 32 MiB: behind that the index is negative, and compared as an unsigned number it counts as
  outside of the window. A larger bitmap is not restored there.
\<close>

theorem restore_first_window_only:
  assumes run: "parse_bitmap fuel opts h cfg False bm ts w = (r, w')" and mp: "unat (max_peers (cfg_md cfg)) \<le> 2 ^ 20"
    and i: "i < unat (cfg_bm_offset cfg) \<or> unat (cfg_bm_offset cfg) + buffer_size \<le> i"
  shows "disk w' i = disk w i"
proof (cases fuel)
  case 0
  then show ?thesis using run by (simp add: parse_bitmap_def ret_def)
next
  case (Suc f)
  have second: "disk w2 = disk w1" if "parse_bitmap_loop fuel opts h cfg False lim 1 tr b ts w1 = (r2, w2)" for fuel lim tr b w1 r2 w2
  proof (cases fuel)
    case (Suc f)
    then show ?thesis using that second_window [of h cfg b ts _ _ _] mp window_words
      by (auto simp: bind_io_def ret_def lift_res_def split: sum.splits prod.splits if_splits)
  qed (use that in \<open>simp add: ret_def\<close>)
  have first: "disk w1 i = disk w i" if "write_window opts cfg False lim 0 n b w = (r1, w1)" for lim n b r1 w1
    using write_window_outside [OF that refl] i by simp
  show ?thesis
    using run first second
    by (auto simp: Suc parse_bitmap_def bind_io_def ret_def lift_res_def split: sum.splits prod.splits if_splits)
qed

text \<open>A dump of the example configuration that sets all words of the only peer.\<close>

definition example_tokens :: "token list" where
  "example_tokens = [TK_BITMAP, TK_OP (CHR ''[''), TK_NUM 0, TK_OP (CHR '']''), TK_OP (CHR ''{''),
     TK_NUM 512, TK_TIMES, TK_U64 0xffffffffffffffff, TK_OP (CHR '';''), TK_OP (CHR ''}'')]"

lemma example_max_peers: "unat (max_peers (cfg_md example_ext_cfg)) \<le> 2 ^ 20"
  by (simp add: example_ext_cfg_def example_cfg_def)

theorem parse_bitmap_returns_witness:
  "fst (parse_bitmap (Suc (Suc 0)) example_options LittleEndian example_ext_cfg False (replicate buffer_size 0) example_tokens example_world) \<noteq> Inr None"
  using parse_bitmap_returns [OF example_max_peers] by blast

theorem restore_first_window_only_witness:
  "disk (snd (parse_bitmap (Suc (Suc 0)) example_options LittleEndian example_ext_cfg False (replicate buffer_size 0) example_tokens example_world)) 33591296 = 7"
proof -
  have "36864 + buffer_size \<le> 33591296" by (simp add: buffer_size_def)
  then show ?thesis
    using restore_first_window_only [OF prod.collapse [symmetric] example_max_peers, of 33591296]
    by (simp add: example_ext_cfg_def example_world_def)
qed

end
