(* ===== verification/Bitmap_Roundtrip.thy ===== *)
theory Bitmap_Roundtrip
  imports Bitmap_Restore
begin

text \<open>
  Dumping a bitmap and restoring it: the scanner splits what \<^verbatim>\<open>printf_bm\<close> prints into the
  tokens that \<^verbatim>\<open>parse_bitmap\<close> expects, and every word of the bitmap is written back.
\<close>

section \<open>The text of all peers\<close>

lemma yylex_num_bracket: "m < 10 ^ 19 \<Longrightarrow> yylex_all (show_nat m @ CHR '']'' # r) = TK_NUM (of_nat m) # TK_OP (CHR '']'') # yylex_all r"
  using yylex_nat [of "CHR '']'' # r" m] by simp

lemma yylex_bitmap_word: "yylex_all (''bitmap'' @ CHR ''['' # r) = TK_BITMAP # TK_OP (CHR ''['') # yylex_all r"
  using yylex_keyword [of "''bitmap''" TK_BITMAP "CHR ''['' # r"] by (simp add: keyword_table_def)

lemma yylex_bm_word: "yylex_all (''bm'' @ CHR '' '' # r) = TK_BM # yylex_all r"
  using yylex_keyword [of "''bm''" TK_BM "CHR '' '' # r"] by (simp add: keyword_table_def)

lemma yylex_peer_text:
  assumes "list_all (bm_print_ok m) (outs p)" "m < 10 ^ 19"
  shows "yylex_all (''{'' @ concat (map (show_bm_print h p []) (outs p)) @ CHR 0x0A # ''}'' @ CHR 0x0A # rest) =
    TK_OP (CHR ''{'') # concat (map (bm_tokens h) (outs p)) @ TK_OP (CHR ''}'') # yylex_all rest"
  using yylex_bm_prints [OF assms, of h p "CHR 0x0A # ''}'' @ CHR 0x0A # rest"] by simp

text \<open>The bitmap of \<open>n\<close> words at \<open>off\<close> can be dumped.\<close>

definition dumpable :: "headers \<Rightarrow> format_cfg \<Rightarrow> nat \<Rightarrow> nat \<Rightarrow> world \<Rightarrow> bool" where
  "dumpable H cfg off n w \<longleftrightarrow> 0 < max_peers (cfg_md cfg) \<and> unat (max_peers (cfg_md cfg)) \<le> 8192 \<and> DRBD_PEERS_MAX H \<le> 8192 \<and>
     cfg_bm_bytes cfg = of_nat (4 * n) \<and> 1024 dvd n \<and> bitmap_readable cfg off n w"

lemma dumpable_bits_set [simp]: "dumpable H (cfg\<lparr>bits_set := b\<rparr>) off n w = dumpable H cfg off n w"
  by (simp add: dumpable_def bitmap_readable_def)

text \<open>The words of peer \<open>p\<close> that a dump shows.\<close>

definition dump_words :: "host \<Rightarrow> content \<Rightarrow> nat \<Rightarrow> nat \<Rightarrow> nat \<Rightarrow> nat \<Rightarrow> u32 list" where
  "dump_words h d off mp n p = take_even (map (\<lambda>k. disk_word h d off (p + k * mp)) [0..<peer_words mp p n])"

definition peer_dumped :: "host \<Rightarrow> content \<Rightarrow> nat \<Rightarrow> nat \<Rightarrow> nat \<Rightarrow> (nat \<Rightarrow> bm_print list) \<Rightarrow> nat \<Rightarrow> bool" where
  "peer_dumped h d off mp n outs p \<longleftrightarrow>
    list_all (bm_print_ok (peer_words mp p n)) (outs p) \<and> bm_decodes (outs p) = dump_words h d off mp n p"

lemma peer_words_le: "peer_words mp p n \<le> n"
proof (cases "mp = 0 \<or> n \<le> p")
  case True
  then show ?thesis by (cases mp) (auto simp: peer_words_def)
next
  case False
  then have "n - p + mp - 1 \<le> (n - p) * mp + (mp - 1)" by (cases mp) auto
  then have "peer_words mp p n \<le> ((n - p) * mp + (mp - 1)) div mp" unfolding peer_words_def by (rule div_le_mono)
  also have "\<dots> = n - p" using False by (intro div_nat_eqI) (auto simp: mult.commute)
  finally show ?thesis by simp
qed

lemma fprintf_bm_text:
  assumes d: "dumpable H cfg off n w" and p: "p < unat (max_peers (cfg_md cfg))"
  shows "\<exists>str b out. fprintf_bm H h cfg p [] w = (Inr (str, cfg\<lparr>bits_set := b\<rparr>), w) \<and>
    peer_dumped h (disk w) off (unat (max_peers (cfg_md cfg))) n (\<lambda>_. out) p \<and>
    (\<forall>rest. yylex_all (str @ rest) = TK_OP (CHR ''{'') # concat (map (bm_tokens h) out) @ TK_OP (CHR ''}'') # yylex_all rest)"
proof -
  let ?mp = "unat (max_peers (cfg_md cfg))"
  have "0 < ?mp" using d by (simp add: dumpable_def word_less_nat_alt)
  then obtain out bits where out: "fprintf_bm_prints H h cfg p w = (Inr (out, bits), w)" "list_all (bm_print_ok (peer_words ?mp p n)) out"
    "bm_decodes out = dump_words h (disk w) off ?mp n p"
    using fprintf_bm_prints_decodes [OF refl _ _ p, of H n off w h] d by (auto simp: dumpable_def dump_words_def)
  have "n < 10 ^ 19" using d by (simp add: dumpable_def bitmap_readable_def)
  then have "peer_words ?mp p n < 10 ^ 19" using peer_words_le [of ?mp p n] by linarith
  with out show ?thesis
    using yylex_peer_text [of _ "\<lambda>_. out" p h, OF out(2)]
    by (auto simp: fprintf_bm_def bind_io_def ret_def peer_dumped_def)
qed

lemma fprintf_bm_peers_text:
  assumes mp: "mp = unat (max_peers (cfg_md cfg))" and d: "dumpable H cfg off n w" and q: "q \<le> mp"
  shows "\<exists>str b outs. fprintf_bm_peers H h [q..<mp] cfg w = (Inr (str, cfg\<lparr>bits_set := b\<rparr>), w) \<and>
    (\<forall>p. q \<le> p \<longrightarrow> p < mp \<longrightarrow> peer_dumped h (disk w) off mp n outs p) \<and>
    (\<forall>rest. yylex_all (str @ rest) = concat (map (peer_tokens h DRBD_V09 outs) [q..<mp]) @ yylex_all rest)"
  using q mp d
proof (induction "mp - q" arbitrary: q cfg)
  case 0
  then have "fprintf_bm_peers H h [q..<mp] cfg w = (Inr ([], cfg\<lparr>bits_set := bits_set cfg\<rparr>), w)" by (simp add: ret_def)
  then show ?case using 0 by (intro exI [of _ "[]"] exI [of _ "bits_set cfg"] exI [of _ "\<lambda>_. []"]) simp
next
  case (Suc k)
  then have q: "q < mp" by simp
  obtain str b out where one: "fprintf_bm H h cfg q [] w = (Inr (str, cfg\<lparr>bits_set := b\<rparr>), w)"
    "peer_dumped h (disk w) off mp n (\<lambda>_. out) q"
    "\<And>rest. yylex_all (str @ rest) = TK_OP (CHR ''{'') # concat (map (bm_tokens h) out) @ TK_OP (CHR ''}'') # yylex_all rest"
    using fprintf_bm_text [OF Suc.prems(3), of q h] q Suc.prems(2) by blast
  obtain strs b' outs where more: "fprintf_bm_peers H h [Suc q..<mp] (cfg\<lparr>bits_set := b\<rparr>) w = (Inr (strs, cfg\<lparr>bits_set := b'\<rparr>), w)"
    "\<And>p. Suc q \<le> p \<Longrightarrow> p < mp \<Longrightarrow> peer_dumped h (disk w) off mp n outs p"
    "\<And>rest. yylex_all (strs @ rest) = concat (map (peer_tokens h DRBD_V09 outs) [Suc q..<mp]) @ yylex_all rest"
  proof -
    have "k = mp - Suc q" using Suc.hyps(2) by simp
    from Suc.hyps(1) [OF this, of "cfg\<lparr>bits_set := b\<rparr>"] show thesis using that Suc.prems q by auto
  qed
  let ?outs = "outs(q := out)" and ?text = "''bitmap['' @ show_nat q @ ''] '' @ str @ strs"
  have tail: "map (peer_tokens h DRBD_V09 ?outs) [Suc q..<mp] = map (peer_tokens h DRBD_V09 outs) [Suc q..<mp]" by (simp add: peer_tokens_def)
  have "q < 10 ^ 19" using q Suc.prems(2,3) by (simp add: dumpable_def)
  then have "yylex_all (?text @ rest) = concat (map (peer_tokens h DRBD_V09 ?outs) [q..<mp]) @ yylex_all rest" for rest
    using yylex_bitmap_word yylex_num_bracket one(3) more(3) q
    by (simp add: upt_conv_Cons tail del: map_eq_conv) (simp add: peer_tokens_def peer_heading_def)
  moreover have "fprintf_bm_peers H h [q..<mp] cfg w = (Inr (?text, cfg\<lparr>bits_set := b'\<rparr>), w)"
    using one(1) more(1) q by (simp add: upt_conv_Cons bind_io_def ret_def)
  moreover have "peer_dumped h (disk w) off mp n ?outs p" if "q \<le> p" "p < mp" for p
    using that one(2) more(2) [of p] by (cases "p = q") (simp_all add: peer_dumped_def)
  ultimately show ?case by blast
qed

text \<open>The tokens of a whole bitmap dump.\<close>

lemma printf_bm_text:
  assumes f: "ops cfg \<in> {DRBD_V07, DRBD_V08, DRBD_V09}" and mp: "mp = unat (max_peers (cfg_md cfg))"
    and one: "ops cfg \<noteq> DRBD_V09 \<longrightarrow> mp = 1" and d: "dumpable H cfg off n w"
  shows "\<exists>str b outs. printf_bm H h cfg w = (Inr (str, cfg\<lparr>bits_set := b\<rparr>), w) \<and>
    (\<forall>p<mp. peer_dumped h (disk w) off mp n outs p) \<and>
    (\<forall>rest. yylex_all (str @ rest) = concat (map (peer_tokens h (ops cfg) outs) [0..<mp]) @ yylex_all rest)"
proof (cases "ops cfg = DRBD_V09")
  case True
  then show ?thesis using fprintf_bm_peers_text [OF mp d, of 0 h] by (simp add: printf_bm_def mp)
next
  case False
  obtain str b out where t: "fprintf_bm H h cfg 0 [] w = (Inr (str, cfg\<lparr>bits_set := b\<rparr>), w)"
    "peer_dumped h (disk w) off mp n (\<lambda>_. out) 0"
    "\<And>rest. yylex_all (str @ rest) = TK_OP (CHR ''{'') # concat (map (bm_tokens h) out) @ TK_OP (CHR ''}'') # yylex_all rest"
    using fprintf_bm_text [OF d, of 0 h] one False mp by fastforce
  have "format_version (ops cfg) < format_version DRBD_V09" using f False by auto
  then have "yylex_all ((''bm '' @ str) @ rest) = concat (map (peer_tokens h (ops cfg) (\<lambda>_. out)) [0..<mp]) @ yylex_all rest" for rest
    using yylex_bm_word t(3) one False by (simp add: peer_tokens_def peer_heading_def)
  moreover have "printf_bm H h cfg w = (Inr (''bm '' @ str, cfg\<lparr>bits_set := b\<rparr>), w)"
    using t(1) f False by (auto simp: printf_bm_def bind_io_def ret_def)
  ultimately show ?thesis using t(2) one False by (intro exI conjI) auto
qed

section \<open>Writing it back\<close>

text \<open>Where the input goes on does not depend on the window.\<close>

lemma parse_bm_items_rest:
  "parse_bm_items h False mp (i, bm) ts = Inr (i', bm', rest) \<Longrightarrow> \<exists>i2 b2. parse_bm_items h False mp (j, b) ts = Inr (i2, b2, rest)"
proof (induction ts arbitrary: i bm j b rule: length_induct)
  case (1 ts)
  show ?case
    using "1.prems"
  proof (cases rule: parse_bm_items_cases)
    case (word v ys)
    obtain j' b' where j: "assign_64bit h mp v (j, b) = (j', b')" by fastforce
    obtain i1 b1 where i: "assign_64bit h mp v (i, bm) = (i1, b1)" by fastforce
    have "\<exists>i2 b2. parse_bm_items h False mp (j', b') ys = Inr (i2, b2, rest)"
      using "1.IH" [rule_format, of ys i1 b1 j' b'] "1.prems" i by (simp add: word)
    then show ?thesis using j by (simp add: word)
  next
    case (times n v ys)
    let ?c = "nat (sint (ucast n :: u32))"
    obtain j' b' where j: "(assign_64bit h mp v ^^ ?c) (j, b) = (j', b')" by fastforce
    obtain i1 b1 where i: "(assign_64bit h mp v ^^ ?c) (i, bm) = (i1, b1)" by fastforce
    have "\<exists>i2 b2. parse_bm_items h False mp (j', b') ys = Inr (i2, b2, rest)"
      using "1.IH" [rule_format, of ys i1 b1 j' b'] "1.prems" i times by (simp add: Let_def)
    then show ?thesis using j times by (simp add: Let_def)
  next
    case end_
    then show ?thesis by simp
  qed
qed

lemma parse_one_peer_rest:
  assumes "parse_bitmap_window_one_peer h cfg v p False bm ts = Inr (i', bm', rest)"
  shows "\<exists>i2 b2. parse_bitmap_window_one_peer h cfg v2 p False b ts = Inr (i2, b2, rest)"
proof -
  let ?items = "\<lambda>v b ts. parse_bm_items h False (unat (max_peers (cfg_md cfg))) (to_int32 (int p - int v * int window_words), b) ts"
  obtain ts' where ts': "\<And>v b. parse_bitmap_window_one_peer h cfg v p False b ts =
      bind_res (?items v b ts') (\<lambda>(i, bm, ts). Inr (i - int p, bm, ts))"
    using assms by (auto simp: parse_bitmap_window_one_peer_def Let_def bind_res_def split: sum.splits if_splits)
  obtain i1 where "?items v bm ts' = Inr (i1, bm', rest)" using assms ts' [of v bm] by (auto simp: bind_res_def split: sum.splits)
  then obtain i2 b2 where "?items v2 b ts' = Inr (i2, b2, rest)" using parse_bm_items_rest by blast
  then show ?thesis by (simp add: ts' bind_res_def)
qed

lemma parse_peers_rest:
  "parse_peers h cfg v False ps (x, bm, ts) = Inr (i', bm', rest) \<Longrightarrow> \<exists>i2 b2. parse_peers h cfg v2 False ps (y, b, ts) = Inr (i2, b2, rest)"
proof (induction ps arbitrary: x bm ts y b)
  case (Cons p ps)
  from Cons.prems obtain x2 bm2 ts2 where o: "parse_bitmap_window_one_peer h cfg v p False bm ts = Inr (x2, bm2, ts2)"
    and r: "parse_peers h cfg v False ps (x2, bm2, ts2) = Inr (i', bm', rest)"
    by (auto simp: bind_res_def split: sum.splits)
  obtain y2 b2 where "parse_bitmap_window_one_peer h cfg v2 p False b ts = Inr (y2, b2, ts2)"
    using parse_one_peer_rest [OF o] by blast
  then show ?case using Cons.IH [OF r, of y2 b2] by (simp add: bind_res_def)
qed simp

lemma parse_window_rest:
  assumes "parse_bitmap_window h cfg v False bm ts = Inr (i', bm', rest)"
  shows "\<exists>i2 b2. parse_bitmap_window h cfg v2 False b ts = Inr (i2, b2, rest)"
  using assms by (auto simp: parse_bitmap_window_def intro: parse_peers_rest parse_one_peer_rest split: if_splits)

text \<open>The number of words that every peer has, without an odd last one, and of all of them.\<close>

definition restored_words :: "nat \<Rightarrow> nat \<Rightarrow> nat" where
  "restored_words mp n = 2 * (n div mp div 2) * mp"

lemma restored_words_le: "restored_words mp n \<le> n"
proof -
  have "2 * (n div mp div 2) * mp \<le> n div mp * mp" by (intro mult_le_mono1) simp
  also have "\<dots> \<le> n" by simp
  finally show ?thesis by (simp add: restored_words_def)
qed

lemma bm_print_ok_mono: "m \<le> m' \<Longrightarrow> bm_print_ok m x \<Longrightarrow> bm_print_ok m' x"
  by (cases x) simp_all

lemma length_dump_words: "length (dump_words h d off mp n p) = 2 * (peer_words mp p n div 2)"
  by (simp add: dump_words_def take_even_def)

lemma peer_words_last: "0 < mp \<Longrightarrow> peer_words mp (mp - 1) n = n div mp"
  by (cases "mp - 1 \<le> n") (simp_all add: peer_words_def)

lemma peer_words_ge: "0 < mp \<Longrightarrow> p < mp \<Longrightarrow> n div mp \<le> peer_words mp p n"
proof (rule ccontr)
  assume mp: "0 < mp" "p < mp" and "\<not> n div mp \<le> peer_words mp p n"
  then have "Suc (peer_words mp p n) * mp \<le> n" by (simp add: less_eq_div_iff_mult_less_eq [symmetric] del: mult_Suc)
  moreover have "\<not> p + peer_words mp p n * mp < n" using peer_words_iff [OF mp, of "peer_words mp p n" n] by simp
  ultimately show False using mp(2) by simp
qed

lemma dumped_in_window:
  assumes d: "peer_dumped h D off mp n outs p" and n: "4 * n \<le> buffer_size" and mp: "0 < mp" "p < mp"
  shows "in_window mp outs p"
proof -
  let ?K = "peer_words mp p n"
  have "?K \<le> 2 ^ 31 - 1" using peer_words_le [of mp p n] n by (simp add: buffer_size_def)
  then have ok: "list_all (bm_print_ok (2 ^ 31 - 1)) (outs p)"
    using d bm_print_ok_mono by (auto simp: peer_dumped_def list_all_iff)
  have len: "length (bm_decodes (outs p)) = 2 * (?K div 2)" using d by (simp add: peer_dumped_def length_dump_words)
  have "p + (length (bm_decodes (outs p)) - 1) * mp < window_words" if ne: "bm_decodes (outs p) \<noteq> []"
  proof -
    have "0 < length (bm_decodes (outs p))" using ne by blast
    then have "length (bm_decodes (outs p)) - 1 < ?K" unfolding len by linarith
    then have "p + (length (bm_decodes (outs p)) - 1) * mp < n" using peer_words_iff [OF mp] by blast
    then show ?thesis using n by (simp add: window_words buffer_size_def)
  qed
  then show ?thesis using ok by (simp add: in_window_def)
qed

lemma parse_window_tokens:
  assumes f: "ops cfg \<in> {DRBD_V07, DRBD_V08, DRBD_V09}" and mp: "mp = unat (max_peers (cfg_md cfg))" "0 < mp" "mp < 2 ^ 31"
    and one: "ops cfg \<noteq> DRBD_V09 \<longrightarrow> mp = 1" and w: "\<And>p. p < mp \<Longrightarrow> in_window mp outs p"
  shows "parse_bitmap_window h cfg 0 False bm (concat (map (peer_tokens h (ops cfg) outs) [0..<mp]) @ rest) =
    Inr (int (length (bm_decodes (outs (mp - 1))) * mp), fold (\<lambda>p. put_words h mp p (bm_decodes (outs p))) [0..<mp] bm, rest)"
proof (cases "ops cfg = DRBD_V09")
  case True
  then show ?thesis using parse_peers_tokens [OF mp(1,3) w, of 0 h 0 bm rest] mp by (simp add: parse_bitmap_window_def)
next
  case False
  then have o: "mp = 1" using one by simp
  have "format_version (ops cfg) < format_version DRBD_V09" using f False by auto
  moreover have "unat (max_peers (cfg_md cfg)) = 1" using mp(1) o by simp
  ultimately show ?thesis
    using parse_one_peer [of 0 cfg outs h bm rest] w [of 0] o unfolding parse_bitmap_window_def by simp
qed

text \<open>The buffer holds the dumped words again.\<close>

lemma parse_dumped:
  assumes f: "ops cfg \<in> {DRBD_V07, DRBD_V08, DRBD_V09}" and mp: "mp = unat (max_peers (cfg_md cfg))" "0 < mp"
    and one: "ops cfg \<noteq> DRBD_V09 \<longrightarrow> mp = 1" and d: "\<And>p. p < mp \<Longrightarrow> peer_dumped h D off mp n outs p"
    and n: "4 * n \<le> buffer_size" and len: "length bm = buffer_size" and lt: "mp < 2 ^ 31"
  shows "\<exists>bm'. parse_bitmap_window h cfg 0 False bm (concat (map (peer_tokens h (ops cfg) outs) [0..<mp]) @ rest) =
      Inr (int (restored_words mp n), bm', rest) \<and> length bm' = buffer_size \<and>
      (\<forall>x<restored_words mp n. get_word32 h bm' x = disk_word h D off x)"
proof -
  let ?bm = "fold (\<lambda>p. put_words h mp p (bm_decodes (outs p))) [0..<mp] bm"
  have w: "in_window mp outs p" if "p < mp" for p using dumped_in_window [OF d n mp(2)] that by simp
  have words: "length (bm_decodes (outs (mp - 1))) * mp = restored_words mp n"
    using d [of "mp - 1"] mp(2) peer_words_last [OF mp(2), of n] by (simp add: peer_dumped_def length_dump_words restored_words_def)
  have "get_word32 h ?bm x = disk_word h D off x" if x: "x < restored_words mp n" for x
  proof -
    let ?p = "x mod mp" and ?k = "x div mp"
    have p: "?p < mp" using mp(2) by simp
    have "?k < 2 * (n div mp div 2)" using x mp(2) by (simp add: restored_words_def less_mult_imp_div_less)
    moreover have "n div mp div 2 \<le> peer_words mp ?p n div 2" using peer_words_ge [OF mp(2) p] by (rule div_le_mono)
    ultimately have k: "?k < 2 * (peer_words mp ?p n div 2)" by linarith
    have e: "bm_decodes (outs ?p) = dump_words h D off mp n ?p" using d [OF p] by (simp add: peer_dumped_def)
    have "get_word32 h ?bm x = dump_words h D off mp n ?p ! ?k"
      using fold_put_words [OF mp(2) len w, of mp h] p k e by (simp add: length_dump_words)
    also have "?k < peer_words mp ?p n" using k by linarith
    then have "dump_words h D off mp n ?p ! ?k = disk_word h D off (?p + ?k * mp)" using k by (simp add: dump_words_def take_even_def)
    finally show ?thesis by simp
  qed
  then show ?thesis
    using parse_window_tokens [OF f mp lt one w, of h bm rest] fold_put_words [OF mp(2) len w, of mp h] unfolding words by simp
qed

section \<open>Onto the disk\<close>

lemma sector_align:
  assumes "words \<le> n" "1024 dvd n" "n < 2 ^ 32" "(j::nat) \<le> 12"
  shows "unat (ALIGN (of_nat (words * 4) :: u64) (2 ^ j)) = align_up (words * 4) (2 ^ j)" "align_up (words * 4) (2 ^ j) \<le> 4 * n"
proof -
  have "(2 :: nat) ^ j \<le> 2 ^ 12" using assms(4) by (intro power_increasing) simp_all
  then show "unat (ALIGN (of_nat (words * 4) :: u64) (2 ^ j)) = align_up (words * 4) (2 ^ j)"
    using assms unat_of_nat_u64 [of "words * 4"] by (subst unat_ALIGN) simp_all
  have "(2 ^ 12 :: nat) dvd 4 * n" using assms(2) mult_dvd_mono [of 4 4 1024 n] by simp
  then have "(2 ^ j :: nat) dvd 4 * n" using le_imp_power_dvd [OF assms(4), of "2::nat"] by (rule dvd_trans [rotated])
  then have "align_up (4 * n) (2 ^ j) = 4 * n" by (intro align_up_dvd_id) simp_all
  then show "align_up (words * 4) (2 ^ j) \<le> 4 * n" using align_up_mono [of "words * 4" "4 * n" "2 ^ j"] assms(1) by simp
qed

lemma write_window_words:
  assumes rd: "bitmap_readable cfg off n w" and n: "1024 dvd n" "words \<le> n" "4 * n \<le> buffer_size" and len: "length bm = buffer_size"
    and nd: "\<not> dry_run opts" and wr: "writable_range opts cfg off (off + 4 * n)" and pos: "0 < words"
  shows "\<exists>bm' w'. write_window opts cfg False (cfg_bm_offset cfg + of_nat (4 * n)) 0 words bm w = (Inr (False, bm'), w') \<and>
    same_device w w' \<and> (\<forall>x<words. disk_word h (disk w') off x = get_word32 h bm x) \<and>
    (\<forall>i. i < off \<or> off + 4 * n \<le> i \<longrightarrow> disk w' i = disk w i)"
proof -
  obtain j where j: "j \<le> 12" "md_hard_sect_size cfg = 2 ^ j" using rd by (auto simp: bitmap_readable_def)
  have r: "healthy w" "cfg_bm_offset cfg = of_nat off" "off + 4 * n \<le> dev_size w" "n < 2 ^ 32" using rd by (simp_all add: bitmap_readable_def)
  let ?bm = "take (words * 4) bm @ replicate (buffer_size - words * 4) 0" and ?s = "align_up (words * 4) (2 ^ j)"
  note al = sector_align [OF n(2,1) r(4) j(1)]
  have s: "words * 4 \<le> ?s" by (rule align_up_ge) simp
  define buf where "buf = take ?s ?bm"
  have lb: "length buf = ?s" using al(2) n len by (simp add: buf_def)
  have nth: "buf ! l = bm ! l" if "l < words * 4" for l using that s n len by (simp add: buf_def nth_append)
  have small: "off < 2 ^ 63" "off + 4 * n < 2 ^ 63" using r(1,3) by (simp_all add: healthy_def)
  have u: "unat (of_nat off :: u64) = off" "unat (of_nat (off + 4 * n) :: u64) = off + 4 * n"
    using small by (intro unat_of_nat_u64; simp)+
  have lim: "\<not> sint (of_nat (off + 4 * n) :: u64) \<le> sint (of_nat off :: u64)"
    using u small pos n(2) sint_unat_u64 [of "of_nat off"] sint_unat_u64 [of "of_nat (off + 4 * n)"] by linarith
  have room: "\<not> unat (of_nat (4 * n) :: u64) < ?s" using al(2) r(4) unat_of_nat_u64 [of "4 * n"] by simp
  obtain w' where p: "pwrite_or_die opts cfg buf (of_nat off) w = (Inr (), w')" "same_device w w'" "disk w' = write_bytes (disk w) off buf"
    using writes_pwrite [OF nd r(1), of off buf cfg] writable_rangeD [OF wr, of off ?s] lb al(2) r(3) by (auto simp: writes_def)
  have "disk_word h (disk w') off x = get_word32 h bm x" if "x < words" for x
  proof -
    have "read_bytes (disk w') (off + 4 * x) 4 = take 4 (drop (4 * x) bm)"
    proof (intro nth_equalityI)
      fix l assume "l < length (read_bytes (disk w') (off + 4 * x) 4)"
      then have l: "4 * x + l < words * 4" "l < 4" using that by simp_all
      then have "disk w' (off + (4 * x + l)) = bm ! (4 * x + l)" using write_bytes_inside [of off "off + (4 * x + l)" buf] nth [OF l(1)] lb s by (simp add: p(3))
      then show "read_bytes (disk w') (off + 4 * x) 4 ! l = take 4 (drop (4 * x) bm) ! l"
        using l that n len by (simp add: read_bytes_def add.assoc)
    qed (use that n len in simp)
    then show ?thesis by (simp add: disk_word_def get_word32_def)
  qed
  moreover have "disk w' i = disk w i" if "i < off \<or> off + 4 * n \<le> i" for i
    unfolding p(3) using that al(2) lb by (intro write_bytes_outside) linarith
  moreover have "pwrite_with_limit_or_die opts cfg buf (of_nat off) (of_nat (off + 4 * n)) w = (Inr ?s, w')"
    using lim room lb p(1) unfolding pwrite_with_limit_or_die_def Let_def by (simp add: bind_io_def ret_def)
  then have "write_window opts cfg False (cfg_bm_offset cfg + of_nat (4 * n)) 0 words bm w = (Inr (False, ?bm), w')"
    using n unfolding write_window_def Let_def r(2) j(2) al(1) buf_def [symmetric] by (simp add: bind_io_def ret_def)
  ultimately show ?thesis using p(2) by blast
qed

lemma disk_word_bytes:
  assumes "disk_word h d off x = disk_word h d' off' y"
  shows "read_bytes d (off + 4 * x) 4 = read_bytes d' (off' + 4 * y) 4"
proof -
  have "store h 4 (disk_word h e o2 z) = read_bytes e (o2 + 4 * z) 4" for e o2 z
    using store_load [where 'a = 32, of "read_bytes e (o2 + 4 * z) 4" h] by (simp add: disk_word_def)
  then show ?thesis using assms by metis
qed

lemma parse_bitmap_words:
  assumes first: "parse_bitmap_window h cfg 0 False bm ts = Inr (int words, bm', rest)" and mp: "unat (max_peers (cfg_md cfg)) \<le> 2 ^ 20"
    and rd: "bitmap_readable cfg off n w" and b: "cfg_bm_bytes cfg = of_nat (4 * n)" and n: "1024 dvd n" "words \<le> n" "4 * n \<le> buffer_size"
    and len: "length bm' = buffer_size" and nd: "\<not> dry_run opts" and wr: "writable_range opts cfg off (off + 4 * n)"
  shows "\<exists>w'. parse_bitmap (Suc (Suc fuel)) opts h cfg False bm ts w = (Inr (Some rest), w') \<and> same_device w w' \<and>
    (\<forall>x<words. disk_word h (disk w') off x = get_word32 h bm' x) \<and> (\<forall>i. i < off \<or> off + 4 * n \<le> i \<longrightarrow> disk w' i = disk w i)"
proof -
  let ?lim = "cfg_bm_offset cfg + ALIGN (cfg_bm_bytes cfg) 4096"
  have "unat (ALIGN (cfg_bm_bytes cfg) 4096) = 4 * n"
    using sector_align(1) [OF order.refl n(1), of 12] rd n(1) align_up_dvd_id [of "2 ^ 12" "4 * n"] mult_dvd_mono [of 4 4 1024 n]
    by (simp add: b mult.commute bitmap_readable_def)
  then have lim: "ALIGN (cfg_bm_bytes cfg) 4096 = of_nat (4 * n)" using rd unat_of_nat_u64 [of "4 * n"] by (simp add: word_unat_eq_iff bitmap_readable_def)
  obtain bm2 w' where wrt: "(if 0 < words then write_window opts cfg False ?lim 0 words bm' w else (Inr (False, bm'), w)) = (Inr (False, bm2), w')"
    and w': "same_device w w'" "\<forall>x<words. disk_word h (disk w') off x = get_word32 h bm' x" "\<forall>i. i < off \<or> off + 4 * n \<le> i \<longrightarrow> disk w' i = disk w i"
    using write_window_words [OF rd n len nd wr, of h] unfolding lim by (cases "0 < words") (auto simp: same_device_def)
  obtain words2 bm3 where second: "parse_bitmap_window h cfg 1 False bm2 ts = Inr (words2, bm3, rest)"
    using parse_window_rest [OF first] by blast
  have neg: "words2 \<le> 0" by (rule second_window [OF second mp])
  have "parse_bitmap (Suc (Suc fuel)) opts h cfg False bm ts w = (Inr (Some rest), w')"
    using first wrt second neg window_words
    by (cases "0 < words") (simp_all add: parse_bitmap_def bind_io_def lift_res_def ret_def)
  then show ?thesis using w' by blast
qed

text \<open>
  C6. Dumping a bitmap of at most 32 MiB and restoring the dump: the scanner splits the text that
  \<^verbatim>\<open>printf_bm\<close> prints so that \<^verbatim>\<open>parse_bitmap\<close> accepts it, reads exactly that text, and every
  byte of the pairs of words that all peers have is on the target as it was on the source; the
  words behind the last such pair hold no bit of the device. Nothing outside of the target's
  bitmap area changes. The two meta data areas may be in different places.
\<close>

theorem bitmap_dump_restore:
  assumes f: "ops cfg \<in> {DRBD_V07, DRBD_V08, DRBD_V09}" "ops cfg \<noteq> DRBD_V09 \<longrightarrow> max_peers (cfg_md cfg) = 1"
    and same: "ops tgt = ops cfg" "max_peers (cfg_md tgt) = max_peers (cfg_md cfg)"
    and src: "dumpable H cfg off n w" and dst: "dumpable H tgt off' n w'"
    and n: "4 * n \<le> buffer_size" and bm: "length bm = buffer_size"
    and wr: "\<not> dry_run opts" "writable_range opts tgt off' (off' + 4 * n)"
  shows "\<exists>dump b w''. printf_bm H h cfg w = (Inr (dump, cfg\<lparr>bits_set := b\<rparr>), w)
    \<and> parse_bitmap (Suc (Suc fuel)) opts h tgt False bm (yylex_all (dump @ rest)) w' = (Inr (Some (yylex_all rest)), w'')
    \<and> (\<forall>i<4 * restored_words (unat (max_peers (cfg_md cfg))) n. disk w'' (off' + i) = disk w (off + i))
    \<and> (\<forall>i. i < off' \<or> off' + 4 * n \<le> i \<longrightarrow> disk w'' i = disk w' i)"
proof -
  let ?mp = "unat (max_peers (cfg_md cfg))"
  have mp: "0 < ?mp" "?mp \<le> 8192" and one: "ops cfg \<noteq> DRBD_V09 \<longrightarrow> ?mp = 1" using src f(2) by (auto simp: dumpable_def word_less_nat_alt)
  obtain dump b outs where t: "printf_bm H h cfg w = (Inr (dump, cfg\<lparr>bits_set := b\<rparr>), w)" "\<And>p. p < ?mp \<Longrightarrow> peer_dumped h (disk w) off ?mp n outs p"
    "\<And>rest. yylex_all (dump @ rest) = concat (map (peer_tokens h (ops tgt) outs) [0..<?mp]) @ yylex_all rest"
    using printf_bm_text [OF f(1) refl one src, of h] same(1) by auto
  obtain bm' where p: "parse_bitmap_window h tgt 0 False bm (yylex_all (dump @ rest)) = Inr (int (restored_words ?mp n), bm', yylex_all rest)"
    "length bm' = buffer_size" "\<And>x. x < restored_words ?mp n \<Longrightarrow> get_word32 h bm' x = disk_word h (disk w) off x"
    using parse_dumped [of tgt ?mp h "disk w" off n outs bm "yylex_all rest"] f same one mp t(2) n bm unfolding t(3) by auto
  have d: "bitmap_readable tgt off' n w'" "cfg_bm_bytes tgt = of_nat (4 * n)" "1024 dvd n" using dst by (auto simp: dumpable_def)
  obtain w'' where w'': "parse_bitmap (Suc (Suc fuel)) opts h tgt False bm (yylex_all (dump @ rest)) w' = (Inr (Some (yylex_all rest)), w'')"
    "\<And>x. x < restored_words ?mp n \<Longrightarrow> disk_word h (disk w'') off' x = get_word32 h bm' x" "\<forall>i. i < off' \<or> off' + 4 * n \<le> i \<longrightarrow> disk w'' i = disk w' i"
    using parse_bitmap_words [OF p(1) _ d restored_words_le n p(2) wr, of fuel] same mp by auto
  have "disk w'' (off' + i) = disk w (off + i)" if "i < 4 * restored_words ?mp n" for i
  proof -
    have "i div 4 < restored_words ?mp n" using that by simp
    then have "disk_word h (disk w'') off' (i div 4) = disk_word h (disk w) off (i div 4)" using w''(2) p(3) by simp
    then have "read_bytes (disk w'') (off' + 4 * (i div 4)) 4 = read_bytes (disk w) (off + 4 * (i div 4)) 4"
      by (rule disk_word_bytes)
    then have "read_bytes (disk w'') (off' + 4 * (i div 4)) 4 ! (i mod 4) = read_bytes (disk w) (off + 4 * (i div 4)) 4 ! (i mod 4)" by simp
    then show ?thesis by (simp add: read_bytes_def add.assoc)
  qed
  then show ?thesis using t(1) w''(1,3) by blast
qed

lemma example_dumpable: "dumpable example_headers example_ext_cfg 36864 1024 example_world"
proof -
  have "\<exists>j\<le>12. md_hard_sect_size example_ext_cfg = 2 ^ j"
    by (intro exI [of _ 9]) (simp add: example_ext_cfg_def example_cfg_def)
  then show ?thesis
    by (simp add: dumpable_def bitmap_readable_def healthy_def example_ext_cfg_def example_cfg_def example_world_def)
qed

lemma example_bitmap_writable: "writable_range example_options example_ext_cfg 36864 (36864 + 4 * 1024)"
proof -
  have "validate_offsets_or_die example_options example_ext_cfg n (of_nat off) = Inr ()" if "36864 \<le> off" "off + n \<le> 40960" for off n
  proof -
    have u: "unat (of_nat off :: u64) = off" "unat (of_nat off + of_nat n :: u64) = off + n"
      using that unat_of_nat_u64 [of off] unat_of_nat_u64 [of "off + n"] by simp_all
    then have "sint (of_nat off :: u64) = int off" using that by (subst sint_unat_u64) simp_all
    then show ?thesis using u that by (simp add: validate_offsets_or_die_def word_less_nat_alt)
  qed
  then show ?thesis by (simp add: writable_range_def)
qed

theorem bitmap_dump_restore_witness:
  "\<exists>dump b w''. printf_bm example_headers LittleEndian example_ext_cfg example_world = (Inr (dump, example_ext_cfg\<lparr>bits_set := b\<rparr>), example_world)
    \<and> parse_bitmap (Suc (Suc 0)) example_options LittleEndian example_ext_cfg False (replicate buffer_size 0) (yylex_all (dump @ [])) example_world
        = (Inr (Some (yylex_all [])), w'')
    \<and> (\<forall>i<4096. disk w'' (36864 + i) = 7) \<and> disk w'' 36863 = 7"
  using bitmap_dump_restore [OF _ _ refl refl example_dumpable example_dumpable _ _ _ example_bitmap_writable, of "replicate buffer_size 0" LittleEndian 0 "[]"]
  by (auto simp: example_ext_cfg_def example_cfg_def example_options_def restored_words_def buffer_size_def example_world_def)

text \<open>The words that all peers have, without an odd last one, are enough for every bit that the device needs.\<close>

lemma restored_words_enough:
  assumes "4 * n = bitmap_size s bpb mp" and "0 < mp"
  shows "bits_needed s (bpb div 512) * mp \<le> 32 * restored_words mp n"
proof -
  define B where "B = align_up (bits_needed s (bpb div 512)) 64 div 64"
  have al: "align_up (bits_needed s (bpb div 512)) 64 = 64 * B" by (simp add: B_def align_up_def)
  have "8 * B * mp \<le> 4 * n" unfolding assms(1) bitmap_size_def al by (simp add: align_up_ge)
  then have "2 * B \<le> n div mp" using assms(2) by (simp add: less_eq_div_iff_mult_less_eq)
  from div_le_mono [OF this, of 2] have "2 * B * mp \<le> restored_words mp n" unfolding restored_words_def by (intro mult_le_mono1) simp
  moreover have "bits_needed s (bpb div 512) * mp \<le> 64 * B * mp" using align_up_ge [of 64 "bits_needed s (bpb div 512)"] al by (intro mult_le_mono1) simp
  ultimately show ?thesis by linarith
qed

end
