(* ===== verification/Al_Dump.thy ===== *)
theory Al_Dump
  imports Bitmap_Roundtrip
begin

text \<open>
  Dumping the activity log: \<^verbatim>\<open>printf_al_07\<close>, \<^verbatim>\<open>printf_al_84\<close>, \<^verbatim>\<open>printf_al_pmem\<close> and
  \<^verbatim>\<open>printf_al\<close> of \<^verbatim>\<open>user/shared/drbdmeta.c\<close>. Whatever the log holds, the text is a sequence
  of comments, which the scanner of a dump skips.
\<close>

unbundle bit_operations_syntax

section \<open>The three kinds of log\<close>

abbreviation nl :: string where "nl \<equiv> [CHR 0x0A]"
abbreviation tab :: string where "tab \<equiv> [CHR 0x09]"

definition pad_left :: "nat \<Rightarrow> string \<Rightarrow> string" where
  "pad_left w s = replicate (w - length s) (CHR '' '') @ s"

text \<open>\<^verbatim>\<open>%2u\<close>, \<^verbatim>\<open>%10u\<close>, \<^verbatim>\<open>0x%08x\<close> and \<^verbatim>\<open>0x%04x\<close>.\<close>

definition show_u :: "nat \<Rightarrow> nat \<Rightarrow> string" where "show_u w n = pad_left w (show_nat n)"
definition show_0x :: "nat \<Rightarrow> nat \<Rightarrow> string" where "show_0x w n = ''0x'' @ pad_zero w (show_base False 16 n)"

definition comment_line :: "string \<Rightarrow> string" where
  "comment_line s = CHR ''#'' # s @ nl"

definition slot_line :: "nat \<Rightarrow> nat \<Rightarrow> nat \<Rightarrow> string" where
  "slot_line i slot extent = comment_line ('' '' @ tab @ show_u 2 i @ '': '' @ show_u 10 slot @ '' '' @ show_u 10 extent)"

definition al_caution :: "md_cpu \<Rightarrow> u32 \<Rightarrow> string" where
  "al_caution md max_slot_nr = (if max_slot_nr \<ge> al_nr_extents md
     then comment_line (''## CAUTION: maximum slot number found in AL: '' @ show_nat (unat max_slot_nr)) @
       comment_line (''## CAUTION: but '' @ CHR 0x27 # ''super-block'' @ CHR 0x27 # '' al-extents is: '' @ show_nat (unat (al_nr_extents md)))
     else [])"

definition sector_text :: "nat \<Rightarrow> al_sector_cpu \<times> bool \<Rightarrow> string" where
  "sector_text s = (\<lambda>(al_cpu, ok).
     comment_line (''     sector '' @ show_u 2 s @ '' { '' @ (if ok then ''valid'' else ''invalid'')) @
     comment_line ('' '' @ tab @ ''magic: '' @ show_0x 8 (unat (s_magic al_cpu))) @
     comment_line ('' '' @ tab @ ''tr: '' @ show_u 10 (unat (s_tr_number al_cpu))) @
     concat (map (\<lambda>i. slot_line i (unat (fst (s_updates al_cpu ! i))) (unat (snd (s_updates al_cpu ! i)))) [0..<62]) @
     comment_line ('' '' @ tab @ ''xor: '' @ show_0x 8 (unat (s_xor_sum al_cpu))) @
     comment_line ''     }'')"

definition sector_max_slot :: "al_sector_cpu \<Rightarrow> u32 \<Rightarrow> u32" where
  "sector_max_slot al_cpu = fold (\<lambda>i mx. let pos = fst (s_updates al_cpu ! i) in if pos > mx \<and> pos \<noteq> -1 then pos else mx) [0..<62]"

definition printf_al_07 :: "headers \<Rightarrow> host \<Rightarrow> md_cpu \<Rightarrow> bytes \<Rightarrow> string" where
  "printf_al_07 H h md buf =
    (let al = map (\<lambda>s. v07_al_disk_to_cpu H h (get_al_sector h (drop (512 * s) buf))) [0..<MD_AL_MAX_SECT_07]
     in concat (map (\<lambda>s. sector_text s (al ! s)) [0..<MD_AL_MAX_SECT_07]) @
        al_caution md (fold (\<lambda>a. sector_max_slot (fst a)) al 0))"

text \<open>
  The unsigned arithmetic is the one of the source: an active set of size 0 makes
  \<^verbatim>\<open>context_size -1\<close> the largest slot number there is.
\<close>

definition context_shown :: "al_4k_cpu \<Rightarrow> nat \<Rightarrow> bool" where
  "context_shown al_cpu i \<longleftrightarrow>
     \<not> (a_context al_cpu ! i = -1 \<and> ucast (a_context_start_slot_nr al_cpu) + of_nat i \<ge> (ucast (a_context_size al_cpu) :: u32))"

definition update_shown :: "al_4k_cpu \<Rightarrow> nat \<Rightarrow> bool" where
  "update_shown al_cpu i \<longleftrightarrow> \<not> (i \<ge> unat (a_n_updates al_cpu) \<and> a_update_slot_nr al_cpu ! i = -1)"

definition transaction_text :: "headers \<Rightarrow> al_4k_cpu \<Rightarrow> nat \<Rightarrow> string" where
  "transaction_text H al_cpu nr =
    (if \<not> a_is_valid al_cpu then comment_line (''     block '' @ show_u 2 nr @ '' { INVALID }'')
     else if a_transaction_type al_cpu = 0xffff then comment_line (''     block '' @ show_u 2 nr @ '' { INITIALIZED }'')
     else comment_line (''     block '' @ show_u 2 nr @ '' {'') @
       comment_line ('' '' @ tab @ ''magic: '' @ show_0x 8 (unat (a_magic al_cpu))) @
       comment_line ('' '' @ tab @ ''type: '' @ show_0x 4 (unat (a_transaction_type al_cpu))) @
       comment_line ('' '' @ tab @ ''tr: '' @ show_u 10 (unat (a_tr_number al_cpu))) @
       comment_line ('' '' @ tab @ ''active set size: '' @ show_nat (unat (a_context_size al_cpu))) @
       concat (map (\<lambda>i. slot_line i (unat (ucast (a_context_start_slot_nr al_cpu) + of_nat i :: u32)) (unat (a_context al_cpu ! i)))
         (filter (context_shown al_cpu) [0..<AL_CONTEXT_PER_TRANSACTION H])) @
       comment_line ('' '' @ tab @ ''updates: '' @ show_nat (unat (a_n_updates al_cpu))) @
       concat (map (\<lambda>i. slot_line i (unat (a_update_slot_nr al_cpu ! i)) (unat (a_update_extent_nr al_cpu ! i)))
         (filter (update_shown al_cpu) [0..<AL_UPDATES_PER_TRANSACTION H])) @
       comment_line ('' '' @ tab @ ''crc32c: '' @ show_0x 8 (unat (a_crc32c al_cpu))) @
       comment_line ''     }'')"

definition transaction_max_slot :: "headers \<Rightarrow> al_4k_cpu \<Rightarrow> u32 \<Rightarrow> u32" where
  "transaction_max_slot H al_cpu mx =
    (if \<not> a_is_valid al_cpu \<or> a_transaction_type al_cpu = 0xffff then mx
     else let mx = max mx (ucast (a_context_size al_cpu) - 1);
              mx = fold (\<lambda>i mx. if context_shown al_cpu i then max mx (ucast (a_context_start_slot_nr al_cpu) + of_nat i) else mx)
                [0..<AL_CONTEXT_PER_TRANSACTION H] mx
          in fold (\<lambda>i mx. if update_shown al_cpu i then max mx (ucast (a_update_slot_nr al_cpu ! i)) else mx)
                [0..<AL_UPDATES_PER_TRANSACTION H] mx)"

definition printf_al_84 :: "headers \<Rightarrow> host \<Rightarrow> md_cpu \<Rightarrow> al_transaction_on_disk list \<Rightarrow> nat \<Rightarrow> string" where
  "printf_al_84 H h md al_disk block_nr_offset =
    (let cpus = map (\<lambda>d. fst (v84_al_disk_to_cpu H h d)) al_disk
     in concat (map (\<lambda>b. transaction_text H (cpus ! b) (b + block_nr_offset)) [0..<length cpus]) @
        al_caution md (fold (transaction_max_slot H) cpus 0))"

definition printf_al_pmem :: "headers \<Rightarrow> host \<Rightarrow> md_cpu \<Rightarrow> bytes \<Rightarrow> string" where
  "printf_al_pmem H h md buf = concat (map (\<lambda>i.
     let extent_nr = be32_to_cpu h (al_on_pmem_slot H h buf i)
     in comment_line ('' slot['' @ show_nat i @ '']: '' @ (if extent_nr = -1 then ''      FREE'' else show_u 10 (unat extent_nr))))
     [0..<unat (al_nr_extents md)])"

section \<open>The log in chunks\<close>

text \<open>
  \<open>buf\<close> is the content of the buffer before the chunk is read, and \<open>al_size\<close>, an unsigned 32
  bit product, what is left of the log. The text is what was printed when the loop ends.
\<close>

function printf_al_loop :: "headers \<Rightarrow> host \<Rightarrow> format_cfg \<Rightarrow> nat \<Rightarrow> u64 \<Rightarrow> nat \<Rightarrow> bool \<Rightarrow> bytes \<Rightarrow> string io" where
  "printf_al_loop H h cfg al_size off nr is_al_84 buf =
    (if al_size = 0 then ret []
     else let chunk = min al_size buffer_size; N = chunk div 4096 in
       bind_io (pread_or_die chunk off) (\<lambda>bs.
         let buf = bs @ drop chunk buf; md = cfg_md cfg;
             go_on = (\<lambda>is_al_84 s.
               bind_io (printf_al_loop H h cfg (al_size - chunk) (off + of_nat chunk) (nr + N) is_al_84 buf) (\<lambda>r.
               ret (s @ (if al_size - chunk \<noteq> 0 \<and> \<not> is_al_84 then comment_line ''## UNEXPECTED ACTIVITY LOG SIZE!'' else []) @ r)))
         in if format_version (ops cfg) < format_version DRBD_V08 then go_on is_al_84 (printf_al_07 H h md buf)
            else if DRBD_AL_PMEM_MAGIC H = be32_to_cpu h (al_on_pmem_magic H h buf) then ret (printf_al_pmem H h md buf)
            else if is_al_84 \<or> DRBD_AL_MAGIC H = be32_to_cpu h (da_magic (al_4k_blocks H h buf 2 ! 0))
              \<or> DRBD_AL_MAGIC H = be32_to_cpu h (da_magic (al_4k_blocks H h buf 2 ! 1))
            then go_on True (printf_al_84 H h md (al_4k_blocks H h buf N) nr)
            else go_on is_al_84 (printf_al_07 H h md buf)))"
  by pat_completeness auto
termination
  by (relation "measure (\<lambda>(H, h, cfg, al_size, off, nr, is_al_84, buf). al_size)") (auto simp: buffer_size_def)

declare printf_al_loop.simps [simp del]

definition is_al_84 :: "format_cfg \<Rightarrow> bool" where
  "is_al_84 cfg \<longleftrightarrow> ops cfg = DRBD_V09 \<or> ops cfg = DRBD_V08 \<and> (al_stripes (cfg_md cfg) \<noteq> 1 \<or> al_stripe_size_4k (cfg_md cfg) \<noteq> 8)"

definition dumped_al_size :: "md_cpu \<Rightarrow> nat" where
  "dumped_al_size md = unat (al_stripes md * al_stripe_size_4k md * 4096)"

definition printf_al :: "headers \<Rightarrow> host \<Rightarrow> format_cfg \<Rightarrow> bytes \<Rightarrow> string io" where
  "printf_al H h cfg buf =
    bind_io (printf_al_loop H h cfg (dumped_al_size (cfg_md cfg)) (cfg_al_offset cfg) 0 (is_al_84 cfg) buf) (\<lambda>s.
      ret (comment_line '' al {'' @ s @ comment_line '' }''))"

section \<open>All of it is comments\<close>

lemma drop_to_newline: "CHR 0x0A \<notin> set s \<Longrightarrow> dropWhile (\<lambda>x. x \<noteq> CHR 0x0A) (s @ r) = dropWhile (\<lambda>x. x \<noteq> CHR 0x0A) r"
  by (induction s) auto

lemma yylex_comment_line:
  assumes "CHR 0x0A \<in> set t"
  shows "yylex_all (CHR ''#'' # t) = yylex_all (dropWhile (\<lambda>x. x \<noteq> CHR 0x0A) t)"
proof -
  obtain a b where t: "t = a @ CHR 0x0A # b" "CHR 0x0A \<notin> set a" using split_list_first [OF assms] by blast
  then have "dropWhile (\<lambda>x. x \<noteq> CHR 0x0A) t = CHR 0x0A # b" by (simp add: drop_to_newline)
  then show ?thesis using yylex_comment [OF t(2), of b] t(1) by simp
qed

text \<open>A text of which no token remains, whatever follows it.\<close>

definition only_comments :: "string \<Rightarrow> bool" where
  "only_comments s \<longleftrightarrow> (\<forall>r. yylex_all (s @ r) = yylex_all r)"

named_theorems commented \<open>texts without tokens\<close>

lemma only_comments_basic [commented]:
  "only_comments []" "only_comments s \<Longrightarrow> only_comments t \<Longrightarrow> only_comments (s @ t)"
  "(c \<Longrightarrow> only_comments s) \<Longrightarrow> (\<not> c \<Longrightarrow> only_comments t) \<Longrightarrow> only_comments (if c then s else t)"
  by (simp_all add: only_comments_def)

lemma only_comments_concat [commented]: "(\<And>i. i \<in> set is \<Longrightarrow> only_comments (f i)) \<Longrightarrow> only_comments (concat (map f is))"
  by (induction "is") (simp_all add: only_comments_def)

lemma show_line [simp]:
  "CHR 0x0A \<notin> set (show_base u 16 n)" "CHR 0x0A \<notin> set (show_nat n)" "CHR 0x0A \<notin> set (show_u w n)" "CHR 0x0A \<notin> set (show_0x w n)"
proof -
  have b: "CHR 0x0A \<notin> set (show_base u b n)" if "2 \<le> b" "b \<le> 16" for u b
    using show_base_digits [OF that, of u n] that by (auto simp: digit_value_def)
  then show "CHR 0x0A \<notin> set (show_base u 16 n)" "CHR 0x0A \<notin> set (show_nat n)" "CHR 0x0A \<notin> set (show_u w n)" "CHR 0x0A \<notin> set (show_0x w n)"
    by (auto simp: show_nat_def show_u_def show_0x_def pad_left_def pad_zero_def)
qed

lemma only_comments_line [commented]: "CHR 0x0A \<notin> set s \<Longrightarrow> only_comments (comment_line s)"
  by (simp add: only_comments_def comment_line_def yylex_comment)

lemma only_comments_logs [commented]:
  "only_comments (slot_line i a b)" "only_comments (al_caution md mx)" "only_comments (transaction_text H al nr)"
  unfolding slot_line_def al_caution_def transaction_text_def by (intro commented; simp)+

lemma only_comments_sector [commented]: "only_comments (sector_text s p)"
  unfolding sector_text_def case_prod_unfold by (intro commented; simp)

lemma only_comments_printf [commented]:
  "only_comments (printf_al_07 H h md buf)" "only_comments (printf_al_84 H h md ds nr)" "only_comments (printf_al_pmem H h md buf)"
  unfolding printf_al_07_def printf_al_84_def printf_al_pmem_def Let_def by (intro commented; simp)+

text \<open>A computation that ends with such a text, without an effect on the world.\<close>

definition dumps_comments :: "world \<Rightarrow> string io \<Rightarrow> bool" where
  "dumps_comments w m \<longleftrightarrow> (\<exists>s. m w = (Inr s, w) \<and> only_comments s)"

lemma dumps_comments_intros [commented]:
  "only_comments s \<Longrightarrow> dumps_comments w (ret s)"
  "(c \<Longrightarrow> dumps_comments w m) \<Longrightarrow> (\<not> c \<Longrightarrow> dumps_comments w k) \<Longrightarrow> dumps_comments w (if c then m else k)"
  "dumps_comments w m \<Longrightarrow> (\<And>s. only_comments s \<Longrightarrow> dumps_comments w (f s)) \<Longrightarrow> dumps_comments w (bind_io m f)"
  by (auto simp: dumps_comments_def ret_def bind_io_def)

lemma dumps_comments_pread:
  "pread_or_die n off w = (Inr bs, w) \<Longrightarrow> dumps_comments w (f bs) \<Longrightarrow> dumps_comments w (bind_io (pread_or_die n off) f)"
  by (auto simp: dumps_comments_def bind_io_def)

lemma printf_al_loop_comments:
  assumes "healthy w"
  shows "off + al_size \<le> dev_size w \<Longrightarrow> dumps_comments w (printf_al_loop H h cfg al_size (of_nat off) nr is84 buf)"
proof (induction al_size arbitrary: off nr is84 buf rule: less_induct)
  case (less al_size)
  let ?chunk = "min al_size buffer_size"
  have c: "off + ?chunk \<le> dev_size w" "off + ?chunk + (al_size - ?chunk) \<le> dev_size w" using less.prems by simp_all
  obtain bs where rd: "pread_or_die ?chunk (of_nat off) w = (Inr bs, w)"
    using writes_pread [OF assms c(1)] pread_env by (fastforce simp: writes_def)
  have rest: "dumps_comments w (printf_al_loop H h cfg (al_size - ?chunk) (of_nat off + of_nat ?chunk) nr' b buf')" if "al_size \<noteq> 0" for nr' b buf'
    using less.IH [OF _ c(2), of nr' b buf'] that by (simp add: buffer_size_def)
  show ?case
    by (subst printf_al_loop.simps, unfold Let_def, intro commented dumps_comments_pread [OF rd] rest) simp_all
qed

text \<open>If the log can be read then it is dumped as comments; nothing is written.\<close>

lemma printf_al_comments:
  assumes "healthy w" "unat (cfg_al_offset cfg) + dumped_al_size (cfg_md cfg) \<le> dev_size w"
  shows "\<exists>s. printf_al H h cfg buf w = (Inr s, w) \<and> only_comments s"
proof -
  have "dumps_comments w (printf_al H h cfg buf)"
    unfolding printf_al_def using printf_al_loop_comments [OF assms, of H h cfg 0 "is_al_84 cfg" buf] by (intro commented) simp_all
  then show ?thesis by (simp add: dumps_comments_def)
qed

end
