(* ===== verification/Existing_Data.thy ===== *)
theory Existing_Data
  imports Md_Ops
begin

text \<open>
  \<^verbatim>\<open>check_for_existing_data\<close> of \<^verbatim>\<open>user/shared/drbdmeta.c\<close>: before meta data is
  created, the start of the device is searched for file systems, swap space and physical
  volumes. What was recognised with a known size is not truncated by internal meta data and
  not overwritten by external meta data; nothing is written while checking. The recognised
  size does not depend on the byte order of the host.
\<close>

unbundle bit_operations_syntax

section \<open>Recognising what is there\<close>

record fstype_s =
  fs_type :: string
  bnum :: u64
  bsize :: u64

definition le16_at :: "host \<Rightarrow> bytes \<Rightarrow> nat \<Rightarrow> u16" where
  "le16_at h data off = le16_to_cpu h (load h (take 2 (drop off data)))"

definition le32_at :: "host \<Rightarrow> bytes \<Rightarrow> nat \<Rightarrow> u32" where
  "le32_at h data off = le32_to_cpu h (load h (take 4 (drop off data)))"

definition le64_at :: "host \<Rightarrow> bytes \<Rightarrow> nat \<Rightarrow> u64" where
  "le64_at h data off = le64_to_cpu h (load h (take 8 (drop off data)))"

definition be32_at :: "host \<Rightarrow> bytes \<Rightarrow> nat \<Rightarrow> u32" where
  "be32_at h data off = be32_to_cpu h (load h (take 4 (drop off data)))"

definition be64_at :: "host \<Rightarrow> bytes \<Rightarrow> nat \<Rightarrow> u64" where
  "be64_at h data off = be64_to_cpu h (load h (take 8 (drop off data)))"

text \<open>\<^verbatim>\<open>strncmp\<close> with a literal of that length, which has no zero byte.\<close>

definition bytes_at :: "bytes \<Rightarrow> nat \<Rightarrow> string \<Rightarrow> bool" where
  "bytes_at data off s \<longleftrightarrow> take (length s) (drop off data) = map of_char s"

text \<open>
  \<open>None\<close>: the function returned 0 and did not change \<open>f\<close>. The compatibility flag
  \<^verbatim>\<open>*(data+0x45c)\<close> is one \<^verbatim>\<open>char\<close>, sign extended.
\<close>

definition may_be_extX :: "host \<Rightarrow> bytes \<Rightarrow> fstype_s \<Rightarrow> fstype_s option" where
  "may_be_extX h data f =
    (if le16_at h data 0x438 = 0xEF53 then
       let f = (if le32_to_cpu h (scast (data ! 0x45c)) AND 4 = 4
                then f\<lparr>fs_type := ''ext3 filesystem''\<rparr> else f\<lparr>fs_type := ''ext2 filesystem''\<rparr>);
           size = le32_at h data 0x418
       in Some (f\<lparr>bnum := ucast (le32_at h data 0x404),
            bsize := if size = 0 then 1024 else if size = 1 then 2048 else if size = 2 then 4096 else 4096\<rparr>)
     else None)"

definition may_be_xfs :: "host \<Rightarrow> bytes \<Rightarrow> fstype_s \<Rightarrow> fstype_s option" where
  "may_be_xfs h data f =
    (if be32_at h data 0 = 0x58465342
     then Some (f\<lparr>fs_type := ''xfs filesystem'', bsize := ucast (be32_at h data 4), bnum := be64_at h data 8\<rparr>)
     else None)"

definition may_be_reiserfs :: "host \<Rightarrow> bytes \<Rightarrow> fstype_s \<Rightarrow> fstype_s option" where
  "may_be_reiserfs h data f =
    (if bytes_at data 0x10034 ''ReIsErFs'' \<or> bytes_at data 0x10034 ''ReIsEr2Fs''
     then Some (f\<lparr>fs_type := ''reiser filesystem'', bnum := ucast (le32_at h data 0x10000),
       bsize := ucast (le16_at h data 0x1002c)\<rparr>)
     else None)"

definition may_be_jfs :: "host \<Rightarrow> bytes \<Rightarrow> fstype_s \<Rightarrow> fstype_s option" where
  "may_be_jfs h data f =
    (if bytes_at data 0x8000 ''JFS1''
     then Some (f\<lparr>fs_type := ''JFS filesystem'', bnum := le64_at h data 0x8008,
       bsize := ucast (le32_at h data 0x8018)\<rparr>)
     else None)"

definition REFUSE_BSIZE :: u64 where "REFUSE_BSIZE = 0xFFFFffffFFFF0000"
definition ERR_BSIZE :: u64 where "ERR_BSIZE = 0xFFFFffffFFFF0001"

definition REFUSE_IT :: "fstype_s \<Rightarrow> fstype_s" where
  "REFUSE_IT f = f\<lparr>bnum := 1, bsize := REFUSE_BSIZE\<rparr>"

definition REFUSE_IT_ERR :: "fstype_s \<Rightarrow> fstype_s" where
  "REFUSE_IT_ERR f = f\<lparr>bnum := 1, bsize := ERR_BSIZE\<rparr>"

definition may_be_swap :: "bytes \<Rightarrow> fstype_s \<Rightarrow> fstype_s option" where
  "may_be_swap data f =
    (let looks_like_swap =
       bytes_at data (2 ^ 12 - 10) ''SWAP-SPACE'' \<or> bytes_at data (2 ^ 12 - 10) ''SWAPSPACE2'' \<or>
       bytes_at data (2 ^ 13 - 10) ''SWAP-SPACE'' \<or> bytes_at data (2 ^ 13 - 10) ''SWAPSPACE2''
     in if looks_like_swap then Some (REFUSE_IT (f\<lparr>fs_type := ''swap space signature''\<rparr>)) else None)"

text \<open>
  \<^verbatim>\<open>guessed_size_from_pvs\<close> runs the program \<^verbatim>\<open>pvs\<close> on the device, a parameter: the
  pipes or the child could not be created, reading its output failed, or this is what it wrote
  to the pipe. The result of \<^verbatim>\<open>read\<close> is kept in a \<^verbatim>\<open>size_t\<close>, so its error value -1
  passes the test for a positive number and indexes the buffer.
\<close>

datatype pvs_answer = PvsNotStarted | PvsReadError | PvsOutput string

definition guessed_size_from_pvs :: "(string \<Rightarrow> pvs_answer) \<Rightarrow> string \<Rightarrow> fstype_s \<Rightarrow> fstype_s option res" where
  "guessed_size_from_pvs pvs dev_name f =
    (case pvs dev_name of
       PvsNotStarted \<Rightarrow> Inr None
     | PvsReadError \<Rightarrow> Inl OutOfBounds
     | PvsOutput s \<Rightarrow>
         (let buf_in = takeWhile (\<lambda>c. c \<noteq> CHR 0x00) (take 199 s) in
          if s = [] \<or> scan_number 10 buf_in = None then Inr None
          else Inr (Some (f\<lparr>bnum := fst (strtoul 10 buf_in), bsize := 512\<rparr>))))"

definition may_be_LVM :: "(string \<Rightarrow> pvs_answer) \<Rightarrow> string \<Rightarrow> bytes \<Rightarrow> fstype_s \<Rightarrow> fstype_s option res" where
  "may_be_LVM pvs dev_name data f =
    (if bytes_at data 0x218 ''LVM2'' then
       let f = f\<lparr>fs_type := ''LVM2 physical volume signature''\<rparr> in
       bind_res (guessed_size_from_pvs pvs dev_name f) (\<lambda>r.
         Inr (Some (case r of None \<Rightarrow> REFUSE_IT_ERR f | Some f \<Rightarrow> f)))
     else Inr None)"

section \<open>The check\<close>

text \<open>The operands of \<^verbatim>\<open>||\<close> from left to right: the first that recognises its signature.\<close>

definition first_of :: "'a option list \<Rightarrow> 'a \<Rightarrow> 'a" where
  "first_of rs x = (case filter (\<lambda>r. r \<noteq> None) rs of r # _ \<Rightarrow> the r | [] \<Rightarrow> x)"

definition recognise :: "(string \<Rightarrow> pvs_answer) \<Rightarrow> host \<Rightarrow> string \<Rightarrow> bytes \<Rightarrow> fstype_s \<Rightarrow> fstype_s res" where
  "recognise pvs h dev_name data f =
    (case may_be_swap data f of
       Some f \<Rightarrow> Inr f
     | None \<Rightarrow> bind_res (may_be_LVM pvs dev_name data f) (\<lambda>r.
         Inr (first_of [r, may_be_extX h data f, may_be_xfs h data f, may_be_jfs h data f,
           may_be_reiserfs h data f] f)))"

definition check_for_existing_data ::
  "(string \<Rightarrow> pvs_answer) \<Rightarrow> invocation \<Rightarrow> format_cfg \<Rightarrow> unit io" where
  "check_for_existing_data pvs cx cfg =
    bind_io (pread_or_die (unat SO_MUCH) 0) (\<lambda>data.
      if list_all (\<lambda>b. b = 0) data then ret ()
      else bind_io (lift_res (recognise pvs (i_host cx) (i_md_device_name cx) data
          \<lparr>fs_type = ''some data'', bnum = 0, bsize = 0\<rparr>)) (\<lambda>f.
        let fs_kB = drop_bit 10 (bsize f * bnum f + 2 ^ 10 - 1);
            refused = (if ignore_sanity_checks (i_options cx) then ret () else stop_io (Exit 40));
            proceed = bind_io (confirmed (i_options cx)) (\<lambda>ok. if ok then ret () else stop_io (Exit 1))
        in bind_io (lift_res (max_usable_sectors (i_headers cx) cfg)) (\<lambda>s.
          let max_usable_kB = drop_bit 1 s in
          if bnum f \<noteq> 0 then
            if md_index cfg \<ge> 0 \<or> md_index cfg = DRBD_MD_INDEX_FLEX_EXT (i_headers cx) then refused
            else if bsize f \<ge> REFUSE_BSIZE then refused
            else if fs_kB > max_usable_kB then stop_io (Exit 40)
            else proceed
          else proceed)))"

section \<open>What the signatures say\<close>

text \<open>
  The formats of the super blocks, read from the bytes: how many bytes at the start of the
  device the file system claims.
\<close>

definition le_at :: "bytes \<Rightarrow> nat \<Rightarrow> nat \<Rightarrow> nat" where
  "le_at data off n = unat (le_word (take n (drop off data)) :: u64)"

definition be_at :: "bytes \<Rightarrow> nat \<Rightarrow> nat \<Rightarrow> nat" where
  "be_at data off n = unat (le_word (rev (take n (drop off data))) :: u64)"

definition claimed_bytes :: "bytes \<Rightarrow> nat" where
  "claimed_bytes data =
    (if le_at data 0x438 2 = 0xEF53 then le_at data 0x404 4 * 2 ^ (10 + le_at data 0x418 4)
     else if bytes_at data 0 ''XFSB'' then be_at data 8 8 * be_at data 4 4
     else if bytes_at data 0x8000 ''JFS1'' then le_at data 0x8008 8 * le_at data 0x8018 4
     else if bytes_at data 0x10034 ''ReIsErFs'' \<or> bytes_at data 0x10034 ''ReIsEr2Fs''
     then le_at data 0x10000 4 * le_at data 0x1002c 2
     else 0)"

definition swap_signature :: "bytes \<Rightarrow> bool" where
  "swap_signature data \<longleftrightarrow> (\<exists>off \<in> {4086, 8182}. bytes_at data off ''SWAP-SPACE'' \<or> bytes_at data off ''SWAPSPACE2'')"

lemma le_word_width:
  assumes "8 * length bs \<le> LENGTH('a)" "8 * length bs \<le> LENGTH('b)"
  shows "unat (le_word bs :: 'a::len word) = unat (le_word bs :: 'b::len word)"
proof (rule bit_eqI)
  fix i
  have "bit (le_word bs :: 'a word) i = bit (le_word bs :: 'b word) i"
    using assms by (auto simp: bit_le_word)
  then show "bit (unat (le_word bs :: 'a word)) i = bit (unat (le_word bs :: 'b word)) i"
    by (simp add: bit_unsigned_iff)
qed

lemma ucast_le_word: "length bs = 4 \<Longrightarrow> ucast (le_word bs :: u32) = (le_word bs :: u64)"
  "length bs = 2 \<Longrightarrow> ucast (le_word bs :: u16) = (le_word bs :: u64)"
  by (rule bit_eqI, auto simp: bit_simps bit_le_word)+

lemma load_be_to_cpu:
  "length bs = 4 \<Longrightarrow> be32_to_cpu h (load h bs) = le_word (rev bs)"
  "length bs = 8 \<Longrightarrow> be64_to_cpu h (load h bs) = le_word (rev bs)"
  using load_le_to_cpu(2,3) [of "rev bs" BigEndian] by (cases h; simp)+

lemma fields:
  assumes "length data = 69632"
  shows "unat (le32_at h data 0x418) = le_at data 0x418 4" "ucast (le32_at h data 0x404) = (of_nat (le_at data 0x404 4) :: u64)"
    "ucast (le32_at h data 0x8018) = (of_nat (le_at data 0x8018 4) :: u64)" "ucast (le32_at h data 0x10000) = (of_nat (le_at data 0x10000 4) :: u64)"
    "le64_at h data 0x8008 = of_nat (le_at data 0x8008 8)" "ucast (le16_at h data 0x1002c) = (of_nat (le_at data 0x1002c 2) :: u64)"
    "be64_at h data 8 = of_nat (be_at data 8 8)" "ucast (be32_at h data 4) = (of_nat (be_at data 4 4) :: u64)"
    "unat (le16_at h data 0x438) = le_at data 0x438 2" 
  using assms
  by (simp_all add: le16_at_def le32_at_def le64_at_def be32_at_def be64_at_def le_at_def be_at_def load_le_to_cpu load_be_to_cpu
      ucast_le_word le_word_width [where 'a = 32 and 'b = 64] le_word_width [where 'a = 16 and 'b = 64])

lemma magics:
  assumes "length data = 69632"
  shows "be32_at h data 0 = 0x58465342 \<longleftrightarrow> bytes_at data 0 ''XFSB''"
    and "le16_at h data 0x438 = 0xEF53 \<longleftrightarrow> le_at data 0x438 2 = 0xEF53"
proof -
  have four: "le_word (rev bs) = (0x58465342 :: u32) \<longleftrightarrow> bs = [0x58, 0x46, 0x53, 0x42]" if "length bs = 4" for bs
  proof
    assume "le_word (rev bs) = (0x58465342 :: u32)"
    then have "le_bytes (length (rev bs)) (0x58465342 :: u32) = rev bs"
      using le_bytes_le_word [of "rev bs", where 'a = 32] that by simp
    moreover have "le_bytes 4 (0x58465342 :: u32) = [0x42, 0x53, 0x46, 0x58]" by code_simp
    ultimately have "rev (rev bs) = rev [0x42, 0x53, 0x46, 0x58]" using that by simp
    then show "bs = [0x58, 0x46, 0x53, 0x42]" by simp
  qed simp
  show "be32_at h data 0 = 0x58465342 \<longleftrightarrow> bytes_at data 0 ''XFSB''"
  proof -
    have "length ''XFSB'' = 4" by simp
    then have "bytes_at data 0 ''XFSB'' \<longleftrightarrow> take 4 (drop 0 data) = [0x58, 0x46, 0x53, 0x42]"
      unfolding bytes_at_def by (simp only:) simp
    then show ?thesis using assms by (simp add: be32_at_def load_be_to_cpu four)
  qed
  show "le16_at h data 0x438 = 0xEF53 \<longleftrightarrow> le_at data 0x438 2 = 0xEF53"
    using fields(9) [OF assms, of h] by (simp add: word_unat_eq_iff)
qed

section \<open>What was recognised is kept\<close>

lemma le_word_bound: "unat (le_word bs :: 'a::len word) < 2 ^ (8 * length bs)"
proof -
  have "take_bit (8 * length bs) (unat (le_word bs :: 'a word)) = unat (le_word bs :: 'a word)"
    by (rule bit_eqI) (auto simp: bit_take_bit_iff bit_unsigned_iff bit_le_word)
  then show ?thesis by (simp add: take_bit_nat_eq_self_iff)
qed

lemma at_bounds: "le_at data off n < 2 ^ (8 * n)" "be_at data off n < 2 ^ (8 * n)"
proof -
  have "(2::nat) ^ (8 * length (take n (drop off data))) \<le> 2 ^ (8 * n)" by (rule power_increasing) simp_all
  then show "le_at data off n < 2 ^ (8 * n)" "be_at data off n < 2 ^ (8 * n)"
    using le_word_bound [of "take n (drop off data)", where 'a = 64] le_word_bound [of "rev (take n (drop off data))", where 'a = 64]
    unfolding le_at_def be_at_def by (simp_all only: length_rev order_less_le_trans)
qed

lemma unat_at [simp]:
  "unat (of_nat (le_at data off n) :: u64) = le_at data off n" "unat (of_nat (be_at data off n) :: u64) = be_at data off n"
  by (simp_all add: le_at_def be_at_def)

lemma at_small:
  "le_at data off 4 < unat REFUSE_BSIZE" "le_at data off 2 < unat REFUSE_BSIZE" "be_at data off 4 < unat REFUSE_BSIZE"
  "1024 < unat REFUSE_BSIZE" "2048 < unat REFUSE_BSIZE" "4096 < unat REFUSE_BSIZE" "0 < unat REFUSE_BSIZE"
  using at_bounds(1) [of data off 4] at_bounds(1) [of data off 2] at_bounds(2) [of data off 4]
  by (simp_all add: REFUSE_BSIZE_def)

text \<open>The size computed for the recognised file system is the one its super block claims.\<close>

lemma recognised_size:
  assumes len: "length data = 69632" and lvm: "\<not> bytes_at data 0x218 ''LVM2''" and swap: "\<not> swap_signature data"
    and ext: "le_at data 0x438 2 = 0xEF53 \<Longrightarrow> le_at data 0x418 4 \<le> 2"
    and f: "recognise pvs h dev data \<lparr>fs_type = t, bnum = 0, bsize = 0\<rparr> = Inr f"
  shows "unat (bsize f) * unat (bnum f) = claimed_bytes data" and "bsize f < REFUSE_BSIZE"
proof -
  let ?f = "\<lparr>fs_type = t, bnum = 0, bsize = 0\<rparr>"
  have f: "f = first_of [may_be_extX h data ?f, may_be_xfs h data ?f, may_be_jfs h data ?f, may_be_reiserfs h data ?f] ?f"
    using f lvm swap by (simp add: recognise_def may_be_swap_def swap_signature_def may_be_LVM_def first_of_def)
  have log: "le_at data 0x418 4 = 0 \<or> le_at data 0x418 4 = 1 \<or> le_at data 0x418 4 = 2" if "le_at data 0x438 2 = 0xEF53"
    using ext [OF that] by linarith
  have eq: "le32_at h data 0x418 = of_nat (le_at data 0x418 4)"
    by (simp flip: fields(1) [OF len, of h] add: ucast_id)
  show "unat (bsize f) * unat (bnum f) = claimed_bytes data" "bsize f < REFUSE_BSIZE"
    unfolding f using log
    by (auto simp: first_of_def may_be_extX_def may_be_xfs_def may_be_jfs_def may_be_reiserfs_def magics [OF len] fields(2-8) [OF len] eq
        claimed_bytes_def Let_def at_small word_less_nat_alt)
qed

lemma check_keeps_disk:
  assumes "check_for_existing_data pvs cx cfg w = (r, w')"
  shows "w' = w \<or> (\<exists>a. w' = w\<lparr>answers := a\<rparr>)"
  using assms
  by (auto simp: check_for_existing_data_def bind_io_def lift_res_def ret_def stop_io_def Let_def confirmed_def confirmed_ex_def pread_or_die_def
      split: sum.splits if_splits option.splits list.splits)

lemma check_passed:
  assumes run: "check_for_existing_data pvs cx cfg w = (Inr (), w')" and "\<not> ignore_sanity_checks (i_options cx)"
  shows "list_all (\<lambda>b. b = 0) (read_bytes (disk w) 0 69632) \<or>
    (\<exists>f s. recognise pvs (i_host cx) (i_md_device_name cx) (read_bytes (disk w) 0 69632) \<lparr>fs_type = ''some data'', bnum = 0, bsize = 0\<rparr> = Inr f \<and>
      max_usable_sectors (i_headers cx) cfg = Inr s \<and>
      (bnum f = 0 \<or> md_index cfg < 0 \<and> md_index cfg \<noteq> DRBD_MD_INDEX_FLEX_EXT (i_headers cx) \<and> bsize f < REFUSE_BSIZE \<and>
        drop_bit 10 (bsize f * bnum f + 2 ^ 10 - 1) \<le> drop_bit 1 s))"
  using assms
  by (auto simp: check_for_existing_data_def bind_io_def lift_res_def ret_def stop_io_def Let_def pread_or_die_def SO_MUCH_def not_le not_less
      split: sum.splits if_splits)

lemma le_word_zero: "\<forall>b \<in> set bs. b = 0 \<Longrightarrow> le_word bs = 0"
  by (induction bs) simp_all

lemma blank_claims:
  assumes "list_all (\<lambda>b. b = 0) data"
  shows "\<not> swap_signature data" "claimed_bytes data = 0"
proof -
  have z: "\<forall>b \<in> set (take n (drop off data)). b = 0" for n off
    using assms by (meson in_set_dropD in_set_takeD list_all_iff)
  have no: "\<not> bytes_at data off s" if "c \<in> set s" "(of_char c :: u8) \<noteq> 0" for off s c
    using z [of "length s" off] that by (auto simp: bytes_at_def)
  have "le_at data off n = 0" for off n
    using z by (simp add: le_at_def le_word_zero)
  then show "claimed_bytes data = 0"
    using no [of "CHR ''X''" "''XFSB''"] no [of "CHR ''J''" "''JFS1''"] no [of "CHR ''R''" "''ReIsErFs''"] no [of "CHR ''R''" "''ReIsEr2Fs''"]
    by (simp add: claimed_bytes_def)
  show "\<not> swap_signature data"
    using no [of "CHR ''S''" "''SWAP-SPACE''"] no [of "CHR ''S''" "''SWAPSPACE2''"] by (auto simp: swap_signature_def)
qed

lemma kB_rounding:
  assumes le: "drop_bit 10 (x * y + 2 ^ 10 - 1) \<le> drop_bit 1 (s :: u64)" and n: "unat x * unat y + 1023 < 2 ^ 64"
  shows "unat x * unat y \<le> 512 * unat s"
proof -
  have "unat (x * y) = unat x * unat y" using n by (subst unat_word_mult) simp_all
  then have "unat (x * y + 1023) = unat x * unat y + 1023" using n by (subst unat_word_add) simp_all
  moreover have "x * y + 2 ^ 10 - 1 = x * y + 1023" by simp
  ultimately have "(unat x * unat y + 1023) div 2 ^ 10 \<le> unat s div 2"
    using le unfolding word_le_nat_alt by (simp only: unat_drop_bit) simp
  then show ?thesis by simp
qed

text \<open>
  C22. What \<^verbatim>\<open>check_for_existing_data\<close> lets pass, without \<^verbatim>\<open>--ignore-sanity-checks\<close>, the
  user confirming everything: never a swap signature; and when the start of the device is a
  super block of ext2/3 (blocks of up to 4 KiB), xfs, jfs or reiserfs that claims fewer than
  \<open>2 ^ 64\<close> bytes, external meta data is not put over it at all and internal meta data leaves
  at least the claimed bytes usable. On both kinds of host; nothing is written.
\<close>

theorem existing_data_kept:
  assumes run: "check_for_existing_data pvs cx cfg w = (Inr (), w')" and sane: "\<not> ignore_sanity_checks (i_options cx)"
  defines "data \<equiv> read_bytes (disk w) 0 69632"
  assumes lvm: "\<not> bytes_at data 0x218 ''LVM2''" and ext: "le_at data 0x438 2 = 0xEF53 \<Longrightarrow> le_at data 0x418 4 \<le> 2"
    and size: "claimed_bytes data + 1023 < 2 ^ 64"
  shows "\<not> swap_signature data \<and> disk w' = disk w \<and>
    (if md_index cfg \<ge> 0 \<or> md_index cfg = DRBD_MD_INDEX_FLEX_EXT (i_headers cx) then claimed_bytes data = 0
     else claimed_bytes data = 0 \<or>
       (\<exists>s. max_usable_sectors (i_headers cx) cfg = Inr s \<and> claimed_bytes data \<le> 512 * unat s))"
proof (cases "list_all (\<lambda>b. b = 0) data")
  case True
  then show ?thesis using check_keeps_disk [OF run] blank_claims [OF True] by auto
next
  case False
  then obtain f s where f: "recognise pvs (i_host cx) (i_md_device_name cx) data \<lparr>fs_type = ''some data'', bnum = 0, bsize = 0\<rparr> = Inr f"
    and s: "max_usable_sectors (i_headers cx) cfg = Inr s"
    and ok: "bnum f = 0 \<or> md_index cfg < 0 \<and> md_index cfg \<noteq> DRBD_MD_INDEX_FLEX_EXT (i_headers cx) \<and> bsize f < REFUSE_BSIZE \<and>
      drop_bit 10 (bsize f * bnum f + 2 ^ 10 - 1) \<le> drop_bit 1 s"
    using check_passed [OF run sane] unfolding data_def by blast
  have len: "length data = 69632" by (simp add: data_def)
  have swap: "\<not> swap_signature data"
  proof
    assume "swap_signature data"
    then have "bnum f = 1" "bsize f = REFUSE_BSIZE"
      using f by (auto simp: recognise_def may_be_swap_def swap_signature_def REFUSE_IT_def)
    with ok show False by simp
  qed
  from recognised_size(1) [OF len lvm swap ext f] have n: "unat (bsize f) * unat (bnum f) = claimed_bytes data" .
  have "claimed_bytes data \<le> 512 * unat s" if "drop_bit 10 (bsize f * bnum f + 2 ^ 10 - 1) \<le> drop_bit 1 s"
    using kB_rounding [OF that] size n by simp
  with ok n s swap show ?thesis using check_keeps_disk [OF run] by auto
qed

text \<open>An xfs file system of 64 MiB on a device with room for 96 MiB of data.\<close>

definition xfs_start :: bytes where
  "xfs_start = [0x58, 0x46, 0x53, 0x42, 0, 0, 0x10, 0, 0, 0, 0, 0, 0, 0, 0x40, 0]"

definition example_xfs :: world where
  "example_xfs = example_world\<lparr>disk := write_bytes (\<lambda>_. 0) 0 xfs_start\<rparr>"

definition example_forced :: invocation where
  "example_forced = \<lparr>i_headers = example_headers, i_host = LittleEndian, i_options = example_options\<lparr>force := True\<rparr>,
     i_libdir = ''/var/lib/drbd'', i_minor = 0, i_md_device_name = ''/dev/sda'', i_is_apply_al_cmd = False\<rparr>"

definition example_int_cfg :: format_cfg where
  "example_int_cfg = example_cfg\<lparr>md_index := DRBD_MD_INDEX_FLEX_INT example_headers, md_offset := 100659200,
     cfg_al_offset := 100659200, cfg_bm_offset := 100659200\<rparr>"

lemma read_written_start:
  "length bs \<le> n \<Longrightarrow> read_bytes (write_bytes (\<lambda>_. x) 0 bs) 0 n = bs @ replicate (n - length bs) x"
  by (rule nth_equalityI) (auto simp: read_bytes_def write_bytes_def nth_append)

lemma length_xfs_start [simp]: "length xfs_start = 16"
  by (simp add: xfs_start_def)

lemma example_xfs_data: "read_bytes (disk example_xfs) 0 69632 = xfs_start @ replicate 69616 0"
  by (simp add: example_xfs_def read_written_start)

lemma example_xfs_rest:
  assumes "16 \<le> off"
  shows "c \<in> set s \<Longrightarrow> (of_char c :: u8) \<noteq> 0 \<Longrightarrow> \<not> bytes_at (xfs_start @ replicate 69616 0) off s"
    and "le_at (xfs_start @ replicate 69616 0) off n = 0"
proof -
  have d: "drop off (xfs_start @ replicate 69616 0) = replicate (69616 - (off - 16)) 0" using assms by simp
  show "c \<in> set s \<Longrightarrow> (of_char c :: u8) \<noteq> 0 \<Longrightarrow> \<not> bytes_at (xfs_start @ replicate 69616 0) off s"
  proof
    assume c: "c \<in> set s" "(of_char c :: u8) \<noteq> 0" and "bytes_at (xfs_start @ replicate 69616 0) off s"
    then have "take (length s) (replicate (69616 - (off - 16)) (0 :: u8)) = map of_char s" by (simp only: bytes_at_def d)
    moreover have "set (take (length s) (replicate (69616 - (off - 16)) (0 :: u8))) \<subseteq> {0}" by auto
    ultimately show False using c by auto
  qed
  show "le_at (xfs_start @ replicate 69616 0) off n = 0" unfolding le_at_def d by (simp add: le_word_zero)
qed

lemma example_xfs_claims:
  "claimed_bytes (xfs_start @ replicate 69616 0) = 67108864" "\<not> swap_signature (xfs_start @ replicate 69616 0)"
  "\<not> bytes_at (xfs_start @ replicate 69616 0) 0x218 ''LVM2''"
proof -
  have "bytes_at (xfs_start @ replicate 69616 0) 0 ''XFSB''" by (simp add: bytes_at_def xfs_start_def)
  moreover have "be_at (xfs_start @ replicate 69616 0) 8 8 = 16384" "be_at (xfs_start @ replicate 69616 0) 4 4 = 4096"
    by (simp_all add: be_at_def xfs_start_def)
  ultimately show "claimed_bytes (xfs_start @ replicate 69616 0) = 67108864"
    by (simp add: claimed_bytes_def example_xfs_rest(2))
  show "\<not> swap_signature (xfs_start @ replicate 69616 0)"
    using example_xfs_rest(1) [of _ "CHR ''S''"] by (simp add: swap_signature_def)
  show "\<not> bytes_at (xfs_start @ replicate 69616 0) 0x218 ''LVM2''"
    using example_xfs_rest(1) [of _ "CHR ''L''"] by simp
qed

lemma example_xfs_recognised:
  "recognise pvs LittleEndian dev (xfs_start @ replicate 69616 0) \<lparr>fs_type = t, bnum = 0, bsize = 0\<rparr> =
    Inr \<lparr>fs_type = ''xfs filesystem'', bnum = 16384, bsize = 4096\<rparr>"
proof -
  let ?d = "xfs_start @ replicate 69616 0"
  have "bytes_at ?d 0 ''XFSB''" by (simp add: bytes_at_def xfs_start_def)
  moreover have "be64_at LittleEndian ?d 8 = 16384" "ucast (be32_at LittleEndian ?d 4) = (4096 :: u64)"
    by (simp_all add: fields be_at_def xfs_start_def)
  ultimately show ?thesis using example_xfs_claims(2,3)
    by (simp add: recognise_def may_be_swap_def swap_signature_def may_be_LVM_def first_of_def may_be_extX_def may_be_xfs_def
        magics example_xfs_rest(2))
qed

lemma example_xfs_passes: "check_for_existing_data (\<lambda>_. PvsNotStarted) example_forced example_int_cfg example_xfs = (Inr (), example_xfs)"
proof -
  have "pread_or_die 69632 0 example_xfs = (Inr (xfs_start @ replicate 69616 0), example_xfs)"
    by (simp add: pread_or_die_def kernel_error_def example_xfs_data) (simp add: example_xfs_def example_world_def)
  moreover have "\<not> list_all (\<lambda>b. b = 0) xfs_start" by (simp add: xfs_start_def)
  moreover have "max_usable_sectors example_headers example_int_cfg = Inr 196600"
    by (simp add: max_usable_sectors_def example_int_cfg_def)
  ultimately show ?thesis
    by (simp add: check_for_existing_data_def bind_io_def lift_res_def ret_def example_forced_def SO_MUCH_def Let_def
        example_xfs_recognised confirmed_def confirmed_ex_def REFUSE_BSIZE_def example_int_cfg_def)
qed

theorem existing_data_kept_witness:
  "claimed_bytes (xfs_start @ replicate 69616 0) = 67108864 \<and>
    (\<exists>s. max_usable_sectors (i_headers example_forced) example_int_cfg = Inr s \<and>
      claimed_bytes (xfs_start @ replicate 69616 0) \<le> 512 * unat s)"
  using existing_data_kept [OF example_xfs_passes]
  by (simp add: example_xfs_data example_xfs_claims example_xfs_rest(2) example_forced_def example_options_def example_int_cfg_def)

end
