(* ===== verification/Md_Convert.thy ===== *)
theory Md_Convert
  imports Md_Ops
begin

text \<open>
  Conversion of the meta data in memory between the formats v07, v08 and v09
  (\<^verbatim>\<open>md_convert_07_to_08\<close> to \<^verbatim>\<open>convert_md\<close> of \<^verbatim>\<open>user/shared/drbdmeta.c\<close>) and the
  recognition of the format of a super block (\<^verbatim>\<open>detect_md\<close>). A conversion succeeds with
  meta data that is valid in the new format or stops the program; what the formats have in
  common survives the way from v08 to v09 and back.
\<close>

unbundle bit_operations_syntax

section \<open>The conversions\<close>

text \<open>
  The end of every conversion: new offsets, and a check that stops the program. The arguments
  \<open>H\<close> and \<open>bs\<close> are the headers and the option \<^verbatim>\<open>--bitmap-block-size\<close>.
\<close>

definition converted :: "headers \<Rightarrow> u32 \<Rightarrow> md_format \<Rightarrow> format_cfg \<Rightarrow> format_cfg res" where
  "converted H bs f cfg =
    bind_res (re_initialize_md_offsets H bs cfg) (\<lambda>cfg.
    bind_res (is_valid_md H f (cfg_md cfg) (md_index cfg) (bd_size cfg)) (\<lambda>ok.
      if ok then Inr cfg else Inl (Exit 111)))"

text \<open>The loop over the UUIDs: \<open>i\<close> is the slot, \<open>j\<close> counts from 1.\<close>

definition convert_uuid :: "headers \<Rightarrow> nat \<times> nat \<Rightarrow> md_cpu \<Rightarrow> md_cpu" where
  "convert_uuid H = (\<lambda>(i, j) md.
    let u = current_uuid md - of_nat j * 0x10000 in
    if i = UI_BITMAP H then md\<lparr>peers := (peers md)[0 := (peers md ! 0)\<lparr>bitmap_uuid := u\<rparr>]\<rparr>
    else md\<lparr>history_uuids := (history_uuids md)[i - UI_HISTORY_START H := u]\<rparr>)"

definition gc_uuid :: "u32 list \<Rightarrow> u64" where
  "gc_uuid g = push_bit 48 (ucast (g ! HumanCnt AND 0xffff)) OR push_bit 32 (ucast (g ! TimeoutCnt AND 0xffff))
     OR push_bit 16 (ucast ((g ! ConnectedCnt + g ! ArbitraryCnt) AND 0xffff)) OR 0xbabe"

definition md_convert_07_to_08 :: "headers \<Rightarrow> u32 \<Rightarrow> format_cfg \<Rightarrow> format_cfg res" where
  "md_convert_07_to_08 H bs cfg =
    (let md = cfg_md cfg;
         md = md\<lparr>magic := DRBD_MD_MAGIC_08 H, flags := gc md ! Flags, current_uuid := gc_uuid (gc md),
           peers := (peers md)[0 := (peers md ! 0)\<lparr>bitmap_uuid := 0\<rparr>]\<rparr>;
         start = (if bits_set cfg \<noteq> 0 then UI_BITMAP H else UI_HISTORY_START H);
         slots = [start..<UI_HISTORY_END H + 1]
     in converted H bs DRBD_V08 (cfg\<lparr>cfg_md := fold (convert_uuid H) (zip slots [1..<length slots + 1]) md\<rparr>))"

definition md_convert_08_to_07 :: "headers \<Rightarrow> u32 \<Rightarrow> format_cfg \<Rightarrow> format_cfg res" where
  "md_convert_08_to_07 H bs cfg =
    converted H bs DRBD_V07 (cfg\<lparr>cfg_md := (cfg_md cfg)\<lparr>magic := DRBD_MD_MAGIC_07 H\<rparr>\<rparr>)"

definition flag_if :: "u32 \<Rightarrow> u32 \<Rightarrow> u32 \<Rightarrow> u32 \<Rightarrow> u32" where
  "flag_if fl m add x = (if fl AND m \<noteq> 0 then x OR add else x)"

definition md_convert_08_to_09 :: "headers \<Rightarrow> u32 \<Rightarrow> format_cfg \<Rightarrow> format_cfg res" where
  "md_convert_08_to_09 H bs cfg =
    (let md = cfg_md cfg; fl = flags md;
         ps = fill_array (DRBD_NODE_ID_MAX H) (\<lambda>p. (peers md ! p)\<lparr>bitmap_uuid := 0, peer_flags := 0, bitmap_index := -1\<rparr>) (peers md);
         pf = flag_if fl MDF_CONNECTED_IND (MDF_PEER_CONNECTED H) (peer_flags (ps ! 0));
         pf = flag_if fl MDF_FULL_SYNC (MDF_PEER_FULL_SYNC H) pf;
         pf = flag_if fl MDF_PEER_OUT_DATED (MDF_PEER_OUTDATED H) pf
     in converted H bs DRBD_V09 (cfg\<lparr>cfg_md := md\<lparr>peers := ps[0 := (ps ! 0)\<lparr>peer_flags := pf\<rparr>],
          flags := fl AND NOT (MDF_CONNECTED_IND OR MDF_FULL_SYNC OR MDF_PEER_OUT_DATED),
          node_id := -1, magic := DRBD_MD_MAGIC_09 H\<rparr>\<rparr>))"

definition md_convert_09_to_08 :: "headers \<Rightarrow> u32 \<Rightarrow> format_cfg \<Rightarrow> format_cfg res" where
  "md_convert_09_to_08 H bs cfg =
    (let md = cfg_md cfg; pf = peer_flags (peers md ! 0);
         fl = flag_if pf (MDF_PEER_CONNECTED H) MDF_CONNECTED_IND (flags md);
         fl = flag_if pf (MDF_PEER_FULL_SYNC H) MDF_FULL_SYNC fl;
         fl = flag_if pf (MDF_PEER_OUTDATED H) MDF_PEER_OUT_DATED fl
     in converted H bs DRBD_V08 (cfg\<lparr>cfg_md := md\<lparr>flags := fl, magic := DRBD_MD_MAGIC_08 H, max_peers := 1\<rparr>\<rparr>))"

text \<open>The cases fall through in the source: from v09 to v07 by way of v08, from v07 to v09 likewise.\<close>

definition convert_md :: "headers \<Rightarrow> u32 \<Rightarrow> format_cfg \<Rightarrow> md_format \<Rightarrow> format_cfg res" where
  "convert_md H bs cfg from = (case (ops cfg, from) of
     (DRBD_V07, DRBD_V09) \<Rightarrow> bind_res (md_convert_09_to_08 H bs cfg) (md_convert_08_to_07 H bs)
   | (DRBD_V07, DRBD_V08) \<Rightarrow> md_convert_08_to_07 H bs cfg
   | (DRBD_V07, DRBD_V07) \<Rightarrow> Inr cfg
   | (DRBD_V08, DRBD_V07) \<Rightarrow> md_convert_07_to_08 H bs cfg
   | (DRBD_V08, DRBD_V08) \<Rightarrow> Inr cfg
   | (DRBD_V08, DRBD_V09) \<Rightarrow> md_convert_09_to_08 H bs cfg
   | (DRBD_V09, DRBD_V07) \<Rightarrow> bind_res (md_convert_07_to_08 H bs cfg) (md_convert_08_to_09 H bs)
   | (DRBD_V09, DRBD_V08) \<Rightarrow> md_convert_08_to_09 H bs cfg
   | (DRBD_V09, DRBD_V09) \<Rightarrow> Inr cfg
   | _ \<Rightarrow> Inl (Exit 10))"

section \<open>Recognising the format\<close>

text \<open>All three formats are tried, the newest wins; \<open>None\<close> is \<^verbatim>\<open>DRBD_UNKNOWN\<close>.\<close>

definition detect_md :: "headers \<Rightarrow> host \<Rightarrow> bytes \<Rightarrow> u64 \<Rightarrow> int \<Rightarrow> (md_format \<times> md_cpu) option res" where
  "detect_md H h buf ll_size index_format =
    (let md7 = md_disk_07_to_cpu H h (get_md_07 h buf);
         md8 = md_disk_08_to_cpu H h (get_md_08 H h buf);
         md9 = md_disk_09_to_cpu H h (get_md_9 H h buf)
     in bind_res (is_valid_md H DRBD_V07 md7 index_format ll_size) (\<lambda>v7.
        bind_res (is_valid_md H DRBD_V08 md8 index_format ll_size) (\<lambda>v8.
        bind_res (is_valid_md H DRBD_V09 md9 index_format ll_size) (\<lambda>v9.
          Inr (if v9 then Some (DRBD_V09, md9) else if v8 then Some (DRBD_V08, md8)
               else if v7 then Some (DRBD_V07, md7) else None)))))"

section \<open>What the formats have in common\<close>

text \<open>The flags of a peer are different bits.\<close>

definition peer_bits_ok :: "headers \<Rightarrow> bool" where
  "peer_bits_ok H \<longleftrightarrow> MDF_PEER_CONNECTED H \<noteq> 0 \<and> MDF_PEER_FULL_SYNC H \<noteq> 0 \<and> MDF_PEER_OUTDATED H \<noteq> 0 \<and>
     MDF_PEER_CONNECTED H AND MDF_PEER_FULL_SYNC H = 0 \<and> MDF_PEER_CONNECTED H AND MDF_PEER_OUTDATED H = 0 \<and>
     MDF_PEER_FULL_SYNC H AND MDF_PEER_OUTDATED H = 0"

lemma and_bit: "(x :: u32) AND push_bit k 1 \<noteq> 0 \<longleftrightarrow> bit x k"
  by (simp add: and_exp_eq_0_iff_not_bit)

lemma peer_flags_bits:
  assumes "peer_bits_ok H"
  defines "pf fl \<equiv> flag_if fl MDF_PEER_OUT_DATED (MDF_PEER_OUTDATED H) (flag_if fl MDF_FULL_SYNC (MDF_PEER_FULL_SYNC H)
      (flag_if fl MDF_CONNECTED_IND (MDF_PEER_CONNECTED H) 0))"
  shows "pf fl AND MDF_PEER_CONNECTED H \<noteq> 0 \<longleftrightarrow> bit fl 2" "pf fl AND MDF_PEER_FULL_SYNC H \<noteq> 0 \<longleftrightarrow> bit fl 3"
    "pf fl AND MDF_PEER_OUTDATED H \<noteq> 0 \<longleftrightarrow> bit fl 5"
  using assms(1) unfolding pf_def flag_if_def MDF_CONNECTED_IND_def MDF_FULL_SYNC_def MDF_PEER_OUT_DATED_def and_bit
  by (auto simp: peer_bits_ok_def bit.conj_disj_distrib bit.conj_disj_distrib2 and.commute)

text \<open>
  What a conversion transfers. v07 keeps its flags among the generation counters, v08 in the super
  block, and v09 keeps the three flags that are about the peer (bits 2, 3 and 5 before) in the
  slot of the peer, where the ones in the super block count too. The counters of v07 do not
  follow: the conversion to v07 leaves them as they were.
\<close>

definition format_flags :: "md_format \<Rightarrow> md_cpu \<Rightarrow> u32" where
  "format_flags f md = (if f = DRBD_V07 then gc md ! Flags else flags md)"

definition peer_state :: "headers \<Rightarrow> md_format \<Rightarrow> md_cpu \<Rightarrow> bool list" where
  "peer_state H f md = map (\<lambda>(k, m). bit (format_flags f md) k \<or> f = DRBD_V09 \<and> peer_flags (peers md ! 0) AND m \<noteq> 0)
     [(2, MDF_PEER_CONNECTED H), (3, MDF_PEER_FULL_SYNC H), (5, MDF_PEER_OUTDATED H)]"

definition same_sizes :: "md_cpu \<Rightarrow> md_cpu \<Rightarrow> bool" where
  "same_sizes md md' \<longleftrightarrow> gc md' = gc md \<and> effective_size md' = effective_size md \<and> device_uuid md' = device_uuid md \<and>
     bm_bytes_per_bit md' = bm_bytes_per_bit md \<and> al_nr_extents md' = al_nr_extents md \<and> members md' = members md \<and>
     la_peer_max_bio_size md' = la_peer_max_bio_size md \<and> al_stripes md' = al_stripes md \<and> al_stripe_size_4k md' = al_stripe_size_4k md"

definition transferred :: "headers \<Rightarrow> md_format \<Rightarrow> md_format \<Rightarrow> md_cpu \<Rightarrow> md_cpu \<Rightarrow> bool" where
  "transferred H from to md md' \<longleftrightarrow> same_sizes md md' \<and>
     (to \<noteq> DRBD_V07 \<longrightarrow> peer_state H to md' = peer_state H from md \<and>
        (\<forall>k. k \<notin> {2, 3, 5} \<longrightarrow> bit (flags md') k = bit (format_flags from md) k)) \<and>
     (if from = DRBD_V07 then current_uuid md' = gc_uuid (gc md)
      else current_uuid md' = current_uuid md \<and> history_uuids md' = history_uuids md)"

lemma transferred_trans:
  "transferred H a DRBD_V08 x y \<Longrightarrow> transferred H DRBD_V08 b y z \<Longrightarrow> transferred H a b x z"
  by (auto simp: transferred_def same_sizes_def format_flags_def split: if_splits)

section \<open>Conversions of internal meta data succeed\<close>

text \<open>What a conversion needs and keeps: a layout that fits, and peer slots in range.\<close>

definition convertible :: "headers \<Rightarrow> format_cfg \<Rightarrow> bool" where
  "convertible H cfg \<longleftrightarrow> internal_ok H cfg \<and> internal_room cfg \<and> sint (node_id (cfg_md cfg)) \<in> {-1..31} \<and>
     length (peers (cfg_md cfg)) = 32 \<and> (\<forall>p\<in>set (peers (cfg_md cfg)). sint (bitmap_index p) \<in> {-1..31})"

lemma converted_internal:
  assumes c: "convertible H cfg" and H: "block_sizes_ok H" "md_indices_ok H" "array_sizes_ok H"
    and f: "f = DRBD_V07 \<or> f = DRBD_V08 \<or> f = DRBD_V09" "magic_matches H f (magic (cfg_md cfg))"
  obtains cfg' where "converted H bs f cfg = Inr cfg'" "cfg_md cfg' = internal_md cfg" "ops cfg' = ops cfg"
    "md_index cfg' = md_index cfg" "bd_size cfg' = bd_size cfg" "md_offset cfg' = md_offset cfg"
    "is_valid_md H f (cfg_md cfg') (md_index cfg) (bd_size cfg) = Inr True"
proof -
  have ok: "internal_ok H cfg" and room: "internal_room cfg" using c by (simp_all add: convertible_def)
  obtain cfg' where re: "re_initialize_md_offsets H bs cfg = Inr cfg'" and md: "cfg_md cfg' = internal_md cfg"
    by (rule re_initialize_internal [OF ok H(1,2) room])
  have keeps: "ops cfg' = ops cfg" "md_index cfg' = md_index cfg" "bd_size cfg' = bd_size cfg" "md_offset cfg' = md_offset cfg"
    using re by (auto simp: re_initialize_md_offsets_def bitmap_and_al_offsets_def set_area_bm_bytes_def Let_def bind_res_def
        split: sum.splits if_splits)
  have "is_valid_md H f (internal_md cfg) (md_index cfg) (bd_size cfg) = Inr True"
    using c f H ok by (intro is_valid_internal) (auto simp: convertible_def)
  then show ?thesis using that [of cfg'] re md keeps by (simp add: converted_def)
qed

lemma internal_md_same:
  assumes "al_blocks m = al_blocks (cfg_md cfg)" "bm_bytes_per_bit m = bm_bytes_per_bit (cfg_md cfg)" "max_peers m = max_peers (cfg_md cfg)"
  shows "internal_md (cfg\<lparr>cfg_md := m\<rparr>) = m\<lparr>al_offset := al_offset (internal_md cfg), md_size_sect := md_size_sect (internal_md cfg),
    bm_offset := bm_offset (internal_md cfg)\<rparr>"
  using assms by (simp add: internal_md_def cfg_bitmap_size_def)

text \<open>
  \<open>fits cfg m\<close>: meta data that can replace the one of \<open>cfg\<close>. \<open>step_ok\<close>: what every single
  conversion establishes.
\<close>

definition fits :: "format_cfg \<Rightarrow> md_cpu \<Rightarrow> bool" where
  "fits cfg m \<longleftrightarrow> al_blocks m = al_blocks (cfg_md cfg) \<and> bm_bytes_per_bit m = bm_bytes_per_bit (cfg_md cfg) \<and>
     1 \<le> max_peers m \<and> max_peers m \<le> max_peers (cfg_md cfg) \<and> sint (node_id m) \<in> {-1..31} \<and> length (peers m) = 32 \<and>
     (\<forall>p\<in>set (peers m). sint (bitmap_index p) \<in> {-1..31})"

definition step_ok :: "headers \<Rightarrow> md_format \<Rightarrow> format_cfg \<Rightarrow> format_cfg \<Rightarrow> bool" where
  "step_ok H f cfg cfg' \<longleftrightarrow> convertible H cfg' \<and> ops cfg' = ops cfg \<and> md_index cfg' = md_index cfg \<and> bd_size cfg' = bd_size cfg \<and>
     is_valid_md H f (cfg_md cfg') (md_index cfg) (bd_size cfg) = Inr True"

lemma convertible_update:
  assumes "convertible H cfg" "fits cfg (cfg_md cfg')"
    and "md_index cfg' = md_index cfg" "bd_size cfg' = bd_size cfg" "md_offset cfg' = md_offset cfg"
  shows "convertible H cfg'"
proof -
  have "cfg_bitmap_size cfg' \<le> cfg_bitmap_size cfg"
    using assms by (simp add: fits_def cfg_bitmap_size_def bitmap_size_def word_le_nat_alt align_up_mono)
  with assms show ?thesis
    by (auto simp: fits_def convertible_def internal_ok_def internal_room_def supported_def intro: order_trans)
qed

text \<open>One step: the meta data is replaced, then the layout follows.\<close>

lemma converted_step:
  assumes c: "convertible H cfg" and H: "block_sizes_ok H" "md_indices_ok H" "array_sizes_ok H"
    and f: "f = DRBD_V07 \<or> f = DRBD_V08 \<or> f = DRBD_V09" "magic_matches H f (magic m)" and m: "fits cfg m"
  shows "\<exists>cfg'. converted H bs f (cfg\<lparr>cfg_md := m\<rparr>) = Inr cfg' \<and> cfg_md cfg' = internal_md (cfg\<lparr>cfg_md := m\<rparr>) \<and> step_ok H f cfg cfg'"
proof -
  let ?c = "cfg\<lparr>cfg_md := m\<rparr>"
  have c': "convertible H ?c" by (rule convertible_update [OF c]) (simp_all add: m)
  obtain cfg' where k: "converted H bs f ?c = Inr cfg'" "cfg_md cfg' = internal_md ?c" "ops cfg' = ops ?c"
      "md_index cfg' = md_index ?c" "bd_size cfg' = bd_size ?c" "md_offset cfg' = md_offset ?c"
      "is_valid_md H f (cfg_md cfg') (md_index ?c) (bd_size ?c) = Inr True"
    by (rule converted_internal [OF c' H f(1)]) (simp_all add: f(2))
  have "fits ?c (cfg_md cfg')" using m c' by (simp add: fits_def k(2) internal_md_def al_blocks_def)
  then have "convertible H cfg'" using k by (intro convertible_update [OF c']) simp_all
  then show ?thesis using k by (simp add: step_ok_def)
qed

lemma fold_convert_uuid:
  "let md' = fold (convert_uuid H) slots md in
    magic md' = magic md \<and> al_blocks md' = al_blocks md \<and> bm_bytes_per_bit md' = bm_bytes_per_bit md \<and> max_peers md' = max_peers md \<and>
    node_id md' = node_id md \<and> same_sizes md md' \<and> flags md' = flags md \<and> current_uuid md' = current_uuid md \<and> map bitmap_index (peers md') = map bitmap_index (peers md)"
proof (induction slots arbitrary: md)
  case (Cons x slots)
  have "map bitmap_index ((peers md)[0 := (peers md ! 0)\<lparr>bitmap_uuid := u\<rparr>]) = map bitmap_index (peers md)" for u
    by (cases "peers md") simp_all
  then show ?case
    using Cons.IH [of "convert_uuid H x md"] by (cases x) (simp add: Let_def convert_uuid_def al_blocks_def same_sizes_def)
qed (simp add: same_sizes_def)

lemma bitmap_index_range:
  assumes "map bitmap_index ps = map bitmap_index qs" "\<forall>p\<in>set qs. sint (bitmap_index p) \<in> R"
  shows "\<forall>p\<in>set ps. sint (bitmap_index p) \<in> R"
proof -
  have eq: "bitmap_index ` set ps = bitmap_index ` set qs" using arg_cong [OF assms(1), of set] by simp
  have "bitmap_index p \<in> bitmap_index ` set qs" if "p \<in> set ps" for p using that by (simp flip: eq)
  with assms(2) show ?thesis by fastforce
qed

lemma convert_07_to_08:
  assumes c: "convertible H cfg" and H: "block_sizes_ok H" "md_indices_ok H" "array_sizes_ok H"
  shows "\<exists>cfg'. md_convert_07_to_08 H bs cfg = Inr cfg' \<and> step_ok H DRBD_V08 cfg cfg' \<and> transferred H DRBD_V07 DRBD_V08 (cfg_md cfg) (cfg_md cfg')"
proof -
  let ?md = "cfg_md cfg"
  define m0 where "m0 = ?md\<lparr>magic := DRBD_MD_MAGIC_08 H, flags := gc ?md ! Flags, current_uuid := gc_uuid (gc ?md),
    peers := (peers ?md)[0 := (peers ?md ! 0)\<lparr>bitmap_uuid := 0\<rparr>]\<rparr>"
  define slots where "slots = [(if bits_set cfg \<noteq> 0 then UI_BITMAP H else UI_HISTORY_START H)..<UI_HISTORY_END H + 1]"
  define m where "m = fold (convert_uuid H) (zip slots [1..<length slots + 1]) m0"
  note k = fold_convert_uuid [of H "zip slots [1..<length slots + 1]" m0, unfolded Let_def, folded m_def]
  have "map bitmap_index (peers m0) = map bitmap_index (peers ?md)" by (cases "peers ?md") (simp_all add: m0_def)
  with k have ix: "map bitmap_index (peers m) = map bitmap_index (peers ?md)" by simp
  have "length (peers m) = length (peers ?md)" using arg_cong [OF ix, of length] by simp
  then have "fits cfg m" using k c bitmap_index_range [OF ix, of "{-1..31}"]
    by (simp add: fits_def convertible_def internal_ok_def) (simp add: m0_def al_blocks_def)
  moreover have "magic_matches H DRBD_V08 (magic m)" using k by (simp add: magic_matches_def m0_def)
  moreover have "md_convert_07_to_08 H bs cfg = converted H bs DRBD_V08 (cfg\<lparr>cfg_md := m\<rparr>)"
    by (simp only: md_convert_07_to_08_def Let_def m_def slots_def m0_def)
  moreover have "transferred H DRBD_V07 DRBD_V08 ?md (internal_md (cfg\<lparr>cfg_md := m\<rparr>))"
    using k by (simp add: transferred_def same_sizes_def internal_md_def peer_state_def format_flags_def) (simp add: m0_def)
  ultimately show ?thesis using converted_step [OF c H, of DRBD_V08 m bs] by auto
qed

lemma convert_08_to_07:
  assumes c: "convertible H cfg" and H: "block_sizes_ok H" "md_indices_ok H" "array_sizes_ok H"
  shows "\<exists>cfg'. md_convert_08_to_07 H bs cfg = Inr cfg' \<and> step_ok H DRBD_V07 cfg cfg' \<and> transferred H DRBD_V08 DRBD_V07 (cfg_md cfg) (cfg_md cfg')"
  using converted_step [OF c H, of DRBD_V07 "(cfg_md cfg)\<lparr>magic := DRBD_MD_MAGIC_07 H\<rparr>" bs] c
  by (auto simp: md_convert_08_to_07_def magic_matches_def fits_def convertible_def internal_ok_def al_blocks_def transferred_def same_sizes_def internal_md_def)

lemma convert_09_to_08:
  assumes c: "convertible H cfg" and H: "block_sizes_ok H" "md_indices_ok H" "array_sizes_ok H"
  defines "pf \<equiv> peer_flags (peers (cfg_md cfg) ! 0)"
  defines "m \<equiv> (cfg_md cfg)\<lparr>flags := flag_if pf (MDF_PEER_OUTDATED H) MDF_PEER_OUT_DATED (flag_if pf (MDF_PEER_FULL_SYNC H) MDF_FULL_SYNC
      (flag_if pf (MDF_PEER_CONNECTED H) MDF_CONNECTED_IND (flags (cfg_md cfg)))), magic := DRBD_MD_MAGIC_08 H, max_peers := 1\<rparr>"
  shows "\<exists>cfg'. md_convert_09_to_08 H bs cfg = Inr cfg' \<and> cfg_md cfg' = internal_md (cfg\<lparr>cfg_md := m\<rparr>) \<and> step_ok H DRBD_V08 cfg cfg'"
proof -
  have "fits cfg m" using c by (simp add: m_def fits_def convertible_def internal_ok_def al_blocks_def)
  moreover have "magic_matches H DRBD_V08 (magic m)" by (simp add: magic_matches_def m_def)
  moreover have "md_convert_09_to_08 H bs cfg = converted H bs DRBD_V08 (cfg\<lparr>cfg_md := m\<rparr>)"
    by (simp only: md_convert_09_to_08_def Let_def m_def pf_def)
  ultimately show ?thesis using converted_step [OF c H, of DRBD_V08 m bs] by simp
qed

lemma convert_08_to_09:
  assumes c: "convertible H cfg" and H: "block_sizes_ok H" "md_indices_ok H" "array_sizes_ok H"
  defines "fl \<equiv> flags (cfg_md cfg)"
  shows "\<exists>cfg' ps. md_convert_08_to_09 H bs cfg = Inr cfg' \<and> step_ok H DRBD_V09 cfg cfg' \<and>
    cfg_md cfg' = internal_md (cfg\<lparr>cfg_md := (cfg_md cfg)\<lparr>peers := ps,
      flags := fl AND NOT (MDF_CONNECTED_IND OR MDF_FULL_SYNC OR MDF_PEER_OUT_DATED), node_id := -1, magic := DRBD_MD_MAGIC_09 H\<rparr>\<rparr>) \<and>
    bitmap_uuid (ps ! 0) = 0 \<and> peer_flags (ps ! 0) = flag_if fl MDF_PEER_OUT_DATED (MDF_PEER_OUTDATED H)
      (flag_if fl MDF_FULL_SYNC (MDF_PEER_FULL_SYNC H) (flag_if fl MDF_CONNECTED_IND (MDF_PEER_CONNECTED H) 0))"
proof -
  let ?md = "cfg_md cfg"
  define ps where "ps = fill_array (DRBD_NODE_ID_MAX H) (\<lambda>p. (peers ?md ! p)\<lparr>bitmap_uuid := 0, peer_flags := 0, bitmap_index := -1\<rparr>) (peers ?md)"
  have len: "length ps = 32" using c by (simp add: ps_def convertible_def)
  have p: "bitmap_index (ps ! i) = -1" "bitmap_uuid (ps ! i) = 0" "peer_flags (ps ! i) = 0" if "i < 32" for i
    using that c H(3) by (simp_all add: ps_def nth_fill_array convertible_def array_sizes_ok_def)
  define qs where "qs = ps[0 := (ps ! 0)\<lparr>peer_flags := flag_if fl MDF_PEER_OUT_DATED (MDF_PEER_OUTDATED H)
      (flag_if fl MDF_FULL_SYNC (MDF_PEER_FULL_SYNC H) (flag_if fl MDF_CONNECTED_IND (MDF_PEER_CONNECTED H) (peer_flags (ps ! 0))))\<rparr>]"
  define m where "m = ?md\<lparr>peers := qs, flags := fl AND NOT (MDF_CONNECTED_IND OR MDF_FULL_SYNC OR MDF_PEER_OUT_DATED),
      node_id := -1, magic := DRBD_MD_MAGIC_09 H\<rparr>"
  have "\<forall>q\<in>set qs. bitmap_index q = -1" using p(1) len by (auto simp: qs_def in_set_conv_nth nth_list_update)
  then have "fits cfg m" using c len by (simp add: m_def qs_def fits_def convertible_def internal_ok_def al_blocks_def)
  moreover have "magic_matches H DRBD_V09 (magic m)" by (simp add: magic_matches_def m_def)
  moreover have "md_convert_08_to_09 H bs cfg = converted H bs DRBD_V09 (cfg\<lparr>cfg_md := m\<rparr>)"
    by (simp only: md_convert_08_to_09_def Let_def m_def qs_def ps_def fl_def)
  ultimately obtain cfg' where "md_convert_08_to_09 H bs cfg = Inr cfg'" "step_ok H DRBD_V09 cfg cfg'" "cfg_md cfg' = internal_md (cfg\<lparr>cfg_md := m\<rparr>)"
    using converted_step [OF c H, of DRBD_V09 m bs] by auto
  moreover have "bitmap_uuid (qs ! 0) = 0" "peer_flags (qs ! 0) = flag_if fl MDF_PEER_OUT_DATED (MDF_PEER_OUTDATED H)
      (flag_if fl MDF_FULL_SYNC (MDF_PEER_FULL_SYNC H) (flag_if fl MDF_CONNECTED_IND (MDF_PEER_CONNECTED H) 0))"
    using len p by (simp_all add: qs_def)
  ultimately show ?thesis unfolding m_def by blast
qed

lemma flags_09_to_08: "bit (flag_if pf a MDF_PEER_OUT_DATED (flag_if pf b MDF_FULL_SYNC (flag_if pf c MDF_CONNECTED_IND fl))) k \<longleftrightarrow>
    bit fl k \<or> k = 2 \<and> pf AND c \<noteq> 0 \<or> k = 3 \<and> pf AND b \<noteq> 0 \<or> k = 5 \<and> pf AND a \<noteq> 0"
  by (auto simp: flag_if_def MDF_CONNECTED_IND_def MDF_FULL_SYNC_def MDF_PEER_OUT_DATED_def bit_simps simp del: push_bit_of_1)

lemma transferred_09_to_08:
  assumes "convertible H cfg" "block_sizes_ok H" "md_indices_ok H" "array_sizes_ok H"
  shows "\<exists>cfg'. md_convert_09_to_08 H bs cfg = Inr cfg' \<and> step_ok H DRBD_V08 cfg cfg' \<and> transferred H DRBD_V09 DRBD_V08 (cfg_md cfg) (cfg_md cfg')"
  using convert_09_to_08 [OF assms, of bs]
  by (auto simp: transferred_def same_sizes_def internal_md_def peer_state_def format_flags_def flags_09_to_08)

lemma transferred_08_to_09:
  assumes "convertible H cfg" "block_sizes_ok H" "md_indices_ok H" "array_sizes_ok H" and H: "peer_bits_ok H"
  shows "\<exists>cfg'. md_convert_08_to_09 H bs cfg = Inr cfg' \<and> step_ok H DRBD_V09 cfg cfg' \<and> transferred H DRBD_V08 DRBD_V09 (cfg_md cfg) (cfg_md cfg')"
proof -
  have "bit (fl AND NOT (MDF_CONNECTED_IND OR MDF_FULL_SYNC OR MDF_PEER_OUT_DATED)) k \<longleftrightarrow> bit fl k \<and> k \<notin> {2, 3, 5}" for fl :: u32 and k
    by (auto simp: MDF_CONNECTED_IND_def MDF_FULL_SYNC_def MDF_PEER_OUT_DATED_def bit_simps simp del: push_bit_of_1 dest: bit_imp_le_length)
  then show ?thesis
    using convert_08_to_09 [OF assms(1-4), of bs] peer_flags_bits [OF H, of "flags (cfg_md cfg)"]
    by (auto simp: transferred_def same_sizes_def internal_md_def peer_state_def format_flags_def)
qed


lemma example_convertible: "convertible example_headers example_cfg"
  using example_cfg_ok by (simp add: convertible_def) (simp add: example_cfg_def zero_md_def zero_peer_def)


section \<open>From v08 to v09 and back\<close>

lemma bits_restored:
  fixes x :: u32
  assumes "i < 32" "j < 32" "k < 32"
  shows "(let y = x AND NOT (push_bit i 1 OR push_bit j 1 OR push_bit k 1);
     y = (if bit x i then y OR push_bit i 1 else y); y = (if bit x j then y OR push_bit j 1 else y)
     in if bit x k then y OR push_bit k 1 else y) = x"
  using assms unfolding Let_def by (intro bit_eqI) (auto simp: bit_simps simp del: push_bit_of_1)

lemma flags_restored:
  fixes fl :: u32
  assumes H: "peer_bits_ok H"
  defines "pf \<equiv> flag_if fl MDF_PEER_OUT_DATED (MDF_PEER_OUTDATED H) (flag_if fl MDF_FULL_SYNC (MDF_PEER_FULL_SYNC H)
      (flag_if fl MDF_CONNECTED_IND (MDF_PEER_CONNECTED H) 0))"
  shows "flag_if pf (MDF_PEER_OUTDATED H) MDF_PEER_OUT_DATED (flag_if pf (MDF_PEER_FULL_SYNC H) MDF_FULL_SYNC
    (flag_if pf (MDF_PEER_CONNECTED H) MDF_CONNECTED_IND (fl AND NOT (MDF_CONNECTED_IND OR MDF_FULL_SYNC OR MDF_PEER_OUT_DATED)))) = fl"
proof -
  note peer_flags_bits [OF H, of fl, folded pf_def]
  then show ?thesis using bits_restored [of 2 3 5 fl]
    unfolding flag_if_def MDF_CONNECTED_IND_def MDF_FULL_SYNC_def MDF_PEER_OUT_DATED_def Let_def by (simp only: split: if_split_asm)
qed

text \<open>
  C24. Upgrading internal v08 meta data to v09 and going back to v08 succeeds and gives the same
  super block on disk, flags, UUIDs, sizes and offsets included, except for the bitmap UUID,
  which is lost: a resync that was going on with the peer is forgotten.
\<close>

theorem convert_08_09_08:
  assumes c: "convertible H cfg" and H: "block_sizes_ok H" "md_indices_ok H" "array_sizes_ok H" "peer_bits_ok H"
    and one: "max_peers (cfg_md cfg) = 1"
  shows "\<exists>c9 c8. md_convert_08_to_09 H bs cfg = Inr c9 \<and> md_convert_09_to_08 H bs c9 = Inr c8 \<and>
    md_cpu_to_disk_08 H h (cfg_md c8) = md_cpu_to_disk_08 H h ((internal_md cfg)\<lparr>magic := DRBD_MD_MAGIC_08 H,
      peers := (peers (cfg_md cfg))[0 := (peers (cfg_md cfg) ! 0)\<lparr>bitmap_uuid := 0\<rparr>]\<rparr>)"
proof -
  let ?md = "cfg_md cfg"
  obtain c9 ps where c9: "md_convert_08_to_09 H bs cfg = Inr c9" "step_ok H DRBD_V09 cfg c9"
    and m9: "cfg_md c9 = internal_md (cfg\<lparr>cfg_md := ?md\<lparr>peers := ps,
      flags := flags ?md AND NOT (MDF_CONNECTED_IND OR MDF_FULL_SYNC OR MDF_PEER_OUT_DATED), node_id := -1, magic := DRBD_MD_MAGIC_09 H\<rparr>\<rparr>)"
    and ps: "bitmap_uuid (ps ! 0) = 0" "peer_flags (ps ! 0) = flag_if (flags ?md) MDF_PEER_OUT_DATED (MDF_PEER_OUTDATED H)
      (flag_if (flags ?md) MDF_FULL_SYNC (MDF_PEER_FULL_SYNC H) (flag_if (flags ?md) MDF_CONNECTED_IND (MDF_PEER_CONNECTED H) 0))"
    using convert_08_to_09 [OF c H(1-3), of bs] by blast
  have k: "convertible H c9" "bd_size c9 = bd_size cfg" using c9(2) by (simp_all add: step_ok_def)
  obtain c8 where c8: "md_convert_09_to_08 H bs c9 = Inr c8" and
    "cfg_md c8 = internal_md (c9\<lparr>cfg_md := (cfg_md c9)\<lparr>flags := flags ?md, magic := DRBD_MD_MAGIC_08 H, max_peers := 1\<rparr>\<rparr>)"
    using convert_09_to_08 [OF k(1) H(1-3), of bs] flags_restored [OF H(4), of "flags ?md"]
    by (auto simp: m9 internal_md_def ps)
  then have "cfg_md c8 = (internal_md cfg)\<lparr>peers := ps, node_id := -1, magic := DRBD_MD_MAGIC_08 H\<rparr>"
    using one by (simp add: m9 internal_md_def cfg_bitmap_size_def al_blocks_def k(2))
  moreover have "length (peers ?md) = 32" using c by (simp add: convertible_def)
  ultimately show ?thesis using c9(1) c8 ps(1) by (simp add: md_cpu_to_disk_08_def)
qed

theorem convert_08_09_08_witness:
  "\<exists>c9 c8. md_convert_08_to_09 example_headers 0 example_cfg = Inr c9 \<and> md_convert_09_to_08 example_headers 0 c9 = Inr c8 \<and>
    md_cpu_to_disk_08 example_headers LittleEndian (cfg_md c8) = md_cpu_to_disk_08 example_headers LittleEndian
      ((internal_md example_cfg)\<lparr>magic := DRBD_MD_MAGIC_08 example_headers,
        peers := (peers (cfg_md example_cfg))[0 := (peers (cfg_md example_cfg) ! 0)\<lparr>bitmap_uuid := 0\<rparr>]\<rparr>)"
  by (rule convert_08_09_08 [OF example_convertible example_headers_ok(3,2,1)])
    (simp_all add: peer_bits_ok_def example_headers_def example_cfg_def)

end
