(* ===== verification/Md_Args.thy ===== *)
theory Md_Args
  imports Cstring Device
begin

text \<open>
  Arguments of options of \<^verbatim>\<open>drbdmeta\<close>: the list of diskful peers, the way the bitmap is
  initialised, the checks of \<^verbatim>\<open>main\<close> on the striping of the activity log, and the random
  UUIDs that new meta data gets.
\<close>

unbundle bit_operations_syntax

section \<open>Initialisation mode\<close>

definition initialize_bitmap_mode_names :: "(string \<times> initialize_bitmap_mode) list" where
  "initialize_bitmap_mode_names =
    [(''automatic'', IBM_ZEROOUT), (''zeroout'', IBM_ZEROOUT_IOCTL_ONLY), (''pwrite'', IBM_ZEROOUT_PWRITE),
     (''set-all'', IBM_SET_ALL), (''skip'', IBM_SKIP)]"

definition check_ibm_arg :: "string \<Rightarrow> initialize_bitmap_mode res" where
  "check_ibm_arg arg = (case map_of initialize_bitmap_mode_names arg of
     Some i \<Rightarrow> Inr i | None \<Rightarrow> Inl (Exit 10))"

section \<open>Random UUIDs\<close>

text \<open>The four values that \<^verbatim>\<open>get_random_bytes\<close> delivers are the argument.\<close>

fun first_valid_uuid :: "headers \<Rightarrow> u64 list \<Rightarrow> u64 res" where
  "first_valid_uuid H [] = Inl (Exit 20)"
| "first_valid_uuid H (val # vals) =
    (let val = val AND NOT 1
     in if val \<noteq> 0 \<and> val \<noteq> UUID_JUST_CREATED H then Inr val else first_valid_uuid H vals)"

definition generate_random_uuid :: "headers \<Rightarrow> (nat \<Rightarrow> u64) \<Rightarrow> u64 res" where
  "generate_random_uuid H rnd = first_valid_uuid H (map rnd [0..<4])"

section \<open>Node masks\<close>

lemma scan_digits_length: "length (snd (scan_digits b acc s)) \<le> length s"
  by (induction b acc s rule: scan_digits.induct) auto

lemma scan_number_length: "scan_number base s = Some (neg, n, rest) \<Longrightarrow> length rest \<le> length s"
proof -
  assume a: "scan_number base s = Some (neg, n, rest)"
  let ?s1 = "snd (scan_sign (dropWhile isspace s))"
  have 1: "length ?s1 \<le> length s"
    using length_dropWhile_le [of isspace s] by (auto simp: scan_sign_def split: list.split)
  have 2: "length (snd (scan_base base ?s1)) \<le> length ?s1"
    by (auto simp: scan_base_def split: list.split)
  have "rest = snd (scan_digits (fst (scan_base base ?s1)) 0 (snd (scan_base base ?s1)))"
    using a by (auto simp: scan_number_def Let_def split: prod.splits list.splits if_splits)
  then show ?thesis using 1 2 scan_digits_length [of "fst (scan_base base ?s1)" 0 "snd (scan_base base ?s1)"] by simp
qed

lemma strtol_length: "length (fst (snd (strtol base s))) \<le> length s"
  by (auto simp: strtol_def dest: scan_number_length split: option.split)

text \<open>
  The loop of \<^verbatim>\<open>node_mask_from_arg\<close>. \<^verbatim>\<open>1<<tmp\<close> is a shift of an \<^verbatim>\<open>int\<close>, which is
  converted to 64 bits afterwards.
\<close>

function node_mask_loop :: "headers \<Rightarrow> nat \<Rightarrow> u64 \<Rightarrow> string \<Rightarrow> u64 res" where
  "node_mask_loop H base result arg =
    (let tmp = fst (strtol base arg); endptr = fst (snd (strtol base arg)) in
     if base \<noteq> 16 \<and> \<not> (0 \<le> tmp \<and> tmp < int (DRBD_NODE_ID_MAX H)) then Inl (Exit 10)
     else
       let result = (if base = 16 then of_int tmp else result OR scast (push_bit (nat tmp) 1 :: s32)) in
       case endptr of
         [] \<Rightarrow> Inr result
       | c # arg \<Rightarrow> if c \<noteq> CHR '','' \<or> base \<noteq> 10 then Inl (Exit 10) else node_mask_loop H base result arg)"
  by pat_completeness auto
termination
proof (relation "measure (\<lambda>(H, base, result, arg). length arg)", simp)
  fix H base result arg tmp endptr result' c rest
  assume "endptr = fst (snd (strtol base arg))" "endptr = c # rest"
  then have "length (c # rest) \<le> length arg" by (metis strtol_length)
  then show "((H, base, result' :: u64, rest), (H, base, result, arg)) \<in> measure (\<lambda>(H :: headers, base, result, arg). length arg)"
    by simp
qed

declare node_mask_loop.simps [simp del]

definition node_mask_from_arg :: "headers \<Rightarrow> string option \<Rightarrow> u64 res" where
  "node_mask_from_arg H arg = (case arg of
     None \<Rightarrow> Inr 0
   | Some s \<Rightarrow> if take 2 s = ''0x'' then node_mask_loop H 16 0 (drop 2 s) else node_mask_loop H 10 0 s)"

section \<open>Striping of the log\<close>

definition check_al_stripes :: "options \<Rightarrow> unit res" where
  "check_al_stripes opts =
    (if (ucast (option_al_stripes opts) * ucast (option_al_stripe_size_4k opts) :: u64) > of_nat (buffer_size div 4096)
     then Inl (Exit 10)
     else if option_al_stripes opts * option_al_stripe_size_4k opts < 32 div 4 then Inl (Exit 10)
     else Inr ())"

section \<open>What a list of nodes means\<close>

fun join_comma :: "string list \<Rightarrow> string" where
  "join_comma [] = []"
| "join_comma [s] = s"
| "join_comma (s # ss) = s @ CHR '','' # join_comma ss"

definition id_mask :: "nat \<Rightarrow> u64" where
  "id_mask n = scast (push_bit n 1 :: s32)"

lemma bit_id_mask:
  assumes "n < 32" and "k < 64"
  shows "bit (id_mask n) k \<longleftrightarrow> k = n \<or> n = 31 \<and> 31 \<le> k"
  using assms by (auto simp: id_mask_def bit_simps min_def)

lemma number_end_comma [simp]: "number_end (CHR '','' # s)"
  by (simp add: number_end_def digit_value_def)

lemma node_mask_loop_ids:
  "\<lbrakk>\<forall>n\<in>set (n # ns). n < DRBD_NODE_ID_MAX H; DRBD_NODE_ID_MAX H = 32\<rbrakk> \<Longrightarrow>
    node_mask_loop H 10 result (join_comma (map show_nat (n # ns))) = Inr (fold (\<lambda>n r. r OR id_mask n) (n # ns) result)"
proof (induction ns arbitrary: n result)
  case Nil
  then have "strtol 10 (show_nat n) = (int n, [], False)" using strtol_dec [of "[]" 10 n] by simp
  then show ?case using Nil by (subst node_mask_loop.simps) (simp add: id_mask_def)
next
  case (Cons m ns)
  let ?rest = "join_comma (map show_nat (m # ns))"
  have "strtol 10 (show_nat n @ CHR '','' # ?rest) = (int n, CHR '','' # ?rest, False)"
    using strtol_dec [of "CHR '','' # ?rest" 10 n] Cons.prems by simp
  then show ?case
    using Cons.IH [of m "result OR id_mask n"] Cons.prems
    by (subst node_mask_loop.simps) (simp add: id_mask_def)
qed

lemma bit_fold_or: "bit (fold (\<lambda>n r. r OR f n) ns r) k \<longleftrightarrow> bit (r :: u64) k \<or> (\<exists>n\<in>set ns. bit (f n) k)"
  by (induction ns arbitrary: r) (auto simp: bit_simps)

lemma show_nat_not_0x: "take 2 (join_comma (map show_nat (n # ns))) \<noteq> ''0x''"
proof
  assume a: "take 2 (join_comma (map show_nat (n # ns))) = ''0x''"
  let ?s = "join_comma (map show_nat (n # ns))"
  have "\<forall>c\<in>set ?s. isdigit c \<or> c = CHR '',''"
    by (induction ns arbitrary: n) (auto dest: show_nat_digits)
  moreover have "CHR ''x'' \<in> set (take 2 ?s)" using a by simp
  ultimately have "isdigit (CHR ''x'') \<or> CHR ''x'' = CHR '',''" by (blast dest: in_set_takeD)
  then show False by (simp add: isdigit_def)
qed

text \<open>
  C40. \<^verbatim>\<open>--diskful-peers\<close> with a list of node ids: every list of ids below 32 is accepted, and the
  mask has exactly the bits of the listed nodes, except that node 31 also sets all higher bits,
  because \<^verbatim>\<open>1<<31\<close> is computed as a signed 32 bit number.
\<close>

theorem node_mask_bits:
  assumes "array_sizes_ok H" and "\<forall>n\<in>set (n # ns). n < 32"
  shows "\<exists>m. node_mask_from_arg H (Some (join_comma (map show_nat (n # ns)))) = Inr m
    \<and> (\<forall>k<64. bit m k \<longleftrightarrow> k \<in> set (n # ns) \<or> 31 \<in> set (n # ns) \<and> 31 \<le> k)"
proof -
  have N: "DRBD_NODE_ID_MAX H = 32" using assms(1) by (simp add: array_sizes_ok_def)
  have "node_mask_from_arg H (Some (join_comma (map show_nat (n # ns))))
      = Inr (fold (\<lambda>n r. r OR id_mask n) (n # ns) 0)"
    using node_mask_loop_ids [of n ns H 0] show_nat_not_0x [of n ns] assms(2) N
    by (simp add: node_mask_from_arg_def del: fold.simps)
  moreover have "bit (fold (\<lambda>n r. r OR id_mask n) (n # ns) 0) k
      \<longleftrightarrow> k \<in> set (n # ns) \<or> 31 \<in> set (n # ns) \<and> 31 \<le> k" if "k < 64" for k
    using assms(2) that by (simp only: bit_fold_or) (auto simp: bit_id_mask)
  ultimately show ?thesis by blast
qed

theorem node_mask_bits_witness:
  "\<exists>m. node_mask_from_arg example_headers (Some (join_comma [show_nat 2, show_nat 31])) = Inr m
    \<and> bit m 2 \<and> \<not> bit m 3 \<and> bit m 31 \<and> bit m 40"
  using node_mask_bits [OF example_headers_ok(1), of 2 "[31]"] by force

lemma first_valid_uuid_ok:
  "first_valid_uuid H vals = Inr u \<Longrightarrow> \<not> bit u 0 \<and> u \<noteq> 0 \<and> u \<noteq> UUID_JUST_CREATED H"
  by (induction vals) (auto simp: Let_def bit_simps split: if_splits)

text \<open>A UUID that is handed out is neither zero nor the mark of fresh meta data, and leaves bit 0 to the kernel.\<close>

lemma generate_random_uuid_ok:
  "generate_random_uuid H rnd = Inr u \<Longrightarrow> \<not> bit u 0 \<and> u \<noteq> 0 \<and> u \<noteq> UUID_JUST_CREATED H"
  by (simp add: generate_random_uuid_def first_valid_uuid_ok)

end
