(* ===== verification/Md_Moved.thy ===== *)
theory Md_Moved
  imports Command_Runs
begin

text \<open>
  What \<^verbatim>\<open>v08_move_internal_md_after_resize\<close> achieves: from the old and the new size of the
  device follow two layouts whose distance is never smaller than the growth of the bitmap, so
  that copying the bitmap from its end is safe; then activity log, bitmap and super block are
  found at the new end, and no other byte of the device changes.
\<close>

section \<open>The old and the new layout\<close>

lemma flex_offset:
  assumes "md_indices_ok H" and "4096 \<le> unat sz"
  shows "unat (v07_style_md_get_byte_offset H (DRBD_MD_INDEX_FLEX_INT H) sz) = (unat sz div 4096 - 1) * 4096"
proof -
  have "unat (sz - 4096) = unat sz - 4096" using assms(2) by (simp add: unat_sub word_le_nat_alt)
  moreover have "unat ((sz - 4096) AND NOT (2 ^ 12 - 1)) = unat (sz - 4096) div 2 ^ 12 * 2 ^ 12"
    by (rule unat_and_not_mask)
  moreover have "(unat sz - 4096) div 4096 = unat sz div 4096 - 1" using assms(2) le_div_geq [of 4096 "unat sz"] by simp
  ultimately show ?thesis using assms(1) by (simp add: v07_style_md_get_byte_offset_def md_indices_ok_def)
qed

lemma align_up_add: "0 < a \<Longrightarrow> align_up (x + y) a \<le> align_up x a + align_up y a"
proof -
  assume "0 < a"
  then have "x + y \<le> align_up x a + align_up y a" using align_up_ge by (intro add_mono)
  then have "align_up (x + y) a \<le> align_up (align_up x a + align_up y a) a" by (rule align_up_mono)
  also have "\<dots> = align_up x a + align_up y a" using \<open>0 < a\<close> by (intro align_up_dvd_id) simp_all
  finally show ?thesis .
qed

lemma bits_needed_add: "0 < k \<Longrightarrow> bits_needed (s + d) k \<le> bits_needed s k + bits_needed d k"
proof -
  assume k: "0 < k"
  have eq: "bits_needed x k * k = align_up x k" for x by (simp add: bits_needed_def align_up_def)
  have "bits_needed (s + d) k * k \<le> (bits_needed s k + bits_needed d k) * k"
    unfolding add_mult_distrib eq using k by (rule align_up_add)
  then show ?thesis using k by simp
qed

text \<open>The bitmap never grows by more than the super block moves.\<close>

lemma bitmap_size_growth:
  assumes "4096 \<le> bpb" and "p \<le> 31" and "s \<le> t" and ab: "s div 4096 < t div 4096"
  shows "bitmap_size (t div 512) bpb p \<le> bitmap_size (s div 512) bpb p + (t div 4096 - s div 4096) * 4096"
proof -
  let ?k = "bpb div 512" and ?n = "t div 4096 - s div 4096"
  let ?bits = "bits_needed (s div 512) (bpb div 512)" and ?X = "\<lambda>b. align_up b 64 div 8 * p"
  have k: "8 \<le> ?k" using assms(1) by simp
  obtain d where d: "t div 512 = s div 512 + d" using div_le_mono [OF assms(3), of 512] le_Suc_ex by blast
  have "d < 8 * ?n + 8"
  proof -
    have "t div 512 < 8 * (t div 4096) + 8" "8 * (s div 4096) \<le> s div 512" by linarith+
    then show ?thesis using d ab by linarith
  qed
  have "bits_needed d ?k \<le> bits_needed (8 * ?n + 7) ?k"
    unfolding bits_needed_def using \<open>d < 8 * ?n + 8\<close> by (intro div_le_mono diff_le_mono add_le_mono) simp_all
  also have "\<dots> \<le> ?n + 1"
  proof -
    have "8 * ?n + 7 + ?k - 1 < (?n + 2) * ?k"
      using mult_le_mono2 [OF k, of "?n + 1"] k by (simp add: algebra_simps)
    then show ?thesis unfolding bits_needed_def using k by (subst less_Suc_eq_le [symmetric], subst div_less_iff_less_mult) simp_all
  qed
  finally have "bits_needed (t div 512) ?k \<le> ?bits + (?n + 1)"
    unfolding d using bits_needed_add [of ?k "s div 512" d] k by linarith
  then have "align_up (bits_needed (t div 512) ?k) 64 \<le> align_up ?bits 64 + align_up (?n + 1) 64"
    using align_up_mono [of _ _ 64] align_up_add [of 64 ?bits "?n + 1"] by (meson le_trans zero_less_numeral)
  also have "align_up (?n + 1) 64 \<le> ?n + 64" using align_up_less [of 64 "?n + 1"] by simp
  finally have a: "align_up (bits_needed (t div 512) ?k) 64 \<le> align_up ?bits 64 + (?n + 64)" by simp
  have "?X (bits_needed (t div 512) ?k) \<le> ?X ?bits + (?n + 64) * 4"
  proof -
    have "align_up ?bits 64 mod 8 = 0" using dvd_trans [of 8 64 "align_up ?bits 64"] by auto
    then have "align_up (bits_needed (t div 512) ?k) 64 div 8 \<le> align_up ?bits 64 div 8 + (?n + 64) div 8"
      using div_le_mono [OF a, of 8] by (simp add: div_add1_eq)
    from mult_le_mono1 [OF this, of p] have
      "?X (bits_needed (t div 512) ?k) \<le> ?X ?bits + (?n + 64) div 8 * p" by (simp add: add_mult_distrib)
    also have "(?n + 64) div 8 * p \<le> (?n + 64) div 8 * 31" using assms(2) by simp
    also have "m div 8 * 31 \<le> m * 4" for m :: nat by linarith
    finally show ?thesis by simp
  qed
  also have "(?n + 64) * 4 \<le> ?n * 4096" using ab by simp
  finally have b: "?X (bits_needed (t div 512) ?k) \<le> ?X ?bits + ?n * 4096" by simp
  have "bitmap_size (t div 512) bpb p \<le> align_up (?X ?bits + ?n * 4096) 4096"
    unfolding bitmap_size_def using b by (rule align_up_mono)
  also have "\<dots> \<le> align_up (?X ?bits) 4096 + align_up (?n * 4096) 4096" by (rule align_up_add) simp
  also have "align_up (?n * 4096) 4096 = ?n * 4096" by (rule align_up_dvd_id) simp_all
  finally show ?thesis by (simp only: bitmap_size_def)
qed

lemma ucast_scast_u32: "(ucast (scast (x :: u32) :: u64) :: u32) = x"
  by transfer (simp add: take_bit_take_bit take_bit_signed_take_bit)

text \<open>Valid internal meta data describes the layout that would be computed for the same size.\<close>

lemma valid_is_internal:
  assumes valid: "is_valid_md H f (cfg_md c) (md_index c) (bd_size c) = Inr True"
    and idx: "md_index c = DRBD_MD_INDEX_FLEX_INT H" and f: "flex_format f"
    and H: "block_sizes_ok H" "md_indices_ok H" "array_sizes_ok H" and al: "al_blocks (cfg_md c) \<le> 2 ^ 20"
  shows "internal_ok H c" and "internal_md c = cfg_md c"
proof -
  let ?m = "cfg_md c" and ?A = "8 * al_blocks (cfg_md c)"
  have "max_peers ?m \<noteq> 0" and mp2: "max_peers ?m \<le> 31" and ao: "al_offset ?m = - al_size_sect ?m"
    using valid H(3) idx by (auto simp: is_valid_md_def assert_res_def array_sizes_ok_def not_less split: if_splits)
  then have mp: "1 \<le> max_peers ?m" by (simp add: word_le_nat_alt unat_gt_0 Suc_le_eq)
  have "supported H ?m (drop_bit 9 (bd_size c))"
  proof (rule ccontr)
    assume "\<not> ?thesis"
    from bm_bytes_abort [OF this] show False
      using valid idx by (auto simp: is_valid_md_def assert_res_def split: if_splits)
  qed
  then show ok: "internal_ok H c" using idx mp mp2 al by (simp add: internal_ok_def)
  let ?B = "cfg_bitmap_size c div 512"
  let ?md_size = "of_nat (?B + (8 + ?A)) :: u64"
  note arith = internal_arith [OF ok H(1,2)]
  have "(scast (bm_offset ?m) :: u64) = - ?md_size + of_nat MD_AL_OFFSET_07 \<and> ucast (md_size_sect ?m) = ?md_size"
    using valid idx f arith(1-3)
    by (auto simp: is_valid_md_def assert_res_def Let_def flex_format_def split: if_splits)
  then have bm: "(scast (bm_offset ?m) :: u64) = of_int (- int (?B + ?A))" and sz: "(ucast (md_size_sect ?m) :: u64) = of_nat (?B + (8 + ?A))"
    by (simp_all add: MD_AL_OFFSET_07_def)
  have e: "of_int (- int (?B + ?A)) = bm_offset ?m"
    using ucast_scast_u32 [of "bm_offset ?m"] unfolding bm ucast_of_int_u32 by simp
  have "unat (md_size_sect ?m) = ?B + (8 + ?A)"
  proof -
    have "unat (of_nat (?B + (8 + ?A)) :: u64) = ?B + (8 + ?A)" using arith(4) by (intro unat_of_nat_u64) simp
    then show ?thesis using arg_cong [OF sz, of unat] by (simp only: ucast_u32_u64)
  qed
  from word_eq_of_nat [OF this] have e2: "of_int (int (?B + (8 + ?A))) = md_size_sect ?m" by (simp only: of_int_of_nat_eq)
  have e3: "of_int (- int ?A) = al_offset ?m" using ao by (simp add: al_size_sect_of_nat)
  show "internal_md c = ?m" unfolding internal_md_def e e2 e3 by (cases ?m) simp
qed

text \<open>Where the areas of internal meta data begin.\<close>

definition al_start :: "format_cfg \<Rightarrow> nat" where
  "al_start c = unat (md_offset c) - 4096 * al_blocks (cfg_md c)"

definition bm_start :: "format_cfg \<Rightarrow> nat" where
  "bm_start c = unat (md_offset c) - 4096 * al_blocks (cfg_md c) - cfg_bitmap_size c"

lemma cfg_bitmap_size_dvd: "512 * (cfg_bitmap_size c div 512) = cfg_bitmap_size c"
proof -
  have "512 dvd cfg_bitmap_size c"
    unfolding cfg_bitmap_size_def by (rule dvd_trans [OF _ bitmap_size_dvd]) simp
  then show ?thesis by simp
qed

lemma area_starts:
  assumes "internal_room c"
  shows "bm_start c + cfg_bitmap_size c = al_start c" and "al_start c + 4096 * al_blocks (cfg_md c) = unat (md_offset c)"
  using assms by (simp_all add: internal_room_def al_start_def bm_start_def)

lemma internal_offsets:
  assumes ok: "internal_ok H c" and room: "internal_room c" and H: "block_sizes_ok H" "md_indices_ok H"
  shows "unat (md_offset c + scast (al_offset (internal_md c)) * 512) = al_start c"
    and "unat (md_offset c + scast (bm_offset (internal_md c)) * 512) = bm_start c"
    and "sint (al_offset (internal_md c)) * 512 = - int (4096 * al_blocks (cfg_md c))"
    and "sint (bm_offset (internal_md c)) * 512 = - int (4096 * al_blocks (cfg_md c) + cfg_bitmap_size c)"
    and "sint (al_offset (internal_md c) - bm_offset (internal_md c)) * 512 = int (cfg_bitmap_size c)"
proof -
  let ?A = "8 * al_blocks (cfg_md c)" and ?B = "cfg_bitmap_size c div 512"
  have small: "?B + ?A + 8 < 2 ^ 31" using internal_arith(4) [OF ok H] by simp
  have room': "(?B + ?A) * 512 \<le> unat (md_offset c)"
    using room cfg_bitmap_size_dvd [of c] by (simp add: internal_room_def algebra_simps)
  have e: "al_offset (internal_md c) = of_int (- int ?A)" "bm_offset (internal_md c) = of_int (- int (?B + ?A))"
    by (simp_all add: internal_md_def)
  show "unat (md_offset c + scast (al_offset (internal_md c)) * 512) = al_start c"
    unfolding e using byte_offset_back [of ?A "md_offset c"] room' small by (simp add: al_start_def)
  show "unat (md_offset c + scast (bm_offset (internal_md c)) * 512) = bm_start c"
    unfolding e using byte_offset_back [of "?B + ?A" "md_offset c"] room' small cfg_bitmap_size_dvd [of c]
    by (simp add: bm_start_def algebra_simps)
  show "sint (al_offset (internal_md c)) * 512 = - int (4096 * al_blocks (cfg_md c))"
    unfolding e using small by (subst sint_of_int_u32) simp_all
  show "sint (bm_offset (internal_md c)) * 512 = - int (4096 * al_blocks (cfg_md c) + cfg_bitmap_size c)"
    unfolding e using small cfg_bitmap_size_dvd [of c] by (subst sint_of_int_u32) simp_all
  have "al_offset (internal_md c) - bm_offset (internal_md c) = of_int (int ?B)" unfolding e by simp
  then show "sint (al_offset (internal_md c) - bm_offset (internal_md c)) * 512 = int (cfg_bitmap_size c)"
    using small cfg_bitmap_size_dvd [of c] by (simp only:) (subst sint_of_int_u32, simp_all)
qed

lemma internal_writable:
  assumes ok: "internal_ok H c" and room: "internal_room c" and H: "block_sizes_ok H" "md_indices_ok H"
    and big: "unat (md_offset c) + 4096 < 2 ^ 63"
    and c': "cfg_md c' = internal_md c" "md_offset c' = md_offset c"
  shows "writable_range opts c' (bm_start c) (unat (md_offset c) + 4096)"
proof -
  let ?al = "md_offset c + scast (al_offset (internal_md c)) * 512"
  let ?bm = "md_offset c + scast (bm_offset (internal_md c)) * 512"
  note o = internal_offsets(1,2) [OF ok room H] and st = area_starts [OF room]
  have "?bm \<le> ?al" "?bm \<le> md_offset c" unfolding word_le_nat_alt o using st by simp_all
  then have min: "md_min_offset c' = ?bm" by (simp add: md_min_offset_def c' Let_def min_def)
  have "unat (md_size_sect (internal_md c)) = cfg_bitmap_size c div 512 + (8 + 8 * al_blocks (cfg_md c))"
    using internal_arith(4) [OF ok H] unat_of_nat_u32 [of "cfg_bitmap_size c div 512 + (8 + 8 * al_blocks (cfg_md c))"]
    by (simp add: internal_md_def)
  then have max: "unat (md_max_offset c') = unat (md_offset c) + 4096"
    using unat_md_max_offset [of c'] big st cfg_bitmap_size_dvd [of c]
    unfolding min c' o by (simp add: algebra_simps)
  have "validate_offsets_or_die opts c' n (of_nat off) = Inr ()" if "bm_start c \<le> off" "off + n \<le> unat (md_offset c) + 4096" for off n
  proof -
    have u: "unat (of_nat off :: u64) = off" "unat (of_nat off + of_nat n :: u64) = off + n"
      using that big unat_of_nat_u64 [of off] unat_of_nat_u64 [of "off + n"] by simp_all
    have "sint (of_nat off :: u64) = int off" "sint (md_min_offset c') = int (bm_start c)"
      using sint_unat_u64 [of "of_nat off"] sint_unat_u64 [of "md_min_offset c'"] that big by (simp_all add: u min o)
    then show ?thesis
      using that by (simp add: validate_offsets_or_die_def word_less_nat_alt u max not_less)
  qed
  then show ?thesis by (simp add: writable_range_def)
qed

section \<open>The move\<close>

text \<open>The configuration as it was before the device grew.\<close>

definition old_place :: "headers \<Rightarrow> format_cfg \<Rightarrow> format_cfg" where
  "old_place H cfg = at_offset H (cfg\<lparr>bd_size := lk_bd_size (lk_bd cfg)\<rparr>)"

text \<open>
  The situation after \<^verbatim>\<open>v08_md_open\<close> found valid meta data at the last known place: the
  super block has a new place (the device grew into another block of 4 KiB), some data precedes the meta data, the activity log fits the
  buffer, and the device can be read and written.
\<close>

definition move_ready :: "invocation \<Rightarrow> format_cfg \<Rightarrow> world \<Rightarrow> bool" where
  "move_ready cx cfg w \<longleftrightarrow>
    (let H = i_headers cx; lk = lk_bd_size (lk_bd cfg); old = old_place H cfg in
     block_sizes_ok H \<and> md_indices_ok H \<and> array_sizes_ok H \<and> layout_9_ok H
     \<and> flex_format (ops cfg) \<and> md_index cfg = DRBD_MD_INDEX_FLEX_INT H \<and> md_rep H (ops cfg) (cfg_md cfg)
     \<and> is_valid_md H (ops cfg) (cfg_md cfg) (DRBD_MD_INDEX_FLEX_INT H) lk = Inr True
     \<and> unat lk div 4096 < unat (bd_size cfg) div 4096 \<and> unat (bd_size cfg) \<le> 2 ^ 50
     \<and> bd_size cfg = of_nat (dev_size w)
     \<and> md_offset cfg = v07_style_md_get_byte_offset H (DRBD_MD_INDEX_FLEX_INT H) (bd_size cfg)
     \<and> 4096 * al_blocks (cfg_md cfg) \<le> buffer_size
     \<and> 4096 \<le> unat lk \<and> cfg_bitmap_size old + 4096 * al_blocks (cfg_md cfg) < unat (md_offset old)
     \<and> healthy w \<and> \<not> dry_run (i_options cx) \<and> \<not> close_fails (env w))"

lemma move_geometry:
  assumes ready: "move_ready cx cfg w"
  defines "old \<equiv> old_place (i_headers cx) cfg"
  shows "internal_ok (i_headers cx) cfg" and "internal_ok (i_headers cx) old"
    and "internal_md old = cfg_md cfg"
    and "internal_room cfg" and "internal_room old"
    and "unat (md_offset cfg) + 4096 \<le> dev_size w"
    and "unat (md_offset old) + 4096 \<le> unat (md_offset cfg)"
    and "cfg_bitmap_size old \<le> cfg_bitmap_size cfg" and "bm_start old \<le> bm_start cfg" and "0 < bm_start old"
proof -
  let ?H = "i_headers cx" and ?lk = "lk_bd_size (lk_bd cfg)" and ?m = "cfg_md cfg"
  have H: "block_sizes_ok ?H" "md_indices_ok ?H" "array_sizes_ok ?H" and f: "flex_format (ops cfg)"
    and idx: "md_index cfg = DRBD_MD_INDEX_FLEX_INT ?H"
    and valid: "is_valid_md ?H (ops cfg) ?m (DRBD_MD_INDEX_FLEX_INT ?H) ?lk = Inr True"
    and grew: "unat ?lk div 4096 < unat (bd_size cfg) div 4096" and lk: "4096 \<le> unat ?lk"
    and pib: "unat (bd_size cfg) \<le> 2 ^ 50" and bd: "bd_size cfg = of_nat (dev_size w)"
    and off: "md_offset cfg = v07_style_md_get_byte_offset ?H (DRBD_MD_INDEX_FLEX_INT ?H) (bd_size cfg)"
    and al: "4096 * al_blocks ?m \<le> buffer_size"
    and room: "cfg_bitmap_size old + 4096 * al_blocks ?m < unat (md_offset old)"
    and dev: "dev_size w < 2 ^ 63"
    using ready unfolding move_ready_def Let_def old_def healthy_def by blast+
  have o: "cfg_md old = ?m" "md_index old = md_index cfg" "bd_size old = ?lk"
    "md_offset old = v07_style_md_get_byte_offset ?H (DRBD_MD_INDEX_FLEX_INT ?H) ?lk"
    by (simp_all add: old_def old_place_def at_offset_def idx)
  have alb: "al_blocks ?m \<le> 2 ^ 20" using al by (simp add: buffer_size_def)
  have mono: "unat ?lk \<le> unat (bd_size cfg)" using grew by (meson div_le_mono linorder_not_le less_imp_le)
  from valid_is_internal [of ?H "ops cfg" old] show ok_old: "internal_ok ?H old" and "internal_md old = ?m"
    using valid f H alb by (simp_all add: o idx)
  have sup: "supported ?H ?m (drop_bit 9 ?lk)" "1 \<le> max_peers ?m" "max_peers ?m \<le> 31"
    using ok_old by (simp_all add: internal_ok_def o)
  show "internal_ok ?H cfg"
    using sup alb idx pib by (simp add: internal_ok_def supported_def word_le_nat_alt unat_drop_bit unat_exp2)
  have o_old: "unat (md_offset old) = (unat ?lk div 4096 - 1) * 4096"
    unfolding o by (rule flex_offset [OF H(2) lk])
  have o_new: "unat (md_offset cfg) = (unat (bd_size cfg) div 4096 - 1) * 4096"
    unfolding off using flex_offset [OF H(2)] lk mono by simp
  have gap: "unat (md_offset cfg) = unat (md_offset old) + (unat (bd_size cfg) div 4096 - unat ?lk div 4096) * 4096"
  proof -
    have "1 \<le> unat ?lk div 4096" using div_le_mono [OF lk, of 4096] by simp
    then show ?thesis using grew unfolding o_old o_new by (simp add: diff_mult_distrib)
  qed
  then show "unat (md_offset old) + 4096 \<le> unat (md_offset cfg)" using grew by simp
  have bpb: "4096 \<le> unat (bm_bytes_per_bit ?m)" and p: "unat (max_peers ?m) \<le> 31"
    using sup H(1) by (simp_all add: supported_def block_sizes_ok_def word_le_nat_alt)
  have growth: "cfg_bitmap_size cfg \<le> cfg_bitmap_size old + (unat (bd_size cfg) div 4096 - unat ?lk div 4096) * 4096"
    unfolding cfg_bitmap_size_def o by (rule bitmap_size_growth [OF bpb p mono grew])
  show "cfg_bitmap_size old \<le> cfg_bitmap_size cfg"
    unfolding cfg_bitmap_size_def o using mono by (intro bitmap_size_mono div_le_mono)
  show r1: "internal_room cfg" and r2: "internal_room old"
    using room growth gap by (simp_all add: internal_room_def o)
  show "bm_start old \<le> bm_start cfg" "0 < bm_start old"
    unfolding bm_start_def o(1) using room growth gap by linarith+
  have "unat (bd_size cfg) = dev_size w" using bd dev by (simp add: unat_of_nat_u64)
  moreover have "unat (bd_size cfg) div 4096 * 4096 \<le> unat (bd_size cfg)" by simp
  moreover have "1 \<le> unat (bd_size cfg) div 4096" using grew by linarith
  ultimately show "unat (md_offset cfg) + 4096 \<le> dev_size w" unfolding o_new by (simp add: diff_mult_distrib)
qed

text \<open>The five writes, as one function on the content of the device.\<close>

definition moved_al_bitmap :: "headers \<Rightarrow> format_cfg \<Rightarrow> content \<Rightarrow> content" where
  "moved_al_bitmap H cfg d =
    (let old = old_place H cfg;
         d1 = write_bytes d (al_start cfg) (read_bytes d (al_start old) (4096 * al_blocks (cfg_md cfg)))
     in write_bytes d1 (bm_start cfg) (read_bytes d (bm_start old) (cfg_bitmap_size old)))"

definition moved_trail :: "invocation \<Rightarrow> format_cfg \<Rightarrow> content \<Rightarrow> content" where
  "moved_trail cx cfg d =
    (let old = old_place (i_headers cx) cfg; mode = option_initialize_bitmap_mode (i_options cx) in
     if mode = IBM_SKIP then d
     else write_bytes d (bm_start cfg + cfg_bitmap_size old)
       (replicate (cfg_bitmap_size cfg - cfg_bitmap_size old) (if mode = IBM_SET_ALL then 0xff else 0)))"

definition moved_disk :: "invocation \<Rightarrow> format_cfg \<Rightarrow> content \<Rightarrow> content" where
  "moved_disk cx cfg d =
    (let H = i_headers cx; old = old_place H cfg;
         d1 = moved_trail cx cfg (moved_al_bitmap H cfg d);
         d2 = write_bytes d1 (unat (md_offset cfg)) (md_image H (ops cfg) (i_host cx) (internal_md cfg))
     in if unat (md_offset old) < bm_start cfg
        then write_bytes d2 (bm_start old) (replicate (min (unat (md_offset old) + 4096) (bm_start cfg) - bm_start old) 0)
        else d2)"

lemma writes_move_al_and_bitmap:
  assumes ready: "move_ready cx cfg w"
    and c': "cfg_al_offset c' = of_nat (al_start cfg)" "cfg_bm_offset c' = of_nat (bm_start cfg)"
    and rng: "writable_range (i_options cx) c' (bm_start cfg) (unat (md_offset cfg) + 4096)"
  shows "writes (move_al_and_bitmap cx c' (cfg_md cfg) (int (unat (md_offset (old_place (i_headers cx) cfg))))) w ()
    (moved_al_bitmap (i_headers cx) cfg (disk w))"
proof -
  let ?H = "i_headers cx" and ?m = "cfg_md cfg"
  let ?old = "old_place ?H cfg" and ?A = "4096 * al_blocks (cfg_md cfg)"
  let ?d1 = "write_bytes (disk w) (al_start cfg) (read_bytes (disk w) (al_start ?old) ?A)"
  let ?L = "cfg_bitmap_size ?old"
  have H: "block_sizes_ok ?H" "md_indices_ok ?H" and nd: "\<not> dry_run (i_options cx)" and hw: "healthy w" and al: "?A \<le> buffer_size"
    using ready by (simp_all add: move_ready_def Let_def)
  have om: "cfg_md ?old = ?m" by (simp add: old_place_def at_offset_def)
  note g = move_geometry [OF ready]
  note st = area_starts [OF g(4)] and sto = area_starts [OF g(5)]
  have cur: "int (unat (md_offset ?old)) + sint (al_offset ?m) * 512 = int (al_start ?old)"
    "int (unat (md_offset ?old)) + sint (bm_offset ?m) * 512 = int (bm_start ?old)"
    using internal_offsets(3,4) [OF g(2) g(5) H] sto unfolding g(3) om by linarith+
  have al_len: "int (unat (md_offset ?old)) - int (al_start ?old) = int ?A" using sto(2) unfolding om by linarith
  have "writes (bind_io (copy_chunk cx c' (int ?A) (int (al_start ?old)) (of_nat (al_start cfg))) (\<lambda>_.
      bind_io (move_bitmap_loop cx c' (int (bm_start ?old)) (int (bm_start ?old + ?L) - int buffer_size)) (\<lambda>cur_offset.
        copy_chunk cx c' (int buffer_size - (int (bm_start ?old) - cur_offset)) (int (bm_start ?old)) (cfg_bm_offset c')))) w ()
      (moved_al_bitmap ?H cfg (disk w))"
  proof (rule writes_bind)
    show "writes (copy_chunk cx c' (int ?A) (int (al_start ?old)) (of_nat (al_start cfg))) w () ?d1"
      using st sto g(6,7) om
      by (intro writes_copy_chunk [OF nd hw al] writable_rangeD [OF rng]) simp_all
    fix w1 assume w1: "disk w1 = ?d1" "same_device w w1"
    have hw1: "healthy w1" and dev: "dev_size w1 = dev_size w"
      using healthy_same_device [OF hw w1(2)] w1(2) by (simp_all add: same_device_def)
    have r1: "writable_range (i_options cx) c' (bm_start cfg) (bm_start cfg + ?L)"
      using st g(8) by (intro writable_range_mono [OF rng]) simp_all
    obtain m where m: "m \<le> buffer_size" "m \<le> ?L"
      and loop: "writes (move_bitmap_loop cx c' (int (bm_start ?old)) (int (bm_start ?old + ?L) - int buffer_size)) w1
        (int (bm_start ?old + m) - int buffer_size)
        (write_bytes ?d1 (bm_start cfg + m) (read_bytes ?d1 (bm_start ?old + m) (?L - m)))"
      using writes_move_bitmap_loop [OF nd hw1 g(9) r1 _ c'(2)] st g(6,8) dev w1(1) by auto
    let ?d2 = "write_bytes ?d1 (bm_start cfg + m) (read_bytes ?d1 (bm_start ?old + m) (?L - m))"
    show "writes (bind_io (move_bitmap_loop cx c' (int (bm_start ?old)) (int (bm_start ?old + ?L) - int buffer_size)) (\<lambda>cur_offset.
        copy_chunk cx c' (int buffer_size - (int (bm_start ?old) - cur_offset)) (int (bm_start ?old)) (cfg_bm_offset c'))) w1 ()
      (moved_al_bitmap ?H cfg (disk w))"
    proof (rule writes_bind [OF loop])
      fix w2 assume w2: "disk w2 = ?d2" "same_device w1 w2"
      have hw2: "healthy w2" and dev2: "dev_size w2 = dev_size w"
        using healthy_same_device [OF hw1 w2(2)] w2(2) dev by (simp_all add: same_device_def)
      have v: "validate_offsets_or_die (i_options cx) c' m (of_nat (bm_start cfg)) = Inr ()"
        using st g(8) m(2) by (intro writable_rangeD [OF rng]) simp_all
      have "writes (copy_chunk cx c' (int m) (int (bm_start ?old)) (of_nat (bm_start cfg))) w2 ()
          (write_bytes ?d2 (bm_start cfg) (read_bytes ?d2 (bm_start ?old) m))"
        using writes_copy_chunk [OF nd hw2 m(1) _ _ v] st g(6,8,9) m(2) dev2 by (simp add: w2(1))
      moreover have "read_bytes ?d1 (bm_start ?old) ?L = read_bytes (disk w) (bm_start ?old) ?L"
        using sto st(2) g(7) unfolding om by (intro store.rd_wr_disjoint disjI1) linarith
      ultimately show "writes (copy_chunk cx c' (int buffer_size - (int (bm_start ?old) - (int (bm_start ?old + m) - int buffer_size)))
          (int (bm_start ?old)) (cfg_bm_offset c')) w2 () (moved_al_bitmap ?H cfg (disk w))"
        using write_front_part [OF g(9), of ?d1 m "?L - m"] m(2) by (simp add: c'(2) moved_al_bitmap_def Let_def)
    qed
  qed
  then show ?thesis using sto(1) by (simp only: move_al_and_bitmap_def Let_def cur al_len c'(1))
qed

lemma writes_trail:
  assumes ready: "move_ready cx cfg w" and w1: "healthy w1" "dev_size w1 = dev_size w"
    and c': "cfg_bm_offset c' = of_nat (bm_start cfg)" "cfg_bm_bytes c' = of_nat (cfg_bitmap_size cfg)"
    and rng: "writable_range (i_options cx) c' (bm_start cfg) (unat (md_offset cfg) + 4096)"
  shows "writes (init_bitmap_trail (i_options cx) c' (cfg_md cfg)) w1 () (moved_trail cx cfg (disk w1))"
proof -
  let ?H = "i_headers cx" and ?mode = "option_initialize_bitmap_mode (i_options cx)"
  let ?old = "old_place ?H cfg"
  let ?a = "bm_start cfg + cfg_bitmap_size ?old" and ?b = "bm_start cfg + cfg_bitmap_size cfg"
  have H: "block_sizes_ok ?H" "md_indices_ok ?H" and nd: "\<not> dry_run (i_options cx)" and dev: "dev_size w < 2 ^ 63"
    using ready by (simp_all add: move_ready_def Let_def healthy_def)
  note g = move_geometry [OF ready]
  note st = area_starts [OF g(4)]
  have b: "?b \<le> dev_size w1" using st g(6) w1(2) by simp
  have s: "sint (of_nat n :: u64) = int n" if "n \<le> ?b" for n
    using that st g(6) dev sint_unat_u64 [of "of_nat n"] unat_of_nat_u64 [of n] by simp
  have "writable_range (i_options cx) c' ?a ?b" using st by (intro writable_range_mono [OF rng]) simp_all
  from writes_fill_loop [OF nd w1(1) b this, of "if ?mode = IBM_SET_ALL then 0xff else 0"]
  show ?thesis
    using s [of ?a] s [of ?b] g(8) internal_offsets(5) [OF g(2) g(5) H]
    unfolding g(3) by (simp add: init_bitmap_trail_def moved_trail_def Let_def c')
qed

lemma re_initialize_keeps:
  assumes "re_initialize_md_offsets H opt cfg = Inr c"
  shows "ops c = ops cfg \<and> md_index c = md_index cfg \<and> bd_size c = bd_size cfg \<and> md_offset c = md_offset cfg \<and> lk_bd c = lk_bd cfg"
  using assms
  by (auto simp: re_initialize_md_offsets_def bitmap_and_al_offsets_def set_area_bm_bytes_def Let_def bind_res_Inr_iff
      split: if_splits)

text \<open>The computed layout is a fixed point.\<close>

lemma internal_md_again:
  assumes "cfg_md c' = internal_md c" and "bd_size c' = bd_size c" "md_index c' = md_index c" "md_offset c' = md_offset c"
  shows "internal_ok H c' = internal_ok H c" "internal_room c' = internal_room c" "internal_md c' = internal_md c"
    "al_start c' = al_start c" "bm_start c' = bm_start c" "cfg_bitmap_size c' = cfg_bitmap_size c"
proof -
  have e: "al_blocks (internal_md c) = al_blocks (cfg_md c)" "bm_bytes_per_bit (internal_md c) = bm_bytes_per_bit (cfg_md c)"
    "max_peers (internal_md c) = max_peers (cfg_md c)"
    by (simp_all add: internal_md_def al_blocks_def)
  then show z: "cfg_bitmap_size c' = cfg_bitmap_size c" by (simp add: cfg_bitmap_size_def assms)
  show "internal_ok H c' = internal_ok H c" "internal_room c' = internal_room c"
    "al_start c' = al_start c" "bm_start c' = bm_start c"
    using z e by (simp_all add: internal_ok_def supported_def internal_room_def al_start_def bm_start_def assms)
  show "internal_md c' = internal_md c" using z e by (simp add: internal_md_def [of c'] assms) (simp add: internal_md_def)
qed

lemma re_initialize_move:
  assumes ok: "internal_ok H cfg" and H: "block_sizes_ok H" "md_indices_ok H" and room: "internal_room cfg"
  obtains c where "re_initialize_md_offsets H opt cfg = Inr c" and "cfg_al_offset c = of_nat (al_start cfg)"
    and "cfg_bm_offset c = of_nat (bm_start cfg)" and "cfg_bm_bytes c = of_nat (cfg_bitmap_size cfg)"
    and "cfg_md c = internal_md cfg" and "ops c = ops cfg" "md_index c = md_index cfg" "bd_size c = bd_size cfg"
    and "md_offset c = md_offset cfg"
proof -
  obtain c where c: "re_initialize_md_offsets H opt cfg = Inr c"
    and "unat (cfg_al_offset c) = al_start cfg" "unat (cfg_bm_offset c) = bm_start cfg"
      "unat (cfg_bm_bytes c) = cfg_bitmap_size cfg" and "cfg_md c = internal_md cfg"
    using re_initialize_internal [OF ok H room] by (metis al_start_def bm_start_def)
  then show ?thesis using that [OF c] re_initialize_keeps [OF c] by (auto intro: word_eq_of_nat)
qed

lemma internal_md_rep: "md_rep H f (cfg_md c) \<Longrightarrow> md_rep H f (internal_md c)"
  by (cases "f = DRBD_V08") (simp_all add: md_rep_defs internal_md_def)

lemma moved_valid:
  assumes ready: "move_ready cx cfg w"
  shows "is_valid_md (i_headers cx) (ops cfg) (internal_md cfg) (md_index cfg) (bd_size cfg) = Inr True"
proof -
  let ?H = "i_headers cx" and ?m = "cfg_md cfg"
  have H: "block_sizes_ok ?H" "md_indices_ok ?H" "array_sizes_ok ?H" and f: "flex_format (ops cfg)"
    and valid: "is_valid_md ?H (ops cfg) ?m (DRBD_MD_INDEX_FLEX_INT ?H) (lk_bd_size (lk_bd cfg)) = Inr True"
    using ready by (simp_all add: move_ready_def Let_def)
  show ?thesis
  proof (rule is_valid_internal_slots [OF move_geometry(1) [OF ready] H])
    show "ops cfg = DRBD_V07 \<or> ops cfg = DRBD_V08 \<or> ops cfg = DRBD_V09" using f by (auto simp: flex_format_def)
    show "magic_matches ?H (ops cfg) (magic ?m)" "sint (node_id ?m) \<in> {-1..31}"
      using valid H(3) by (auto simp: is_valid_md_def assert_res_def array_sizes_ok_def split: if_splits)
    have no: "\<not> (\<exists>n\<in>set [0..<unat (max_peers ?m)]. sint (bitmap_index (peers ?m ! n)) < -1
        \<or> sint (bitmap_index (peers ?m ! n)) > int (DRBD_PEERS_MAX ?H) - 1)"
      using valid unfolding is_valid_md_def assert_res_def by (auto simp del: set_upt split: if_splits)
    show "sint (bitmap_index (peers ?m ! n)) \<in> {-1..31}" if "n < unat (max_peers ?m)" for n
    proof -
      have "n \<in> set [0..<unat (max_peers ?m)]" using that by simp
      then have "\<not> (sint (bitmap_index (peers ?m ! n)) < -1 \<or> sint (bitmap_index (peers ?m ! n)) > int (DRBD_PEERS_MAX ?H) - 1)"
        using no by blast
      then show ?thesis using H(3) by (simp add: array_sizes_ok_def not_less)
    qed
  qed
qed

lemma writes_md:
  assumes "flex_format (ops c)" and "array_sizes_ok (i_headers cx)" "layout_9_ok (i_headers cx)"
    and "md_rep (i_headers cx) (ops c) (cfg_md c)" and "healthy w" and "\<not> dry_run (i_options cx)"
    and "is_valid_md (i_headers cx) (ops c) (cfg_md c) (md_index c) (bd_size c) = Inr True"
    and "writable_range (i_options cx) c lo (unat (md_offset c) + 4096)" "lo \<le> unat (md_offset c)"
    and "unat (md_offset c) + 4096 \<le> dev_size w"
  shows "writes (md_cpu_to_disk cx c) w (0, c\<lparr>update_lk_bdev := True\<rparr>)
    (write_bytes (disk w) (unat (md_offset c)) (md_image (i_headers cx) (ops c) (i_host cx) (cfg_md c)))"
proof -
  let ?img = "md_image (i_headers cx) (ops c) (i_host cx) (cfg_md c)"
  have len: "length ?img = 4096" using super_block.length_image assms(2-4) by blast
  have "writes (pwrite_or_die (i_options cx) c ?img (of_nat (unat (md_offset c)))) w ()
      (write_bytes (disk w) (unat (md_offset c)) ?img)"
    using assms(9,10) by (intro writes_pwrite [OF assms(6,5)] writable_rangeD [OF assms(8)]) (simp_all add: len)
  then show ?thesis unfolding md_cpu_to_disk_eq [OF assms(1)] assms(7)
    by (intro writes_lift) (auto intro: writes_bind)
qed

lemma writes_wipe_old_region:
  assumes ready: "move_ready cx cfg w" and w1: "healthy w1" "dev_size w1 = dev_size w"
    and c': "cfg_bm_offset c' = of_nat (bm_start cfg)"
  defines "old \<equiv> old_place (i_headers cx) cfg"
  shows "\<exists>r. writes (wipe_old_region (i_options cx) c' (cfg_md cfg) (int (unat (md_offset old)))) w1
    (c'\<lparr>wipe_resize := r\<rparr>)
    (if unat (md_offset old) < bm_start cfg
     then write_bytes (disk w1) (bm_start old) (replicate (min (unat (md_offset old) + 4096) (bm_start cfg) - bm_start old) 0)
     else disk w1)"
proof -
  let ?H = "i_headers cx" and ?m = "cfg_md cfg" and ?o = "unat (md_offset old)"
  let ?e = "min (?o + 4096) (bm_start cfg)"
  have H: "block_sizes_ok ?H" "md_indices_ok ?H" and nd: "\<not> dry_run (i_options cx)" and dev: "dev_size w < 2 ^ 63"
    using ready by (simp_all add: move_ready_def Let_def healthy_def)
  note g = move_geometry [OF ready, folded old_def]
  note st = area_starts [OF g(4)] and sto = area_starts [OF g(5)]
  have om: "cfg_md old = ?m" by (simp add: old_def old_place_def at_offset_def)
  have bmN: "bm_start cfg < 2 ^ 63" "?o + 4096 < 2 ^ 63" using st g(6,7) dev by simp_all
  have u: "unat (of_nat (bm_start cfg) :: u64) = bm_start cfg" "unat (of_nat (?o + 4096) :: u64) = ?o + 4096"
    using bmN unat_of_nat_u64 [of "bm_start cfg"] unat_of_nat_u64 [of "?o + 4096"] by (simp_all del: of_nat_add)
  have s: "sint (of_nat (bm_start cfg) :: u64) = int (bm_start cfg)" using sint_unat_u64 [of "of_nat (bm_start cfg)"] u(1) bmN(1) by (simp only:)
  have cur: "int ?o + sint (bm_offset ?m) * 512 = int (bm_start old)"
    using internal_offsets(4) [OF g(2) g(5) H] sto unfolding g(3) om by linarith
  have less: "(of_int (int ?o) :: u64) < of_nat (bm_start cfg) \<longleftrightarrow> ?o < bm_start cfg"
    by (simp add: word_less_nat_alt u)
  have "(of_int (int ?o + 4096) :: u64) = of_nat (?o + 4096)" by simp
  then have gt: "(of_int (int ?o + 4096) :: u64) > of_nat (bm_start cfg) \<longleftrightarrow> bm_start cfg < ?o + 4096"
    by (simp only: word_less_nat_alt u)
  have e: "(if bm_start cfg < ?o + 4096 then sint (of_nat (bm_start cfg) :: u64) else int ?o + 4096) = int ?e"
    unfolding s by (simp add: min_def)
  have "?e \<le> dev_size w1" using st g(6) w1(2) by simp
  from writes_wipe_loop [OF nd w1(1) this g(10), of c'] obtain r where
    r: "writes (wipe_loop (i_options cx) c' (int (bm_start old)) (int ?e)) w1 (c'\<lparr>wipe_resize := r\<rparr>)
      (write_bytes (disk w1) (bm_start old) (replicate (?e - bm_start old) 0))" by blast
  show ?thesis
  proof (cases "?o < bm_start cfg")
    case True
    then show ?thesis using r unfolding wipe_old_region_def c' less gt cur e by (intro exI [of _ r]) simp
  next
    case False
    then show ?thesis unfolding wipe_old_region_def c' less by (intro exI [of _ "wipe_resize c'"]) simp
  qed
qed

lemma writes_close:
  assumes "flex_format (ops c)" and "\<not> close_fails (env w)"
  shows "writes (md_close cx c) w 0 (disk w)"
proof -
  obtain w' where "md_close cx c w = (Inr 0, w')" using md_close_0 [OF assms] by blast
  then show ?thesis using md_close_keeps [of cx c w] by (auto simp: writes_def)
qed

lemma writes_move:
  assumes ready: "move_ready cx cfg w"
  shows "\<exists>c. writes (v08_move_internal_md_after_resize cx cfg) w (0, c) (moved_disk cx cfg (disk w))
    \<and> cfg_md c = internal_md cfg"
proof -
  let ?H = "i_headers cx" and ?opts = "i_options cx" and ?m = "cfg_md cfg" and ?lk = "lk_bd_size (lk_bd cfg)"
  let ?old = "old_place ?H cfg" and ?opt = "option_bm_block_size (i_options cx)"
  define oo where "oo = int (unat (md_offset ?old))"
  have H: "block_sizes_ok ?H" "md_indices_ok ?H" "array_sizes_ok ?H" "layout_9_ok ?H" and f: "flex_format (ops cfg)"
    and idx: "md_index cfg = DRBD_MD_INDEX_FLEX_INT ?H" and rep: "md_rep ?H (ops cfg) ?m"
    and valid: "is_valid_md ?H (ops cfg) ?m (DRBD_MD_INDEX_FLEX_INT ?H) ?lk = Inr True"
    and grew: "unat ?lk div 4096 < unat (bd_size cfg) div 4096"
    and nd: "\<not> dry_run ?opts" and hw: "healthy w" and nc: "\<not> close_fails (env w)"
    using ready unfolding move_ready_def Let_def by blast+
  note g = move_geometry [OF ready]
  have lk: "?lk \<le> bd_size cfg"
    using grew unfolding word_le_nat_alt by (meson div_le_mono linorder_not_le less_imp_le)
  have fv: "format_version DRBD_V08 \<le> format_version (ops cfg)" using f by (auto simp: flex_format_def)
  have dev: "dev_size w < 2 ^ 63" using hw by (simp add: healthy_def)
  have off: "sint (v07_style_md_get_byte_offset ?H (DRBD_MD_INDEX_FLEX_INT ?H) ?lk) = oo"
  proof -
    have o: "v07_style_md_get_byte_offset ?H (DRBD_MD_INDEX_FLEX_INT ?H) ?lk = md_offset ?old"
      by (simp add: old_place_def at_offset_def idx)
    have "unat (md_offset ?old) < 2 ^ 63" using g(6,7) dev by simp
    then show ?thesis unfolding o oo_def by (rule sint_unat_u64)
  qed
  obtain c1 where c1: "re_initialize_md_offsets ?H ?opt cfg = Inr c1" "cfg_al_offset c1 = of_nat (al_start cfg)"
    "cfg_bm_offset c1 = of_nat (bm_start cfg)" "cfg_bm_bytes c1 = of_nat (cfg_bitmap_size cfg)"
    "cfg_md c1 = internal_md cfg" "ops c1 = ops cfg" "md_index c1 = md_index cfg" "bd_size c1 = bd_size cfg"
    "md_offset c1 = md_offset cfg"
    by (rule re_initialize_move [OF g(1) H(1,2) g(4)])
  note ag = internal_md_again [OF c1(5,8,7,9)]
  have "internal_ok ?H c1" "internal_room c1" using g(1,4) by (simp_all only: ag)
  then obtain c2 where "re_initialize_md_offsets ?H ?opt c1 = Inr c2" "cfg_al_offset c2 = of_nat (al_start c1)"
    "cfg_bm_offset c2 = of_nat (bm_start c1)" "cfg_bm_bytes c2 = of_nat (cfg_bitmap_size c1)"
    "cfg_md c2 = internal_md c1" "ops c2 = ops c1" "md_index c2 = md_index c1" "bd_size c2 = bd_size c1"
    "md_offset c2 = md_offset c1"
    using H(1,2) by - (rule re_initialize_move)
  then have c2: "re_initialize_md_offsets ?H ?opt c1 = Inr c2" "cfg_bm_offset c2 = of_nat (bm_start cfg)"
    "cfg_md c2 = internal_md cfg" "ops c2 = ops cfg" "md_index c2 = md_index cfg" "bd_size c2 = bd_size cfg"
    "md_offset c2 = md_offset cfg"
    by (simp_all only: ag c1(6-9))
  have big: "unat (md_offset cfg) + 4096 < 2 ^ 63" using g(6) dev by simp
  have rng: "writable_range ?opts c (bm_start cfg) (unat (md_offset cfg) + 4096)"
    if "cfg_md c = internal_md cfg" "md_offset c = md_offset cfg" for c
    by (rule internal_writable [OF g(1) g(4) H(1,2) big that])
  have low: "bm_start cfg \<le> unat (md_offset cfg)" using area_starts [OF g(4)] by simp
  let ?c3 = "c2\<lparr>update_lk_bdev := True\<rparr>"
  let ?d1 = "moved_al_bitmap ?H cfg (disk w)"
  let ?d2 = "moved_trail cx cfg ?d1"
  let ?d3 = "write_bytes ?d2 (unat (md_offset cfg)) (md_image ?H (ops cfg) (i_host cx) (internal_md cfg))"
  obtain w1 where w1: "move_al_and_bitmap cx c1 ?m oo w = (Inr (), w1)" "disk w1 = ?d1" "same_device w w1"
    using writes_move_al_and_bitmap [OF ready c1(2,3) rng [OF c1(5,9)], folded oo_def] by (auto simp: writes_def)
  have h1: "healthy w1" "dev_size w1 = dev_size w" using healthy_same_device [OF hw w1(3)] w1(3) by (simp_all add: same_device_def)
  obtain w2 where w2: "init_bitmap_trail ?opts c1 ?m w1 = (Inr (), w2)" "disk w2 = ?d2" "same_device w1 w2"
    using writes_trail [OF ready h1 c1(3,4) rng [OF c1(5,9)]] by (auto simp: writes_def w1(2))
  have h2: "healthy w2" "dev_size w2 = dev_size w" using healthy_same_device [OF h1(1) w2(3)] w2(3) h1(2) by (simp_all add: same_device_def)
  have "writes (md_cpu_to_disk cx c2) w2 (0, ?c3) (write_bytes (disk w2) (unat (md_offset c2))
      (md_image ?H (ops c2) (i_host cx) (cfg_md c2)))"
    using f H h2 nd internal_md_rep [OF rep] moved_valid [OF ready] rng [OF c2(3,7)] low g(6)
    by (intro writes_md [where lo = "bm_start cfg"]) (simp_all add: c2)
  then obtain w3 where w3: "md_cpu_to_disk cx c2 w2 = (Inr (0, ?c3), w3)" "disk w3 = ?d3" "same_device w2 w3"
    by (auto simp: writes_def c2 w2(2))
  have h3: "healthy w3" "dev_size w3 = dev_size w" using healthy_same_device [OF h2(1) w3(3)] w3(3) h2(2) by (simp_all add: same_device_def)
  have c3: "cfg_bm_offset ?c3 = of_nat (bm_start cfg)" using c2(2) by simp
  have "\<exists>r. writes (wipe_old_region ?opts ?c3 ?m oo) w3 (?c3\<lparr>wipe_resize := r\<rparr>) (moved_disk cx cfg (disk w))"
    using writes_wipe_old_region [OF ready h3 c3, folded oo_def] unfolding w3(2) moved_disk_def Let_def .
  then obtain r w4 where w4: "wipe_old_region ?opts ?c3 ?m oo w3 = (Inr (?c3\<lparr>wipe_resize := r\<rparr>), w4)"
    "disk w4 = moved_disk cx cfg (disk w)" "same_device w3 w4"
    unfolding writes_def by blast
  have sd: "same_device w w4" using w1(3) w2(3) w3(3) w4(3) by (meson same_device_trans)
  have "\<not> close_fails (env w4)" using nc sd by (simp add: same_device_def)
  then obtain w5 where w5: "md_close cx (?c3\<lparr>wipe_resize := r\<rparr>) w4 = (Inr 0, w5)" "disk w5 = moved_disk cx cfg (disk w)"
    "same_device w4 w5"
    using writes_close [of "?c3\<lparr>wipe_resize := r\<rparr>" w4 cx] f c2(4) w4(2) by (auto simp: writes_def)
  have "v08_move_internal_md_after_resize cx cfg w = (Inr (0, ?c3\<lparr>wipe_resize := r\<rparr>), w5)"
    unfolding v08_move_internal_md_after_resize_def Let_def off
    by (simp only: fv idx lk valid simp_thms if_False if_True) (simp add: c1(1) c2(1) w1(1) w2(1) w3(1) w4(1) w5(1) bind_io_def lift_res_def ret_def)
  moreover have "same_device w w5" using sd w5(3) by (rule same_device_trans)
  ultimately show ?thesis using w5(2) c2(3) by (intro exI [of _ "?c3\<lparr>wipe_resize := r\<rparr>"]) (auto simp: writes_def)
qed

section \<open>What is on the device afterwards\<close>

lemma moved_disk_areas:
  assumes ready: "move_ready cx cfg w"
  defines "old \<equiv> old_place (i_headers cx) cfg"
  shows "read_bytes (moved_disk cx cfg d) (al_start cfg) (4096 * al_blocks (cfg_md cfg))
      = read_bytes d (al_start old) (4096 * al_blocks (cfg_md cfg))" (is ?al)
    and "read_bytes (moved_disk cx cfg d) (bm_start cfg) (cfg_bitmap_size old)
      = read_bytes d (bm_start old) (cfg_bitmap_size old)" (is ?bm)
    and "option_initialize_bitmap_mode (i_options cx) \<noteq> IBM_SKIP \<Longrightarrow>
      read_bytes (moved_disk cx cfg d) (bm_start cfg + cfg_bitmap_size old) (cfg_bitmap_size cfg - cfg_bitmap_size old)
      = replicate (cfg_bitmap_size cfg - cfg_bitmap_size old)
          (if option_initialize_bitmap_mode (i_options cx) = IBM_SET_ALL then 0xff else 0)"
    and "read_bytes (moved_disk cx cfg d) (unat (md_offset cfg)) 4096
      = md_image (i_headers cx) (ops cfg) (i_host cx) (internal_md cfg)" (is ?sb)
    and "(i < bm_start old \<or> unat (md_offset old) + 4096 \<le> i) \<and> (i < bm_start cfg \<or> unat (md_offset cfg) + 4096 \<le> i) \<Longrightarrow>
      moved_disk cx cfg d i = d i"
    and "unat (md_offset old) + 4096 \<le> bm_start cfg \<Longrightarrow> bm_start old \<le> i \<Longrightarrow> i < unat (md_offset old) + 4096 \<Longrightarrow>
      moved_disk cx cfg d i = 0"
proof -
  let ?H = "i_headers cx" and ?A = "4096 * al_blocks (cfg_md cfg)" and ?L = "cfg_bitmap_size old" and ?M = "cfg_bitmap_size cfg"
  let ?img = "md_image ?H (ops cfg) (i_host cx) (internal_md cfg)"
  let ?d1 = "moved_al_bitmap ?H cfg d" and ?e = "min (unat (md_offset old) + 4096) (bm_start cfg)"
  let ?d2 = "moved_trail cx cfg ?d1"
  let ?d3 = "write_bytes ?d2 (unat (md_offset cfg)) ?img"
  note g = move_geometry [OF ready, folded old_def]
  note st = area_starts [OF g(4)] and sto = area_starts [OF g(5)]
  have om: "cfg_md old = cfg_md cfg" by (simp add: old_def old_place_def at_offset_def)
  have "array_sizes_ok ?H" "layout_9_ok ?H" "md_rep ?H (ops cfg) (cfg_md cfg)"
    using ready unfolding move_ready_def Let_def by blast+
  then have len: "length ?img = 4096" using super_block.length_image internal_md_rep by blast
  have top: "read_bytes (moved_disk cx cfg d) p n = read_bytes ?d3 p n" if "bm_start cfg \<le> p" for p n
    using that g(9) by (auto simp: moved_disk_def Let_def intro!: store.rd_wr_disjoint simp flip: old_def)
  have d3: "read_bytes ?d3 p n = read_bytes ?d2 p n" if "p + n \<le> unat (md_offset cfg)" for p n
    using that by (intro store.rd_wr_disjoint) simp
  have d2: "read_bytes ?d2 p n = read_bytes ?d1 p n"
    if "p + n \<le> bm_start cfg + ?L \<or> bm_start cfg + ?M \<le> p" for p n
    using that g(8) by (auto simp: moved_trail_def old_def Let_def intro!: store.rd_wr_disjoint)
  let ?d0 = "write_bytes d (al_start cfg) (read_bytes d (al_start old) ?A)"
  have d1: "?d1 = write_bytes ?d0 (bm_start cfg) (read_bytes d (bm_start old) ?L)"
    by (simp only: moved_al_bitmap_def Let_def old_def)
  have "read_bytes ?d1 (al_start cfg) ?A = read_bytes ?d0 (al_start cfg) ?A"
    unfolding d1 using st g(8) by (intro store.rd_wr_disjoint) simp
  also have "\<dots> = read_bytes d (al_start old) ?A"
    using store.rd_wr_same [of d "al_start cfg" "read_bytes d (al_start old) ?A"] by simp
  finally show ?al using st top [of "al_start cfg" ?A] d3 [of "al_start cfg" ?A] d2 [of "al_start cfg" ?A] by simp
  have "read_bytes ?d1 (bm_start cfg) ?L = read_bytes d (bm_start old) ?L"
    unfolding d1 using store.rd_wr_same [of ?d0 "bm_start cfg" "read_bytes d (bm_start old) ?L"] by simp
  then show ?bm using st g(8) top [of "bm_start cfg" ?L] d3 [of "bm_start cfg" ?L] d2 [of "bm_start cfg" ?L] by simp
  show "read_bytes (moved_disk cx cfg d) (bm_start cfg + ?L) (?M - ?L) = replicate (?M - ?L)
      (if option_initialize_bitmap_mode (i_options cx) = IBM_SET_ALL then 0xff else 0)"
    if "option_initialize_bitmap_mode (i_options cx) \<noteq> IBM_SKIP"
    using that st g(8) top [of "bm_start cfg + ?L" "?M - ?L"] d3 [of "bm_start cfg + ?L" "?M - ?L"]
      store.rd_wr_same [of ?d1 "bm_start cfg + ?L" "replicate (?M - ?L) (if option_initialize_bitmap_mode (i_options cx) = IBM_SET_ALL then 0xff else 0)"]
    by (simp add: moved_trail_def Let_def flip: old_def)
  show ?sb using st top [of "unat (md_offset cfg)" 4096] store.rd_wr_same [of ?d2 "unat (md_offset cfg)" ?img] len by simp
  have keep: "?d3 i = d i" if i: "i < bm_start cfg \<or> unat (md_offset cfg) + 4096 \<le> i"
  proof -
    have "i < unat (md_offset cfg) \<or> unat (md_offset cfg) + length ?img \<le> i" using i st len by auto
    then have "?d3 i = ?d2 i" by (rule write_bytes_outside)
    moreover have "i < bm_start cfg + ?L \<or> bm_start cfg + ?L + (?M - ?L) \<le> i" using i st g(8) by auto
    then have "?d2 i = ?d1 i" unfolding moved_trail_def Let_def old_def [symmetric] by (simp add: write_bytes_outside)
    moreover have "i < bm_start cfg \<or> bm_start cfg + ?L \<le> i" using i st g(8) by auto
    then have "?d1 i = ?d0 i" unfolding d1 by (intro write_bytes_outside) simp
    moreover have "i < al_start cfg \<or> al_start cfg + ?A \<le> i" using i st by auto
    then have "?d0 i = d i" by (intro write_bytes_outside) simp
    ultimately show ?thesis by (simp only:)
  qed
  show "moved_disk cx cfg d i = d i"
    if "(i < bm_start old \<or> unat (md_offset old) + 4096 \<le> i) \<and> (i < bm_start cfg \<or> unat (md_offset cfg) + 4096 \<le> i)"
    using that keep sto om by (auto simp: moved_disk_def Let_def write_bytes_outside simp flip: old_def)
  show "moved_disk cx cfg d i = 0"
    if "unat (md_offset old) + 4096 \<le> bm_start cfg" "bm_start old \<le> i" "i < unat (md_offset old) + 4096"
    using that by (auto simp: moved_disk_def Let_def write_bytes_inside simp flip: old_def)
qed

text \<open>
  C3. Moving internal meta data to the end of a grown device loses nothing, although the old and
  the new place may overlap: when the super block gets a new place, that is when the device grew
  into another block of 4 KiB,
  \<^verbatim>\<open>v08_move_internal_md_after_resize\<close> returns 0; the activity log and the old bitmap are at
  their new places byte for byte, the rest of the larger bitmap has the value that
  \<^verbatim>\<open>--initialize-bitmap\<close> asks for, zero when the option is not given, the new super block is the old one with the offsets of the
  new layout, and no byte outside of the old and the new meta data area changes; the old area
  is zeroed when it does not overlap the new one.
\<close>

theorem move_after_resize_complete:
  assumes ready: "move_ready cx cfg w"
  defines "old \<equiv> old_place (i_headers cx) cfg" and "mode \<equiv> option_initialize_bitmap_mode (i_options cx)"
  shows "\<exists>c w'. v08_move_internal_md_after_resize cx cfg w = (Inr (0, c), w')
    \<and> read_bytes (disk w') (al_start cfg) (4096 * al_blocks (cfg_md cfg))
        = read_bytes (disk w) (al_start old) (4096 * al_blocks (cfg_md cfg))
    \<and> read_bytes (disk w') (bm_start cfg) (cfg_bitmap_size old) = read_bytes (disk w) (bm_start old) (cfg_bitmap_size old)
    \<and> (mode \<noteq> IBM_SKIP \<longrightarrow>
        read_bytes (disk w') (bm_start cfg + cfg_bitmap_size old) (cfg_bitmap_size cfg - cfg_bitmap_size old)
          = replicate (cfg_bitmap_size cfg - cfg_bitmap_size old) (if mode = IBM_SET_ALL then 0xff else 0))
    \<and> md_read (i_headers cx) (ops cfg) (i_host cx) (read_bytes (disk w') (unat (md_offset cfg)) 4096) = internal_md cfg
    \<and> is_valid_md (i_headers cx) (ops cfg) (internal_md cfg) (md_index cfg) (bd_size cfg) = Inr True
    \<and> (\<forall>i. (i < bm_start old \<or> unat (md_offset old) + 4096 \<le> i) \<and> (i < bm_start cfg \<or> unat (md_offset cfg) + 4096 \<le> i)
        \<longrightarrow> disk w' i = disk w i)
    \<and> (unat (md_offset old) + 4096 \<le> bm_start cfg \<longrightarrow>
        (\<forall>i. bm_start old \<le> i \<and> i < unat (md_offset old) + 4096 \<longrightarrow> disk w' i = 0))"
proof -
  let ?H = "i_headers cx"
  obtain c w' where run: "v08_move_internal_md_after_resize cx cfg w = (Inr (0, c), w')"
    and d: "disk w' = moved_disk cx cfg (disk w)"
    using writes_move [OF ready] by (auto simp: writes_def)
  have "array_sizes_ok ?H" "layout_9_ok ?H" "md_rep ?H (ops cfg) (cfg_md cfg)"
    using ready unfolding move_ready_def Let_def by blast+
  then have "md_read ?H (ops cfg) (i_host cx) (md_image ?H (ops cfg) (i_host cx) (internal_md cfg)) = internal_md cfg"
    using super_block.read_image internal_md_rep by blast
  then show ?thesis
    using run moved_disk_areas [OF ready, where d = "disk w"] moved_valid [OF ready]
    unfolding d [symmetric] old_def mode_def by (intro exI [of _ c] exI [of _ w']) simp
qed

end
