(* ===== verification/Md_Resize.thy ===== *)
theory Md_Resize
  imports Command_Runs
begin

text \<open>
  Two paths of \<^verbatim>\<open>open\<close> and \<^verbatim>\<open>md_cpu_to_disk\<close> that are easy to overlook: internal meta
  data is still found after the device below grew, because closing the device saved where it
  was; and v06 meta data can be read but, with the range check in front of every write, never
  written.
\<close>

section \<open>After the device grew\<close>

lemma not_found_keeps:
  assumes "flex_format (ops cfg)" and "opens cfg w"
    and "v07_style_md_open cx cfg w = (Inr (NO_VALID_MD_FOUND, c2), w')"
  shows "w' = w \<and> (\<exists>c1. v07_style_md_open_device cx cfg w = (Inr c1, w) \<and> c2 = at_offset (i_headers cx) c1)"
proof -
  obtain r where r: "v07_style_md_open_device cx cfg w = (r, w)"
    using open_device_env [OF assms(2), of w] by (auto simp: same_device_def)
  show ?thesis
  proof (cases r)
    case (Inl e)
    then show ?thesis using r assms(3) by (simp add: v07_style_md_open_def bind_io_def Let_def)
  next
    case (Inr c1)
    let ?c = "at_offset (i_headers cx) c1"
    have fmt: "flex_format (ops ?c)" using open_device_keeps [OF assms(2)] r Inr assms(1) by (simp add: at_offset_def)
    obtain p where p: "pread_or_die 4096 (md_offset ?c) w = (p, w)"
      by (cases "pread_or_die 4096 (md_offset ?c) w") (auto dest: pread_env)
    have "v07_style_md_open cx cfg w = (if \<not> large_enough ?c then (Inl (Exit 10), w)
      else bind_io (md_disk_to_cpu cx ?c) (\<lambda>(err, cfg).
         if err \<noteq> 0 then ret (NO_VALID_MD_FOUND, cfg)
         else lift_res (bind_res (load_cfg (i_headers cx) cfg (cfg_md cfg)) (\<lambda>c. Inr (VALID_MD_FOUND, c)))) w)"
      using r Inr by (rule v07_open_unfold)
    then show ?thesis
      using r Inr p assms(3)
      by (auto simp: md_disk_to_cpu_eq [OF fmt] bind_io_def lift_res_def ret_def Let_def bind_res_def
          split: sum.splits if_splits)
  qed
qed

lemma open_device_fields:
  assumes "opens cfg w" and "kind (env w) = Some BlockDevice" "getsize64_errno (env w) = None" and "bd_size cfg = 0"
    and "v07_style_md_open_device cx cfg w = (Inr c1, w')"
  shows "bd_size c1 = of_nat (dev_size w) \<and> cfg_md c1 = cfg_md cfg \<and> lk_bd c1 = lk_bd cfg"
  using assms
  by (auto simp: v07_style_md_open_device_def bind_io_def open_retry_free opens_def get_env_def
      get_dev_size_def ret_def stop_io_def Let_def bdev_size_def split: option.splits if_splits)


text \<open>What a second invocation sees of the first one: a larger device with the old super block.\<close>

definition grown :: "format_cfg \<Rightarrow> world \<Rightarrow> world \<Rightarrow> bool" where
  "grown c w w2 \<longleftrightarrow> env w2 = env w \<and> dev_size w < dev_size w2 \<and> dev_size w2 < 2 ^ 64
     \<and> \<not> io_fails w2 4096 (unat (md_offset c))
     \<and> read_bytes (disk w2) (unat (md_offset c)) 4096 = read_bytes (disk w) (unat (md_offset c)) 4096"

lemma grown_device_opens:
  assumes av: "md_available cx cfg w"
    and fresh: "bd_size cfg = 0" "magic (cfg_md cfg) = 0" "md_index cfg = DRBD_MD_INDEX_FLEX_INT (i_headers cx)"
    and blk: "kind (env w) = Some BlockDevice" "getsize64_errno (env w) = None"
    and found: "md_open cx cfg w = (Inr (VALID_MD_FOUND, c), w)" and magic: "magic (cfg_md c) \<noteq> 0"
    and lk: "\<not> dry_run (i_options cx)" "text_file_ok (env w) (lk_bdev_path (i_libdir cx) (i_minor cx))"
      "i_md_device_name cx \<noteq> []" "\<forall>x\<in>set (i_md_device_name cx). \<not> isspace x"
    and close: "md_close cx (c\<lparr>update_lk_bdev := True\<rparr>) w = (Inr r, w1)"
    and w2: "grown c w w2" "files w2 = files w1"
    and no_md: "v07_style_md_open cx cfg w2 = (Inr (NO_VALID_MD_FOUND, c2), w2)"
  shows "\<exists>c3. md_open cx cfg w2 = (Inr (VALID_MD_FOUND_AT_LAST_KNOWN_LOCATION, c3), w2)
    \<and> (cfg_md c3)\<lparr>effective_size := effective_size (cfg_md c)\<rparr> = cfg_md c
    \<and> lk_bd_size (lk_bd c3) = bd_size c \<and> lk_bd_uuid (lk_bd c3) = device_uuid (cfg_md c)"
proof -
  let ?H = "i_headers cx"
  have a: "flex_format (ops cfg)" "opens cfg w" using av by (simp_all add: md_available_def)
  have env: "env w2 = env w" and big: "dev_size w < dev_size w2" "dev_size w2 < 2 ^ 64"
    using w2(1) by (simp_all add: grown_def)
  have o2: "opens cfg w2" using a(2) env by (simp add: opens_def)
  obtain c1 buf where c1: "v07_style_md_open_device cx cfg w = (Inr c1, w)"
    and rd: "pread_or_die 4096 (md_offset (at_offset ?H c1)) w = (Inr buf, w)"
    and ld: "loads cx (at_offset ?H c1) buf c"
    using found md_open_found_iff [OF a(1)] v07_open_found_iff [OF a] by blast
  have k1: "bd_size c1 = of_nat (dev_size w)" "ops c1 = ops cfg" "md_index c1 = md_index cfg"
    using open_device_fields [OF a(2) blk fresh(1) c1] open_device_keeps [OF a(2) c1] by simp_all
  obtain c1' where c1': "v07_style_md_open_device cx cfg w2 = (Inr c1', w2)" and c2: "c2 = at_offset ?H c1'"
    using not_found_keeps [OF a(1) o2 no_md] by blast
  have k2: "bd_size c2 = of_nat (dev_size w2)" "ops c2 = ops cfg" "md_index c2 = md_index cfg"
    "cfg_md c2 = cfg_md cfg" "lk_bd c2 = lk_bd cfg"
    using open_device_fields [OF o2 _ _ fresh(1) c1'] open_device_keeps [OF o2 c1'] blk env by (simp_all add: c2 at_offset_def)
  let ?md = "md_read ?H (ops cfg) (i_host cx) buf"
  have ck: "md_offset c = v07_style_md_get_byte_offset ?H (DRBD_MD_INDEX_FLEX_INT ?H) (bd_size c)"
    "bd_size c = of_nat (dev_size w)" "ops c = ops cfg" "md_index c = DRBD_MD_INDEX_FLEX_INT ?H"
    and off: "md_offset (at_offset ?H c1) = md_offset c"
    and valid: "is_valid_md ?H (ops cfg) ?md (DRBD_MD_INDEX_FLEX_INT ?H) (bd_size c) = Inr True"
    using ld load_cfg_keeps [of ?H "at_offset ?H c1" _ c] k1 fresh(3)
    by (auto simp: loads_def Let_def at_offset_def)
  have md: "device_uuid ?md = device_uuid (cfg_md c)" "magic ?md = magic (cfg_md c)"
    and eff: "?md\<lparr>effective_size := effective_size (cfg_md c)\<rparr> = cfg_md c"
    using ld load_cfg_keeps [of ?H "at_offset ?H c1" ?md c] k1 by (simp_all add: loads_def Let_def at_offset_def)
  let ?bd = "\<lparr>lk_bd_size = bd_size c, lk_bd_uuid = device_uuid (cfg_md c), lk_bd_name = Some (i_md_device_name cx)\<rparr>"
  have saved: "files w2 (lk_bdev_path (i_libdir cx) (i_minor cx)) = Some (lk_bdev_text ?bd)"
    using close w2(2) lk a(1) ck(3,4)
    by (auto simp: md_close_def v08_md_close_def flex_format_def bind_io_def lk_bdev_save_ok Let_def
        generic_md_close_def get_env_def ret_def split: if_splits)
  have load: "lk_bdev_load (i_libdir cx) (i_minor cx) bd w2 = (Inr (0, ?bd), w2)" for bd
    using lk env saved by (intro lk_bdev_load_saved) simp_all
  have rd2: "pread_or_die 4096 (md_offset c) w2 = (Inr buf, w2)" and inside: "unat (md_offset c) + 4096 \<le> dev_size w"
    using rd w2(1) by (auto simp: off pread_or_die_def kernel_error_def grown_def split: if_splits)
  have sizes: "unat (of_nat (dev_size w) :: u64) = dev_size w" "unat (of_nat (dev_size w2) :: u64) = dev_size w2"
    using big by (simp_all add: unat_of_nat_u64)
  have less: "md_offset c < bd_size c2" using inside big by (simp add: word_less_nat_alt k2 sizes)
  have diff: "bd_size c \<noteq> bd_size c2"
    using big sizes by (metis ck(2) k2(1) less_irrefl)
  have look: "found_at_last_known cx (c2\<lparr>lk_bd := ?bd\<rparr>) w2 = (Inr (Some ?md), w2)"
    using a(1) less rd2 valid
    by (auto simp: found_at_last_known_def Let_def ck(1) [symmetric] k2 flex_format_def bind_io_def lift_res_def ret_def
        md_read_def)
  have "v08_check_for_resize cx c2 w2 = (Inr (c2\<lparr>lk_bd := ?bd, cfg_md := ?md\<rparr>), w2)"
    using a(1) fresh diff load look md
    by (auto simp: v08_check_for_resize_def k2 flex_format_def bind_io_def Let_def ret_def)
  moreover have "lk_bd_size ?bd \<noteq> 0" using inside ck(2) sizes(1) by (auto simp: unat_eq_0)
  ultimately have "md_open cx cfg w2 = (Inr (VALID_MD_FOUND_AT_LAST_KNOWN_LOCATION, c2\<lparr>lk_bd := ?bd, cfg_md := ?md\<rparr>), w2)"
    using a(1) no_md magic md
    by (auto simp: md_open_def v08_md_open_def flex_format_def bind_io_def ret_def)
  then show ?thesis using eff by auto
qed

text \<open>
  C13. Internal meta data survives that the device below grows: the first invocation modified the
  meta data and saved its place when it closed the device. When the device is larger
  afterwards and nothing valid is at its new end, the next invocation reports
  \<^verbatim>\<open>VALID_MD_FOUND_AT_LAST_KNOWN_LOCATION\<close> with the meta data of the first one, and knows the
  size that leads to its place.
\<close>

theorem grown_device_md_found:
  assumes av: "md_available cx cfg w"
    and fresh: "bd_size cfg = 0" "magic (cfg_md cfg) = 0" "md_index cfg = DRBD_MD_INDEX_FLEX_INT (i_headers cx)"
    and blk: "kind (env w) = Some BlockDevice" "getsize64_errno (env w) = None"
    and found: "md_open cx cfg w = (Inr (VALID_MD_FOUND, c), w)" and magic: "magic (cfg_md c) \<noteq> 0"
    and lk: "\<not> dry_run (i_options cx)" "text_file_ok (env w) (lk_bdev_path (i_libdir cx) (i_minor cx))"
      "i_md_device_name cx \<noteq> []" "\<forall>x\<in>set (i_md_device_name cx). \<not> isspace x"
    and close: "md_close cx (c\<lparr>update_lk_bdev := True\<rparr>) w = (Inr r, w1)"
    and w2: "grown c w w2" "files w2 = files w1"
    and no_md: "v07_style_md_open cx cfg w2 = (Inr (NO_VALID_MD_FOUND, c2), w2)"
  shows "\<exists>c3. md_open cx cfg w2 = (Inr (VALID_MD_FOUND_AT_LAST_KNOWN_LOCATION, c3), w2)
    \<and> (cfg_md c3)\<lparr>effective_size := effective_size (cfg_md c)\<rparr> = cfg_md c
    \<and> lk_bd_size (lk_bd c3) = bd_size c"
  using grown_device_opens [OF assms] by blast

section \<open>A concrete device that grows\<close>

text \<open>Internal meta data at the end of a 1 GiB device, which then has 2 GiB.\<close>

definition small_md :: md_cpu where
  "small_md = (cfg_md example_cfg)\<lparr>al_offset := -64, bm_offset := -128, md_size_sect := 136, device_uuid := 5\<rparr>"

definition small_fresh :: format_cfg where
  "small_fresh = example_cfg\<lparr>cfg_md := zero_md example_headers, bd_size := 0, md_offset := 0\<rparr>"

definition small_image :: bytes where
  "small_image = md_image example_headers DRBD_V09 LittleEndian small_md"

definition small_device :: world where
  "small_device = example_world\<lparr>dev_size := 1073741824, disk := write_bytes (\<lambda>_. 0) 1073737728 small_image\<rparr>"

definition small_open :: format_cfg where
  "small_open = example_cfg\<lparr>cfg_md := small_md, md_offset := 1073737728, cfg_al_offset := 1073704960,
     cfg_bm_offset := 1073672192, max_usable_sect := 2097016, bits_set := 0xFFFFFFFF\<rparr>"

definition large_device :: world where
  "large_device = small_device\<lparr>dev_size := 2147483648,
     files := [lk_bdev_path ''/var/lib/drbd'' 0 \<mapsto> lk_bdev_text
       \<lparr>lk_bd_size = 1073741824, lk_bd_uuid = 5, lk_bd_name = Some ''/dev/sda''\<rparr>]\<rparr>"

lemma small_rep: "md_rep example_headers DRBD_V09 small_md"
  by (simp add: md_rep_defs small_md_def example_cfg_def zero_md_def GEN_CNT_SIZE_def)

lemma length_small_image: "length small_image = 4096"
  unfolding small_image_def by (rule super_block.length_image) (simp_all add: small_rep)

lemma small_image_read: "md_read example_headers DRBD_V09 LittleEndian small_image = small_md"
  unfolding small_image_def by (rule super_block.read_image) (simp_all add: small_rep)

lemma small_available: "md_available example_cx small_fresh small_device" "opens small_fresh large_device"
  by (simp_all add: md_available_def flex_format_def small_fresh_def example_cfg_def
      opens_def large_device_def small_device_def example_world_def example_env_def)

lemma small_open_device:
  "v07_style_md_open_device example_cx small_fresh small_device
    = (Inr (small_fresh\<lparr>md_hard_sect_size := 512, bd_size := 1073741824\<rparr>), small_device)"
  "v07_style_md_open_device example_cx small_fresh large_device
    = (Inr (small_fresh\<lparr>md_hard_sect_size := 512, bd_size := 2147483648\<rparr>), large_device)"
  by (simp_all add: v07_style_md_open_device_def bind_io_def open_retry_free large_device_def small_device_def example_world_def
      example_env_def get_env_def get_dev_size_def ret_def small_fresh_def example_cfg_def Let_def bdev_size_def)

lemma small_valid: "is_valid_md example_headers DRBD_V09 small_md (-3) 1073741824 = Inr True"
proof -
  have n: "\<not> (\<exists>n\<in>set [0..<1]. sint (bitmap_index (peers small_md ! n)) < -1
      \<or> sint (bitmap_index (peers small_md ! n)) > 31)"
    by (simp add: small_md_def example_cfg_def zero_md_def zero_peer_def)
  have "bm_bytes example_headers small_md (drop_bit 9 1073741824) = Inr 32768"
    by (simp add: bm_bytes_def assert_res_def is_power_of_2_def ALIGN_def small_md_def example_cfg_def zero_md_def drop_bit_eq_div)
  then show ?thesis
    using n by (simp add: is_valid_md_def magic_matches_def al_size_sect_def MD_AL_OFFSET_07_def small_md_def
        example_cfg_def zero_md_def ALIGN_def drop_bit_eq_div)
qed


lemma small_load:
  "load_cfg example_headers (at_offset example_headers (small_fresh\<lparr>md_hard_sect_size := 512, bd_size := 1073741824\<rparr>))
    small_md = Inr small_open"
  by (simp add: load_cfg_def at_offset_def v07_style_md_get_byte_offset_def small_fresh_def small_md_def
      example_cfg_def zero_md_def Let_def max_usable_sectors_def clip_eq bm_bytes_def
      is_power_of_2_def small_open_def assert_res_def ALIGN_def drop_bit_eq_div min_def)

lemma small_found: "md_open example_cx small_fresh small_device = (Inr (VALID_MD_FOUND, small_open), small_device)"
proof -
  let ?c = "small_fresh\<lparr>md_hard_sect_size := 512, bd_size := 1073741824\<rparr>"
  have f: "flex_format (ops small_fresh)" "opens small_fresh small_device"
    using small_available by (simp_all add: md_available_def)
  have off: "md_offset (at_offset example_headers ?c) = 1073737728" "ops ?c = DRBD_V09" "md_index ?c = -3"
    by (simp_all add: at_offset_def v07_style_md_get_byte_offset_def small_fresh_def example_cfg_def)
  have "pread_or_die 4096 1073737728 small_device = (Inr small_image, small_device)"
    using store.rd_wr_same [of "\<lambda>_. 0" 1073737728 small_image]
    by (simp add: pread_or_die_def kernel_error_def small_device_def example_world_def length_small_image not_bit_63)
  moreover have "large_enough (at_offset example_headers ?c)"
    using off by (simp add: large_enough_def SO_MUCH_def) (simp add: at_offset_def)
  moreover have "loads example_cx (at_offset example_headers ?c) small_image small_open"
    using small_load small_valid off
    by (simp add: loads_def Let_def at_offset_def small_image_read) (simp add: example_cx_def small_image_read)
  ultimately have "v07_style_md_open example_cx small_fresh small_device = (Inr (VALID_MD_FOUND, small_open), small_device)"
    unfolding v07_open_found_iff [OF f] using small_open_device(1) off(1)
    by (intro conjI exI [of _ ?c] exI [of _ small_image]) simp_all
  then show ?thesis using md_open_found_iff [OF f(1)] by blast
qed

lemma read_bytes_constant:
  assumes "\<And>i. \<lbrakk>off \<le> i; i < off + n\<rbrakk> \<Longrightarrow> d i = c"
  shows "read_bytes d off n = replicate n c"
  by (rule nth_equalityI) (simp_all add: read_bytes_def assms)

lemma zero_magic: "magic (md_read example_headers DRBD_V09 h (replicate 4096 0)) = 0"
proof -
  have "d9_magic (example_get_9 h (replicate 4096 0)) = 0"
    by (cases h) (simp_all add: example_get_9_def case_prod_beta Let_def get64_def get32_def replicate_4)
  moreover have "be32_to_cpu h 0 = 0" by (cases h) (simp_all add: swab32_def)
  ultimately show ?thesis by (simp add: md_read_def md_disk_09_to_cpu_def Let_def)
qed


lemma large_not_found:
  "\<exists>c2. v07_style_md_open example_cx small_fresh large_device = (Inr (NO_VALID_MD_FOUND, c2), large_device)"
proof -
  let ?c = "small_fresh\<lparr>md_hard_sect_size := 512, bd_size := 2147483648\<rparr>"
  let ?a = "at_offset example_headers ?c"
  have off: "md_offset ?a = 2147479552" "ops ?a = DRBD_V09" "md_index ?a = -3" "bd_size ?a = 2147483648"
    by (simp_all add: at_offset_def v07_style_md_get_byte_offset_def small_fresh_def example_cfg_def)
  have "read_bytes (disk large_device) 2147479552 4096 = replicate 4096 0"
    by (rule read_bytes_constant) (simp add: large_device_def small_device_def write_bytes_def length_small_image)
  then have "pread_or_die 4096 (md_offset ?a) large_device = (Inr (replicate 4096 0), large_device)"
    by (simp add: off pread_or_die_def kernel_error_def not_bit_63)
      (simp add: large_device_def small_device_def example_world_def)
  moreover have "is_valid_md example_headers DRBD_V09 (md_read example_headers DRBD_V09 LittleEndian (replicate 4096 0))
      (-3) 2147483648 = Inr False"
    unfolding is_valid_md_def by (simp add: magic_matches_def zero_magic md_magic_defs)
  moreover have "i_host example_cx = LittleEndian" by (simp add: example_cx_def)
  moreover have "large_enough ?a" by (simp add: large_enough_def SO_MUCH_def off)
  ultimately show ?thesis
    using off by (subst v07_open_unfold [OF small_open_device(2) refl])
      (simp add: md_disk_to_cpu_eq flex_format_def bind_io_def lift_res_def ret_def)
qed

lemma small_close: "\<exists>r w1. md_close example_cx (small_open\<lparr>update_lk_bdev := True\<rparr>) small_device = (Inr r, w1)
    \<and> files large_device = files w1"
  by (simp add: md_close_def v08_md_close_def small_open_def example_cfg_def bind_io_def lk_bdev_save_def
      generic_md_close_def get_env_def ret_def)
    (simp add: flushed_text_def example_cx_def small_device_def example_world_def example_env_def large_device_def small_md_def
      example_options_def bind_io_def get_env_def ret_def)

text \<open>The hypotheses about the two invocations on this device.\<close>

lemma large_facts:
  "bd_size small_fresh = 0" "magic (cfg_md small_fresh) = 0"
  "md_index small_fresh = DRBD_MD_INDEX_FLEX_INT (i_headers example_cx)"
  "kind (env small_device) = Some BlockDevice" "getsize64_errno (env small_device) = None"
  "magic (cfg_md small_open) \<noteq> 0" "\<not> dry_run (i_options example_cx)" "text_file_ok (env small_device) p"
  "i_md_device_name example_cx \<noteq> []" "\<forall>x\<in>set (i_md_device_name example_cx). \<not> isspace x"
  "grown small_open small_device large_device"
  by (auto simp: small_fresh_def example_cfg_def zero_md_def small_device_def example_world_def example_env_def
      small_open_def small_md_def md_magic_defs example_cx_def isspace_def grown_def large_device_def example_options_def text_file_ok_def)

lemma small_open_fields: "device_uuid (cfg_md small_open) = 5" "bd_size small_open = 1073741824"
  by (simp_all add: small_open_def small_md_def example_cfg_def)

theorem grown_device_md_found_witness:
  "\<exists>c3. md_open example_cx small_fresh large_device = (Inr (VALID_MD_FOUND_AT_LAST_KNOWN_LOCATION, c3), large_device)
    \<and> device_uuid (cfg_md c3) = 5 \<and> lk_bd_size (lk_bd c3) = 1073741824"
proof -
  obtain r w1 where cl: "md_close example_cx (small_open\<lparr>update_lk_bdev := True\<rparr>) small_device = (Inr r, w1)"
    "files large_device = files w1" using small_close by blast
  obtain c2 where no: "v07_style_md_open example_cx small_fresh large_device = (Inr (NO_VALID_MD_FOUND, c2), large_device)"
    using large_not_found by blast
  from grown_device_md_found [OF small_available(1) large_facts(1-5) small_found large_facts(6-10) cl(1) large_facts(11) cl(2) no]
  obtain c3 where c3: "md_open example_cx small_fresh large_device = (Inr (VALID_MD_FOUND_AT_LAST_KNOWN_LOCATION, c3), large_device)"
    "(cfg_md c3)\<lparr>effective_size := effective_size (cfg_md small_open)\<rparr> = cfg_md small_open"
    "lk_bd_size (lk_bd c3) = bd_size small_open" by blast
  have "device_uuid (cfg_md c3) = device_uuid (cfg_md small_open)" using arg_cong [OF c3(2), of device_uuid] by simp
  then show ?thesis using c3(1,3) small_open_fields(1,2) by auto
qed

section \<open>v06 meta data is read-only\<close>

text \<open>
  v06 meta data cannot be modified: a v06 super block has no meta data size, so that the
  range check of \<^verbatim>\<open>pwrite_or_die\<close> rejects the write of what \<^verbatim>\<open>v06_md_disk_to_cpu\<close>
  has read at the start of the device, and the program exits with 10, unless \<^verbatim>\<open>--ignore-sanity-checks\<close> is given.
\<close>

theorem v06_never_written:
  assumes "v06_md_disk_to_cpu cx cfg w = (Inr (0, c), w1)" and "md_offset cfg = 0"
    and "\<not> ignore_sanity_checks (i_options cx)" and "length (gc md) = GEN_CNT_SIZE"
    and "md_size_sect md = md_size_sect (cfg_md c)" "magic md = magic (cfg_md c)"
  shows "v06_md_cpu_to_disk cx (c\<lparr>cfg_md := md\<rparr>) w2 = (Inl (Exit 10), w2)"
proof -
  have c: "md_size_sect (cfg_md c) = 0" "md_offset c = 0" "v06_validate_md (i_headers cx) (cfg_md c)"
    using assms(1,2)
    by (auto simp: v06_md_disk_to_cpu_def bind_io_def ret_def Let_def md_disk_06_to_cpu_def zero_md_def
        split: prod.splits sum.splits if_splits)
  have len: "length (put_md_06 (i_host cx) (md_cpu_to_disk_06 (i_host cx) (get_md_06 (i_host cx) []) md)) = 24"
    by (simp add: put_md_06_def md_cpu_to_disk_06_def get_md_06_def case_prod_beta Let_def GEN_CNT_SIZE_def)
  have "md_max_offset (c\<lparr>cfg_md := md\<rparr>) = md_min_offset (c\<lparr>cfg_md := md\<rparr>)"
    by (simp add: md_max_offset_def assms(5) c)
  moreover have "md_min_offset (c\<lparr>cfg_md := md\<rparr>) = 0" by (simp add: md_min_offset_def c Let_def min_def word_le_nat_alt)
  ultimately have "validate_offsets_or_die (i_options cx) (c\<lparr>cfg_md := md\<rparr>) 24 0 = Inl (Exit 10)"
    using assms(3) by (simp add: validate_offsets_or_die_def)
  moreover have "v06_validate_md (i_headers cx) md" using c(3) assms(6) by (simp add: v06_validate_md_def)
  ultimately show ?thesis
    by (simp add: v06_md_cpu_to_disk_def Let_def pwrite_or_die_def bind_io_def lift_res_def len c)
qed


definition example_md_06 :: md_cpu where
  "example_md_06 = (zero_md example_headers)\<lparr>magic := DRBD_MD_MAGIC_06 example_headers, max_peers := 1\<rparr>"

definition example_file_06 :: world where
  "example_file_06 = example_world\<lparr>disk := write_bytes (\<lambda>_. 0) 0 (image_06 LittleEndian example_md_06)\<rparr>"

lemma example_read_06:
  "v06_md_disk_to_cpu example_cx example_fresh example_file_06
    = (Inr (0, example_fresh\<lparr>cfg_md := example_md_06\<rparr>), example_file_06)"
proof -
  have "rep_06 example_headers example_md_06" by (simp add: rep_06_def pre_08_def example_md_06_def)
  then have rd: "md_disk_06_to_cpu example_headers LittleEndian (get_md_06 LittleEndian (image_06 LittleEndian example_md_06))
      = example_md_06" by (rule codec_06.read_image [OF TrueI])
  have o: "md_offset example_fresh = 0" by (simp add: example_fresh_def example_ext_cfg_def)
  have "pread_or_die 24 0 example_file_06 = (Inr (image_06 LittleEndian example_md_06), example_file_06)"
    using store.rd_wr_same [of "\<lambda>_. 0" 0 "image_06 LittleEndian example_md_06"]
    by (simp add: pread_or_die_def kernel_error_def example_file_06_def example_world_def)
  moreover have "i_host example_cx = LittleEndian" by (simp add: example_cx_def)
  moreover have "v06_validate_md example_headers example_md_06" by (simp add: v06_validate_md_def example_md_06_def)
  ultimately show ?thesis by (simp add: v06_md_disk_to_cpu_def Let_def bind_io_def ret_def o rd)
qed

theorem v06_never_written_witness:
  "v06_md_cpu_to_disk example_cx (example_fresh\<lparr>cfg_md := example_md_06\<lparr>gc := [1, 2, 3, 4, 5]\<rparr>\<rparr>) example_file_06
    = (Inl (Exit 10), example_file_06)"
proof -
  have o: "md_offset example_fresh = 0" by (simp add: example_fresh_def example_ext_cfg_def)
  have "\<not> ignore_sanity_checks (i_options example_cx)" by (simp add: example_cx_def example_options_def)
  from v06_never_written [OF example_read_06 o this, of "example_md_06\<lparr>gc := [1, 2, 3, 4, 5]\<rparr>"] show ?thesis
    by (simp add: GEN_CNT_SIZE_def)
qed

end
