(* ===== verification/Check_Resize.thy ===== *)
theory Check_Resize
  imports Md_Moved Md_Resize
begin

text \<open>
  The command \<^verbatim>\<open>check-resize\<close> of \<^verbatim>\<open>user/shared/drbdmeta.c\<close>, from opening the device to the
  last known information it leaves behind. It composes the search at the last known place, the
  move and the file of the last known information: after it returned 0, the next invocation
  finds the meta data in its regular place.
\<close>

section \<open>The command\<close>

definition meta_chk_offline_resize :: "invocation \<Rightarrow> format_cfg \<Rightarrow> int io" where
  "meta_chk_offline_resize cx cfg =
    (let FLEX_INT = DRBD_MD_INDEX_FLEX_INT (i_headers cx) in
     bind_io (md_open cx cfg) (\<lambda>(err, cfg).
       if err = VALID_MD_FOUND then
         bind_io (if md_index cfg \<noteq> FLEX_INT then lk_bdev_delete (i_libdir cx) (i_minor cx) else ret 0) (\<lambda>_.
         bind_io (lk_bdev_load (i_libdir cx) (i_minor cx) (lk_bd cfg)) (\<lambda>(rc, bd).
           let cfg = cfg\<lparr>lk_bd := bd\<rparr> in
           md_close cx (if rc < 0 \<or> lk_bd_size bd \<noteq> bd_size cfg \<or> lk_bd_uuid bd \<noteq> device_uuid (cfg_md cfg)
             then cfg\<lparr>update_lk_bdev := True\<rparr> else cfg)))
       else if err = NO_VALID_MD_FOUND then ret (-1)
       else if \<not> format_version (ops cfg) \<ge> format_version DRBD_V08 \<or> md_index cfg \<noteq> FLEX_INT
         \<or> lk_bd_size (lk_bd cfg) = 0 \<or> magic (cfg_md cfg) = 0 then stop_io Abort
       else bind_io (v08_move_internal_md_after_resize cx cfg) (\<lambda>(r, _). ret r)))"

section \<open>Opening at the last known place\<close>

lemma last_known_keeps:
  assumes "v08_check_for_resize cx cfg w = (Inr c, w')"
  shows "w' = w \<and> (\<exists>bd md. c = cfg\<lparr>lk_bd := bd, cfg_md := md\<rparr>)"
proof -
  have ld: "lk_bdev_load l m bd w1 = (r, w2) \<Longrightarrow> w2 = w1" for l m bd r w1 w2
    by (auto simp: lk_bdev_load_def Let_def lift_res_def split: option.splits)
  have fl: "found_at_last_known cx c0 w1 = (r, w2) \<Longrightarrow> w2 = w1" for c0 r w1 w2
    by (auto simp: found_at_last_known_def Let_def bind_io_def lift_res_def ret_def
        split: md_format.splits sum.splits prod.splits if_splits dest: pread_env)
  have k: "\<exists>bd md. c0 = c0\<lparr>lk_bd := bd, cfg_md := md\<rparr>" for c0 :: format_cfg
    by (intro exI [of _ "lk_bd c0"] exI [of _ "cfg_md c0"]) simp
  have k2: "\<exists>bd' md. c0\<lparr>lk_bd := bd\<rparr> = c0\<lparr>lk_bd := bd', cfg_md := md\<rparr>" for c0 :: format_cfg and bd
    by (intro exI [of _ bd] exI [of _ "cfg_md c0"]) simp
  show ?thesis
    using assms
    by (auto simp: v08_check_for_resize_def bind_io_def Let_def ret_def stop_io_def
        split: if_splits sum.splits prod.splits option.splits dest!: ld fl intro: k k2)
qed

lemma unfound_open:
  assumes f: "flex_format (ops cfg)" and o: "opens cfg w"
    and run: "md_open cx cfg w = (Inr (rc, c), w')" and rc: "rc \<noteq> VALID_MD_FOUND"
  obtains c1 bd md where "v07_style_md_open_device cx cfg w = (Inr c1, w)" and "w' = w"
    and "c = (at_offset (i_headers cx) c1)\<lparr>lk_bd := bd, cfg_md := md\<rparr>"
    and "large_enough (at_offset (i_headers cx) c1)"
    and "rc = NO_VALID_MD_FOUND \<longleftrightarrow> lk_bd_size bd = 0 \<or> magic md = 0"
proof -
  have "v08_md_open cx cfg w = (Inr (rc, c), w')"
    using run f by (auto simp: md_open_def flex_format_def)
  then obtain r c2 w2 where v: "v07_style_md_open cx cfg w = (Inr (r, c2), w2)" and "r \<noteq> VALID_MD_FOUND"
    and chk: "v08_check_for_resize cx c2 w2 = (Inr c, w')"
    and nz: "rc = (if lk_bd_size (lk_bd c) = 0 \<or> magic (cfg_md c) = 0 then NO_VALID_MD_FOUND else VALID_MD_FOUND_AT_LAST_KNOWN_LOCATION)"
    using rc unfolding v08_md_open_def by (auto simp: ret_def elim!: bind_io_InrE split: if_splits)
  obtain d where d: "v07_style_md_open_device cx cfg w = (d, w)"
    using open_device_env [OF o, of w] by (auto simp: same_device_def)
  obtain c1 where c1: "d = Inr c1"
    using v d by (cases d) (auto simp: v07_style_md_open_def bind_io_def Let_def)
  have big: "large_enough (at_offset (i_headers cx) c1)"
    using v v07_open_unfold [OF d c1] by (auto split: if_splits)
  have "r = NO_VALID_MD_FOUND"
    using v v07_open_unfold [OF d c1] big \<open>r \<noteq> VALID_MD_FOUND\<close>
    by (auto simp: bind_io_def lift_res_def bind_res_def ret_def split: prod.splits sum.splits if_splits)
  then have c2: "w2 = w" "c2 = at_offset (i_headers cx) c1" using not_found_keeps [OF f o, of cx c2 w2] v d c1 by auto
  obtain bd md where "w' = w" "c = c2\<lparr>lk_bd := bd, cfg_md := md\<rparr>"
    using last_known_keeps [OF chk] c2(1) by blast
  then show ?thesis using that [of c1 md bd] d c1 big c2(2) nz by simp
qed

lemma last_known_open:
  assumes "flex_format (ops cfg)" and "opens cfg w"
    and "md_open cx cfg w = (Inr (VALID_MD_FOUND_AT_LAST_KNOWN_LOCATION, c), w')"
  obtains c1 bd md where "v07_style_md_open_device cx cfg w = (Inr c1, w)" and "w' = w"
    and "c = (at_offset (i_headers cx) c1)\<lparr>lk_bd := bd, cfg_md := md\<rparr>"
    and "large_enough (at_offset (i_headers cx) c1)" and "lk_bd_size bd \<noteq> 0" and "magic md \<noteq> 0"
  by (rule unfound_open [OF assms]) (use that in auto)

section \<open>After the move\<close>

text \<open>What opening makes of internal meta data: the size is limited to what precedes the bitmap.\<close>

definition clipped_md :: "format_cfg \<Rightarrow> md_cpu" where
  "clipped_md c = (internal_md c)\<lparr>effective_size := min (effective_size (cfg_md c)) (of_nat (bm_start c div 512))\<rparr>"

lemma internal_loads:
  assumes ok: "internal_ok H c" and room: "internal_room c" and H: "block_sizes_ok H" "md_indices_ok H"
    and pib: "unat (md_offset c) \<le> 2 ^ 50"
    and a: "md_offset a = md_offset c" "md_index a = md_index c"
  shows "\<exists>c'. load_cfg H a (internal_md c) = Inr c' \<and> cfg_md c' = clipped_md c"
proof -
  let ?m = "internal_md c"
  let ?al = "md_offset a + scast (al_offset ?m) * 512" and ?bm = "md_offset a + scast (bm_offset ?m) * 512"
  let ?a = "a\<lparr>cfg_md := ?m, cfg_al_offset := ?al, cfg_bm_offset := ?bm\<rparr>"
  have o: "unat ?al = al_start c" "unat ?bm = bm_start c"
    using internal_offsets(1,2) [OF ok room H] by (simp_all add: a)
  have "?bm \<le> ?al" "?bm \<le> md_offset a" using area_starts [OF room] by (simp_all add: word_le_nat_alt o) (simp add: a)
  then have "min (min (md_offset a) ?al) ?bm = ?bm" by (simp add: min_def)
  moreover have "md_index a = DRBD_MD_INDEX_FLEX_INT H" using ok by (simp add: internal_ok_def a)
  ultimately have mx: "max_usable_sectors H ?a = Inr (drop_bit 9 ?bm)" by (simp add: max_usable_sectors_def)
  have s: "drop_bit 9 ?bm = of_nat (bm_start c div 512)" by (rule word_eq_of_nat) (simp add: unat_drop_bit o)
  let ?e = "min (effective_size ?m) (drop_bit 9 ?bm)"
  have "unat ?e \<le> 2 ^ 41"
  proof -
    have "unat ?e \<le> unat (drop_bit 9 ?bm)" by (simp add: min_def word_le_nat_alt)
    also have "\<dots> \<le> 2 ^ 50 div 512" using pib area_starts [OF room] by (simp add: unat_drop_bit o div_le_mono)
    finally show ?thesis by simp
  qed
  then have "supported H ?m ?e"
    using ok by (simp add: internal_ok_def supported_def internal_md_def word_le_nat_alt unat_exp2)
  moreover have "max_peers ?m \<le> 31" using ok by (simp add: internal_ok_def internal_md_def)
  ultimately obtain b where b: "bm_bytes H ?m ?e = Inr b" using bm_bytes_eq [OF _ H(1)] by blast
  have "effective_size ?m = effective_size (cfg_md c)" by (simp add: internal_md_def)
  then show ?thesis using mx b unfolding load_cfg_def Let_def by (simp add: clip_eq clipped_md_def s)
qed

lemma reopened:
  assumes f: "flex_format (ops cfg)" and o: "opens cfg w" and sd: "same_device w w'"
    and dev: "v07_style_md_open_device cx cfg w = (Inr c1, w)" and big: "large_enough (at_offset (i_headers cx) c1)"
    and rd: "unat (md_offset (at_offset (i_headers cx) c1)) + 4096 \<le> dev_size w" "healthy w"
    and md: "md_read (i_headers cx) (ops cfg) (i_host cx)
        (read_bytes (disk w') (unat (md_offset (at_offset (i_headers cx) c1))) 4096) = md"
      "is_valid_md (i_headers cx) (ops cfg) md (md_index cfg) (bd_size c1) = Inr True"
    and ld: "load_cfg (i_headers cx) (at_offset (i_headers cx) c1) md = Inr c'"
  shows "md_open cx cfg w' = (Inr (VALID_MD_FOUND, c'), w')"
proof -
  let ?a = "at_offset (i_headers cx) c1"
  have o': "opens cfg w'" using o sd by (simp add: opens_def same_device_def)
  have k: "ops ?a = ops cfg" "md_index ?a = md_index cfg" "bd_size ?a = bd_size c1"
    using open_device_keeps [OF o dev] by (simp_all add: at_offset_def)
  have "v07_style_md_open_device cx cfg w' = (Inr c1, w')" using open_device_env [OF o sd, of cx] dev by auto
  moreover have "pread_or_die 4096 (md_offset ?a) w' = (Inr (read_bytes (disk w') (unat (md_offset ?a)) 4096), w')"
    using rd sd by (auto simp: pread_or_die_def kernel_error_def same_device_def healthy_def not_bit_63)
  moreover have "loads cx ?a (read_bytes (disk w') (unat (md_offset ?a)) 4096) c'"
    using md ld by (simp add: loads_def Let_def k)
  ultimately show ?thesis
    unfolding md_open_found_iff [OF f] v07_open_found_iff [OF f o'] using big by blast
qed

text \<open>
  C2. \<^verbatim>\<open>check-resize\<close> end to end: when the device grew into another block of 4 KiB while DRBD was not running and the meta
  data was found at its last known place, the command returns 0 and the next invocation finds
  in the regular place the same meta data with the offsets of the new layout; activity log and
  bitmap moved with it, and no byte outside of the two meta data areas changed.
\<close>

theorem check_resize_moves:
  assumes av: "md_available cx cfg w"
    and opened: "md_open cx cfg w = (Inr (VALID_MD_FOUND_AT_LAST_KNOWN_LOCATION, c), w)"
    and ready: "move_ready cx c w"
  defines "old \<equiv> old_place (i_headers cx) c"
  shows "\<exists>w'. meta_chk_offline_resize cx cfg w = (Inr 0, w') \<and> stored_md cx cfg w' = Some (clipped_md c)
    \<and> read_bytes (disk w') (al_start c) (4096 * al_blocks (cfg_md c)) = read_bytes (disk w) (al_start old) (4096 * al_blocks (cfg_md c))
    \<and> read_bytes (disk w') (bm_start c) (cfg_bitmap_size old) = read_bytes (disk w) (bm_start old) (cfg_bitmap_size old)
    \<and> (\<forall>i. (i < bm_start old \<or> unat (md_offset old) + 4096 \<le> i) \<and> (i < bm_start c \<or> unat (md_offset c) + 4096 \<le> i)
        \<longrightarrow> disk w' i = disk w i)"
proof -
  let ?H = "i_headers cx"
  have a: "flex_format (ops cfg)" "opens cfg w" "array_sizes_ok ?H" "layout_9_ok ?H" using av by (simp_all add: md_available_def)
  have H: "block_sizes_ok ?H" "md_indices_ok ?H" and hw: "healthy w" and rep: "md_rep ?H (ops c) (cfg_md c)"
    and idx: "md_index c = DRBD_MD_INDEX_FLEX_INT ?H" and pib: "unat (bd_size c) \<le> 2 ^ 50"
    using ready unfolding move_ready_def Let_def by blast+
  obtain c1 bd md where dev: "v07_style_md_open_device cx cfg w = (Inr c1, w)"
    and c: "c = (at_offset ?H c1)\<lparr>lk_bd := bd, cfg_md := md\<rparr>" and big: "large_enough (at_offset ?H c1)"
    and nz: "lk_bd_size (lk_bd c) \<noteq> 0" "magic (cfg_md c) \<noteq> 0"
    by (rule last_known_open [OF a(1,2) opened]) auto
  have k: "ops c = ops cfg" "md_index c = md_index cfg" "md_offset (at_offset ?H c1) = md_offset c" "bd_size c1 = bd_size c"
    "md_index (at_offset ?H c1) = md_index c"
    using open_device_keeps [OF a(2) dev] by (simp_all add: c at_offset_def)
  obtain c' w' where run: "v08_move_internal_md_after_resize cx c w = (Inr (0, c'), w')"
    and d: "disk w' = moved_disk cx c (disk w)" and sd: "same_device w w'"
    using writes_move [OF ready] by (auto simp: writes_def)
  note g = move_geometry [OF ready]
  have "md_read ?H (ops c) (i_host cx) (md_image ?H (ops c) (i_host cx) (internal_md c)) = internal_md c"
    using super_block.read_image internal_md_rep [OF rep] a(3,4) by blast
  then have rd: "md_read ?H (ops cfg) (i_host cx) (read_bytes (disk w') (unat (md_offset c)) 4096) = internal_md c"
    using moved_disk_areas(4) [OF ready, of "disk w"] unfolding d k by simp
  have "bd_size c = of_nat (dev_size w)" using ready unfolding move_ready_def Let_def by blast
  then have "unat (bd_size c) = dev_size w" using hw by (simp add: healthy_def unat_of_nat_u64)
  then have "unat (md_offset c) \<le> 2 ^ 50" using g(6) pib by simp
  from internal_loads [OF g(1) g(4) H this k(3,5)] obtain c5 where
    c5: "load_cfg ?H (at_offset ?H c1) (internal_md c) = Inr c5" "cfg_md c5 = clipped_md c" by blast
  have "md_open cx cfg w' = (Inr (VALID_MD_FOUND, c5), w')"
    using reopened [OF a(1,2) sd dev big _ hw _ _ c5(1)] g(6) rd moved_valid [OF ready] by (simp add: k)
  then have "stored_md cx cfg w' = Some (clipped_md c)" by (simp add: stored_md_def c5(2))
  moreover have "meta_chk_offline_resize cx cfg w = (Inr 0, w')"
    using opened nz idx run a(1) k(1)
    by (auto simp: meta_chk_offline_resize_def Let_def bind_io_def ret_def flex_format_def)
  ultimately show ?thesis
    using moved_disk_areas(1,2) [OF ready, of "disk w"] moved_disk_areas(5) [OF ready, where d = "disk w"]
    unfolding d [symmetric] old_def by (intro exI [of _ w']) simp
qed

section \<open>Remembering the place\<close>

lemma load_fresh:
  assumes "lk_bdev_load l m b1 w = (Inr (rc, x), w')" and "\<not> rc < 0"
  shows "lk_bdev_load l m b2 w = (Inr (0, x), w')"
  using assms
  by (cases b1; cases b2) (auto simp: lk_bdev_load_def Let_def lift_res_def bind_res_def split: option.splits if_splits sum.splits)

text \<open>
  \<^verbatim>\<open>check-resize\<close> on internal meta data in its regular place: when it returns 0, the last
  known information has the size of the device and the uuid of the meta data, whatever it was
  before, so that the meta data can be found when the device grows later; the device is not
  written.
\<close>

theorem check_resize_remembers:
  assumes found: "md_open cx cfg w = (Inr (VALID_MD_FOUND, c), w)" and fmt: "flex_format (ops c)"
    and idx: "md_index c = DRBD_MD_INDEX_FLEX_INT (i_headers cx)" and nd: "\<not> dry_run (i_options cx)"
    and name: "i_md_device_name cx \<noteq> []" "\<forall>x\<in>set (i_md_device_name cx). \<not> isspace x"
    and path: "text_file_ok (env w) (lk_bdev_path (i_libdir cx) (i_minor cx))"
    and run: "meta_chk_offline_resize cx cfg w = (Inr 0, w')"
  shows "\<exists>bd'. lk_bdev_load (i_libdir cx) (i_minor cx) bd w' = (Inr (0, bd'), w')
    \<and> lk_bd_size bd' = bd_size c \<and> lk_bd_uuid bd' = device_uuid (cfg_md c) \<and> disk w' = disk w"
proof -
  let ?load = "lk_bdev_load (i_libdir cx) (i_minor cx)"
  have keeps: "w2 = w1" if "?load b w1 = (r, w2)" for b r w1 w2
    using that by (auto simp: lk_bdev_load_def Let_def lift_res_def split: option.splits)
  obtain rc b where ld: "?load (lk_bd c) w = (Inr (rc, b), w)"
    and cl: "md_close cx (if rc < 0 \<or> lk_bd_size b \<noteq> bd_size c \<or> lk_bd_uuid b \<noteq> device_uuid (cfg_md c)
        then c\<lparr>lk_bd := b, update_lk_bdev := True\<rparr> else c\<lparr>lk_bd := b\<rparr>) w = (Inr 0, w')"
    using run found idx
    by (auto simp: meta_chk_offline_resize_def Let_def bind_io_def ret_def split: sum.splits prod.splits
        dest!: keeps)
  have d: "disk w' = disk w" using md_close_keeps [OF cl] by simp
  let ?bd = "\<lparr>lk_bd_size = bd_size c, lk_bd_uuid = device_uuid (cfg_md c), lk_bd_name = Some (i_md_device_name cx)\<rparr>"
  have saved: ?thesis if "update_lk_bdev c2" "md_close cx c2 w = (Inr 0, w')" "bd_size c2 = bd_size c" "cfg_md c2 = cfg_md c"
      "ops c2 = ops c" "md_index c2 = md_index c" for c2
  proof -
    have "files w' (lk_bdev_path (i_libdir cx) (i_minor cx)) = Some (lk_bdev_text ?bd)" "env w' = env w"
      using that fmt idx nd path
      by (auto simp: md_close_def v08_md_close_def flex_format_def bind_io_def lk_bdev_save_ok Let_def
          generic_md_close_def get_env_def ret_def split: if_splits)
    then have "?load bd w' = (Inr (0, ?bd), w')" using name path by (intro lk_bdev_load_saved) simp_all
    then show ?thesis using d by (intro exI [of _ ?bd]) simp
  qed
  show ?thesis
  proof (cases "rc < 0 \<or> lk_bd_size b \<noteq> bd_size c \<or> lk_bd_uuid b \<noteq> device_uuid (cfg_md c) \<or> update_lk_bdev c")
    case True
    then show ?thesis using cl by (intro saved [of "if rc < 0 \<or> lk_bd_size b \<noteq> bd_size c \<or> lk_bd_uuid b \<noteq> device_uuid (cfg_md c)
        then c\<lparr>lk_bd := b, update_lk_bdev := True\<rparr> else c\<lparr>lk_bd := b\<rparr>"]) auto
  next
    case False
    then have "w' = w" using cl fmt
      by (auto simp: md_close_def v08_md_close_def flex_format_def bind_io_def generic_md_close_def get_env_def ret_def split: if_splits)
    moreover have "?load bd w = (Inr (0, b), w)" using load_fresh [OF ld] False by simp
    ultimately show ?thesis using False by auto
  qed
qed

section \<open>The concrete device that grew\<close>

lemma large_opened:
  obtains c where "md_open example_cx small_fresh large_device = (Inr (VALID_MD_FOUND_AT_LAST_KNOWN_LOCATION, c), large_device)"
    and "move_ready example_cx c large_device" and "md_offset c = 2147479552" and "ops c = DRBD_V09"
    and "device_uuid (cfg_md c) = 5"
proof -
  obtain r w1 where cl: "md_close example_cx (small_open\<lparr>update_lk_bdev := True\<rparr>) small_device = (Inr r, w1)"
    "files large_device = files w1" using small_close by blast
  obtain c2 where no: "v07_style_md_open example_cx small_fresh large_device = (Inr (NO_VALID_MD_FOUND, c2), large_device)"
    using large_not_found by blast
  from grown_device_opens [OF small_available(1) large_facts(1-5) small_found large_facts(6-10) cl(1) large_facts(11) cl(2) no]
  obtain c where c: "md_open example_cx small_fresh large_device = (Inr (VALID_MD_FOUND_AT_LAST_KNOWN_LOCATION, c), large_device)"
    and md: "(cfg_md c)\<lparr>effective_size := effective_size (cfg_md small_open)\<rparr> = cfg_md small_open"
    and lk: "lk_bd_size (lk_bd c) = 1073741824" by (auto simp: small_open_fields)
  have ff: "flex_format (ops small_fresh)" using small_available by (simp add: md_available_def)
  obtain c1 bd m where dev: "v07_style_md_open_device example_cx small_fresh large_device = (Inr c1, large_device)"
    and c1: "c = (at_offset (i_headers example_cx) c1)\<lparr>lk_bd := bd, cfg_md := m\<rparr>"
    by (rule last_known_open [OF ff small_available(2) c]) auto
  have "c1 = small_fresh\<lparr>md_hard_sect_size := 512, bd_size := 2147483648\<rparr>" using dev small_open_device(2) by simp
  then have k: "md_offset c = 2147479552" "ops c = DRBD_V09" "md_index c = -3" "bd_size c = 2147483648"
    by (simp_all add: c1 at_offset_def v07_style_md_get_byte_offset_def small_fresh_def example_cfg_def)
  define e where "e = effective_size (cfg_md c)"
  have "(cfg_md c)\<lparr>effective_size := effective_size (cfg_md small_open), effective_size := e\<rparr> = (cfg_md small_open)\<lparr>effective_size := e\<rparr>"
    using md by simp
  then have m: "cfg_md c = small_md\<lparr>effective_size := e\<rparr>" by (simp add: e_def small_open_def)
  have valid: "is_valid_md example_headers DRBD_V09 (small_md\<lparr>effective_size := e\<rparr>) (-3) 1073741824 = Inr True"
    using small_valid by (subst is_valid_cong [where md = small_md]) simp_all
  have old: "md_offset (old_place example_headers c) = 1073737728"
    by (simp add: old_place_def at_offset_def v07_style_md_get_byte_offset_def k lk)
  have sz: "cfg_bitmap_size (old_place example_headers c) = 32768"
    by (simp add: cfg_bitmap_size_def old_place_def at_offset_def m lk small_md_def example_cfg_def bitmap_size_def
        bits_needed_def align_up_def)
  have "healthy large_device" "bd_size c = of_nat (dev_size large_device)" "\<not> close_fails (env large_device)"
    by (simp_all add: k healthy_def large_device_def small_device_def example_world_def example_env_def)
  moreover have "4096 * al_blocks (cfg_md c) = 32768" by (simp add: al_blocks_def m small_md_def example_cfg_def)
  moreover have "md_rep example_headers DRBD_V09 (cfg_md c)" using small_rep by (simp add: m md_rep_defs)
  ultimately have "move_ready example_cx c large_device"
    using valid old sz by (simp add: move_ready_def Let_def k lk flex_format_def v07_style_md_get_byte_offset_def buffer_size_def)
      (simp add: m)
  then show ?thesis
    using that [OF c _ k(1,2)] arg_cong [OF md, of device_uuid] small_open_fields(1) by simp
qed

theorem move_after_resize_complete_witness:
  "\<exists>c c' w'. v08_move_internal_md_after_resize example_cx c large_device = (Inr (0, c'), w')
    \<and> device_uuid (md_read example_headers DRBD_V09 LittleEndian (read_bytes (disk w') 2147479552 4096)) = 5"
proof -
  obtain c where ready: "move_ready example_cx c large_device" and k: "md_offset c = 2147479552" "ops c = DRBD_V09"
    "device_uuid (cfg_md c) = 5" by (rule large_opened)
  have "i_host example_cx = LittleEndian" "i_headers example_cx = example_headers" by (simp_all add: example_cx_def)
  then show ?thesis using move_after_resize_complete [OF ready] k by (fastforce simp: internal_md_def)
qed

theorem check_resize_moves_witness:
  "\<exists>w' md. meta_chk_offline_resize example_cx small_fresh large_device = (Inr 0, w')
    \<and> stored_md example_cx small_fresh w' = Some md \<and> device_uuid md = 5"
proof -
  obtain c where c: "md_open example_cx small_fresh large_device = (Inr (VALID_MD_FOUND_AT_LAST_KNOWN_LOCATION, c), large_device)"
    and ready: "move_ready example_cx c large_device" and u: "device_uuid (cfg_md c) = 5" by (rule large_opened)
  have av: "md_available example_cx small_fresh large_device"
    using small_available by (simp add: md_available_def)
  have "device_uuid (clipped_md c) = 5" using u by (simp add: clipped_md_def internal_md_def)
  then show ?thesis using check_resize_moves [OF av c ready] by blast
qed

theorem check_resize_remembers_witness:
  "\<exists>w' bd. meta_chk_offline_resize example_cx small_fresh small_device = (Inr 0, w')
    \<and> lk_bdev_load ''/var/lib/drbd'' 0 (lk_bd small_fresh) w' = (Inr (0, bd), w') \<and> lk_bd_size bd = 1073741824"
proof -
  have k: "flex_format (ops small_open)" "md_index small_open = DRBD_MD_INDEX_FLEX_INT (i_headers example_cx)"
    by (simp_all add: small_open_def example_cfg_def flex_format_def)
  have "lk_bdev_load (i_libdir example_cx) (i_minor example_cx) b small_device = (Inr (-1, b), small_device)" for b
    by (simp add: lk_bdev_load_def Let_def small_device_def example_world_def)
  moreover obtain w' where "md_close example_cx (small_open\<lparr>update_lk_bdev := True\<rparr>) small_device = (Inr 0, w')"
    using md_close_0 [of "small_open\<lparr>update_lk_bdev := True\<rparr>" small_device example_cx] k
    by (auto simp: small_device_def example_world_def example_env_def)
  moreover have "small_open\<lparr>lk_bd := lk_bd small_open, update_lk_bdev := True\<rparr> = small_open\<lparr>update_lk_bdev := True\<rparr>" by simp
  ultimately have run: "meta_chk_offline_resize example_cx small_fresh small_device = (Inr 0, w')"
    using k by (simp add: meta_chk_offline_resize_def Let_def bind_io_def small_found ret_def)
  have "\<not> dry_run (i_options example_cx)" "i_libdir example_cx = ''/var/lib/drbd''" "i_minor example_cx = 0"
    using large_facts(7) by (simp_all add: example_cx_def)
  then show ?thesis
    using check_resize_remembers [OF small_found k _ large_facts(9,10,8) run, of "lk_bd small_fresh"] run small_open_fields(2)
    by auto
qed

end
