(* ===== verification/Md_Create.thy ===== *)
theory Md_Create
  imports Existing_Data Md_Convert Md_Args Shared_Tool Check_Resize
begin

text \<open>
  Creating and wiping meta data: the initialisation functions of the four formats,
  \<^verbatim>\<open>check_internal_md_flavours\<close>, \<^verbatim>\<open>check_external_md_flavours\<close>,
  \<^verbatim>\<open>meta_create_md\<close> and \<^verbatim>\<open>meta_wipe_md\<close> of \<^verbatim>\<open>user/shared/drbdmeta.c\<close>, and the
  choice of the format on the command line.
\<close>

unbundle bit_operations_syntax

section \<open>Initialisation\<close>

text \<open>\<open>pvs\<close> is what \<^verbatim>\<open>pvs\<close> answers, for the search for existing data.\<close>

definition md_initialize_common ::
  "(string \<Rightarrow> pvs_answer) \<Rightarrow> invocation \<Rightarrow> format_cfg \<Rightarrow> bool \<Rightarrow> (int \<times> format_cfg) io" where
  "md_initialize_common pvs cx cfg do_disk_writes =
    (let H = i_headers cx; opts = i_options cx;
         cfg = cfg\<lparr>cfg_md := (cfg_md cfg)\<lparr>al_nr_extents := 257, bm_bytes_per_bit := 0\<rparr>\<rparr>
     in bind_io (lift_res (re_initialize_md_offsets H (option_bm_block_size opts) cfg)) (\<lambda>cfg.
        if \<not> do_disk_writes then ret (0, cfg)
        else bind_io (check_for_existing_data pvs cx cfg) (\<lambda>_.
          if MD_AL_MAX_SECT_07 * 512 > buffer_size then stop_io (Exit 111)
          else bind_io (initialize_al H (i_host cx) opts cfg) (\<lambda>_.
            bind_io (initialize_bitmap opts cfg) (\<lambda>_. ret (0, cfg))))))"

definition initial_gc :: "u32 list \<Rightarrow> u32 list" where
  "initial_gc g = g[Flags := 0, HumanCnt := 1, TimeoutCnt := 1, ConnectedCnt := 1, ArbitraryCnt := 1]"

definition v06_md_initialize :: "invocation \<Rightarrow> format_cfg \<Rightarrow> (int \<times> format_cfg) io" where
  "v06_md_initialize cx cfg =
    ret (0, cfg\<lparr>cfg_md := (cfg_md cfg)\<lparr>gc := initial_gc (gc (cfg_md cfg)), max_peers := 1,
      magic := DRBD_MD_MAGIC_06 (i_headers cx)\<rparr>\<rparr>)"

definition v07_md_initialize ::
  "(string \<Rightarrow> pvs_answer) \<Rightarrow> invocation \<Rightarrow> format_cfg \<Rightarrow> bool \<Rightarrow> (int \<times> format_cfg) io" where
  "v07_md_initialize pvs cx cfg do_disk_writes =
    (let H = i_headers cx; md = zero_md H in
     md_initialize_common pvs cx (cfg\<lparr>cfg_md := md\<lparr>effective_size := 0, gc := initial_gc (gc md),
       max_peers := 1, magic := DRBD_MD_MAGIC_07 H, al_stripes := 1, al_stripe_size_4k := 8\<rparr>\<rparr>)
       do_disk_writes)"

definition v08_md_initialize ::
  "(string \<Rightarrow> pvs_answer) \<Rightarrow> invocation \<Rightarrow> format_cfg \<Rightarrow> bool \<Rightarrow> (int \<times> format_cfg) io" where
  "v08_md_initialize pvs cx cfg do_disk_writes =
    (let H = i_headers cx; opts = i_options cx; md = zero_md H in
     md_initialize_common pvs cx (cfg\<lparr>cfg_md := md\<lparr>effective_size := 0,
       current_uuid := UUID_JUST_CREATED H,
       peers := (peers md)[0 := (peers md ! 0)\<lparr>bitmap_uuid := 0\<rparr>],
       history_uuids := fill_array (HISTORY_UUIDS H) (\<lambda>_. 0) (history_uuids md),
       flags := MDF_AL_CLEAN H, max_peers := 1, magic := DRBD_MD_MAGIC_08 H,
       al_stripes := option_al_stripes opts, al_stripe_size_4k := option_al_stripe_size_4k opts\<rparr>\<rparr>)
       do_disk_writes)"

definition v09_md_initialize ::
  "(string \<Rightarrow> pvs_answer) \<Rightarrow> invocation \<Rightarrow> format_cfg \<Rightarrow> bool \<Rightarrow> u32 \<Rightarrow> (int \<times> format_cfg) io" where
  "v09_md_initialize pvs cx cfg do_disk_writes max_peers_arg =
    (let H = i_headers cx; opts = i_options cx; md = zero_md H in
     md_initialize_common pvs cx (cfg\<lparr>cfg_md := md\<lparr>effective_size := 0,
       max_peers := max_peers_arg, flags := MDF_AL_CLEAN H, node_id := -1,
       magic := DRBD_MD_MAGIC_09 H, al_stripes := option_al_stripes opts,
       al_stripe_size_4k := option_al_stripe_size_4k opts, current_uuid := UUID_JUST_CREATED H,
       history_uuids := fill_array (HISTORY_UUIDS H) (\<lambda>_. 0) (history_uuids md),
       peers := fill_array (DRBD_NODE_ID_MAX H) (\<lambda>p. (peers md ! p)\<lparr>bitmap_uuid := 0,
         peer_flags := 0, bitmap_index := -1\<rparr>) (peers md)\<rparr>\<rparr>)
       do_disk_writes)"

definition md_initialize ::
  "(string \<Rightarrow> pvs_answer) \<Rightarrow> invocation \<Rightarrow> format_cfg \<Rightarrow> bool \<Rightarrow> u32 \<Rightarrow> (int \<times> format_cfg) io" where
  "md_initialize pvs cx cfg do_disk_writes max_peers_arg = (case ops cfg of
     DRBD_V06 \<Rightarrow> v06_md_initialize cx cfg
   | DRBD_V07 \<Rightarrow> v07_md_initialize pvs cx cfg do_disk_writes
   | DRBD_V08 \<Rightarrow> v08_md_initialize pvs cx cfg do_disk_writes
   | DRBD_V09 \<Rightarrow> v09_md_initialize pvs cx cfg do_disk_writes max_peers_arg
   | DRBD_UNKNOWN \<Rightarrow> stop_io OutOfBounds)"

section \<open>Meta data that is already there\<close>

text \<open>
  The offsets are signed \<^verbatim>\<open>off_t\<close> in the first test. The result is the configuration: its
  meta data has the magic 0, or is the converted one.
\<close>

definition fixed_internal_md :: "invocation \<Rightarrow> format_cfg \<Rightarrow> md_cpu option io" where
  "fixed_internal_md cx cfg =
    (let H = i_headers cx; h = i_host cx;
         fixed_offset = v07_style_md_get_byte_offset H (DRBD_MD_INDEX_INTERNAL H) (bd_size cfg)
     in if 0 \<le> sint fixed_offset \<and> sint fixed_offset < sint (bd_size cfg) - 4096 then
          bind_io (pread_or_die 4096 fixed_offset) (\<lambda>buf.
            let md_test = md_disk_07_to_cpu H h (get_md_07 h buf) in
            bind_io (lift_res (is_valid_md H DRBD_V07 md_test (DRBD_MD_INDEX_INTERNAL H) (bd_size cfg))) (\<lambda>ok.
              ret (if ok then Some md_test else None)))
        else ret None)"

text \<open>The question whether to overwrite meta data of the same format, or to convert it.\<close>

definition overwrite_same :: "invocation \<Rightarrow> format_cfg \<Rightarrow> format_cfg io" where
  "overwrite_same cx cfg =
    (let opts = i_options cx in
     bind_io (if ops cfg \<noteq> DRBD_V07 \<and> (al_stripes (cfg_md cfg) \<noteq> option_al_stripes opts \<or>
           al_stripe_size_4k (cfg_md cfg) \<noteq> option_al_stripe_size_4k opts)
         then bind_io (confirmed_ex opts) (\<lambda>ok. if ok then stop_io (Exit 30) else ret ())
         else ret ()) (\<lambda>_.
     bind_io (confirmed_ex opts) (\<lambda>ok.
       if \<not> ok then stop_io (Exit 1)
       else ret (cfg\<lparr>cfg_md := (cfg_md cfg)\<lparr>magic := 0\<rparr>\<rparr>))))"

definition convert_or_replace :: "invocation \<Rightarrow> format_cfg \<Rightarrow> md_format \<Rightarrow> md_cpu \<Rightarrow> format_cfg io" where
  "convert_or_replace cx cfg have_fmt md_now =
    (let opts = i_options cx in
     bind_io (confirmed_ex opts) (\<lambda>ok.
       if ok then lift_res (convert_md (i_headers cx) (option_bm_block_size opts) (cfg\<lparr>cfg_md := md_now\<rparr>) have_fmt)
       else bind_io (confirmed opts) (\<lambda>ok.
         if \<not> ok then stop_io (Exit 1)
         else ret (cfg\<lparr>cfg_md := (cfg_md cfg)\<lparr>magic := 0\<rparr>\<rparr>))))"

definition check_internal_md_flavours :: "invocation \<Rightarrow> format_cfg \<Rightarrow> format_cfg io" where
  "check_internal_md_flavours cx cfg =
    (let H = i_headers cx; INTERNAL = DRBD_MD_INDEX_INTERNAL H; FLEX_INT = DRBD_MD_INDEX_FLEX_INT H;
         fixed_offset = v07_style_md_get_byte_offset H INTERNAL (bd_size cfg);
         flex_offset = v07_style_md_get_byte_offset H FLEX_INT (bd_size cfg)
     in if md_index cfg \<noteq> INTERNAL \<and> md_index cfg \<noteq> FLEX_INT then stop_io Abort
        else bind_io (fixed_internal_md cx cfg) (\<lambda>fixed.
          bind_io (case fixed of
              Some md \<Rightarrow> ret (Some (DRBD_V07, md))
            | None \<Rightarrow> bind_io (pread_or_die 4096 flex_offset) (\<lambda>buf.
                lift_res (detect_md H (i_host cx) buf (bd_size cfg) FLEX_INT))) (\<lambda>found.
          case found of
            None \<Rightarrow> ret cfg
          | Some (have_fmt, md_now) \<Rightarrow>
              bind_io (if ops cfg = have_fmt then overwrite_same cx cfg
                       else convert_or_replace cx cfg have_fmt md_now) (\<lambda>cfg.
                ret (if have_fmt = DRBD_V07 \<and> fixed \<noteq> None \<and> md_index cfg = FLEX_INT
                     then cfg\<lparr>wipe_fixed := fixed_offset\<rparr>
                     else if (have_fmt \<noteq> DRBD_V07 \<or> fixed = None) \<and> ops cfg = DRBD_V07 \<and> md_index cfg = INTERNAL
                     then cfg\<lparr>wipe_flex := flex_offset\<rparr>
                     else cfg)))))"

definition check_external_md_flavours :: "invocation \<Rightarrow> format_cfg \<Rightarrow> format_cfg io" where
  "check_external_md_flavours cx cfg =
    (let H = i_headers cx; opts = i_options cx in
     if \<not> (md_index cfg \<ge> 0 \<or> md_index cfg = DRBD_MD_INDEX_FLEX_EXT H) then stop_io Abort
     else if magic (cfg_md cfg) \<noteq> 0 then
       bind_io (confirmed opts) (\<lambda>ok.
         if \<not> ok then stop_io (Exit 1) else ret (cfg\<lparr>cfg_md := (cfg_md cfg)\<lparr>magic := 0\<rparr>\<rparr>))
     else bind_io (pread_or_die 4096 (md_offset cfg)) (\<lambda>buf.
       bind_io (lift_res (detect_md H (i_host cx) buf (bd_size cfg) (DRBD_MD_INDEX_FLEX_EXT H))) (\<lambda>found.
         case found of
           None \<Rightarrow> ret cfg
         | Some (have_fmt, md_now) \<Rightarrow> convert_or_replace cx cfg have_fmt md_now)))"

definition wipe_after_convert :: "options \<Rightarrow> format_cfg \<Rightarrow> unit io" where
  "wipe_after_convert opts cfg =
    bind_io (if wipe_fixed cfg \<noteq> 0 then pwrite_or_die opts cfg (replicate 4096 0) (wipe_fixed cfg) else ret ()) (\<lambda>_.
      if wipe_flex cfg \<noteq> 0 then pwrite_or_die opts cfg (replicate 4096 0) (wipe_flex cfg) else ret ())"

section \<open>create-md\<close>

text \<open>
  The options that only \<^verbatim>\<open>create-md\<close> uses. \<open>rnd n\<close> are the random numbers that the n-th
  place of the source that asks for a UUID gets.
\<close>

record create_options =
  option_al_stripes_used :: bool
  option_initial_current_uuid :: "string option"
  option_consistent :: bool
  option_uptodate :: bool
  option_peers_outdated :: bool
  option_rotate_uuids :: bool

text \<open>\<^verbatim>\<open>1<<i\<close> is an \<^verbatim>\<open>int\<close>, sign extended for the comparison with the 64 bit mask.\<close>

definition mark_diskful_peers :: "headers \<Rightarrow> u64 \<Rightarrow> peer_md_cpu list \<Rightarrow> peer_md_cpu list" where
  "mark_diskful_peers H mask_opt ps =
    fold (\<lambda>i ps. if mask_opt AND scast (push_bit i 1 :: u32) \<noteq> 0
                 then ps[i := (ps ! i)\<lparr>peer_flags := peer_flags (ps ! i) OR MDF_PEER_DEVICE_SEEN H\<rparr>] else ps)
      [0..<DRBD_PEERS_MAX H] ps"

definition initial_uuid :: "headers \<Rightarrow> (nat \<Rightarrow> u64) \<Rightarrow> string option \<Rightarrow> md_cpu \<Rightarrow> md_cpu res" where
  "initial_uuid H rnd opt md = (case opt of
     None \<Rightarrow> Inr md
   | Some s \<Rightarrow>
       if s = ''generate'' then bind_res (generate_random_uuid H rnd) (\<lambda>u. Inr (md\<lparr>current_uuid := u\<rparr>))
       else let (u, e, _) = strtoul 16 s in
         if e \<noteq> [] then Inl (Exit 10)
         else let u = u AND NOT 1 in if u = 0 then Inl (Exit 10) else Inr (md\<lparr>current_uuid := u\<rparr>))"

definition fresh_uuid :: "headers \<Rightarrow> (nat \<Rightarrow> u64) \<Rightarrow> md_cpu \<Rightarrow> md_cpu res" where
  "fresh_uuid H rnd md =
    (if current_uuid md = UUID_JUST_CREATED H
     then bind_res (generate_random_uuid H rnd) (\<lambda>u. Inr (md\<lparr>current_uuid := u\<rparr>)) else Inr md)"

definition rotate_uuids :: "headers \<Rightarrow> (nat \<Rightarrow> nat \<Rightarrow> u64) \<Rightarrow> md_cpu \<Rightarrow> md_cpu res" where
  "rotate_uuids H rnd md =
    bind_res (fresh_uuid H (rnd 2) md) (\<lambda>md.
      let rotate_val = current_uuid md;
          md = md\<lparr>peers := fill_array (DRBD_NODE_ID_MAX H) (\<lambda>p. (peers md ! p)\<lparr>bitmap_uuid := rotate_val\<rparr>) (peers md),
            history_uuids := (history_uuids md)[0 := rotate_val]\<rparr>
      in bind_res (generate_random_uuid H (rnd 3)) (\<lambda>u. Inr (md\<lparr>current_uuid := u\<rparr>)))"

definition apply_create_options ::
  "headers \<Rightarrow> options \<Rightarrow> create_options \<Rightarrow> (nat \<Rightarrow> nat \<Rightarrow> u64) \<Rightarrow> bool \<Rightarrow> md_cpu \<Rightarrow> md_cpu res" where
  "apply_create_options H opts co rnd was_converted md =
    (let md = (if \<not> was_converted \<or> option_peer_max_bio_size opts \<noteq> 0
               then md\<lparr>la_peer_max_bio_size := option_peer_max_bio_size opts\<rparr> else md);
         md = (if \<not> was_converted \<or> option_effective_size opts \<noteq> 0
               then md\<lparr>effective_size := option_effective_size opts\<rparr> else md);
         md = md\<lparr>peers := mark_diskful_peers H (option_diskful_peer_mask opts) (peers md)\<rparr>
     in bind_res (initial_uuid H (rnd 0) (option_initial_current_uuid co) md) (\<lambda>md.
        bind_res (if option_consistent co \<or> option_uptodate co then fresh_uuid H (rnd 1) md else Inr md) (\<lambda>md.
          let md = (if option_consistent co then md\<lparr>flags := flags md OR MDF_CONSISTENT H\<rparr> else md);
              md = (if option_uptodate co then md\<lparr>flags := flags md OR (MDF_CONSISTENT H OR MDF_WAS_UP_TO_DATE H)\<rparr> else md);
              md = (if option_peers_outdated co then md\<lparr>peers := fill_array (DRBD_NODE_ID_MAX H)
                 (\<lambda>p. (peers md ! p)\<lparr>peer_flags := peer_flags (peers md ! p) OR MDF_PEER_OUTDATED H\<rparr>) (peers md)\<rparr> else md)
          in if option_rotate_uuids co then rotate_uuids H rnd md else Inr md)))"

text \<open>The 64 bit value of \<^verbatim>\<open>m_strtoll\<close> is cut to an \<^verbatim>\<open>int\<close>.\<close>

definition create_max_peers :: "md_format \<Rightarrow> string list \<Rightarrow> int res" where
  "create_max_peers f argv =
    (if f = DRBD_V09 then (case argv of
        [] \<Rightarrow> Inl (Exit 20)
      | a # _ \<Rightarrow> bind_res (m_strtoll (Some a) (CHR 0x01)) (\<lambda>r. Inr (sint (ucast r :: u32))))
     else Inr 1)"

text \<open>What is left when the new meta data is known: write, wipe and close.\<close>

definition write_created :: "invocation \<Rightarrow> int \<Rightarrow> format_cfg \<Rightarrow> int io" where
  "write_created cx err cfg =
    bind_io (if err \<noteq> 0 then ret (1, cfg) else md_cpu_to_disk cx cfg) (\<lambda>(err, cfg).
    bind_io (if err = 0 then wipe_after_convert (i_options cx) cfg else ret ()) (\<lambda>_.
    bind_io (md_close cx cfg) (\<lambda>c. ret (if c \<noteq> 0 \<or> err \<noteq> 0 then 1 else 0))))"

text \<open>The part after existing meta data was looked at: initialise, or keep what was converted.\<close>

definition initialize_or_keep ::
  "(string \<Rightarrow> pvs_answer) \<Rightarrow> (nat \<Rightarrow> nat \<Rightarrow> u64) \<Rightarrow> create_options \<Rightarrow> invocation \<Rightarrow> int \<Rightarrow> format_cfg \<Rightarrow> int io" where
  "initialize_or_keep pvs rnd co cx max_peers_arg cfg =
    bind_io (if magic (cfg_md cfg) = 0
        then bind_io (md_initialize pvs cx cfg True (of_int max_peers_arg)) (\<lambda>(err, cfg). ret (err, cfg, False))
        else bind_io (check_for_existing_data pvs cx cfg) (\<lambda>_. ret (0, cfg, True))) (\<lambda>(err, cfg, was_converted).
    bind_io (lift_res (apply_create_options (i_headers cx) (i_options cx) co rnd was_converted (cfg_md cfg))) (\<lambda>md.
      write_created cx err (cfg\<lparr>cfg_md := md\<rparr>)))"

definition meta_create_md ::
  "(string \<Rightarrow> pvs_answer) \<Rightarrow> (nat \<Rightarrow> nat \<Rightarrow> u64) \<Rightarrow> create_options \<Rightarrow> invocation \<Rightarrow> format_cfg \<Rightarrow> string list \<Rightarrow> int io" where
  "meta_create_md pvs rnd co cx cfg argv =
    (let H = i_headers cx; opts = i_options cx in
     bind_io (lift_res (create_max_peers (ops cfg) argv)) (\<lambda>max_peers_arg.
     if max_peers_arg < 1 \<or> max_peers_arg > int (DRBD_PEERS_MAX H) - 1 then stop_io (Exit 20)
     else bind_io (md_open cx cfg) (\<lambda>(err, cfg).
       let create = (\<lambda>cfg.
         bind_io (if md_index cfg = DRBD_MD_INDEX_INTERNAL H \<or> md_index cfg = DRBD_MD_INDEX_FLEX_INT H
                  then check_internal_md_flavours cx cfg else check_external_md_flavours cx cfg)
           (initialize_or_keep pvs rnd co cx max_peers_arg))
       in if err = VALID_MD_FOUND_AT_LAST_KNOWN_LOCATION then
            if option_al_stripes_used co \<and> (option_al_stripes opts \<noteq> al_stripes (cfg_md cfg) \<or>
                option_al_stripe_size_4k opts \<noteq> al_stripe_size_4k (cfg_md cfg))
            then stop_io (Exit 20)
            else bind_io (if force opts then ret False else confirmed opts) (\<lambda>move.
              if move then bind_io (check_for_existing_data pvs cx cfg) (\<lambda>_.
                bind_io (v08_move_internal_md_after_resize cx cfg) (\<lambda>(r, _). ret r))
              else create (cfg\<lparr>cfg_md := zero_md H\<rparr>))
          else create cfg)))"

section \<open>wipe-md\<close>

definition meta_wipe_md :: "invocation \<Rightarrow> format_cfg \<Rightarrow> int io" where
  "meta_wipe_md cx cfg =
    bind_io (md_open cx cfg) (\<lambda>(virgin, cfg).
      if virgin \<noteq> VALID_MD_FOUND then ret 0
      else bind_io (confirmed (i_options cx)) (\<lambda>ok.
        if \<not> ok then stop_io (Exit 1)
        else bind_io (pwrite_or_die (i_options cx) cfg (replicate 4096 0) (md_offset cfg)) (\<lambda>_.
          bind_io (md_close cx cfg) (\<lambda>err.
          bind_io (lk_bdev_delete (i_libdir cx) (i_minor cx)) (\<lambda>_. ret err)))))"

section \<open>The format on the command line\<close>

text \<open>
  \<open>libdir\<close> is the directory of v06 meta data. \<open>None\<close>: an error message and the result -1;
  otherwise the format, the name of the meta data device and the index.
\<close>

definition format_names :: "(string \<times> md_format) list" where
  "format_names = [(''v06'', DRBD_V06), (''v07'', DRBD_V07), (''v08'', DRBD_V08), (''v09'', DRBD_V09)]"

definition parse_format :: "headers \<Rightarrow> string \<Rightarrow> string list \<Rightarrow> (md_format \<times> string \<times> int) option res" where
  "parse_format H libdir argv = (case argv of
     [] \<Rightarrow> Inr None
   | a # args \<Rightarrow> (case map_of format_names a of
       None \<Rightarrow> Inr None
     | Some DRBD_V06 \<Rightarrow> bind_res (v06_parse libdir args) (\<lambda>name. Inr (Some (DRBD_V06, name, 0)))
     | Some f \<Rightarrow> Inr (case v07_parse H f args of None \<Rightarrow> None | Some (dev, idx) \<Rightarrow> Some (f, dev, idx))))"

end
