(* ===== verification/Dump_Md.thy ===== *)
theory Dump_Md
  imports Al_Dump Md_Create
begin

text \<open>
  \<^verbatim>\<open>dump-md\<close> of \<^verbatim>\<open>user/shared/drbdmeta.c\<close>: \<^verbatim>\<open>print_dump_header\<close>,
  \<^verbatim>\<open>pretty_peer_md_flags\<close> and \<^verbatim>\<open>meta_dump_md\<close>, with what the scanner makes of the printed
  text.
\<close>

unbundle bit_operations_syntax

section \<open>The parts of a dump\<close>

definition X64 :: "u64 \<Rightarrow> string" where "X64 v = ''0x'' @ show_hex 16 (unat v)"
definition X32 :: "u32 \<Rightarrow> string" where "X32 v = ''0x'' @ show_hex 8 (unat v)"

text \<open>
  The time, the name of the host and the command line are only shown. \<open>on_disk_buffer\<close> is what the
  buffer holds when the activity log is read into it.
\<close>

record dump_context =
  time_str :: string
  hostname :: string
  global_argv :: "string list"
  verbose :: nat
  on_disk_buffer :: bytes

definition print_dump_header :: "dump_context \<Rightarrow> string" where
  "print_dump_header dc =
    ''# DRBD meta data dump'' @ nl @ ''# '' @ time_str dc @ nl @
    ''# '' @ hostname dc @ ''>'' @ concat (map (\<lambda>a. '' '' @ a) (global_argv dc)) @ nl @ ''#'' @ nl @ nl"

definition flag_name :: "nat \<Rightarrow> string option" where
  "flag_name i = map_of [(0, ''connected''), (1, ''<=outdated''), (2, ''fencing''), (3, ''full-sync''), (4, ''seen''), (16, ''exists'')] i"

text \<open>The loop over the bits; \<open>n\<close> is the room that is left, the terminating zero included.\<close>

fun pretty_flags_loop :: "nat list \<Rightarrow> nat \<Rightarrow> u32 \<Rightarrow> string \<Rightarrow> string \<Rightarrow> string" where
  "pretty_flags_loop [] n fl cur_sep sep = []"
| "pretty_flags_loop (i # is) n fl cur_sep sep =
    (if \<not> bit fl i then pretty_flags_loop is n fl cur_sep sep
     else let piece = cur_sep @ (case flag_name i of Some s \<Rightarrow> s | None \<Rightarrow> ''0x'' @ show_base False 16 (2 ^ i) @ ''=?'')
          in if length piece \<ge> n then take (n - 1) piece
             else piece @ pretty_flags_loop is (n - length piece) fl sep sep)"

definition pretty_peer_md_flags :: "nat \<Rightarrow> u32 \<Rightarrow> string \<Rightarrow> string \<Rightarrow> string" where
  "pretty_peer_md_flags buf_size fl first_sep sep = pretty_flags_loop [0..<32] buf_size fl first_sep sep"

definition dump_gc :: "md_cpu \<Rightarrow> string" where
  "dump_gc md = ''gc {'' @ nl @ ''   '' @ concat (map (\<lambda>i. '' '' @ show_d (gc md ! i) @ '';'') [0..<GEN_CNT_SIZE]) @ nl @ ''}'' @ nl"

definition dump_uuid :: "md_cpu \<Rightarrow> string" where
  "dump_uuid md = ''uuid {'' @ nl @ ''    '' @ X64 (current_uuid md) @ ''; '' @ X64 (bitmap_uuid (peers md ! 0)) @ ''; '' @
     X64 (history_uuids md ! 0) @ ''; '' @ X64 (history_uuids md ! 1) @ '';'' @ nl @
     ''    flags '' @ X32 (flags md) @ '';'' @ nl @ ''}'' @ nl"

definition dump_peer :: "nat \<Rightarrow> peer_md_cpu \<Rightarrow> string" where
  "dump_peer i peer = ''peer['' @ show_nat i @ ''] {'' @ nl @
     ''    bitmap-index '' @ show_d (bitmap_index peer) @ '';'' @ nl @
     ''    bitmap-uuid '' @ X64 (bitmap_uuid peer) @ '';'' @ nl @
     ''    bitmap-dagtag '' @ X64 (bitmap_dagtag peer) @ '';'' @ nl @
     ''    flags '' @ X32 (peer_flags peer) @ '';'' @ pretty_peer_md_flags 80 (peer_flags peer) '' # '' '' | '' @ nl @ ''}'' @ nl"

definition dump_history :: "u64 list \<Rightarrow> string" where
  "dump_history us = ''history-uuids {'' @
     concat (map (\<lambda>i. (if i mod 4 \<noteq> 0 then '' '' else nl @ ''        '') @ X64 (us ! i) @ '';'') [0..<length us]) @ nl @ ''}'' @ nl"

definition dump_v09 :: "headers \<Rightarrow> md_cpu \<Rightarrow> string" where
  "dump_v09 H md = ''node-id '' @ show_d (node_id md) @ '';'' @ nl @
     ''current-uuid '' @ X64 (current_uuid md) @ '';'' @ nl @
     ''flags '' @ X32 (flags md) @ '';'' @ nl @
     ''members '' @ X64 (members md) @ '';'' @ nl @
     concat (map (\<lambda>i. dump_peer i (peers md ! i)) [0..<DRBD_NODE_ID_MAX H]) @ dump_history (history_uuids md)"

definition dump_super_block :: "headers \<Rightarrow> md_format \<Rightarrow> md_cpu \<Rightarrow> string" where
  "dump_super_block H f md = (case f of
     DRBD_V06 \<Rightarrow> dump_gc md | DRBD_V07 \<Rightarrow> dump_gc md | DRBD_V08 \<Rightarrow> dump_uuid md | DRBD_V09 \<Rightarrow> dump_v09 H md | DRBD_UNKNOWN \<Rightarrow> [])"

definition dump_sizes :: "md_format \<Rightarrow> md_cpu \<Rightarrow> string" where
  "dump_sizes f md = ''# al-extents '' @ show_nat (unat (al_nr_extents md)) @ '';'' @ nl @
     ''la-size-sect '' @ show_nat (unat (effective_size md)) @ '';'' @ nl @
     (if format_version f \<ge> format_version DRBD_V08 then
        ''bm-byte-per-bit '' @ show_nat (unat (bm_bytes_per_bit md)) @ '';'' @ nl @
        ''device-uuid '' @ X64 (device_uuid md) @ '';'' @ nl @
        ''la-peer-max-bio-size '' @ show_d (la_peer_max_bio_size md) @ '';'' @ nl @
        ''al-stripes '' @ show_nat (unat (al_stripes md)) @ '';'' @ nl @
        ''al-stripe-size-4k '' @ show_nat (unat (al_stripe_size_4k md)) @ '';'' @ nl
      else [])"

definition format_name :: "md_format \<Rightarrow> string" where
  "format_name f = (case f of DRBD_V06 \<Rightarrow> ''v06'' | DRBD_V07 \<Rightarrow> ''v07'' | DRBD_V08 \<Rightarrow> ''v08'' | DRBD_V09 \<Rightarrow> ''v09'' | DRBD_UNKNOWN \<Rightarrow> [])"

definition al_is_clean :: "headers \<Rightarrow> md_cpu \<Rightarrow> bool" where
  "al_is_clean H md \<longleftrightarrow> DRBD_MD_MAGIC_84_UNCLEAN H \<noteq> magic md \<and> flags md AND MDF_AL_CLEAN H \<noteq> 0"

definition unclean_warning :: string where
  "unclean_warning = ''This_is_an_unclean_meta_data_dump._Don'' @ CHR 0x27 # ''t_trust_the_bitmap.'' @ nl @
     ''# You should '' @ CHR 0x22 # ''apply-al'' @ CHR 0x22 # '' first, if you plan to restore this.'' @ nl @ nl"

definition dump_start :: "headers \<Rightarrow> dump_context \<Rightarrow> md_format \<Rightarrow> md_cpu \<Rightarrow> string" where
  "dump_start H dc f md = print_dump_header dc @ ''version '' @ CHR 0x22 # format_name f @ CHR 0x22 # '';'' @ nl @ nl @
     (if al_is_clean H md then [] else unclean_warning) @
     (if format_version f \<ge> format_version DRBD_V09 then ''max-peers '' @ show_d (max_peers md) @ '';'' @ nl else []) @
     ''# md_size_sect '' @ show_nat (unat (md_size_sect md)) @ nl"

definition dump_offsets :: "string \<Rightarrow> format_cfg \<Rightarrow> string" where
  "dump_offsets mark cfg = mark @ '' md_offset '' @ show_nat (unat (md_offset cfg)) @ nl @
     mark @ '' al_offset '' @ show_nat (unat (cfg_al_offset cfg)) @ nl @
     mark @ '' bm_offset '' @ show_nat (unat (cfg_bm_offset cfg)) @ nl"

definition dump_resized :: "invocation \<Rightarrow> format_cfg \<Rightarrow> string" where
  "dump_resized cx cfg = ''#'' @ nl @ ''### Device seems to have been resized!'' @ nl @
     ''### dumping meta data from the last known position'' @ nl @
     ''### current size of '' @ i_md_device_name cx @ '': '' @ show_nat (unat (bd_size cfg)) @ '' byte'' @ nl @
     ''### expected position of meta data:'' @ nl @ dump_offsets ''##'' cfg @
     ''### last known size of '' @ (case lk_bd_name (lk_bd cfg) of None \<Rightarrow> ''-?-'' | Some s \<Rightarrow> s) @ '': '' @
       show_nat (unat (lk_bd_size (lk_bd cfg))) @ '' byte'' @ nl @
     ''### adjusted position of meta data:'' @ nl"

definition last_known_cfg :: "headers \<Rightarrow> format_cfg \<Rightarrow> format_cfg res" where
  "last_known_cfg H cfg =
    (let md = cfg_md cfg; off = v07_style_md_get_byte_offset H (DRBD_MD_INDEX_FLEX_INT H) (lk_bd_size (lk_bd cfg));
         cfg = cfg\<lparr>md_offset := off, cfg_al_offset := off + scast (al_offset md) * 512, cfg_bm_offset := off + scast (bm_offset md) * 512\<rparr>
     in bind_res (bm_bytes H md (effective_size md)) (\<lambda>b. Inr (cfg\<lparr>cfg_bm_bytes := b\<rparr>)))"

section \<open>The command\<close>

definition dump_bitmap :: "headers \<Rightarrow> host \<Rightarrow> format_cfg \<Rightarrow> format_cfg io" where
  "dump_bitmap H h cfg =
    bind_io (say (''# bm-bytes '' @ show_nat (unat (cfg_bm_bytes cfg)) @ '';'' @ nl)) (\<lambda>_.
    bind_io (printf_bm H h cfg) (\<lambda>(s, cfg).
    bind_io (say (s @ ''# bits-set '' @ show_nat (unat (bits_set cfg)) @ '';'' @ nl)) (\<lambda>_. ret cfg)))"

definition dump_al :: "dump_context \<Rightarrow> headers \<Rightarrow> host \<Rightarrow> format_cfg \<Rightarrow> unit io" where
  "dump_al dc H h cfg = (if verbose dc \<ge> 10 then bind_io (printf_al H h cfg (on_disk_buffer dc)) say else ret ())"

definition meta_dump_md :: "dump_context \<Rightarrow> invocation \<Rightarrow> format_cfg \<Rightarrow> int io" where
  "meta_dump_md dc cx cfg =
    (let H = i_headers cx; h = i_host cx in
     bind_io (md_open cx cfg) (\<lambda>(rc, cfg).
       if rc = NO_VALID_MD_FOUND then ret (-1)
       else if \<not> al_is_clean H (cfg_md cfg) \<and> \<not> force (i_options cx) then ret (-1)
       else bind_io (say (dump_start H dc (ops cfg) (cfg_md cfg))) (\<lambda>_.
         bind_io (if rc = VALID_MD_FOUND_AT_LAST_KNOWN_LOCATION
                  then bind_io (say (dump_resized cx cfg)) (\<lambda>_. lift_res (last_known_cfg H cfg)) else ret cfg) (\<lambda>cfg.
         bind_io (say (dump_offsets ''#'' cfg @ nl @ dump_super_block H (ops cfg) (cfg_md cfg))) (\<lambda>_.
         bind_io (if format_version (ops cfg) \<ge> format_version DRBD_V07
                  then bind_io (say (dump_sizes (ops cfg) (cfg_md cfg))) (\<lambda>_. bind_io (dump_bitmap H h cfg) (\<lambda>cfg.
                    bind_io (dump_al dc H h cfg) (\<lambda>_. ret cfg)))
                  else ret cfg) (\<lambda>cfg.
           md_close cx cfg))))))"

section \<open>What the scanner makes of it\<close>

lemma yylex_X64: "yylex_all (X64 v @ CHR '';'' # r) = TK_U64 v # TK_OP (CHR '';'') # yylex_all r"
  using yylex_u64 [of "CHR '';'' # r" "unat v"] unat_less [of v] by (simp add: X64_def)

lemma yylex_X32: "yylex_all (X32 v @ CHR '';'' # r) = TK_U32 (ucast v) # TK_OP (CHR '';'') # yylex_all r"
  using yylex_u32 [of "CHR '';'' # r" "unat v"] unat_less [of v] by (simp add: X32_def)

lemma yylex_show_d: "yylex_all (show_d v @ CHR '';'' # r) = TK_NUM (scast v) # TK_OP (CHR '';'') # yylex_all r"
proof -
  have "- (2 ^ 31) \<le> sint v" "sint v < 2 ^ 31" using sint_range_size [of v] by (simp_all add: word_size)
  then show ?thesis using yylex_int [of "CHR '';'' # r" "sint v"] by (simp add: show_d_def)
qed

lemma yylex_show_nat: "n < 10 ^ 19 \<Longrightarrow> yylex_all (show_nat n @ CHR '';'' # r) = TK_NUM (of_nat n) # TK_OP (CHR '';'') # yylex_all r"
  using yylex_nat [of "CHR '';'' # r" n] by simp

lemma yylex_u32_nat: "yylex_all (show_nat (unat (v :: u32)) @ CHR '';'' # r) = TK_NUM (ucast v) # TK_OP (CHR '';'') # yylex_all r"
  using yylex_show_nat [of "unat v" r] unat_less [of v] by simp

lemma yylex_keyword_space: "(w, tk) \<in> set keyword_table \<Longrightarrow> yylex_all (w @ CHR '' '' # r) = tk # yylex_all r"
  using yylex_keyword [of w tk "CHR '' '' # r"] by simp

lemma yylex_keyword_texts:
  "yylex_all (''gc '' @ r) = TK_GC # yylex_all r" "yylex_all (''uuid '' @ r) = TK_UUID # yylex_all r"
  "yylex_all (''version '' @ r) = TK_VERSION # yylex_all r" "yylex_all (''members '' @ r) = TK_MEMBERS # yylex_all r"
  "yylex_all (''la-size-sect '' @ r) = TK_LA_SIZE # yylex_all r" "yylex_all (''bm-byte-per-bit '' @ r) = TK_BM_BYTE_PER_BIT # yylex_all r"
  "yylex_all (''device-uuid '' @ r) = TK_DEVICE_UUID # yylex_all r" "yylex_all (''flags '' @ r) = TK_FLAGS # yylex_all r"
  "yylex_all (''al-stripes '' @ r) = TK_AL_STRIPES # yylex_all r" "yylex_all (''al-stripe-size-4k '' @ r) = TK_AL_STRIPE_SIZE_4K # yylex_all r"
  "yylex_all (''la-peer-max-bio-size '' @ r) = TK_LA_BIO_SIZE # yylex_all r" "yylex_all (''node-id '' @ r) = TK_NODE_ID # yylex_all r"
  "yylex_all (''current-uuid '' @ r) = TK_CURRENT_UUID # yylex_all r" "yylex_all (''bitmap-uuid '' @ r) = TK_BITMAP_UUID # yylex_all r"
  "yylex_all (''bitmap-dagtag '' @ r) = TK_BITMAP_DAGTAG # yylex_all r" "yylex_all (''history-uuids '' @ r) = TK_HISTORY_UUIDS # yylex_all r"
  "yylex_all (''max-peers '' @ r) = TK_MAX_PEERS # yylex_all r" "yylex_all (''bitmap-index '' @ r) = TK_BITMAP_INDEX # yylex_all r"
  using yylex_keyword_space [of "''gc''" TK_GC r] yylex_keyword_space [of "''uuid''" TK_UUID r] yylex_keyword_space [of "''version''" TK_VERSION r]
    yylex_keyword_space [of "''members''" TK_MEMBERS r] yylex_keyword_space [of "''la-size-sect''" TK_LA_SIZE r]
    yylex_keyword_space [of "''bm-byte-per-bit''" TK_BM_BYTE_PER_BIT r] yylex_keyword_space [of "''device-uuid''" TK_DEVICE_UUID r]
    yylex_keyword_space [of "''flags''" TK_FLAGS r] yylex_keyword_space [of "''al-stripes''" TK_AL_STRIPES r]
    yylex_keyword_space [of "''al-stripe-size-4k''" TK_AL_STRIPE_SIZE_4K r] yylex_keyword_space [of "''la-peer-max-bio-size''" TK_LA_BIO_SIZE r]
    yylex_keyword_space [of "''node-id''" TK_NODE_ID r] yylex_keyword_space [of "''current-uuid''" TK_CURRENT_UUID r]
    yylex_keyword_space [of "''bitmap-uuid''" TK_BITMAP_UUID r] yylex_keyword_space [of "''bitmap-dagtag''" TK_BITMAP_DAGTAG r]
    yylex_keyword_space [of "''history-uuids''" TK_HISTORY_UUIDS r] yylex_keyword_space [of "''max-peers''" TK_MAX_PEERS r]
    yylex_keyword_space [of "''bitmap-index''" TK_BITMAP_INDEX r]
  by (simp_all add: keyword_table_def)

lemma yylex_peer_word: "yylex_all (''peer['' @ r) = TK_PEER # TK_OP (CHR ''['') # yylex_all r"
  using yylex_keyword [of "''peer''" TK_PEER "CHR ''['' # r"] by (simp add: keyword_table_def)

lemmas yylex_texts = yylex_keyword_texts [unfolded append_Cons append_Nil] yylex_peer_word [unfolded append_Cons append_Nil]
  yylex_X64 yylex_X32 yylex_show_d yylex_u32_nat

section \<open>The tokens of a dump\<close>

abbreviation semi :: token where "semi \<equiv> TK_OP (CHR '';'')"
abbreviation lbrace :: token where "lbrace \<equiv> TK_OP (CHR ''{'')"
abbreviation rbrace :: token where "rbrace \<equiv> TK_OP (CHR ''}'')"

definition gc_tokens :: "u32 list \<Rightarrow> token list" where
  "gc_tokens g = TK_GC # lbrace # concat (map (\<lambda>i. [TK_NUM (scast (g ! i)), semi]) [0..<GEN_CNT_SIZE]) @ [rbrace]"

definition uuid_tokens :: "md_cpu \<Rightarrow> token list" where
  "uuid_tokens md = [TK_UUID, lbrace, TK_U64 (current_uuid md), semi, TK_U64 (bitmap_uuid (peers md ! 0)), semi,
     TK_U64 (history_uuids md ! 0), semi, TK_U64 (history_uuids md ! 1), semi, TK_FLAGS, TK_U32 (ucast (flags md)), semi, rbrace]"

definition peer_slot_tokens :: "nat \<Rightarrow> peer_md_cpu \<Rightarrow> token list" where
  "peer_slot_tokens i p = [TK_PEER, TK_OP (CHR ''[''), TK_NUM (of_nat i), TK_OP (CHR '']''), lbrace,
     TK_BITMAP_INDEX, TK_NUM (scast (bitmap_index p)), semi, TK_BITMAP_UUID, TK_U64 (bitmap_uuid p), semi,
     TK_BITMAP_DAGTAG, TK_U64 (bitmap_dagtag p), semi, TK_FLAGS, TK_U32 (ucast (peer_flags p)), semi, rbrace]"

definition v09_tokens :: "headers \<Rightarrow> md_cpu \<Rightarrow> token list" where
  "v09_tokens H md = [TK_NODE_ID, TK_NUM (scast (node_id md)), semi, TK_CURRENT_UUID, TK_U64 (current_uuid md), semi,
     TK_FLAGS, TK_U32 (ucast (flags md)), semi, TK_MEMBERS, TK_U64 (members md), semi] @
     concat (map (\<lambda>i. peer_slot_tokens i (peers md ! i)) [0..<DRBD_NODE_ID_MAX H]) @
     [TK_HISTORY_UUIDS, lbrace] @ concat (map (\<lambda>u. [TK_U64 u, semi]) (history_uuids md)) @ [rbrace]"

definition super_tokens :: "headers \<Rightarrow> md_format \<Rightarrow> md_cpu \<Rightarrow> token list" where
  "super_tokens H f md = (case f of
     DRBD_V06 \<Rightarrow> gc_tokens (gc md) | DRBD_V07 \<Rightarrow> gc_tokens (gc md) | DRBD_V08 \<Rightarrow> uuid_tokens md | DRBD_V09 \<Rightarrow> v09_tokens H md | DRBD_UNKNOWN \<Rightarrow> [])"

definition size_tokens :: "md_format \<Rightarrow> md_cpu \<Rightarrow> token list" where
  "size_tokens f md = [TK_LA_SIZE, TK_NUM (effective_size md), semi] @
     (if format_version f \<ge> format_version DRBD_V08 then
        [TK_BM_BYTE_PER_BIT, TK_NUM (ucast (bm_bytes_per_bit md)), semi, TK_DEVICE_UUID, TK_U64 (device_uuid md), semi,
         TK_LA_BIO_SIZE, TK_NUM (scast (la_peer_max_bio_size md)), semi, TK_AL_STRIPES, TK_NUM (ucast (al_stripes md)), semi,
         TK_AL_STRIPE_SIZE_4K, TK_NUM (ucast (al_stripe_size_4k md)), semi]
      else [])"

lemma yylex_concat:
  assumes "\<And>i r. i \<in> set is \<Longrightarrow> yylex_all (f i @ r) = g i @ yylex_all r"
  shows "yylex_all (concat (map f is) @ r) = concat (map g is) @ yylex_all r"
  using assms by (induction "is") simp_all

lemma yylex_gc: "yylex_all (dump_gc md @ r) = gc_tokens (gc md) @ yylex_all r"
proof -
  have "yylex_all (concat (map (\<lambda>i. '' '' @ show_d (gc md ! i) @ '';'') [0..<GEN_CNT_SIZE]) @ s) =
    concat (map (\<lambda>i. [TK_NUM (scast (gc md ! i)), semi]) [0..<GEN_CNT_SIZE]) @ yylex_all s" for s
    by (rule yylex_concat) (simp add: yylex_texts)
  then show ?thesis by (simp add: dump_gc_def gc_tokens_def yylex_texts)
qed

lemma yylex_uuid: "yylex_all (dump_uuid md @ r) = uuid_tokens md @ yylex_all r"
  by (simp add: dump_uuid_def uuid_tokens_def yylex_texts)

text \<open>The names of the flags are a comment: after the first separator no character ends the line.\<close>

lemma pretty_loop_line: "CHR 0x0A \<notin> set cur \<Longrightarrow> CHR 0x0A \<notin> set sep \<Longrightarrow> CHR 0x0A \<notin> set (pretty_flags_loop is n fl cur sep)"
proof (induction "is" arbitrary: n cur)
  case (Cons i "is")
  have name: "CHR 0x0A \<notin> set s" if "flag_name i = Some s" for s
    using that by (auto simp: flag_name_def split: if_splits)
  have "CHR 0x0A \<notin> set (show_base False 16 (2 ^ i))" using show_base_digits [of 16 False "2 ^ i"] by (auto simp: digit_value_def)
  moreover define piece where "piece = cur @ (case flag_name i of Some s \<Rightarrow> s | None \<Rightarrow> ''0x'' @ show_base False 16 (2 ^ i) @ ''=?'')"
  ultimately have p: "CHR 0x0A \<notin> set piece" using Cons.prems name by (auto split: option.split)
  then have "CHR 0x0A \<notin> set (take k piece)" for k by (meson in_set_takeD)
  then show ?case
    using p Cons.IH [OF Cons.prems(2,2)] Cons.IH [OF Cons.prems] unfolding pretty_flags_loop.simps Let_def piece_def [symmetric] by simp
qed simp

lemma pretty_loop_start:
  "3 < n \<Longrightarrow> length cur = 3 \<Longrightarrow> pretty_flags_loop is n fl cur sep = [] \<or> take 3 (pretty_flags_loop is n fl cur sep) = cur"
  by (induction "is") (auto simp: Let_def min_def)

lemma yylex_flag_names: "yylex_all (pretty_peer_md_flags 80 fl '' # '' '' | '' @ CHR 0x0A # r) = yylex_all r"
proof -
  let ?s = "pretty_peer_md_flags 80 fl '' # '' '' | ''"
  have line: "CHR 0x0A \<notin> set ?s" unfolding pretty_peer_md_flags_def by (rule pretty_loop_line) simp_all
  show ?thesis
  proof (cases "?s = []")
    case False
    then have "take 3 ?s = '' # ''" using pretty_loop_start [of 80 "'' # ''" "[0..<32]" fl "'' | ''"] by (simp add: pretty_peer_md_flags_def)
    then have s: "?s = '' # '' @ drop 3 ?s" using append_take_drop_id [of 3 ?s] by simp
    have "CHR 0x0A \<notin> set (drop 3 ?s)" using line by (meson in_set_dropD)
    then show ?thesis by (subst s) (simp add: yylex_comment_line drop_to_newline)
  qed simp
qed

lemma yylex_peer_slot: "i < 10 ^ 19 \<Longrightarrow> yylex_all (dump_peer i p @ r) = peer_slot_tokens i p @ yylex_all r"
  by (simp add: dump_peer_def peer_slot_tokens_def yylex_texts yylex_num_bracket yylex_flag_names)

lemma yylex_history: "yylex_all (dump_history us @ r) = [TK_HISTORY_UUIDS, lbrace] @ concat (map (\<lambda>u. [TK_U64 u, semi]) us) @ rbrace # yylex_all r"
proof -
  have "yylex_all (concat (map (\<lambda>i. (if i mod 4 \<noteq> 0 then '' '' else nl @ ''        '') @ X64 (us ! i) @ '';'') [0..<length us]) @ s) =
      concat (map (\<lambda>i. [TK_U64 (us ! i), semi]) [0..<length us]) @ yylex_all s" for s
    by (rule yylex_concat) (simp add: yylex_texts)
  moreover have "concat (map (\<lambda>i. [TK_U64 (us ! i), semi]) [0..<length us]) = concat (map (\<lambda>u. [TK_U64 u, semi]) us)"
    by (rule arg_cong [of _ _ concat]) (rule nth_equalityI; simp)
  ultimately show ?thesis by (simp add: dump_history_def yylex_texts)
qed

lemma yylex_v09:
  assumes "DRBD_NODE_ID_MAX H < 10 ^ 19"
  shows "yylex_all (dump_v09 H md @ r) = v09_tokens H md @ yylex_all r"
proof -
  have "yylex_all (concat (map (\<lambda>i. dump_peer i (peers md ! i)) [0..<DRBD_NODE_ID_MAX H]) @ s) =
      concat (map (\<lambda>i. peer_slot_tokens i (peers md ! i)) [0..<DRBD_NODE_ID_MAX H]) @ yylex_all s" for s
    by (rule yylex_concat) (use assms in \<open>simp add: yylex_peer_slot\<close>)
  then show ?thesis by (simp add: dump_v09_def v09_tokens_def yylex_texts yylex_history)
qed

lemma yylex_super_block:
  assumes "DRBD_NODE_ID_MAX H < 10 ^ 19"
  shows "yylex_all (dump_super_block H f md @ r) = super_tokens H f md @ yylex_all r"
  by (cases f) (simp_all add: dump_super_block_def super_tokens_def yylex_gc yylex_uuid yylex_v09 [OF assms])

lemma yylex_sizes:
  assumes "unat (effective_size md) < 10 ^ 19"
  shows "yylex_all (dump_sizes f md @ r) = size_tokens f md @ yylex_all r"
  using assms by (simp add: dump_sizes_def size_tokens_def yylex_texts yylex_comment_line drop_to_newline yylex_show_nat)

lemma yylex_offsets: "yylex_all (dump_offsets ''#'' cfg @ r) = yylex_all r"
  by (simp add: dump_offsets_def yylex_comment_line drop_to_newline)

text \<open>The comments at the start must not end early.\<close>

definition plain_context :: "dump_context \<Rightarrow> bool" where
  "plain_context dc \<longleftrightarrow> CHR 0x0A \<notin> set (time_str dc) \<and> CHR 0x0A \<notin> set (hostname dc) \<and> (\<forall>a\<in>set (global_argv dc). CHR 0x0A \<notin> set a)"

lemma yylex_header: "plain_context dc \<Longrightarrow> yylex_all (print_dump_header dc @ r) = yylex_all r"
  by (simp add: print_dump_header_def plain_context_def yylex_comment_line drop_to_newline)

definition start_tokens :: "md_format \<Rightarrow> md_cpu \<Rightarrow> token list" where
  "start_tokens f md = [TK_VERSION, TK_STRING (format_name f), semi] @
     (if format_version f \<ge> format_version DRBD_V09 then [TK_MAX_PEERS, TK_NUM (scast (max_peers md)), semi] else [])"

lemma yylex_version:
  assumes "f \<noteq> DRBD_UNKNOWN"
  shows "yylex_all (CHR 0x22 # format_name f @ CHR 0x22 # CHR '';'' # r) = TK_STRING (format_name f) # semi # yylex_all r"
  using yylex_string [of "format_name f" "CHR '';'' # r"] assms
  by (cases f) (simp_all add: format_name_def string_char_def)

lemma yylex_unknown:
  assumes w: "word t rest" and k: "t \<notin> fst ` set keyword_table" and hd: "\<not> isdigit (hd t)" "hd t \<noteq> CHR ''-''"
  shows "yylex_all (t @ rest) = TK_INVALID # yylex_all rest"
proof -
  let ?f = "map (\<lambda>(w, tk). (match_word w, \<lambda>_. Some tk))"
  let ?inv = "[(match_run [dquote] string_char 1 20, \<lambda>_. Some TK_INVALID), (match_empty_string, \<lambda>_. Some TK_INVALID),
     (match_run ''0x'' isxdigit 0 17, \<lambda>_. Some TK_INVALID), (match_num 2 20, \<lambda>_. Some TK_INVALID)]"
  have rules: "scanner_rules = (take 7 scanner_rules @ ?f keyword_table @ ?inv) @ (match_run [] token_char 1 100, \<lambda>_. Some TK_INVALID) #
      [(match_one invalid_char, \<lambda>_. Some TK_INVALID_CHAR)]"
    by (simp add: scanner_rules_def)
  obtain x xs where x: "t = x # xs" "\<not> isdigit x" "x \<noteq> CHR ''-''" using w hd by (cases t) (auto simp: word_def)
  have z: "match_run ''0x'' isxdigit lo hi (t @ rest) = 0" "0 < lo \<Longrightarrow> match_num lo hi (t @ rest) = 0" for lo hi
    using x by (auto simp: match_run_def match_num_def isdigit_def)
  have seven: "set (take 7 scanner_rules) = insert (match_num 1 19, \<lambda>t. Some (TK_NUM (fst (strtoul 10 t)))) (set (take 6 scanner_rules))"
    by (auto simp: scanner_rules_def)
  have zero: "m (t @ rest) = 0" if "(m, a) \<in> set (take 7 scanner_rules) \<union> set ?inv" for m and a :: "string \<Rightarrow> token option"
    using that z word_first [OF w] unfolding seven first_word_rules by auto
  have kw: "m (t @ rest) \<noteq> length t" if "(m, a) \<in> set (?f keyword_table)" for m and a :: "string \<Rightarrow> token option"
  proof -
    from that obtain w' tk' where m: "(w', tk') \<in> set keyword_table" "m = match_word w'" by auto
    then show ?thesis using match_word_word(2) [OF w m(1)] k by force
  qed
  have pre: "\<forall>(m', _)\<in>set (take 7 scanner_rules @ ?f keyword_table @ ?inv). m' (t @ rest) \<noteq> length t"
  proof (intro ballI, clarify)
    fix m and a :: "string \<Rightarrow> token option"
    assume "(m, a) \<in> set (take 7 scanner_rules @ ?f keyword_table @ ?inv)" and e: "m (t @ rest) = length t"
    then have "(m, a) \<in> set (take 7 scanner_rules) \<union> set ?inv \<or> (m, a) \<in> set (?f keyword_table)" unfolding set_append by blast
    then show False using zero kw e x(1) by (metis length_0_conv list.distinct(1))
  qed
  have d: "delim rest" and c: "\<forall>c\<in>set t. token_char c" "length t \<le> 100" "t \<noteq> []" using w by (auto simp: word_def)
  have "takeWhile token_char (t @ rest) = t" using takeWhile_delim [of token_char, OF _ d] c(1) by (simp add: takeWhile_eq_all_conv)
  then have "match_run [] token_char 1 100 (t @ rest) = length t" using c by (simp add: match_run_def Suc_le_eq)
  then show ?thesis by (rule yylex_word [OF w rules _ pre]) simp
qed

lemma yylex_unclean: "yylex_all (unclean_warning @ r) = TK_INVALID # yylex_all (drop 33 (unclean_warning @ r))"
proof -
  let ?t = "take 33 unclean_warning" and ?rest = "drop 33 unclean_warning @ r"
  have "list_all token_char ?t" "\<not> token_char (hd (drop 33 unclean_warning))" by code_simp+
  then have "word ?t ?rest" by (simp add: word_def list_all_iff unclean_warning_def)
  moreover have "?t \<notin> fst ` set keyword_table" by (simp add: unclean_warning_def keyword_table_def)
  ultimately have "yylex_all (?t @ ?rest) = TK_INVALID # yylex_all ?rest"
    by (rule yylex_unknown) (simp_all add: unclean_warning_def isdigit_def)
  then show ?thesis by (simp add: unclean_warning_def)
qed

lemma yylex_start:
  assumes "plain_context dc" "f \<noteq> DRBD_UNKNOWN"
  shows "al_is_clean H md \<Longrightarrow> yylex_all (dump_start H dc f md @ r) = start_tokens f md @ yylex_all r"
    and "\<not> al_is_clean H md \<Longrightarrow> \<exists>ts. yylex_all (dump_start H dc f md @ r) = TK_VERSION # TK_STRING (format_name f) # semi # TK_INVALID # ts"
  using assms yylex_version [OF assms(2)] yylex_unclean
  by (simp_all add: dump_start_def start_tokens_def yylex_header yylex_texts yylex_comment_line drop_to_newline)

end
