(* ===== verification/Restore_Md.thy ===== *)
theory Restore_Md
  imports Dump_Md
begin

text \<open>
  \<^verbatim>\<open>restore-md\<close> and \<^verbatim>\<open>verify-dump\<close>: \<^verbatim>\<open>verify_dumpfile_or_restore\<close>, \<^verbatim>\<open>meta_restore_md\<close> and
  \<^verbatim>\<open>meta_verify_dump_file\<close> of \<^verbatim>\<open>user/shared/drbdmeta.c\<close>. What \<^verbatim>\<open>dump-md\<close> printed is accepted and
  gives the dumped meta data; a dump of unclean meta data is not restored.
\<close>

unbundle bit_operations_syntax

section \<open>Parsing the meta data\<close>

text \<open>A value and its semicolon, with or without a keyword in front.\<close>

definition item_NUM :: "token list \<Rightarrow> (u64 \<times> token list) res" where
  "item_NUM ts = bind_res (EXP_NUM ts) (\<lambda>(v, ts). bind_res (OP (CHR '';'') ts) (\<lambda>ts. Inr (v, ts)))"

definition item_U64 :: "token list \<Rightarrow> (u64 \<times> token list) res" where
  "item_U64 ts = bind_res (EXP_U64 ts) (\<lambda>(v, ts). bind_res (OP (CHR '';'') ts) (\<lambda>ts. Inr (v, ts)))"

definition item_U32 :: "token list \<Rightarrow> (u64 \<times> token list) res" where
  "item_U32 ts = bind_res (EXP_U32 ts) (\<lambda>(v, ts). bind_res (OP (CHR '';'') ts) (\<lambda>ts. Inr (v, ts)))"

definition field :: "token \<Rightarrow> (token list \<Rightarrow> (u64 \<times> token list) res) \<Rightarrow> token list \<Rightarrow> (u64 \<times> token list) res" where
  "field tk item ts = bind_res (EXP tk ts) item"

fun items :: "(token list \<Rightarrow> (u64 \<times> token list) res) \<Rightarrow> nat \<Rightarrow> token list \<Rightarrow> (u64 list \<times> token list) res" where
  "items item 0 ts = Inr ([], ts)"
| "items item (Suc n) ts = bind_res (item ts) (\<lambda>(v, ts). bind_res (items item n ts) (\<lambda>(vs, ts). Inr (v # vs, ts)))"

definition parse_gc :: "md_cpu \<Rightarrow> token list \<Rightarrow> (md_cpu \<times> token list) res" where
  "parse_gc md ts =
    bind_res (EXP TK_GC ts) (\<lambda>ts. bind_res (OP (CHR ''{'') ts) (\<lambda>ts.
    bind_res (items item_NUM GEN_CNT_SIZE ts) (\<lambda>(vs, ts). bind_res (OP (CHR ''}'') ts) (\<lambda>ts.
      Inr (md\<lparr>gc := map ucast vs\<rparr>, ts)))))"

definition parse_uuid :: "headers \<Rightarrow> md_cpu \<Rightarrow> token list \<Rightarrow> (md_cpu \<times> token list) res" where
  "parse_uuid H md ts =
    bind_res (EXP TK_UUID ts) (\<lambda>ts. bind_res (OP (CHR ''{'') ts) (\<lambda>ts.
    bind_res (item_U64 ts) (\<lambda>(current, ts). bind_res (item_U64 ts) (\<lambda>(bitmap, ts).
    bind_res (items item_U64 (HISTORY_UUIDS_V08 H) ts) (\<lambda>(history, ts).
    bind_res (field TK_FLAGS item_U32 ts) (\<lambda>(fl, ts). bind_res (OP (CHR ''}'') ts) (\<lambda>ts.
      Inr (md\<lparr>current_uuid := current, peers := (peers md)[0 := (peers md ! 0)\<lparr>bitmap_uuid := bitmap\<rparr>],
        history_uuids := fill_array (HISTORY_UUIDS_V08 H) (\<lambda>i. history ! i) (history_uuids md), flags := ucast fl\<rparr>, ts))))))))"

text \<open>One slot: \<open>seen\<close> are the slots that were already defined.\<close>

definition parse_peer_slot :: "headers \<Rightarrow> nat list \<Rightarrow> md_cpu \<Rightarrow> token list \<Rightarrow> (nat \<times> md_cpu \<times> token list) res" where
  "parse_peer_slot H seen md ts =
    bind_res (OP (CHR ''['') ts) (\<lambda>ts. bind_res (EXP_NUM ts) (\<lambda>(v, ts). bind_res (OP (CHR '']'') ts) (\<lambda>ts.
      let cur_slot = sint (ucast v :: u32); slot = nat cur_slot in
      if cur_slot < 0 \<or> cur_slot \<ge> int (DRBD_NODE_ID_MAX H) then Inl (Exit 10)
      else if slot \<in> set seen then Inl (Exit 10)
      else bind_res (OP (CHR ''{'') ts) (\<lambda>ts.
        bind_res (field TK_BITMAP_INDEX item_NUM ts) (\<lambda>(index, ts). bind_res (field TK_BITMAP_UUID item_U64 ts) (\<lambda>(uuid, ts).
        bind_res (field TK_BITMAP_DAGTAG item_U64 ts) (\<lambda>(dagtag, ts). bind_res (field TK_FLAGS item_U32 ts) (\<lambda>(fl, ts).
        bind_res (OP (CHR ''}'') ts) (\<lambda>ts.
          Inr (slot, md\<lparr>peers := (peers md)[slot := (peers md ! slot)\<lparr>bitmap_index := ucast index, bitmap_uuid := uuid,
            bitmap_dagtag := dagtag, peer_flags := ucast fl\<rparr>]\<rparr>, ts)))))))))) "

text \<open>The loop over \<open>n\<close> slots. The keyword of the first one may be read already.\<close>

fun parse_peer_slots :: "headers \<Rightarrow> nat \<Rightarrow> bool \<Rightarrow> nat list \<Rightarrow> md_cpu \<Rightarrow> token list \<Rightarrow> (md_cpu \<times> token list) res" where
  "parse_peer_slots H 0 got_peer seen md ts = Inr (md, ts)"
| "parse_peer_slots H (Suc n) got_peer seen md ts =
    bind_res (if got_peer then Inr ts else EXP TK_PEER ts) (\<lambda>ts.
    bind_res (parse_peer_slot H seen md ts) (\<lambda>(slot, md, ts). parse_peer_slots H n False (slot # seen) md ts))"

text \<open>Older dumps have no members; then the token that was read instead is expected to be the first peer.\<close>

definition parse_members :: "token list \<Rightarrow> (u64 \<times> bool \<times> token list) res" where
  "parse_members ts = (case ts of
     [] \<Rightarrow> Inr (0, False, [])
   | t # ts \<Rightarrow> if t = TK_MEMBERS then bind_res (item_U64 ts) (\<lambda>(v, ts). Inr (v, False, ts)) else Inr (0, t = TK_PEER, ts))"

definition parse_v09 :: "headers \<Rightarrow> md_cpu \<Rightarrow> token list \<Rightarrow> (md_cpu \<times> token list) res" where
  "parse_v09 H md ts =
    bind_res (field TK_NODE_ID item_NUM ts) (\<lambda>(id, ts). bind_res (field TK_CURRENT_UUID item_U64 ts) (\<lambda>(current, ts).
    bind_res (field TK_FLAGS item_U32 ts) (\<lambda>(fl, ts). bind_res (parse_members ts) (\<lambda>(mem, got_peer, ts).
    bind_res (parse_peer_slots H (DRBD_NODE_ID_MAX H) got_peer []
      (md\<lparr>node_id := ucast id, current_uuid := current, flags := ucast fl, members := mem\<rparr>) ts) (\<lambda>(md, ts).
    bind_res (EXP TK_HISTORY_UUIDS ts) (\<lambda>ts. bind_res (OP (CHR ''{'') ts) (\<lambda>ts.
    bind_res (items item_U64 (length (history_uuids md)) ts) (\<lambda>(history, ts). bind_res (OP (CHR ''}'') ts) (\<lambda>ts.
      Inr (md\<lparr>history_uuids := history\<rparr>, ts))))))))))"

definition parse_sizes :: "headers \<Rightarrow> md_format \<Rightarrow> md_cpu \<Rightarrow> token list \<Rightarrow> (md_cpu \<times> token list) res" where
  "parse_sizes H f md ts =
    bind_res (field TK_LA_SIZE item_NUM ts) (\<lambda>(size, ts). let md = md\<lparr>effective_size := size\<rparr> in
      if format_version f \<ge> format_version DRBD_V08 then
        bind_res (field TK_BM_BYTE_PER_BIT item_NUM ts) (\<lambda>(bpb, ts).
          if \<not> is_power_of_2 bpb \<or> bpb < ucast (BM_BLOCK_SIZE_MIN H) \<or> bpb > ucast (BM_BLOCK_SIZE_MAX H) then Inl (Exit 10)
          else bind_res (field TK_DEVICE_UUID item_U64 ts) (\<lambda>(uuid, ts). bind_res (field TK_LA_BIO_SIZE item_NUM ts) (\<lambda>(bio, ts).
            bind_res (field TK_AL_STRIPES item_NUM ts) (\<lambda>(stripes, ts). bind_res (field TK_AL_STRIPE_SIZE_4K item_NUM ts) (\<lambda>(stripe_size, ts).
              Inr (md\<lparr>bm_bytes_per_bit := ucast bpb, device_uuid := uuid, la_peer_max_bio_size := ucast bio,
                al_stripes := ucast stripes, al_stripe_size_4k := ucast stripe_size\<rparr>, ts))))))
      else Inr (md\<lparr>bm_bytes_per_bit := BM_BLOCK_SIZE_4k H\<rparr>, ts))"

definition parse_md :: "headers \<Rightarrow> md_format \<Rightarrow> md_cpu \<Rightarrow> token list \<Rightarrow> (md_cpu \<times> token list) res" where
  "parse_md H f md ts =
    bind_res (if format_version f < format_version DRBD_V08 then parse_gc md ts
              else if f = DRBD_V08 then parse_uuid H md ts else parse_v09 H md ts) (\<lambda>(md, ts). parse_sizes H f md ts)"

definition parse_dump_version :: "md_format \<Rightarrow> token list \<Rightarrow> (u32 \<times> token list) res" where
  "parse_dump_version f ts =
    bind_res (EXP TK_VERSION ts) (\<lambda>ts. case ts of
      TK_STRING s # ts \<Rightarrow>
        if s \<noteq> format_name f then Inl (Exit 10)
        else bind_res (OP (CHR '';'') ts) (\<lambda>ts.
          if f = DRBD_V09 then bind_res (field TK_MAX_PEERS item_NUM ts) (\<lambda>(v, ts). Inr (ucast v, ts)) else Inr (1, ts))
    | _ \<Rightarrow> Inl (Exit 10))"

section \<open>The commands\<close>

text \<open>
  The input is the file that is named on the command line, or \<open>input\<close>, the standard input,
  which must be seekable. It is scanned as the parser goes on, but the scanner has no state.
\<close>

definition open_dump :: "string \<Rightarrow> string list \<Rightarrow> string io" where
  "open_dump input argv w = (case argv of
     [] \<Rightarrow> (Inr input, w)
   | path # _ \<Rightarrow> if fopen_fails (env w) path then (Inl (Exit 20), w)
       else case files w path of None \<Rightarrow> (Inl (Exit 20), w) | Some s \<Rightarrow> (Inr s, w))"

text \<open>
  The previous number of peers and the configuration; \<open>None\<close>: the user did not agree to overwrite
  the meta data.
\<close>

definition open_target :: "invocation \<Rightarrow> format_cfg \<Rightarrow> bool \<Rightarrow> (int \<times> format_cfg) option io" where
  "open_target cx cfg parse_only =
    (if parse_only then ret (Some (-1, cfg))
     else bind_io (md_open cx cfg) (\<lambda>(rc, cfg).
       if rc \<noteq> NO_VALID_MD_FOUND
       then bind_io (confirmed (i_options cx)) (\<lambda>ok. ret (if ok then Some (sint (max_peers (cfg_md cfg)), cfg) else None))
       else if ops cfg = DRBD_V06 then stop_io Abort else ret (Some (-1, cfg))))"

definition more_space_note :: "headers \<Rightarrow> int \<Rightarrow> u32 \<Rightarrow> format_cfg \<Rightarrow> unit io" where
  "more_space_note H old_max_peers new_max_peers cfg =
    (if old_max_peers < sint new_max_peers \<and> md_index cfg \<noteq> DRBD_MD_INDEX_FLEX_INT H
     then say (''Meta data needs more space now, since max_peers'' @ nl @ ''is bigger than in existing meta_data. ('' @
       show_int old_max_peers @ '' -> '' @ show_d new_max_peers @ '')'' @ nl)
     else ret ())"

definition adjust_offsets :: "invocation \<Rightarrow> bool \<Rightarrow> format_cfg \<Rightarrow> format_cfg res" where
  "adjust_offsets cx stripes_used cfg =
    (let H = i_headers cx; opts = i_options cx; md = cfg_md cfg in
     bind_res (if option_al_stripes opts \<noteq> al_stripes md \<or> option_al_stripe_size_4k opts \<noteq> al_stripe_size_4k md
       then re_initialize_md_offsets H (option_bm_block_size opts)
         (if stripes_used
          then cfg\<lparr>cfg_md := md\<lparr>al_stripes := option_al_stripes opts, al_stripe_size_4k := option_al_stripe_size_4k opts\<rparr>\<rparr> else cfg)
       else Inr cfg) (clip_effective_size_and_bm_bytes H))"

definition write_restored :: "invocation \<Rightarrow> format_cfg \<Rightarrow> int option io" where
  "write_restored cx cfg = bind_io (write_and_close cx cfg) (\<lambda>err.
     if err \<noteq> 0 then ret (Some (-1)) else bind_io (say (''Successfully restored meta data'' @ nl)) (\<lambda>_. ret (Some 0)))"

text \<open>
  \<open>fuel\<close> bounds the number of windows of the bitmap and \<open>buf\<close> is the content of the buffer before it
  is read; the result \<open>None\<close> says that the fuel was not enough.
\<close>

definition restore_bitmap :: "nat \<Rightarrow> invocation \<Rightarrow> bytes \<Rightarrow> format_cfg \<Rightarrow> bool \<Rightarrow> token list \<Rightarrow> int option io" where
  "restore_bitmap fuel cx buf cfg parse_only ts =
    bind_io (parse_bitmap fuel (i_options cx) (i_host cx) cfg parse_only buf ts) (\<lambda>r. case r of
      None \<Rightarrow> ret None
    | Some rest \<Rightarrow>
        if rest \<noteq> [] then stop_io (Exit 10)
        else if parse_only then bind_io (say (''input file parsed ok'' @ nl)) (\<lambda>_. ret (Some 0))
        else write_restored cx cfg)"

definition restore_dump ::
  "nat \<Rightarrow> (string \<Rightarrow> pvs_answer) \<Rightarrow> invocation \<Rightarrow> bool \<Rightarrow> bytes \<Rightarrow> format_cfg \<Rightarrow> bool \<Rightarrow> int \<Rightarrow> u32 \<Rightarrow> token list \<Rightarrow> int option io" where
  "restore_dump fuel pvs cx stripes_used buf cfg parse_only old_max_peers new_max_peers ts =
    bind_io (md_initialize pvs cx cfg False new_max_peers) (\<lambda>(_, cfg).
    bind_io (if parse_only then ret () else bind_io (more_space_note (i_headers cx) old_max_peers new_max_peers cfg)
      (\<lambda>_. check_for_existing_data pvs cx cfg)) (\<lambda>_.
    bind_io (lift_res (parse_md (i_headers cx) (ops cfg) (cfg_md cfg) ts)) (\<lambda>(md, ts).
    bind_io (lift_res (adjust_offsets cx stripes_used (set_md cfg md))) (\<lambda>cfg.
      restore_bitmap fuel cx buf cfg parse_only ts))))"

definition verify_dumpfile_or_restore ::
  "nat \<Rightarrow> (string \<Rightarrow> pvs_answer) \<Rightarrow> invocation \<Rightarrow> bool \<Rightarrow> bytes \<Rightarrow> string \<Rightarrow> format_cfg \<Rightarrow> string list \<Rightarrow> bool \<Rightarrow> int option io" where
  "verify_dumpfile_or_restore fuel pvs cx stripes_used buf input cfg argv parse_only =
    bind_io (open_dump input argv) (\<lambda>s. bind_io (open_target cx cfg parse_only) (\<lambda>target. case target of
      None \<Rightarrow> ret (Some (-1))
    | Some (old_max_peers, cfg) \<Rightarrow>
        bind_io (lift_res (parse_dump_version (ops cfg) (yylex_all s))) (\<lambda>(new_max_peers, ts).
          restore_dump fuel pvs cx stripes_used buf cfg parse_only old_max_peers new_max_peers ts)))"

definition meta_restore_md ::
  "nat \<Rightarrow> (string \<Rightarrow> pvs_answer) \<Rightarrow> invocation \<Rightarrow> bool \<Rightarrow> bytes \<Rightarrow> string \<Rightarrow> format_cfg \<Rightarrow> string list \<Rightarrow> int option io" where
  "meta_restore_md fuel pvs cx stripes_used buf input cfg argv =
    verify_dumpfile_or_restore fuel pvs cx stripes_used buf input cfg argv False"

definition meta_verify_dump_file ::
  "nat \<Rightarrow> (string \<Rightarrow> pvs_answer) \<Rightarrow> invocation \<Rightarrow> bool \<Rightarrow> bytes \<Rightarrow> string \<Rightarrow> format_cfg \<Rightarrow> string list \<Rightarrow> int option io" where
  "meta_verify_dump_file fuel pvs cx stripes_used buf input cfg argv =
    verify_dumpfile_or_restore fuel pvs cx stripes_used buf input cfg argv True"

section \<open>Parsing what was dumped\<close>

lemma item_simps [simp]:
  "item_NUM (TK_NUM v # semi # ts) = Inr (v, ts)" "item_U64 (TK_U64 v # semi # ts) = Inr (v, ts)" "item_U32 (TK_U32 v # semi # ts) = Inr (v, ts)"
  "field tk item (tk # ts) = item ts"
  by (simp_all add: item_NUM_def item_U64_def item_U32_def field_def)

lemma items_tokens: "(\<And>v ts. item (tok v # semi # ts) = Inr (v, ts)) \<Longrightarrow> items item (length vs) (concat (map (\<lambda>v. [tok v, semi]) vs) @ ts) = Inr (vs, ts)"
  by (induction vs) simp_all

lemma ucast_scast_u64 [simp]: "ucast (scast (v :: u32) :: u64) = v" "ucast (ucast v :: u64) = v"
  by (rule bit_word_eqI; simp add: bit_unsigned_iff bit_signed_iff)+

lemma parse_gc_tokens:
  assumes "length (gc md') = GEN_CNT_SIZE"
  shows "parse_gc md (gc_tokens (gc md') @ ts) = Inr (md\<lparr>gc := gc md'\<rparr>, ts)"
proof -
  let ?vs = "map (\<lambda>i. scast (gc md' ! i) :: u64) [0..<GEN_CNT_SIZE]"
  have "concat (map (\<lambda>i. [TK_NUM (scast (gc md' ! i)), semi]) [0..<GEN_CNT_SIZE]) = concat (map (\<lambda>v. [TK_NUM v, semi]) ?vs)" by (simp add: comp_def)
  moreover have "items item_NUM GEN_CNT_SIZE (concat (map (\<lambda>v. [TK_NUM v, semi]) ?vs) @ r) = Inr (?vs, r)" for r
    using items_tokens [of item_NUM TK_NUM ?vs r] by simp
  moreover have "map ucast ?vs = gc md'" using assms by (intro nth_equalityI) simp_all
  ultimately show ?thesis by (simp add: parse_gc_def gc_tokens_def del: map_map)
qed

lemma parse_uuid_tokens:
  assumes "HISTORY_UUIDS_V08 H = 2"
  shows "parse_uuid H md (uuid_tokens md' @ ts) = Inr (md\<lparr>current_uuid := current_uuid md',
    peers := (peers md)[0 := (peers md ! 0)\<lparr>bitmap_uuid := bitmap_uuid (peers md' ! 0)\<rparr>],
    history_uuids := fill_array 2 (\<lambda>i. history_uuids md' ! i) (history_uuids md), flags := flags md'\<rparr>, ts)"
proof -
  have "items item_U64 2 (TK_U64 a # semi # TK_U64 b # semi # r) = Inr ([a, b], r)" for a b r
    by (simp add: eval_nat_numeral)
  moreover have "fill_array 2 (\<lambda>i. [history_uuids md' ! 0, history_uuids md' ! 1] ! i) hs = fill_array 2 (\<lambda>i. history_uuids md' ! i) hs" for hs
    by (rule nth_equalityI) (auto simp: nth_fill_array less_2_cases_iff)
  ultimately show ?thesis by (simp add: parse_uuid_def uuid_tokens_def assms)
qed

lemma parse_peer_slot_tokens:
  assumes "i < DRBD_NODE_ID_MAX H" "i < 2 ^ 31" "i \<notin> set seen" "i < length (peers md)"
  shows "parse_peer_slot H seen md (tl (peer_slot_tokens i p) @ ts) = Inr (i, md\<lparr>peers := (peers md)[i := p]\<rparr>, ts)"
proof -
  have "sint (ucast (of_nat i :: u64) :: u32) = int i"
    using sint_count [OF assms(2)] by simp
  then have "parse_peer_slot H seen md (tl (peer_slot_tokens i p) @ ts) = Inr (i, md\<lparr>peers := (peers md)[i := (peers md ! i)\<lparr>bitmap_index := bitmap_index p,
      bitmap_uuid := bitmap_uuid p, bitmap_dagtag := bitmap_dagtag p, peer_flags := peer_flags p\<rparr>]\<rparr>, ts)"
    using assms by (simp add: parse_peer_slot_def peer_slot_tokens_def Let_def)
  moreover have "(peers md ! i)\<lparr>bitmap_index := bitmap_index p, bitmap_uuid := bitmap_uuid p, bitmap_dagtag := bitmap_dagtag p, peer_flags := peer_flags p\<rparr> = p"
    by (cases p; cases "peers md ! i") simp
  ultimately show ?thesis by metis
qed

lemma parse_peer_slots_tokens:
  assumes N: "N \<le> DRBD_NODE_ID_MAX H" "N \<le> 2 ^ 31" "length ps = N"
  shows "q + n = N \<Longrightarrow> length (peers md) = N \<Longrightarrow> take q (peers md) = take q ps \<Longrightarrow> \<forall>i\<in>set seen. i < q \<Longrightarrow>
    parse_peer_slots H n False seen md (concat (map (\<lambda>i. peer_slot_tokens i (ps ! i)) [q..<N]) @ ts) = Inr (md\<lparr>peers := ps\<rparr>, ts)"
proof (induction n arbitrary: q seen md)
  case 0
  then show ?case using N by simp
next
  case (Suc n)
  let ?md = "md\<lparr>peers := (peers md)[q := ps ! q]\<rparr>"
  have q: "q < N" using Suc.prems(1) by simp
  have tl: "peer_slot_tokens q (ps ! q) = TK_PEER # tl (peer_slot_tokens q (ps ! q))" by (simp add: peer_slot_tokens_def)
  have "parse_peer_slot H seen md (tl (peer_slot_tokens q (ps ! q)) @ r) = Inr (q, ?md, r)" for r
    using N q Suc.prems by (intro parse_peer_slot_tokens) auto
  moreover have "parse_peer_slots H n False (q # seen) ?md (concat (map (\<lambda>i. peer_slot_tokens i (ps ! i)) [Suc q..<N]) @ ts) = Inr (?md\<lparr>peers := ps\<rparr>, ts)"
    using Suc.prems N q by (intro Suc.IH) (auto simp: take_Suc_conv_app_nth less_Suc_eq)
  ultimately show ?case using q by (simp add: upt_conv_Cons) (subst tl, simp)
qed

lemma parse_v09_tokens:
  assumes N: "DRBD_NODE_ID_MAX H \<le> 2 ^ 31" "length (peers md') = DRBD_NODE_ID_MAX H" "length (peers md) = DRBD_NODE_ID_MAX H"
    and hist: "length (history_uuids md) = length (history_uuids md')"
  shows "parse_v09 H md (v09_tokens H md' @ ts) = Inr (md\<lparr>node_id := node_id md', current_uuid := current_uuid md', flags := flags md',
    members := members md', peers := peers md', history_uuids := history_uuids md'\<rparr>, ts)"
proof -
  let ?md = "md\<lparr>node_id := node_id md', current_uuid := current_uuid md', flags := flags md', members := members md'\<rparr>"
  have "parse_peer_slots H (DRBD_NODE_ID_MAX H) False [] ?md (concat (map (\<lambda>i. peer_slot_tokens i (peers md' ! i)) [0..<DRBD_NODE_ID_MAX H]) @ r) =
      Inr (?md\<lparr>peers := peers md'\<rparr>, r)" for r
    using N by (intro parse_peer_slots_tokens) simp_all
  moreover have "items item_U64 (length (history_uuids md)) (concat (map (\<lambda>u. [TK_U64 u, semi]) (history_uuids md')) @ r) = Inr (history_uuids md', r)" for r
    using items_tokens [of item_U64 TK_U64 "history_uuids md'" r] hist by simp
  ultimately show ?thesis by (simp add: parse_v09_def v09_tokens_def parse_members_def)
qed

lemma parse_sizes_tokens:
  assumes "format_version f \<ge> format_version DRBD_V08" "is_power_of_2 (ucast (bm_bytes_per_bit md'))"
    "BM_BLOCK_SIZE_MIN H \<le> bm_bytes_per_bit md'" "bm_bytes_per_bit md' \<le> BM_BLOCK_SIZE_MAX H"
  shows "parse_sizes H f md (size_tokens f md' @ ts) = Inr (md\<lparr>effective_size := effective_size md', bm_bytes_per_bit := bm_bytes_per_bit md',
    device_uuid := device_uuid md', la_peer_max_bio_size := la_peer_max_bio_size md', al_stripes := al_stripes md', al_stripe_size_4k := al_stripe_size_4k md'\<rparr>, ts)"
proof -
  have "\<not> (ucast (bm_bytes_per_bit md') :: u64) < ucast (BM_BLOCK_SIZE_MIN H)" "\<not> (ucast (bm_bytes_per_bit md') :: u64) > ucast (BM_BLOCK_SIZE_MAX H)"
    using assms(3,4) by (simp_all add: word_less_nat_alt word_le_nat_alt not_less)
  then show ?thesis using assms(1,2) by (simp add: parse_sizes_def size_tokens_def Let_def)
qed

section \<open>Dumps of unclean meta data\<close>

text \<open>Computations that do not write to the device.\<close>

definition keeps_disk :: "'a io \<Rightarrow> bool" where
  "keeps_disk m \<longleftrightarrow> (\<forall>w. disk (snd (m w)) = disk w)"

named_theorems keeps \<open>computations that do not write\<close>

lemma keeps_disk_basic [keeps]:
  "keeps_disk (ret x)" "keeps_disk (stop_io e)" "keeps_disk (lift_res r)" "keeps_disk get_env" "keeps_disk get_dev_size" "keeps_disk (pread_or_die n off)"
  "keeps_disk (confirmed opts)" "keeps_disk (open_dump input argv)" "keeps_disk (say s)" "keeps_disk (lk_bdev_load libdir minor bd)"
  by (auto simp: keeps_disk_def ret_def stop_io_def lift_res_def get_env_def get_dev_size_def pread_or_die_def confirmed_def confirmed_ex_def
      open_dump_def lk_bdev_load_def say_def Let_def split: option.splits list.splits)

lemma keeps_disk_bind [keeps]: "keeps_disk m \<Longrightarrow> (\<And>x. keeps_disk (f x)) \<Longrightarrow> keeps_disk (bind_io m f)"
  by (auto simp: keeps_disk_def bind_io_def split: prod.splits sum.splits) (metis snd_conv)+

lemma keeps_disk_if [keeps]: "(c \<Longrightarrow> keeps_disk a) \<Longrightarrow> (\<not> c \<Longrightarrow> keeps_disk b) \<Longrightarrow> keeps_disk (if c then a else b)"
  by simp

lemma keeps_disk_split [keeps]:
  "(\<And>x y. keeps_disk (g x y)) \<Longrightarrow> keeps_disk (case p of (x, y) \<Rightarrow> g x y)"
  "keeps_disk a \<Longrightarrow> (\<And>x. keeps_disk (k x)) \<Longrightarrow> keeps_disk (case ov of None \<Rightarrow> a | Some x \<Rightarrow> k x)"
  by (simp_all split: prod.split option.split)

lemma keeps_disk_format [keeps]:
  "keeps_disk a \<Longrightarrow> keeps_disk b \<Longrightarrow> keeps_disk c \<Longrightarrow> keeps_disk d \<Longrightarrow> keeps_disk e \<Longrightarrow>
    keeps_disk (case f of DRBD_V06 \<Rightarrow> a | DRBD_V07 \<Rightarrow> b | DRBD_V08 \<Rightarrow> c | DRBD_V09 \<Rightarrow> d | DRBD_UNKNOWN \<Rightarrow> e)"
  by (simp split: md_format.split)

lemma keeps_disk_open_retry [keeps]: "keeps_disk (open_retry cx excl direct)"
proof -
  have 1: "keeps_disk (open_retry cx False False)" by (subst open_retry.simps) (intro keeps; simp)
  then have 2: "keeps_disk (open_retry cx False True)" by (subst open_retry.simps) (intro keeps; simp)
  have 3: "keeps_disk (open_retry cx True False)" using 1 by (subst open_retry.simps) (intro keeps; simp)
  then have "keeps_disk (open_retry cx True True)" using 2 by (subst open_retry.simps) (intro keeps; simp)
  then show ?thesis using 1 2 3 by (cases excl; cases direct) simp_all
qed

lemma keeps_disk_open_device [keeps]: "keeps_disk (v07_style_md_open_device cx cfg)"
  unfolding v07_style_md_open_device_def Let_def bdev_size_def by (intro keeps)

lemma keeps_disk_read [keeps]: "keeps_disk (md_disk_to_cpu cx cfg)"
  unfolding md_disk_to_cpu_def v06_md_disk_to_cpu_def v07_md_disk_to_cpu_def v08_md_disk_to_cpu_def v09_md_disk_to_cpu_def Let_def
  by (intro keeps)

lemma keeps_disk_md_open [keeps]: "keeps_disk (md_open cx cfg)"
proof -
  have v07: "keeps_disk (v07_style_md_open cx cfg)" unfolding v07_style_md_open_def Let_def by (intro keeps)
  have "keeps_disk (found_at_last_known cx c)" for c unfolding found_at_last_known_def Let_def by (intro keeps)
  then have "keeps_disk (v08_check_for_resize cx c)" for c unfolding v08_check_for_resize_def Let_def by (intro keeps)
  then have "keeps_disk (v08_md_open cx cfg)" unfolding v08_md_open_def by (intro keeps v07)
  then show ?thesis using v07 unfolding md_open_def v06_md_open_def by (intro keeps)
qed

lemma keeps_disk_check [keeps]: "keeps_disk (check_for_existing_data pvs cx cfg)"
  using check_keeps_disk [of pvs cx cfg] by (auto simp: keeps_disk_def) (metis prod.collapse world.select_convs(2) world.surjective world.update_convs(8))

lemma keeps_disk_initialize [keeps]: "keeps_disk (md_initialize pvs cx cfg False n)"
  unfolding md_initialize_def v06_md_initialize_def v07_md_initialize_def v08_md_initialize_def v09_md_initialize_def md_initialize_common_def Let_def
  by (intro keeps; simp)

lemma keeps_disk_target [keeps]: "keeps_disk (open_target cx cfg parse_only)"
  unfolding open_target_def by (intro keeps)

lemma keeps_diskD: "keeps_disk m \<Longrightarrow> m w = (r, w') \<Longrightarrow> disk w' = disk w"
  by (metis keeps_disk_def snd_conv)

lemma parse_md_invalid: "parse_md H f md (TK_INVALID # ts) = Inl (Exit 10)"
  by (simp add: parse_md_def parse_gc_def parse_uuid_def parse_v09_def field_def EXP_def bind_res_def)

lemma parse_dump_version_invalid:
  assumes "parse_dump_version f (TK_VERSION # TK_STRING s # semi # TK_INVALID # ts) = Inr (n, ts')"
  shows "ts' = TK_INVALID # ts"
  using assms by (auto simp: parse_dump_version_def field_def EXP_def bind_res_def split: if_splits)

lemma restore_dump_invalid: "\<exists>e w2. restore_dump fuel pvs cx used buf c parse_only old n (TK_INVALID # ts) w = (Inl e, w2) \<and> disk w2 = disk w"
proof -
  obtain i w2 where i: "md_initialize pvs cx c False n w = (i, w2)" by fastforce
  have d2: "disk w2 = disk w" using keeps_diskD [OF keeps_disk_initialize i] .
  show ?thesis
  proof (cases i)
    case (Inl e)
    then show ?thesis using i d2 by (simp add: restore_dump_def bind_io_def)
  next
    case (Inr p)
    obtain z c2 where p: "p = (z, c2)" by fastforce
    let ?chk = "if parse_only then ret () else bind_io (more_space_note (i_headers cx) old n c2) (\<lambda>_. check_for_existing_data pvs cx c2)"
    have "keeps_disk ?chk" unfolding more_space_note_def by (intro keeps)
    then obtain x w3 where x: "?chk w2 = (x, w3)" "disk w3 = disk w2" by (metis keeps_disk_def prod.collapse)
    then show ?thesis using i d2 unfolding Inr p restore_dump_def by (cases x) (simp_all add: bind_io_def lift_res_def parse_md_invalid)
  qed
qed

text \<open>
  A dump of unclean meta data, which only \<^verbatim>\<open>--force\<close> prints, is never restored: whatever
  follows the start of such a dump, \<^verbatim>\<open>restore-md\<close> and \<^verbatim>\<open>verify-dump\<close> do not succeed, and no
  byte of the device changes.
\<close>

theorem unclean_dump_rejected:
  assumes unclean: "\<not> al_is_clean H md" and dc: "plain_context dc" "f \<noteq> DRBD_UNKNOWN"
    and run: "verify_dumpfile_or_restore fuel pvs cx stripes_used buf (dump_start H dc f md @ body) cfg [] parse_only w = (r, w')"
  shows "r \<noteq> Inr (Some 0) \<and> r \<noteq> Inr None \<and> disk w' = disk w"
proof -
  let ?s = "dump_start H dc f md @ body"
  obtain ts where ts: "yylex_all ?s = TK_VERSION # TK_STRING (format_name f) # semi # TK_INVALID # ts"
    using yylex_start(2) [OF dc unclean, of body] by blast
  obtain t w1 where t: "open_target cx cfg parse_only w = (t, w1)" by fastforce
  have d1: "disk w1 = disk w" using keeps_diskD [OF keeps_disk_target t] .
  have rest: "\<exists>e. r2 = Inl e \<and> disk w2 = disk w1"
    if "parse_dump_version (ops c) (yylex_all ?s) = Inr (n, ts2)" "restore_dump fuel pvs cx stripes_used buf c parse_only old n ts2 w1 = (r2, w2)" for c old n ts2 r2 w2
    using parse_dump_version_invalid [of "ops c" "format_name f" ts n ts2] that restore_dump_invalid [of fuel pvs cx stripes_used buf c parse_only old n ts w1]
    by (auto simp: ts)
  note run' = run [unfolded verify_dumpfile_or_restore_def open_dump_def bind_io_def list.case prod.case sum.case t]
  consider (stopped) e where "t = Inl e" | (refused) "t = Inr None" | (found) old c where "t = Inr (Some (old, c))"
    by (metis not_None_eq prod.collapse sum.exhaust)
  then show ?thesis
  proof cases
    case (found old c)
    then show ?thesis
      using run' rest [where c = c and old = old] d1 by (cases "parse_dump_version (ops c) (yylex_all ?s)") (auto simp: lift_res_def)
  qed (use run' d1 in \<open>auto simp: ret_def\<close>)
qed

theorem unclean_dump_rejected_witness:
  "\<exists>r w'. meta_verify_dump_file 5 (\<lambda>_. PvsNotStarted) example_cx False [] (dump_start example_headers
        \<lparr>time_str = ''now'', hostname = ''alpha'', global_argv = [''drbdmeta'', ''dump-md''], verbose = 0, on_disk_buffer = []\<rparr> DRBD_V09 example_stored) example_fresh [] example_device = (r, w')
    \<and> r \<noteq> Inr (Some 0) \<and> r \<noteq> Inr None \<and> disk w' = disk example_device"
proof -
  let ?dc = "\<lparr>time_str = ''now'', hostname = ''alpha'', global_argv = [''drbdmeta'', ''dump-md''], verbose = 0, on_disk_buffer = []\<rparr>"
  have "\<not> al_is_clean example_headers example_stored" "plain_context ?dc"
    by (simp_all add: al_is_clean_def example_stored_def plain_context_def)
  moreover obtain r w' where run: "verify_dumpfile_or_restore 5 (\<lambda>_. PvsNotStarted) example_cx False []
      (dump_start example_headers ?dc DRBD_V09 example_stored @ []) example_fresh [] True example_device = (r, w')" by fastforce
  ultimately have "r \<noteq> Inr (Some 0) \<and> r \<noteq> Inr None \<and> disk w' = disk example_device" by (intro unclean_dump_rejected [OF _ _ _ run]) simp_all
  then show ?thesis using run by (simp add: meta_verify_dump_file_def)
qed

end
