(* ===== verification/Md_Created.thy ===== *)
theory Md_Created
  imports Md_Create
begin

text \<open>
  What \<^verbatim>\<open>create-md\<close> and \<^verbatim>\<open>wipe-md\<close> achieve: on a device without meta data the new v09
  meta data is in place afterwards, the activity log is clean, the bitmap has its initial
  value and the data area is untouched; after \<^verbatim>\<open>wipe-md\<close> no meta data is found.
\<close>

unbundle bit_operations_syntax

section \<open>Initialising the areas succeeds\<close>

lemma writes_init_bitmap_loop:
  assumes nd: "\<not> dry_run opts" and "healthy w" and "writable_range opts cfg dst (dst + n)" and "dst + n \<le> dev_size w"
  shows "writes (init_bitmap_loop opts cfg c n (of_nat dst)) w () (write_bytes (disk w) dst (replicate n c))"
  using assms(2-4)
proof (induction n arbitrary: w dst rule: less_induct)
  case (less n)
  let ?chunk = "if buffer_size < n then buffer_size else n"
  have chunk: "?chunk \<le> n" by simp
  have pw: "writes (pwrite_or_die opts cfg (replicate ?chunk c) (of_nat dst)) w () (write_bytes (disk w) dst (replicate ?chunk c))"
    using less.prems chunk by (intro writes_pwrite [OF nd]) (auto intro: writable_rangeD)
  show ?case
  proof (subst init_bitmap_loop.simps, unfold Let_def, rule writes_bind [OF pw])
    fix w1 assume w1: "disk w1 = write_bytes (disk w) dst (replicate ?chunk c)" and sd: "same_device w w1"
    have rest: "writes (init_bitmap_loop opts cfg c (n - ?chunk) (of_nat (dst + ?chunk))) w1 ()
        (write_bytes (disk w1) (dst + ?chunk) (replicate (n - ?chunk) c))" if "n - ?chunk \<noteq> 0"
    proof (rule less.IH)
      show "n - ?chunk < n" using that by (auto simp: buffer_size_def)
      show "healthy w1" using less.prems(1) sd by (rule healthy_same_device)
      show "writable_range opts cfg (dst + ?chunk) (dst + ?chunk + (n - ?chunk))"
        using less.prems(2) by (rule writable_range_mono) simp_all
      show "dst + ?chunk + (n - ?chunk) \<le> dev_size w1" using less.prems(3) sd by (simp add: same_device_def)
    qed
    have "write_bytes (disk w1) (dst + ?chunk) (replicate (n - ?chunk) c) = write_bytes (disk w) dst (replicate n c)"
      using chunk unfolding w1 by (subst write_bytes_append) (simp_all flip: replicate_add)
    then show "writes (if n - ?chunk = 0 then ret () else init_bitmap_loop opts cfg c (n - ?chunk) (of_nat dst + of_nat ?chunk)) w1 ()
        (write_bytes (disk w) dst (replicate n c))"
      using rest w1 by (cases "n - ?chunk = 0") (simp_all split: if_splits)
  qed
qed

lemma zeroout_returns: "\<exists>b w'. zeroout_loop n off w = (Inr b, w') \<and> same_device w w'"
proof (induction n arbitrary: off w rule: less_induct)
  case (less n)
  let ?chunk = "if bytes_per_iteration < n then bytes_per_iteration else n"
  let ?w1 = "w\<lparr>n_writes := n_writes w + 1, disk := write_bytes (disk w) (unat off) (replicate ?chunk 0)\<rparr>"
  have sd: "same_device w (w\<lparr>n_writes := n_writes w + 1\<rparr>)" "same_device w ?w1" by (simp_all add: same_device_def)
  have "\<exists>b w'. zeroout_loop (n - ?chunk) (off + of_nat ?chunk) ?w1 = (Inr b, w') \<and> same_device ?w1 w'" if "n - ?chunk \<noteq> 0"
    using that by (intro less.IH) (auto simp: bytes_per_iteration_def)
  then show ?case
    using sd same_device_trans [OF sd(2)] by (subst zeroout_loop.simps) (auto simp: Let_def)
qed

text \<open>All modes but the one that insists on \<^verbatim>\<open>BLKZEROOUT\<close> fall back to writing.\<close>

lemma writes_initialize_bitmap:
  assumes nd: "\<not> dry_run opts" and hw: "healthy w" and rng: "writable_range opts cfg dst (dst + n)" and dev: "dst + n \<le> dev_size w"
    and mode: "option_initialize_bitmap_mode opts \<noteq> IBM_ZEROOUT_IOCTL_ONLY"
    and bm: "cfg_bm_offset cfg = of_nat dst" "bitmap_area cfg = n"
  shows "writes (initialize_bitmap opts cfg) w () (if option_initialize_bitmap_mode opts = IBM_SKIP then disk w
    else write_bytes (disk w) dst (replicate n (if option_initialize_bitmap_mode opts = IBM_SET_ALL then 0xff else 0)))"
proof -
  have u: "unat (cfg_bm_offset cfg) = dst" "dst + n < 2 ^ 64"
    using hw dev unat_of_nat_u64 [of dst] by (simp_all add: bm healthy_def)
  have pw: "writes (init_bitmap_pwrite opts cfg c) w1 () (write_bytes (disk w1) dst (replicate n c))" if "same_device w w1" for c w1
    using writes_init_bitmap_loop [OF nd healthy_same_device [OF hw that] rng] that dev bm
    by (simp add: init_bitmap_pwrite_def bitmap_area_def same_device_def)
  have "\<exists>w'. initialize_bitmap opts cfg w = (Inr (), w') \<and> same_device w w'" if "option_initialize_bitmap_mode opts = IBM_ZEROOUT"
  proof -
    obtain b w1 where z: "zeroout_bitmap_fast cfg w = (Inr b, w1)" "same_device w w1"
      using zeroout_returns by (metis zeroout_bitmap_fast_def)
    obtain w2 where "zeroout_bitmap_pwrite opts cfg w1 = (Inr (), w2)" "same_device w1 w2"
      using pw [OF z(2), of 0] by (auto simp: writes_def zeroout_bitmap_pwrite_def)
    then show ?thesis using z that same_device_trans [OF z(2)]
      by (cases b) (auto simp: initialize_bitmap_def bind_io_def ret_def)
  qed
  moreover have "\<exists>w'. initialize_bitmap opts cfg w = (Inr (), w') \<and> same_device w w'"
    if "option_initialize_bitmap_mode opts \<in> {IBM_ZEROOUT_PWRITE, IBM_SET_ALL}"
    using pw [of w 0] pw [of w "0xff"] that
    by (auto simp: writes_def initialize_bitmap_def zeroout_bitmap_pwrite_def set_all_bitmap_pwrite_def)
  moreover have "initialize_bitmap opts cfg = ret ()" if "option_initialize_bitmap_mode opts = IBM_SKIP"
    using that by (simp add: initialize_bitmap_def)
  ultimately show ?thesis
    using mode initialize_bitmap_disk [OF _ nd, of cfg w] u bm(2)
    by (cases "option_initialize_bitmap_mode opts") (fastforce simp: writes_def ret_def)+
qed

lemma writes_initialize_al:
  assumes H: "layout_al_ok H" and nd: "\<not> dry_run opts" and hw: "healthy w" and f: "ops cfg \<in> {DRBD_V08, DRBD_V09}"
    and al: "0 < al_blocks (cfg_md cfg)" "4096 * al_blocks (cfg_md cfg) \<le> buffer_size" "cfg_al_offset cfg = of_nat dst"
    and rng: "writable_range opts cfg dst (dst + 4096 * al_blocks (cfg_md cfg))" and dev: "dst + 4096 * al_blocks (cfg_md cfg) \<le> dev_size w"
  shows "\<exists>buf. writes (initialize_al H h opts cfg) w () (write_bytes (disk w) dst buf) \<and> length buf = 4096 * al_blocks (cfg_md cfg)
    \<and> (\<forall>hot. replay_al_84 H h (cfg_md cfg) (al_4k_blocks H h buf (al_blocks (cfg_md cfg))) hot = Inr (0, hot))"
proof -
  let ?n = "al_blocks (cfg_md cfg)"
  let ?buf = "concat (map (put_al H h) (initial_al_blocks H h ?n))"
  have fits: "al_fits (cfg_md cfg)" using al by (simp add: al_fits_def buffer_size_def)
  have mx: "unat (al_mx (cfg_md cfg)) = ?n" using fits by (rule unat_al_mx)
  have len: "length ?buf = 4096 * ?n"
    using length_al_blocks [OF H, of "initial_al_blocks H h ?n" h] by (simp add: initial_al_blocks_sealed wf_initialized)
  have mx4: "unat (al_mx (cfg_md cfg) * 4096) \<le> buffer_size"
    using al mx unat_mult_lem [of "al_mx (cfg_md cfg)" 4096] by (simp add: buffer_size_def)
  have v: "format_version DRBD_V08 \<le> format_version (ops cfg)" using f by auto
  have u: "unat (of_nat dst :: u64) = dst" using dev hw by (intro unat_of_nat_u64) (simp add: healthy_def)
  have run: "initialize_al H h opts cfg = pwrite_or_die opts cfg ?buf (of_nat dst)"
    using mx mx4 al v by (simp add: initialize_al_def Let_def)
  have "writes (initialize_al H h opts cfg) w () (write_bytes (disk w) dst ?buf)"
    unfolding run using dev len by (intro writes_pwrite [OF nd hw] writable_rangeD [OF rng]) simp_all
  then obtain w' where w': "initialize_al H h opts cfg w = (Inr (), w')" "same_device w w'" by (auto simp: writes_def)
  show ?thesis
    by (rule initialize_al_disk [OF w'(1) H nd f fits al(1)]) (use w' in \<open>auto simp: writes_def al(3) u\<close>)
qed

section \<open>The new meta data\<close>

text \<open>What v09 meta data starts with, before the offsets are computed.\<close>

definition fresh_md :: "headers \<Rightarrow> options \<Rightarrow> u32 \<Rightarrow> md_cpu" where
  "fresh_md H opts n = (zero_md H)\<lparr>max_peers := n, flags := MDF_AL_CLEAN H, node_id := -1, magic := DRBD_MD_MAGIC_09 H,
     al_stripes := option_al_stripes opts, al_stripe_size_4k := option_al_stripe_size_4k opts,
     current_uuid := UUID_JUST_CREATED H, peers := replicate (DRBD_PEERS_MAX H) (zero_peer\<lparr>bitmap_index := -1\<rparr>),
     al_nr_extents := 257,
     bm_bytes_per_bit := if option_bm_block_size opts \<noteq> 0 then option_bm_block_size opts else DEFAULT_BM_BLOCK_SIZE H\<rparr>"

text \<open>The options of \<^verbatim>\<open>create-md\<close> change identities and flags, never the layout or the slots.\<close>

definition same_frame :: "md_cpu \<Rightarrow> md_cpu \<Rightarrow> bool" where
  "same_frame m m' \<longleftrightarrow> gc m' = gc m \<and> magic m' = magic m \<and> md_size_sect m' = md_size_sect m \<and> al_offset m' = al_offset m \<and>
     bm_offset m' = bm_offset m \<and> bm_bytes_per_bit m' = bm_bytes_per_bit m \<and> max_peers m' = max_peers m \<and> node_id m' = node_id m \<and>
     al_stripes m' = al_stripes m \<and> al_stripe_size_4k m' = al_stripe_size_4k m \<and> device_uuid m' = device_uuid m \<and>
     length (history_uuids m') = length (history_uuids m) \<and> map bitmap_index (peers m') = map bitmap_index (peers m)"

lemma same_frame_trans: "same_frame a b \<Longrightarrow> same_frame b c \<Longrightarrow> same_frame a c"
  by (simp add: same_frame_def)

lemma bitmap_index_fold:
  assumes "\<And>i ps. map bitmap_index (g i ps) = map bitmap_index ps"
  shows "map bitmap_index (fold g is ps) = map bitmap_index ps"
  by (induction "is" arbitrary: ps) (simp_all add: assms)

lemma bitmap_index_update: "bitmap_index p = bitmap_index (ps ! i) \<Longrightarrow> map bitmap_index (ps[i := p]) = map bitmap_index ps"
  by (cases "i < length ps") (simp_all add: map_update list_update_same_conv list_update_beyond not_less)

lemma bitmap_index_fill:
  "(\<And>i. i < length ps \<Longrightarrow> bitmap_index (f i) = bitmap_index (ps ! i)) \<Longrightarrow> map bitmap_index (fill_array n f ps) = map bitmap_index ps"
  by (rule nth_equalityI) (auto simp: nth_fill_array)

lemma mark_diskful_keeps: "map bitmap_index (mark_diskful_peers H k ps) = map bitmap_index ps"
  unfolding mark_diskful_peers_def by (rule bitmap_index_fold) (simp add: bitmap_index_update)

lemma initial_uuid_frame: "initial_uuid H rnd arg md = Inr m \<Longrightarrow> same_frame md m"
  by (auto simp: initial_uuid_def same_frame_def bind_res_def Let_def split: option.splits if_splits sum.splits prod.splits)

lemma fresh_uuid_frame: "fresh_uuid H rnd md = Inr m \<Longrightarrow> same_frame md m"
  by (auto simp: fresh_uuid_def same_frame_def bind_res_def split: if_splits sum.splits)

lemma rotate_uuids_frame:
  assumes "rotate_uuids H rnd md = Inr m"
  shows "same_frame md m"
proof -
  obtain m1 u where "fresh_uuid H (rnd 2) md = Inr m1" and "m = m1\<lparr>peers := fill_array (DRBD_NODE_ID_MAX H)
      (\<lambda>p. (peers m1 ! p)\<lparr>bitmap_uuid := current_uuid m1\<rparr>) (peers m1),
      history_uuids := (history_uuids m1)[0 := current_uuid m1], current_uuid := u\<rparr>"
    using assms by (auto simp: rotate_uuids_def bind_res_def Let_def split: sum.splits)
  moreover from this(2) have "same_frame m1 m" by (simp add: same_frame_def bitmap_index_fill)
  ultimately show ?thesis using fresh_uuid_frame same_frame_trans by blast
qed

lemma apply_create_options_frame:
  assumes "apply_create_options H opts co rnd b md = Inr m"
  shows "same_frame md m"
proof -
  define m1 where "m1 = (let md = (if \<not> b \<or> option_peer_max_bio_size opts \<noteq> 0
               then md\<lparr>la_peer_max_bio_size := option_peer_max_bio_size opts\<rparr> else md);
         md = (if \<not> b \<or> option_effective_size opts \<noteq> 0
               then md\<lparr>effective_size := option_effective_size opts\<rparr> else md)
       in md\<lparr>peers := mark_diskful_peers H (option_diskful_peer_mask opts) (peers md)\<rparr>)"
  obtain m2 m3 where m2: "initial_uuid H (rnd 0) (option_initial_current_uuid co) m1 = Inr m2"
    and m3: "(if option_consistent co \<or> option_uptodate co then fresh_uuid H (rnd 1) m2 else Inr m2) = Inr m3"
    and m: "(let md = (if option_consistent co then m3\<lparr>flags := flags m3 OR MDF_CONSISTENT H\<rparr> else m3);
              md = (if option_uptodate co then md\<lparr>flags := flags md OR (MDF_CONSISTENT H OR MDF_WAS_UP_TO_DATE H)\<rparr> else md);
              md = (if option_peers_outdated co then md\<lparr>peers := fill_array (DRBD_NODE_ID_MAX H)
                 (\<lambda>p. (peers md ! p)\<lparr>peer_flags := peer_flags (peers md ! p) OR MDF_PEER_OUTDATED H\<rparr>) (peers md)\<rparr> else md)
          in if option_rotate_uuids co then rotate_uuids H rnd md else Inr md) = Inr m"
    using assms unfolding apply_create_options_def Let_def m1_def by (auto simp: bind_res_def split: sum.splits)
  have "same_frame md m1" by (simp add: m1_def Let_def same_frame_def mark_diskful_keeps)
  moreover have "same_frame m1 m2" using m2 by (rule initial_uuid_frame)
  moreover have "same_frame m2 m3" using m3 fresh_uuid_frame by (auto simp: same_frame_def split: if_splits)
  moreover have "same_frame m3 m"
    using m rotate_uuids_frame [of H rnd _ m] unfolding Let_def
    by (auto simp: same_frame_def bitmap_index_fill split: if_splits)
  ultimately show ?thesis using same_frame_trans by blast
qed

section \<open>create-md on a device without meta data\<close>

text \<open>
  The situation after the device was opened and nothing was found: internal v09 meta data is
  wanted for up to \<open>n\<close> peers, there is room for it, the activity log fits the buffer and the
  device can be read and written; the start of the device is blank.
\<close>

definition create_ready :: "invocation \<Rightarrow> format_cfg \<Rightarrow> u32 \<Rightarrow> world \<Rightarrow> bool" where
  "create_ready cx c n w \<longleftrightarrow>
    (let H = i_headers cx; opts = i_options cx; f = c\<lparr>cfg_md := fresh_md H opts n\<rparr> in
     block_sizes_ok H \<and> md_indices_ok H \<and> array_sizes_ok H \<and> layout_9_ok H \<and> layout_al_ok H
     \<and> ops c = DRBD_V09 \<and> internal_ok H f \<and> internal_room f
     \<and> md_offset c = v07_style_md_get_byte_offset H (md_index c) (bd_size c)
     \<and> bd_size c = of_nat (dev_size w) \<and> 69632 \<le> dev_size w \<and> dev_size w \<le> 2 ^ 50
     \<and> 0 < al_blocks (cfg_md f) \<and> 4096 * al_blocks (cfg_md f) \<le> buffer_size
     \<and> md_hard_sect_size c \<in> {512, 4096} \<and> wipe_fixed c = 0 \<and> wipe_flex c = 0
     \<and> option_initialize_bitmap_mode opts \<noteq> IBM_ZEROOUT_IOCTL_ONLY
     \<and> healthy w \<and> \<not> close_fails (env w) \<and> \<not> dry_run opts \<and> (\<forall>i<69632. disk w i = 0))"

lemma sane_fresh:
  assumes "block_sizes_ok H" "n \<noteq> 0"
  shows "ensure_sane_defaults H (option_bm_block_size opts) ((fresh_md H opts n)\<lparr>bm_bytes_per_bit := 0\<rparr>) = fresh_md H opts n"
    and "ensure_sane_defaults H (option_bm_block_size opts) (fresh_md H opts n) = fresh_md H opts n"
  using assms by (auto simp: ensure_sane_defaults_def fresh_md_def Let_def block_sizes_ok_def DEFAULT_BM_BLOCK_SIZE_def)

lemma fill_replicate: "fill_array n (\<lambda>_. x) (replicate n x) = replicate n x"
  by (rule nth_equalityI) (simp_all add: nth_fill_array)

lemma v09_initial:
  assumes H: "array_sizes_ok H" "H = i_headers cx"
  shows "v09_md_initialize pvs cx c b n = md_initialize_common pvs cx
    (c\<lparr>cfg_md := (fresh_md (i_headers cx) (i_options cx) n)\<lparr>al_nr_extents := 0, bm_bytes_per_bit := 0\<rparr>\<rparr>) b"
proof -
  have "DRBD_NODE_ID_MAX H = DRBD_PEERS_MAX H" using H by (simp add: array_sizes_ok_def)
  then have "fill_array (DRBD_NODE_ID_MAX H) (\<lambda>p. (replicate (DRBD_PEERS_MAX H) zero_peer ! p)\<lparr>bitmap_uuid := 0, peer_flags := 0, bitmap_index := -1\<rparr>)
      (replicate (DRBD_PEERS_MAX H) zero_peer) = replicate (DRBD_PEERS_MAX H) (zero_peer\<lparr>bitmap_index := -1\<rparr>)"
    by (intro nth_equalityI) (simp_all add: nth_fill_array zero_peer_def)
  then show ?thesis using H(2)
    by (simp add: v09_md_initialize_def Let_def fresh_md_def zero_md_def fill_replicate)
qed

lemma blank_passes:
  assumes "healthy w" "69632 \<le> dev_size w" "\<forall>i<69632. disk w i = 0"
  shows "check_for_existing_data pvs cx c w = (Inr (), w)"
proof -
  have "list_all (\<lambda>b. b = 0) (read_bytes (disk w) 0 69632)" using assms(3) by (auto simp: read_bytes_def list_all_iff)
  moreover have "pread_or_die 69632 0 w = (Inr (read_bytes (disk w) 0 69632), w)"
    using assms by (simp add: pread_or_die_def kernel_error_def healthy_def)
  ultimately show ?thesis by (simp add: check_for_existing_data_def bind_io_def SO_MUCH_def ret_def)
qed

text \<open>The disk after the areas were initialised, with \<open>log\<close> as the content of the activity log.\<close>

definition initialised_areas :: "options \<Rightarrow> format_cfg \<Rightarrow> bytes \<Rightarrow> content \<Rightarrow> content" where
  "initialised_areas opts f log d =
    (let d = write_bytes d (al_start f) log in
     if option_initialize_bitmap_mode opts = IBM_SKIP then d
     else write_bytes d (bm_start f) (replicate (cfg_bitmap_size f)
       (if option_initialize_bitmap_mode opts = IBM_SET_ALL then 0xff else 0)))"

lemma aligned_area:
  assumes "internal_ok H f" "block_sizes_ok H" "sect \<in> {512, 4096 :: u64}"
  shows "unat (ALIGN (of_nat (cfg_bitmap_size f)) sect) = cfg_bitmap_size f"
proof -
  obtain k where k: "sect = 2 ^ k" "k \<le> 12" using assms(3) by (auto intro: that [of 9] that [of 12])
  have "unat (max_peers (cfg_md f)) \<le> 31" using assms(1) by (simp add: internal_ok_def word_le_nat_alt)
  then have b: "cfg_bitmap_size f \<le> 2 ^ 35 * 31" using cfg_bitmap_size_bound [OF assms(1,2)] by simp
  then have u: "unat (of_nat (cfg_bitmap_size f) :: u64) = cfg_bitmap_size f" by (intro unat_of_nat_u64) simp
  have p: "(2::nat) ^ k \<le> 2 ^ 12" using k(2) by (rule power_increasing) simp
  have "unat (ALIGN (of_nat (cfg_bitmap_size f) :: u64) (2 ^ k)) = align_up (cfg_bitmap_size f) (2 ^ k)"
    using b p k(2) unat_ALIGN [of k "of_nat (cfg_bitmap_size f) :: u64"] by (simp add: u)
  moreover have "2 ^ k dvd cfg_bitmap_size f"
  proof (rule dvd_trans)
    show "(2::nat) ^ k dvd 2 ^ 12" using k(2) by (rule le_imp_power_dvd)
    show "2 ^ 12 dvd cfg_bitmap_size f" unfolding cfg_bitmap_size_def by simp
  qed
  ultimately show ?thesis by (simp add: k(1) align_up_dvd_id)
qed

lemma create_geometry:
  assumes "create_ready cx c n w"
  defines "f \<equiv> c\<lparr>cfg_md := fresh_md (i_headers cx) (i_options cx) n\<rparr>"
  shows "unat (md_offset c) + 4096 \<le> dev_size w" "bm_start f + cfg_bitmap_size f = al_start f"
    "al_start f + 4096 * al_blocks (cfg_md f) = unat (md_offset c)" "n \<noteq> 0" "dev_size w < 2 ^ 63"
proof -
  let ?H = "i_headers cx"
  have ok: "internal_ok ?H f" and room: "internal_room f" and H: "md_indices_ok ?H"
    and d: "bd_size c = of_nat (dev_size w)" "69632 \<le> dev_size w" "dev_size w \<le> 2 ^ 50"
    and off: "md_offset c = v07_style_md_get_byte_offset ?H (md_index c) (bd_size c)"
    using assms(1) by (simp_all add: create_ready_def Let_def f_def)
  show "dev_size w < 2 ^ 63" using d(3) by simp
  show "n \<noteq> 0" using ok by (auto simp: internal_ok_def f_def fresh_md_def)
  have sz: "unat (bd_size c) = dev_size w" using d by (simp add: unat_of_nat_u64)
  have "md_index c = DRBD_MD_INDEX_FLEX_INT ?H" using ok by (simp add: internal_ok_def f_def)
  then have "unat (md_offset c) = (dev_size w div 4096 - 1) * 4096"
    using flex_offset [OF H, of "bd_size c"] d(2) by (simp add: off sz)
  moreover have "dev_size w div 4096 * 4096 \<le> dev_size w" "0 < dev_size w div 4096" using d(2) by simp_all
  ultimately show "unat (md_offset c) + 4096 \<le> dev_size w" by (simp add: algebra_simps)
  show "bm_start f + cfg_bitmap_size f = al_start f" "al_start f + 4096 * al_blocks (cfg_md f) = unat (md_offset c)"
    using area_starts [OF room] by (simp_all add: f_def)
qed

lemma re_initialize_fresh:
  assumes "create_ready cx c n w"
  defines "f \<equiv> c\<lparr>cfg_md := fresh_md (i_headers cx) (i_options cx) n\<rparr>"
  obtains c2 where "re_initialize_md_offsets (i_headers cx) (option_bm_block_size (i_options cx))
      (c\<lparr>cfg_md := (fresh_md (i_headers cx) (i_options cx) n)\<lparr>bm_bytes_per_bit := 0\<rparr>\<rparr>) = Inr c2"
    and "cfg_al_offset c2 = of_nat (al_start f)" "cfg_bm_offset c2 = of_nat (bm_start f)" "bitmap_area c2 = cfg_bitmap_size f"
    and "cfg_md c2 = internal_md f" "ops c2 = ops c" "md_index c2 = md_index c" "bd_size c2 = bd_size c" "md_offset c2 = md_offset c"
    and "wipe_fixed c2 = 0" "wipe_flex c2 = 0"
proof -
  let ?H = "i_headers cx" and ?o = "option_bm_block_size (i_options cx)" and ?m = "fresh_md (i_headers cx) (i_options cx) n"
  have ok: "internal_ok ?H f" and room: "internal_room f" and H: "block_sizes_ok ?H" "md_indices_ok ?H"
    and wipe: "wipe_fixed c = 0" "wipe_flex c = 0" and sect: "md_hard_sect_size c \<in> {512, 4096}"
    using assms(1) by (simp_all add: create_ready_def Let_def f_def)
  have "re_initialize_md_offsets ?H ?o (c\<lparr>cfg_md := ?m\<lparr>bm_bytes_per_bit := 0\<rparr>\<rparr>) = re_initialize_md_offsets ?H ?o f"
    using sane_fresh [OF H(1) create_geometry(4) [OF assms(1)]] by (simp add: re_initialize_md_offsets_def f_def)
  moreover obtain c2 where c2: "re_initialize_md_offsets ?H ?o f = Inr c2" "cfg_al_offset c2 = of_nat (al_start f)"
    "cfg_bm_offset c2 = of_nat (bm_start f)" "cfg_bm_bytes c2 = of_nat (cfg_bitmap_size f)"
    "cfg_md c2 = internal_md f" "ops c2 = ops f" "md_index c2 = md_index f" "bd_size c2 = bd_size f" "md_offset c2 = md_offset f"
    by (rule re_initialize_move [OF ok H room])
  moreover have "md_hard_sect_size c2 = md_hard_sect_size f \<and> wipe_fixed c2 = wipe_fixed f \<and> wipe_flex c2 = wipe_flex f"
    using c2(1) by (auto simp: re_initialize_md_offsets_def bitmap_and_al_offsets_def set_area_bm_bytes_def Let_def bind_res_Inr_iff
      split: if_splits)
  moreover from this have "bitmap_area c2 = cfg_bitmap_size f"
    using aligned_area [OF ok H(1) sect] by (simp add: bitmap_area_def c2(4) f_def)
  ultimately show ?thesis using that [of c2] wipe by (simp add: f_def)
qed

lemma writes_v09_initialize:
  assumes ready: "create_ready cx c n w"
  defines "f \<equiv> c\<lparr>cfg_md := fresh_md (i_headers cx) (i_options cx) n\<rparr>"
  obtains c2 log where "writes (v09_md_initialize pvs cx c True n) w (0, c2) (initialised_areas (i_options cx) f log (disk w))"
    and "length log = 4096 * al_blocks (cfg_md f)"
    and "\<forall>hot. replay_al_84 (i_headers cx) (i_host cx) (internal_md f) (al_4k_blocks (i_headers cx) (i_host cx) log (al_blocks (cfg_md f))) hot = Inr (0, hot)"
    and "cfg_md c2 = internal_md f" "ops c2 = DRBD_V09" "md_index c2 = md_index c" "bd_size c2 = bd_size c" "md_offset c2 = md_offset c"
    and "wipe_fixed c2 = 0" "wipe_flex c2 = 0"
proof -
  let ?H = "i_headers cx" and ?opts = "i_options cx"
  have H: "block_sizes_ok ?H" "md_indices_ok ?H" "array_sizes_ok ?H" "layout_al_ok ?H" and ok: "internal_ok ?H f" and room: "internal_room f"
    and v9: "ops c = DRBD_V09" and al: "0 < al_blocks (cfg_md f)" "4096 * al_blocks (cfg_md f) \<le> buffer_size"
    and nd: "\<not> dry_run ?opts" and hw: "healthy w" and mode: "option_initialize_bitmap_mode ?opts \<noteq> IBM_ZEROOUT_IOCTL_ONLY"
    and blank: "69632 \<le> dev_size w" "\<forall>i<69632. disk w i = 0"
    using ready by (simp_all add: create_ready_def Let_def f_def)
  note g = create_geometry [OF ready, folded f_def]
  obtain c2 where re: "re_initialize_md_offsets ?H (option_bm_block_size ?opts) (c\<lparr>cfg_md := (fresh_md ?H ?opts n)\<lparr>bm_bytes_per_bit := 0\<rparr>\<rparr>) = Inr c2"
    and o: "cfg_al_offset c2 = of_nat (al_start f)" "cfg_bm_offset c2 = of_nat (bm_start f)" "bitmap_area c2 = cfg_bitmap_size f"
    and k: "cfg_md c2 = internal_md f" "ops c2 = ops c" "md_index c2 = md_index c" "bd_size c2 = bd_size c" "md_offset c2 = md_offset c"
      "wipe_fixed c2 = 0" "wipe_flex c2 = 0"
    by (rule re_initialize_fresh [OF ready, folded f_def])
  have mo: "md_offset f = md_offset c" by (simp add: f_def)
  have rng: "writable_range ?opts c2 (bm_start f) (unat (md_offset c) + 4096)"
    using internal_writable [OF ok room H(1,2) _ k(1)] g(1,5) by (simp add: k(5) mo)
  have alb: "al_blocks (internal_md f) = al_blocks (cfg_md f)" by (simp add: internal_md_def al_blocks_def)
  have "writable_range ?opts c2 (al_start f) (al_start f + 4096 * al_blocks (cfg_md c2))"
    using g(2,3) by (intro writable_range_mono [OF rng]) (simp_all add: k(1) alb)
  then obtain log where log: "writes (initialize_al ?H (i_host cx) ?opts c2) w () (write_bytes (disk w) (al_start f) log)"
      "length log = 4096 * al_blocks (cfg_md f)"
      "\<forall>hot. replay_al_84 ?H (i_host cx) (internal_md f) (al_4k_blocks ?H (i_host cx) log (al_blocks (cfg_md f))) hot = Inr (0, hot)"
    using writes_initialize_al [OF H(4) nd hw _ _ _ o(1), of "i_host cx"] al g(1,3) v9 k(2) unfolding k(1) alb by auto
  have bm: "writes (initialize_bitmap ?opts c2) w1 () (initialised_areas ?opts f log (disk w))"
    if "disk w1 = write_bytes (disk w) (al_start f) log" "same_device w w1" for w1
  proof -
    have "writable_range ?opts c2 (bm_start f) (bm_start f + cfg_bitmap_size f)"
      using g(2,3) by (intro writable_range_mono [OF rng]) simp_all
    moreover have "bm_start f + cfg_bitmap_size f \<le> dev_size w1" using that(2) g(1-3) by (simp add: same_device_def)
    ultimately show ?thesis
      using writes_initialize_bitmap [OF nd healthy_same_device [OF hw that(2)] _ _ mode o(2,3)]
      unfolding initialised_areas_def Let_def that(1) by blast
  qed
  have fr: "(fresh_md ?H ?opts n)\<lparr>al_nr_extents := 0, bm_bytes_per_bit := 0, al_nr_extents := 257, bm_bytes_per_bit := 0\<rparr>
      = (fresh_md ?H ?opts n)\<lparr>bm_bytes_per_bit := 0\<rparr>" by (simp add: fresh_md_def)
  obtain w1 where w1: "initialize_al ?H (i_host cx) ?opts c2 w = (Inr (), w1)" "disk w1 = write_bytes (disk w) (al_start f) log" "same_device w w1"
    using log(1) by (auto simp: writes_def)
  obtain w2 where w2: "initialize_bitmap ?opts c2 w1 = (Inr (), w2)" "disk w2 = initialised_areas ?opts f log (disk w)" "same_device w1 w2"
    using bm [OF w1(2,3)] by (auto simp: writes_def)
  have "v09_md_initialize pvs cx c True n w = (Inr (0, c2), w2)"
    unfolding v09_initial [OF H(3) refl] md_initialize_common_def Let_def
    using re fr w1(1) w2(1) blank_passes [OF hw blank, of pvs cx c2]
    by (simp add: bind_io_def lift_res_def ret_def buffer_size_def MD_AL_MAX_SECT_07_def)
  then have "writes (v09_md_initialize pvs cx c True n) w (0, c2) (initialised_areas ?opts f log (disk w))"
    using w2(2) same_device_trans [OF w1(3) w2(3)] by (simp add: writes_def)
  then show ?thesis using that log(2,3) k v9 by simp
qed

text \<open>The options leave the layout alone.\<close>

lemma frame_internal:
  assumes "same_frame (internal_md f) m"
  defines "g \<equiv> f\<lparr>cfg_md := m\<rparr>"
  shows "internal_md g = m" "internal_ok H g = internal_ok H f" "internal_room g = internal_room f"
    "al_start g = al_start f" "bm_start g = bm_start f" "cfg_bitmap_size g = cfg_bitmap_size f" "al_blocks m = al_blocks (cfg_md f)"
proof -
  have e: "al_blocks m = al_blocks (cfg_md f)" "bm_bytes_per_bit m = bm_bytes_per_bit (cfg_md f)" "max_peers m = max_peers (cfg_md f)"
    using assms by (simp_all add: same_frame_def internal_md_def al_blocks_def)
  show "al_blocks m = al_blocks (cfg_md f)" by (fact e(1))
  show z: "cfg_bitmap_size g = cfg_bitmap_size f" by (simp add: cfg_bitmap_size_def g_def e)
  show "internal_ok H g = internal_ok H f" "internal_room g = internal_room f" "al_start g = al_start f" "bm_start g = bm_start f"
    using z by (simp_all add: internal_ok_def supported_def internal_room_def al_start_def bm_start_def g_def e)
  show "internal_md g = m" using assms(1) z by (simp add: same_frame_def internal_md_def g_def e)
qed

lemma created_md_ok:
  assumes ready: "create_ready cx c n w" and fr: "same_frame (internal_md (c\<lparr>cfg_md := fresh_md (i_headers cx) (i_options cx) n\<rparr>)) m"
  shows "md_rep (i_headers cx) DRBD_V09 m" and "is_valid_md (i_headers cx) DRBD_V09 m (md_index c) (bd_size c) = Inr True"
proof -
  let ?H = "i_headers cx" and ?x = "fresh_md (i_headers cx) (i_options cx) n"
  let ?f = "c\<lparr>cfg_md := ?x\<rparr>" and ?g = "c\<lparr>cfg_md := m\<rparr>"
  have H: "block_sizes_ok ?H" "md_indices_ok ?H" "array_sizes_ok ?H" and ok: "internal_ok ?H ?f"
    using ready by (simp_all add: create_ready_def Let_def)
  note i = frame_internal [OF fr, simplified]
  have ix: "map bitmap_index (peers m) = replicate 32 (-1)"
    using fr H(3) by (simp add: same_frame_def internal_md_def fresh_md_def array_sizes_ok_def)
  then have len: "length (peers m) = 32" by (metis length_map length_replicate)
  have p: "sint (bitmap_index q) \<in> {-1..31}" if "q \<in> set (peers m)" for q
  proof -
    have "bitmap_index q \<in> set (map bitmap_index (peers m))" using that by simp
    then show ?thesis unfolding ix by simp
  qed
  have m: "magic m = DRBD_MD_MAGIC_09 ?H" "node_id m = -1" "gc m = replicate GEN_CNT_SIZE 0" "length (history_uuids m) = HISTORY_UUIDS ?H"
    "max_peers m = n"
    using fr by (simp_all add: same_frame_def internal_md_def fresh_md_def zero_md_def)
  have "is_valid_md ?H DRBD_V09 (internal_md ?g) (md_index ?g) (bd_size ?g) = Inr True"
    using i(2) ok H p len m by (intro is_valid_internal) (simp_all add: magic_matches_def)
  then show "is_valid_md ?H DRBD_V09 m (md_index c) (bd_size c) = Inr True" by (simp add: i(1))
  have "n \<le> 31" using ok by (simp add: internal_ok_def fresh_md_def)
  then show "md_rep ?H DRBD_V09 m" using m len H(3) by (simp add: md_rep_defs wf_md_def array_sizes_ok_def)
qed

lemma writes_created:
  assumes ready: "create_ready cx c n w" and fr: "same_frame (internal_md (c\<lparr>cfg_md := fresh_md (i_headers cx) (i_options cx) n\<rparr>)) m"
    and sd: "same_device w w1" and c3: "cfg_md c3 = m" "ops c3 = DRBD_V09" "md_index c3 = md_index c" "bd_size c3 = bd_size c"
      "md_offset c3 = md_offset c" "wipe_fixed c3 = 0" "wipe_flex c3 = 0"
  shows "writes (write_created cx 0 c3) w1 0 (write_bytes (disk w1) (unat (md_offset c)) (md_image (i_headers cx) DRBD_V09 (i_host cx) m))"
proof -
  let ?H = "i_headers cx" and ?f = "c\<lparr>cfg_md := fresh_md (i_headers cx) (i_options cx) n\<rparr>" and ?g = "c\<lparr>cfg_md := m\<rparr>"
  have H: "block_sizes_ok ?H" "md_indices_ok ?H" "array_sizes_ok ?H" "layout_9_ok ?H" and ok: "internal_ok ?H ?f" "internal_room ?f"
    and nd: "\<not> dry_run (i_options cx)" and hw: "healthy w" and nc: "\<not> close_fails (env w)"
    using ready by (simp_all add: create_ready_def Let_def)
  note g = create_geometry [OF ready] and i = frame_internal [OF fr, simplified]
  have rng: "writable_range (i_options cx) c3 (bm_start ?g) (unat (md_offset ?g) + 4096)"
    using ok i(2,3) g(1,5) by (intro internal_writable [OF _ _ H(1,2)]) (simp_all add: c3 i(1))
  have low: "bm_start ?g \<le> unat (md_offset c)" using g(2,3) by (simp add: i(5))
  have "writes (md_cpu_to_disk cx c3) w1 (0, c3\<lparr>update_lk_bdev := True\<rparr>)
      (write_bytes (disk w1) (unat (md_offset c3)) (md_image ?H (ops c3) (i_host cx) (cfg_md c3)))"
    using created_md_ok [OF ready fr] H nd rng low healthy_same_device [OF hw sd] g(1) sd
    by (intro writes_md [where lo = "bm_start ?g"]) (simp_all add: c3 flex_format_def same_device_def)
  then obtain w2 where w2: "md_cpu_to_disk cx c3 w1 = (Inr (0, c3\<lparr>update_lk_bdev := True\<rparr>), w2)" "same_device w1 w2"
      "disk w2 = write_bytes (disk w1) (unat (md_offset c)) (md_image ?H DRBD_V09 (i_host cx) m)"
    by (auto simp: writes_def c3)
  have "\<not> close_fails (env w2)" using nc sd w2(2) by (simp add: same_device_def)
  then obtain w3 where "md_close cx (c3\<lparr>update_lk_bdev := True\<rparr>) w2 = (Inr 0, w3)" "same_device w2 w3" "disk w3 = disk w2"
    using writes_close [of "c3\<lparr>update_lk_bdev := True\<rparr>" w2 cx] by (auto simp: writes_def c3 flex_format_def)
  then show ?thesis using w2 same_device_trans [OF w2(2)]
    by (auto simp: writes_def write_created_def bind_io_def wipe_after_convert_def ret_def c3)
qed

lemma replay_al_84_frame:
  assumes "same_frame a m"
  shows "replay_al_84 H h m blocks hot = replay_al_84 H h a blocks hot"
proof -
  have st: "al_stripes m = al_stripes a" "al_stripe_size_4k m = al_stripe_size_4k a" using assms by (simp_all add: same_frame_def)
  then have mx: "al_mx m = al_mx a" by (simp add: al_mx_def)
  have "al_decode_step H h m = al_decode_step H h a"
    by (intro ext) (simp add: al_decode_step_def mx al_tr_number_to_on_disk_slot_def st)
  then show ?thesis by (simp add: replay_al_84_def al_decode_def mx)
qed

lemma created_areas:
  fixes opts :: options and d :: content
  assumes "bm_start f + cfg_bitmap_size f = al_start f" "al_start f + length log = md_off" "length img = 4096"
  defines "d' \<equiv> write_bytes (initialised_areas opts f log d) md_off img"
  shows "read_bytes d' md_off 4096 = img" "read_bytes d' (al_start f) (length log) = log"
    and "option_initialize_bitmap_mode opts \<noteq> IBM_SKIP \<Longrightarrow> read_bytes d' (bm_start f) (cfg_bitmap_size f)
      = replicate (cfg_bitmap_size f) (if option_initialize_bitmap_mode opts = IBM_SET_ALL then 0xff else 0)"
    and "i < bm_start f \<or> md_off + 4096 \<le> i \<Longrightarrow> d' i = d i"
proof -
  show "read_bytes d' md_off 4096 = img" unfolding d'_def using store.rd_wr_same [of _ md_off img] assms(3) by simp
  show "read_bytes d' (al_start f) (length log) = log"
    using assms(1-3) store.rd_wr_same [of d "al_start f" log]
    by (simp add: d'_def initialised_areas_def Let_def store.rd_wr_disjoint)
  show "option_initialize_bitmap_mode opts \<noteq> IBM_SKIP \<Longrightarrow> read_bytes d' (bm_start f) (cfg_bitmap_size f)
      = replicate (cfg_bitmap_size f) (if option_initialize_bitmap_mode opts = IBM_SET_ALL then 0xff else 0)"
    using assms(1,2) store.rd_wr_same [of _ "bm_start f" "replicate (cfg_bitmap_size f) x" for x]
    by (simp add: d'_def initialised_areas_def Let_def store.rd_wr_disjoint)
  show "i < bm_start f \<or> md_off + 4096 \<le> i \<Longrightarrow> d' i = d i"
    using assms(1-3) by (auto simp: d'_def initialised_areas_def Let_def write_bytes_def)
qed

text \<open>
  C4. \<^verbatim>\<open>create-md\<close> end to end: on a device in which no meta data was found and whose start is
  blank, the command returns 0, without a question left to answer, and the next invocation finds
  in the regular place v09 meta data with the identities and flags that the options ask for
  and an effective size inside the data area; its activity log replays to no hot extent, its
  bitmap has the initial value, and no byte outside of the new meta data area changed.
\<close>

theorem create_md_complete:
  assumes v9: "ops cfg = DRBD_V09" "opens cfg w"
    and opened: "md_open cx cfg w = (Inr (NO_VALID_MD_FOUND, c), w)" "magic (cfg_md c) = 0"
    and none: "check_internal_md_flavours cx c w = (Inr c, w)"
    and arg: "create_max_peers DRBD_V09 argv = Inr k" "1 \<le> k" "k \<le> 31" and ready: "create_ready cx c (of_int k) w"
  defines "f \<equiv> c\<lparr>cfg_md := fresh_md (i_headers cx) (i_options cx) (of_int k)\<rparr>"
  assumes opts: "apply_create_options (i_headers cx) (i_options cx) co rnd False (internal_md f) = Inr m"
  shows "\<exists>w'. meta_create_md pvs rnd co cx cfg argv w = (Inr 0, w')
    \<and> stored_md cx cfg w' = Some (m\<lparr>effective_size := min (effective_size m) (of_nat (bm_start f div 512))\<rparr>)
    \<and> replay_al_84 (i_headers cx) (i_host cx) m
        (al_4k_blocks (i_headers cx) (i_host cx) (read_bytes (disk w') (al_start f) (4096 * al_blocks m)) (al_blocks m)) hot = Inr (0, hot)
    \<and> (option_initialize_bitmap_mode (i_options cx) \<noteq> IBM_SKIP \<longrightarrow> read_bytes (disk w') (bm_start f) (cfg_bitmap_size f)
        = replicate (cfg_bitmap_size f) (if option_initialize_bitmap_mode (i_options cx) = IBM_SET_ALL then 0xff else 0))
    \<and> (\<forall>i. i < bm_start f \<or> unat (md_offset c) + 4096 \<le> i \<longrightarrow> disk w' i = disk w i)"
proof -
  let ?H = "i_headers cx" and ?opts = "i_options cx" and ?h = "i_host cx" and ?n = "of_int k :: u32" and ?g = "c\<lparr>cfg_md := m\<rparr>"
  let ?img = "md_image (i_headers cx) DRBD_V09 (i_host cx) m"
  have H: "block_sizes_ok ?H" "md_indices_ok ?H" "array_sizes_ok ?H" "layout_9_ok ?H" and ok: "internal_ok ?H f" "internal_room f"
    and hw: "healthy w" and pib: "dev_size w \<le> 2 ^ 50"
    using ready by (simp_all add: create_ready_def Let_def f_def)
  note g = create_geometry [OF ready, folded f_def]
  have fr: "same_frame (internal_md f) m" using opts by (rule apply_create_options_frame)
  note i = frame_internal [OF fr, unfolded f_def, simplified, folded f_def] and mok = created_md_ok [OF ready fr [unfolded f_def]]
  obtain c2 log where ini: "writes (v09_md_initialize pvs cx c True ?n) w (0, c2) (initialised_areas ?opts f log (disk w))"
    and log: "length log = 4096 * al_blocks (cfg_md f)"
      "\<forall>hot. replay_al_84 ?H ?h (internal_md f) (al_4k_blocks ?H ?h log (al_blocks (cfg_md f))) hot = Inr (0, hot)"
    and c2: "cfg_md c2 = internal_md f" "ops c2 = DRBD_V09" "md_index c2 = md_index c" "bd_size c2 = bd_size c" "md_offset c2 = md_offset c"
      "wipe_fixed c2 = 0" "wipe_flex c2 = 0"
    by (rule writes_v09_initialize [OF ready, folded f_def, of pvs])
  obtain w1 where w1: "v09_md_initialize pvs cx c True ?n w = (Inr (0, c2), w1)" "same_device w w1"
      "disk w1 = initialised_areas ?opts f log (disk w)"
    using ini by (auto simp: writes_def)
  obtain w2 where w2: "write_created cx 0 (c2\<lparr>cfg_md := m\<rparr>) w1 = (Inr 0, w2)" "same_device w1 w2"
      "disk w2 = write_bytes (disk w1) (unat (md_offset c)) ?img"
    using writes_created [OF ready fr [unfolded f_def] w1(2), of "c2\<lparr>cfg_md := m\<rparr>"] c2 by (auto simp: writes_def)
  have len: "length ?img = 4096" using super_block.length_image [OF conjI [OF H(3,4)] mok(1)] .
  have fc: "flex_format (ops cfg)" using v9(1) by (simp add: flex_format_def)
  obtain c1 bd md where dev: "v07_style_md_open_device cx cfg w = (Inr c1, w)" and c: "c = (at_offset ?H c1)\<lparr>lk_bd := bd, cfg_md := md\<rparr>"
    and big: "large_enough (at_offset ?H c1)"
    by (rule unfound_open [OF fc v9(2) opened(1)]) auto
  have kc: "ops c = DRBD_V09" "md_index c = md_index cfg" "bd_size c1 = bd_size c" "md_offset (at_offset ?H c1) = md_offset c"
    "md_index (at_offset ?H c1) = md_index c"
    using open_device_keeps [OF v9(2) dev] v9(1) by (simp_all add: c at_offset_def)
  have idx: "md_index c = DRBD_MD_INDEX_FLEX_INT ?H" using ok(1) by (simp add: internal_ok_def f_def)
  have run: "meta_create_md pvs rnd co cx cfg argv w = (Inr 0, w2)"
    using arg opened none H(3) w1(1) w2(1) opts c2(1)
    by (simp add: meta_create_md_def Let_def bind_io_def lift_res_def v9(1) array_sizes_ok_def idx initialize_or_keep_def
        md_initialize_def kc(1) ret_def)
  note ar = created_areas [OF g(2) g(3) [folded log(1)] len, where opts = ?opts and d = "disk w", folded w1(3), folded w2(3)]
  have "md_read ?H (ops cfg) ?h (read_bytes (disk w2) (unat (md_offset c)) 4096) = m"
    using super_block.read_image [OF conjI [OF H(3,4)] mok(1)] by (simp add: ar(1) v9(1))
  moreover obtain c5 where "load_cfg ?H (at_offset ?H c1) (internal_md ?g) = Inr c5" "cfg_md c5 = clipped_md ?g"
  proof -
    have "unat (md_offset c) \<le> 2 ^ 50" using g(1) pib by simp
    then show ?thesis using that internal_loads [of ?H ?g "at_offset ?H c1", OF _ _ H(1,2)] ok i(2,3) kc(4,5) by auto
  qed
  ultimately have "md_open cx cfg w2 = (Inr (VALID_MD_FOUND, c5), w2)"
    using reopened [OF fc v9(2) same_device_trans [OF w1(2) w2(2)] dev big _ hw, of m c5] g(1) mok(2) by (simp add: kc i(1) v9(1))
  then have "stored_md cx cfg w2 = Some (m\<lparr>effective_size := min (effective_size m) (of_nat (bm_start f div 512))\<rparr>)"
    using \<open>cfg_md c5 = clipped_md ?g\<close> by (simp add: stored_md_def clipped_md_def i(1,5))
  moreover have "replay_al_84 ?H ?h m (al_4k_blocks ?H ?h (read_bytes (disk w2) (al_start f) (4096 * al_blocks m)) (al_blocks m)) hot = Inr (0, hot)"
    using log ar(2) by (simp add: frame_internal(7) [OF fr] replay_al_84_frame [OF fr])
  ultimately show ?thesis using run ar(3,4) by (intro exI [of _ w2]) blast
qed

section \<open>A concrete blank device\<close>

definition blank_device :: world where
  "blank_device = example_world\<lparr>dev_size := 1073741824, disk := \<lambda>_. 0\<rparr>"

definition blank_open :: format_cfg where
  "blank_open = at_offset example_headers (small_fresh\<lparr>md_hard_sect_size := 512, bd_size := 1073741824\<rparr>)"

definition no_create_options :: create_options where
  "no_create_options = \<lparr>option_al_stripes_used = False, option_initial_current_uuid = None, option_consistent = False,
     option_uptodate = False, option_peers_outdated = False, option_rotate_uuids = False\<rparr>"

lemma wrong_magic: "f \<in> {DRBD_V07, DRBD_V08, DRBD_V09} \<Longrightarrow> \<not> magic_matches H f (magic md) \<Longrightarrow> is_valid_md H f md idx sz = Inr False"
  by (auto simp: is_valid_md_def assert_res_def)

lemma drop_get_array:
  "snd (get_array (get32 h) n bs) = drop (4 * n) bs" "snd (get_array (get64 h) n bs) = drop (8 * n) bs"
  by (induction n arbitrary: bs) (simp_all add: case_prod_beta Let_def get32_def get64_def add.commute)

lemma example_magics:
  "\<not> magic_matches example_headers DRBD_V07 0" "\<not> magic_matches example_headers DRBD_V08 0" "\<not> magic_matches example_headers DRBD_V09 0"
  by (simp_all add: magic_matches_def DRBD_MD_MAGIC_07_def DRBD_MD_MAGIC_08_def DRBD_MD_MAGIC_09_def DRBD_MD_MAGIC_84_UNCLEAN_def)

lemma zero_magics:
  "magic (md_disk_07_to_cpu example_headers h (get_md_07 h (replicate 4096 0))) = 0"
  "magic (md_disk_08_to_cpu example_headers h (get_md_08 example_headers h (replicate 4096 0))) = 0"
  "magic (md_disk_09_to_cpu example_headers h (get_md_9 example_headers h (replicate 4096 0))) = 0"
proof -
  have z: "be32_to_cpu h (load h (replicate 4 0)) = 0" by (cases h) (simp_all add: swab32_def replicate_4)
  show "magic (md_disk_07_to_cpu example_headers h (get_md_07 h (replicate 4096 0))) = 0"
    using z by (simp add: md_disk_07_to_cpu_def get_md_07_def case_prod_beta Let_def get64_def get32_def drop_get_array GEN_CNT_SIZE_def)
  show "magic (md_disk_08_to_cpu example_headers h (get_md_08 example_headers h (replicate 4096 0))) = 0"
    using z by (simp add: md_disk_08_to_cpu_def get_md_08_def case_prod_beta Let_def get64_def get32_def drop_get_array GEN_CNT_SIZE_def)
  show "magic (md_disk_09_to_cpu example_headers h (get_md_9 example_headers h (replicate 4096 0))) = 0"
    using zero_magic [of h] by (simp add: md_read_def)
qed

lemma blank_fields: "ops blank_open = DRBD_V09" "md_index blank_open = -3" "bd_size blank_open = 1073741824" "md_offset blank_open = 1073737728"
    "cfg_md blank_open = zero_md example_headers" "lk_bd blank_open = \<lparr>lk_bd_size = 0, lk_bd_uuid = 0, lk_bd_name = None\<rparr>"
    "md_hard_sect_size blank_open = 512" "wipe_fixed blank_open = 0" "wipe_flex blank_open = 0"
  by (simp_all add: blank_open_def at_offset_def v07_style_md_get_byte_offset_def small_fresh_def example_cfg_def)

lemma blank_read: "off + 4096 \<le> 1073741824 \<Longrightarrow> pread_or_die 4096 (of_nat off) blank_device = (Inr (replicate 4096 0), blank_device)"
  using unat_of_nat_u64 [of off] read_bytes_constant [of off 4096 "\<lambda>_. 0" 0]
  by (simp add: pread_or_die_def kernel_error_def not_bit_63 blank_device_def example_world_def)

lemma blank_opened: "md_open example_cx small_fresh blank_device = (Inr (NO_VALID_MD_FOUND, blank_open), blank_device)"
proof -
  let ?c = "small_fresh\<lparr>md_hard_sect_size := 512, bd_size := 1073741824\<rparr>"
  have dev: "v07_style_md_open_device example_cx small_fresh blank_device = (Inr ?c, blank_device)"
    by (simp add: v07_style_md_open_device_def bind_io_def open_retry_free blank_device_def example_world_def
      example_env_def get_env_def get_dev_size_def ret_def small_fresh_def example_cfg_def Let_def bdev_size_def)
  have rd: "md_disk_to_cpu example_cx blank_open blank_device = (Inr (-1, blank_open), blank_device)"
    using blank_read [of 1073737728] zero_magics(3) [of "i_host example_cx"] example_magics(3)
    by (simp add: md_disk_to_cpu_def v09_md_disk_to_cpu_def blank_fields Let_def bind_io_def lift_res_def ret_def wrong_magic
        del: example_headers_simps)
  have "large_enough (at_offset (i_headers example_cx) ?c)"
    using blank_fields(3,4) by (simp add: large_enough_def SO_MUCH_def blank_open_def)
  then have "v07_style_md_open example_cx small_fresh blank_device = (Inr (NO_VALID_MD_FOUND, blank_open), blank_device)"
    using v07_open_unfold [OF dev refl] rd by (simp add: blank_open_def bind_io_def ret_def)
  moreover have "v08_check_for_resize example_cx blank_open blank_device = (Inr blank_open, blank_device)"
  proof -
    have "files blank_device p = None" for p by (simp add: blank_device_def example_world_def)
    moreover have "blank_open\<lparr>lk_bd := lk_bd blank_open\<rparr> = blank_open" by simp
    ultimately show ?thesis
      by (simp add: v08_check_for_resize_def blank_fields(1-5) bind_io_def lk_bdev_load_def Let_def ret_def zero_md_def)
  qed
  moreover have "ops small_fresh = DRBD_V09" by (simp add: small_fresh_def example_cfg_def)
  ultimately show ?thesis by (simp add: md_open_def v08_md_open_def bind_io_def ret_def blank_fields)
qed

lemma blank_no_flavour: "check_internal_md_flavours example_cx blank_open blank_device = (Inr blank_open, blank_device)"
proof -
  have off: "v07_style_md_get_byte_offset example_headers (-1) 1073741824 = of_nat 939524096"
    "v07_style_md_get_byte_offset example_headers (-3) 1073741824 = of_nat 1073737728"
    by (simp_all add: v07_style_md_get_byte_offset_def MD_RESERVED_SECT_07_def)
  have "fixed_internal_md example_cx blank_open blank_device = (Inr None, blank_device)"
    using blank_read [of 939524096] zero_magics(1) [of "i_host example_cx"] example_magics(1)
    by (simp add: fixed_internal_md_def Let_def blank_fields off bind_io_def lift_res_def ret_def wrong_magic)
  moreover have "detect_md example_headers (i_host example_cx) (replicate 4096 0) 1073741824 (-3) = Inr None"
    using zero_magics [of "i_host example_cx"] example_magics by (simp add: detect_md_def Let_def wrong_magic)
  ultimately show ?thesis
    using blank_read [of 1073737728]
    by (simp add: check_internal_md_flavours_def Let_def blank_fields off bind_io_def lift_res_def ret_def)
qed

lemma blank_ready: "create_ready example_cx blank_open 3 blank_device"
proof -
  let ?m = "fresh_md example_headers (i_options example_cx) 3"
  have m: "bm_bytes_per_bit ?m = 4096" "max_peers ?m = 3" "al_blocks ?m = 8"
    by (simp_all add: fresh_md_def al_blocks_def example_cx_def example_options_def DEFAULT_BM_BLOCK_SIZE_def)
  have sz: "cfg_bitmap_size (blank_open\<lparr>cfg_md := ?m\<rparr>) = 98304"
    by (simp add: cfg_bitmap_size_def m blank_fields bitmap_size_def bits_needed_def align_up_def)
  have "supported example_headers ?m 2097152" by (simp add: supported_def m is_power_of_2_def)
  then have ok: "internal_ok example_headers (blank_open\<lparr>cfg_md := ?m\<rparr>)"
    by (simp add: internal_ok_def m blank_fields drop_bit_eq_div)
  have room: "internal_room (blank_open\<lparr>cfg_md := ?m\<rparr>)" by (simp add: internal_room_def sz m blank_fields)
  have "healthy blank_device" "dev_size blank_device = 1073741824" "\<forall>i. disk blank_device i = 0" "\<not> close_fails (env blank_device)"
    by (simp_all add: healthy_def blank_device_def example_world_def example_env_def)
  moreover have "\<not> dry_run (i_options example_cx)" "option_initialize_bitmap_mode (i_options example_cx) \<noteq> IBM_ZEROOUT_IOCTL_ONLY"
    by (simp_all add: example_cx_def example_options_def)
  moreover have "v07_style_md_get_byte_offset example_headers (-3) 1073741824 = 1073737728"
    by (simp add: v07_style_md_get_byte_offset_def)
  ultimately show ?thesis
    using ok room m(3) by (simp add: create_ready_def Let_def blank_fields buffer_size_def example_layout_al_ok)
qed

lemma three_peers: "create_max_peers DRBD_V09 [''3''] = Inr 3"
  by (simp add: create_max_peers_def m_strtoll_def new_strtoll_def def_unit_shift_def strtoul_def scan_number_def scan_sign_def
      scan_base_def digit_value_def isspace_def)

theorem create_md_complete_witness:
  "\<exists>w' md. meta_create_md (\<lambda>_. PvsNotStarted) (\<lambda>_ _. 0) no_create_options example_cx small_fresh [''3''] blank_device = (Inr 0, w')
    \<and> stored_md example_cx small_fresh w' = Some md \<and> max_peers md = 3 \<and> (\<forall>i<1073606656. disk w' i = 0)"
proof -
  let ?f = "blank_open\<lparr>cfg_md := fresh_md (i_headers example_cx) (i_options example_cx) (of_int 3)\<rparr>"
  have o: "ops small_fresh = DRBD_V09" "opens small_fresh blank_device" "magic (cfg_md blank_open) = 0"
    by (simp_all add: small_fresh_def example_cfg_def opens_def blank_device_def example_world_def example_env_def blank_fields zero_md_def)
  obtain m where m: "apply_create_options (i_headers example_cx) (i_options example_cx) no_create_options (\<lambda>_ _. 0) False (internal_md ?f) = Inr m"
    by (simp add: apply_create_options_def no_create_options_def initial_uuid_def Let_def)
  have "max_peers m = 3" using apply_create_options_frame [OF m] by (simp add: same_frame_def internal_md_def fresh_md_def)
  moreover have "bm_start ?f = 1073606656"
    by (simp add: bm_start_def blank_fields cfg_bitmap_size_def fresh_md_def al_blocks_def example_cx_def example_options_def
        DEFAULT_BM_BLOCK_SIZE_def bitmap_size_def bits_needed_def align_up_def)
  moreover have "create_ready example_cx blank_open (of_int 3) blank_device" using blank_ready by simp
  with create_md_complete [OF o(1,2) blank_opened o(3) blank_no_flavour three_peers _ _ _ m, where hot = "[]" and pvs = "\<lambda>_. PvsNotStarted"]
  obtain w' where "meta_create_md (\<lambda>_. PvsNotStarted) (\<lambda>_ _. 0) no_create_options example_cx small_fresh [''3''] blank_device = (Inr 0, w')"
    "stored_md example_cx small_fresh w' = Some (m\<lparr>effective_size := min (effective_size m) (of_nat (bm_start ?f div 512))\<rparr>)"
    "\<forall>i. i < bm_start ?f \<or> unat (md_offset blank_open) + 4096 \<le> i \<longrightarrow> disk w' i = disk blank_device i"
    by auto
  moreover have "disk blank_device = (\<lambda>_. 0)" by (simp add: blank_device_def)
  ultimately show ?thesis
    by (intro exI [of _ w'] exI [of _ "m\<lparr>effective_size := min (effective_size m) (of_nat (bm_start ?f div 512))\<rparr>"]) simp
qed

section \<open>Wiping\<close>

lemma pwrite_where_read:
  assumes "pread_or_die n off w = (Inr buf, w)" and "\<not> dry_run opts" and "length bs = n"
    and "validate_offsets_or_die opts c n off = Inr ()"
  obtains w' where "pwrite_or_die opts c bs off w = (Inr (), w')" "disk w' = write_bytes (disk w) (unat off) bs"
    "same_device w w'" "files w' = files w"
  using assms
  by (auto simp: pread_or_die_def pwrite_or_die_def kernel_error_def bind_io_def lift_res_def Let_def same_device_def split: if_splits)

lemma close_keeps_files:
  assumes "md_close cx c w = (r, w')" and "p \<noteq> lk_bdev_path (i_libdir cx) (i_minor cx)"
  shows "files w' p = files w p"
  using assms
  by (auto simp: md_close_def v08_md_close_def generic_md_close_def bind_io_def get_env_def ret_def stop_io_def
      lk_bdev_delete_def lk_bdev_save_def Let_def split: md_format.splits if_splits)

lemma close_keeps_all_files: "md_close cx c w = (r, w') \<Longrightarrow> \<not> update_lk_bdev c \<Longrightarrow> files w' = files w"
  by (auto simp: md_close_def v08_md_close_def generic_md_close_def bind_io_def get_env_def ret_def stop_io_def split: md_format.splits if_splits)

lemma open_device_keeps_md:
  assumes "opens cfg w" and "v07_style_md_open_device cx cfg w = (Inr c1, w1)"
  shows "cfg_md c1 = cfg_md cfg"
proof -
  obtain r where r: "bdev_size w = (r, w)" using bdev_size_env [of w w] by (auto simp: same_device_def)
  show ?thesis
    using assms r
    by (auto simp: v07_style_md_open_device_def bind_io_def open_retry_free opens_def get_env_def
        get_dev_size_def ret_def stop_io_def Let_def split: option.splits if_splits sum.splits)
qed

text \<open>A block without the magic number, and no last known location: nothing is found.\<close>

lemma opened_blank:
  assumes f: "flex_format (ops cfg)" and o: "opens cfg w" and dev: "v07_style_md_open_device cx cfg w = (Inr c1, w)"
    and big: "large_enough (at_offset (i_headers cx) c1)" and m0: "magic (cfg_md c1) = 0"
    and rd: "pread_or_die 4096 (md_offset (at_offset (i_headers cx) c1)) w = (Inr buf, w)"
    and bad: "\<not> magic_matches (i_headers cx) (ops cfg) (magic (md_read (i_headers cx) (ops cfg) (i_host cx) buf))"
    and lk: "files w (lk_bdev_path (i_libdir cx) (i_minor cx)) = None"
  shows "\<exists>c'. md_open cx cfg w = (Inr (NO_VALID_MD_FOUND, c'), w)"
proof -
  let ?a = "at_offset (i_headers cx) c1"
  have k: "ops ?a = ops cfg" "cfg_md ?a = cfg_md c1" "lk_bd ?a = lk_bd c1"
    using open_device_keeps [OF o dev] by (simp_all add: at_offset_def)
  have fa: "flex_format (ops ?a)" and cases: "ops cfg \<in> {DRBD_V07, DRBD_V08, DRBD_V09}" using f by (auto simp: k flex_format_def)
  have "is_valid_md (i_headers cx) (ops cfg) (md_read (i_headers cx) (ops cfg) (i_host cx) buf) (md_index ?a) (bd_size ?a) = Inr False"
    using wrong_magic [OF cases bad] .
  then have "v07_style_md_open cx cfg w = (Inr (NO_VALID_MD_FOUND, ?a), w)"
    using v07_open_unfold [OF dev refl] big rd
    by (simp add: md_disk_to_cpu_eq [OF fa] k bind_io_def lift_res_def ret_def Let_def)
  moreover have "\<exists>e bd. e \<noteq> 0 \<and> lk_bdev_load (i_libdir cx) (i_minor cx) (lk_bd ?a) w = (Inr (e, bd), w)"
    using lk by (simp add: lk_bdev_load_def Let_def)
  then have "\<exists>c'. v08_check_for_resize cx ?a w = (Inr c', w) \<and> magic (cfg_md c') = 0"
    using m0 by (auto simp: v08_check_for_resize_def k bind_io_def ret_def)
  then obtain c' where "v08_check_for_resize cx ?a w = (Inr c', w)" "magic (cfg_md c') = 0" by blast
  moreover have "md_open cx cfg = v08_md_open cx cfg" using f by (auto simp: md_open_def flex_format_def)
  ultimately show ?thesis by (simp add: v08_md_open_def bind_io_def ret_def)
qed

text \<open>
  C5. \<^verbatim>\<open>wipe-md\<close> end to end: when meta data was found in a writable place and the user agrees, the
  command returns 0; exactly the super block is overwritten with zeroes, and no file but the one
  of the last known location is touched. When that file can be removed it is, and the next
  invocation finds no meta data; when \<^verbatim>\<open>unlink\<close> fails the command returns 0 all the same and the
  last known location is not forgotten.
\<close>

theorem wipe_md_forgets:
  assumes av: "md_available cx cfg w" and found: "md_open cx cfg w = (Inr (VALID_MD_FOUND, c), w)"
    and wr: "md_writable cx c w" and yes: "confirmed (i_options cx) w = (Inr True, w1)"
    and fresh: "magic (cfg_md cfg) = 0"
    and zero: "\<not> magic_matches (i_headers cx) (ops cfg) (magic (md_read (i_headers cx) (ops cfg) (i_host cx) (replicate 4096 0)))"
  shows "\<exists>w' c'. meta_wipe_md cx cfg w = (Inr 0, w')
    \<and> disk w' = write_bytes (disk w) (unat (md_offset c)) (replicate 4096 0)
    \<and> (\<forall>path. path \<noteq> lk_bdev_path (i_libdir cx) (i_minor cx) \<longrightarrow> files w' path = files w path)
    \<and> (\<not> unlink_fails (env w) (lk_bdev_path (i_libdir cx) (i_minor cx)) \<longrightarrow>
        files w' (lk_bdev_path (i_libdir cx) (i_minor cx)) = None \<and> md_open cx cfg w' = (Inr (NO_VALID_MD_FOUND, c'), w'))
    \<and> (unlink_fails (env w) (lk_bdev_path (i_libdir cx) (i_minor cx)) \<and> \<not> update_lk_bdev c \<longrightarrow> files w' = files w)"
proof -
  let ?H = "i_headers cx" and ?z = "replicate 4096 0 :: bytes" and ?p = "lk_bdev_path (i_libdir cx) (i_minor cx)"
  have a: "flex_format (ops cfg)" "opens cfg w" using av by (simp_all add: md_available_def)
  have w1: "w1 = w\<lparr>answers := answers w1\<rparr>"
    using yes by (auto simp: confirmed_def confirmed_ex_def split: if_splits option.splits list.splits)
  have same1: "disk w1 = disk w" "same_device w w1" "files w1 = files w" by (subst w1, simp add: same_device_def)+
  obtain c1 buf where c1: "v07_style_md_open_device cx cfg w = (Inr c1, w)" "large_enough (at_offset ?H c1)"
    and rd: "pread_or_die 4096 (md_offset (at_offset ?H c1)) w = (Inr buf, w)" and ld: "loads cx (at_offset ?H c1) buf c"
    using found md_open_found_iff [OF a(1)] v07_open_found_iff [OF a] by blast
  have off: "md_offset (at_offset ?H c1) = md_offset c" and oc: "ops c = ops cfg"
    using ld load_cfg_keeps [of ?H "at_offset ?H c1" _ c] open_device_keeps [OF a(2) c1(1)]
    by (auto simp: loads_def Let_def at_offset_def)
  have rd': "pread_or_die 4096 (md_offset c) w' = (Inr (read_bytes (disk w') (unat (md_offset c)) 4096), w')" if "same_device w w'" for w'
    using rd that by (auto simp: off pread_or_die_def kernel_error_def same_device_def split: if_splits)
  have wr': "\<not> dry_run (i_options cx)" "validate_offsets_or_die (i_options cx) c 4096 (md_offset c) = Inr ()" "\<not> close_fails (env w)"
    using wr by (simp_all add: md_writable_def)
  obtain w2 where w2: "pwrite_or_die (i_options cx) c ?z (md_offset c) w1 = (Inr (), w2)"
    "disk w2 = write_bytes (disk w1) (unat (md_offset c)) ?z" "same_device w1 w2" "files w2 = files w1"
    by (rule pwrite_where_read [OF rd' [OF same1(2)] wr'(1) length_replicate wr'(2)])
  have ne: "\<not> close_fails (env w2)" using wr'(3) same1(2) w2(3) by (simp add: same_device_def)
  obtain w3 where w3: "md_close cx c w2 = (Inr 0, w3)" "disk w3 = disk w2" "same_device w2 w3"
    using writes_close [OF _ ne, of c cx] a(1) oc by (auto simp: writes_def)
  let ?u = "unlink_fails (env w) ?p"
  let ?w = "w3\<lparr>files := if ?u then files w3 else (files w3)(?p := None)\<rparr>"
  have env3: "env w3 = env w" using same1(2) w2(3) w3(3) by (simp add: same_device_def)
  have del: "\<exists>r. lk_bdev_delete (i_libdir cx) (i_minor cx) w3 = (Inr r, ?w)"
  proof (cases "files w3 ?p")
    case None
    then have "(files w3)(?p := None) = files w3" by (simp add: fun_upd_idem)
    then show ?thesis using None by (simp add: lk_bdev_delete_def)
  qed (simp add: lk_bdev_delete_def env3)
  have run: "meta_wipe_md cx cfg w = (Inr 0, ?w)"
    using found yes w2(1) w3(1) del by (auto simp: meta_wipe_md_def bind_io_def ret_def)
  have fl: "files ?w path = files w path" if "path \<noteq> ?p" for path
    using close_keeps_files [OF w3(1) that] w2(4) same1(3) that by simp
  have stays: "files ?w = files w" if "?u" "\<not> update_lk_bdev c"
    using close_keeps_all_files [OF w3(1) that(2)] w2(4) same1(3) that(1) by simp
  have dk: "disk ?w = write_bytes (disk w) (unat (md_offset c)) ?z" using w2(2) w3(2) same1(1) by simp
  have sd: "same_device w ?w" using same1(2) w2(3) w3(3) by (simp add: same_device_def)
  have "read_bytes (disk ?w) (unat (md_offset c)) 4096 = ?z"
    using store.rd_wr_same [of "disk w" "unat (md_offset c)" ?z] dk by simp
  then have "pread_or_die 4096 (md_offset (at_offset ?H c1)) ?w = (Inr ?z, ?w)" using rd' [OF sd] off by simp
  moreover have "v07_style_md_open_device cx cfg ?w = (Inr c1, ?w)" using c1(1) open_device_env [OF a(2) sd, of cx] by auto
  moreover have "opens cfg ?w" using a(2) sd by (simp add: opens_def same_device_def)
  ultimately have "\<exists>c'. md_open cx cfg ?w = (Inr (NO_VALID_MD_FOUND, c'), ?w)" if "\<not> ?u"
    using opened_blank [OF a(1) _ _ c1(2) _ _ zero, of ?w] open_device_keeps_md [OF a(2) c1(1)] fresh that by simp
  then obtain c' where "\<not> ?u \<longrightarrow> md_open cx cfg ?w = (Inr (NO_VALID_MD_FOUND, c'), ?w)" by blast
  then show ?thesis using run dk fl stays by (intro exI [of _ ?w] exI [of _ c']) simp
qed

theorem wipe_md_forgets_witness:
  "\<exists>w' c'. meta_wipe_md example_cx small_fresh small_device = (Inr 0, w')
    \<and> md_open example_cx small_fresh w' = (Inr (NO_VALID_MD_FOUND, c'), w')"
proof -
  have "md_writable example_cx small_open small_device"
    by (simp add: md_writable_def example_cx_def example_options_def small_device_def example_world_def example_env_def
        validate_offsets_or_die_def small_open_def small_md_def example_cfg_def md_min_offset_def md_max_offset_def min_def)
  moreover have "confirmed (i_options example_cx) small_device = (Inr True, small_device)"
    by (simp add: confirmed_def confirmed_ex_def example_cx_def example_options_def)
  moreover have "ops small_fresh = DRBD_V09" "magic (cfg_md small_fresh) = 0"
    by (simp_all add: small_fresh_def example_cfg_def zero_md_def)
  moreover have "\<not> unlink_fails (env small_device) p" for p by (simp add: small_device_def example_world_def example_env_def)
  ultimately show ?thesis
    using wipe_md_forgets [OF small_available(1) small_found] example_magics(3) zero_magic by fastforce
qed

end
