(* ===== verification/Dump_Restored.thy ===== *)
theory Dump_Restored
  imports Restore_Md Md_Created
begin

text \<open>
  From one device to another: \<^verbatim>\<open>dump-md\<close> on a device with v09 meta data, then
  \<^verbatim>\<open>restore-md\<close> of what it printed on a device without any.
\<close>

unbundle bit_operations_syntax

section \<open>What dump-md prints\<close>

lemma md_close_stdout: "md_close cx cfg w = (r, w') \<Longrightarrow> stdout w' = stdout w"
  by (auto simp: md_close_def v08_md_close_def generic_md_close_def bind_io_def get_env_def ret_def stop_io_def
      lk_bdev_delete_def lk_bdev_save_def Let_def split: md_format.splits if_splits)

lemma yylex_bytes_line: "yylex_all (''# bm-bytes '' @ show_nat k @ '';'' @ nl @ r) = yylex_all r"
  "yylex_all (''# bits-set '' @ show_nat k @ '';'' @ nl @ r) = yylex_all r"
  by (simp_all add: yylex_comment_line drop_to_newline)

lemma dumpable_stdout [simp]: "dumpable H cfg off n (w\<lparr>stdout := s\<rparr>) = dumpable H cfg off n w"
  by (simp add: dumpable_def bitmap_readable_def healthy_def)

text \<open>The tokens of a whole dump, in the order of the parser.\<close>

definition dump_tokens :: "headers \<Rightarrow> host \<Rightarrow> format_cfg \<Rightarrow> (nat \<Rightarrow> bm_print list) \<Rightarrow> token list" where
  "dump_tokens H h c outs = start_tokens (ops c) (cfg_md c) @ super_tokens H (ops c) (cfg_md c) @ size_tokens (ops c) (cfg_md c) @
     concat (map (peer_tokens h (ops c) outs) [0..<unat (max_peers (cfg_md c))])"

text \<open>The activity log is dumped, if at all, as comments.\<close>

lemma dump_al_comments:
  assumes "healthy w" "verbose dc \<ge> 10 \<longrightarrow> unat (cfg_al_offset c) + dumped_al_size (cfg_md c) \<le> dev_size w"
  obtains s where "dump_al dc H h c w = (Inr (), w\<lparr>stdout := stdout w @ s\<rparr>)" "only_comments s"
proof (cases "verbose dc \<ge> 10")
  case True
  then obtain s where "printf_al H h c (on_disk_buffer dc) w = (Inr s, w)" "only_comments s" using printf_al_comments assms by blast
  then show ?thesis using that [of s] True by (simp add: dump_al_def bind_io_def say_def)
next
  case False
  then show ?thesis using that [of "[]"] by (simp add: dump_al_def ret_def only_comments_basic)
qed

lemma dump_run:
  assumes opened: "md_open cx cfg w = (Inr (VALID_MD_FOUND, c), w1)" "stdout w1 = []" and clean: "al_is_clean (i_headers cx) (cfg_md c)"
    and f: "flex_format (ops c)" "ops c \<noteq> DRBD_V09 \<longrightarrow> unat (max_peers (cfg_md c)) = 1" and nc: "\<not> close_fails (env w1)"
    and d: "dumpable (i_headers cx) c off n w1" and dc: "plain_context dc"
    and al: "verbose dc \<ge> 10 \<longrightarrow> unat (cfg_al_offset c) + dumped_al_size (cfg_md c) \<le> dev_size w1"
    and small: "unat (effective_size (cfg_md c)) < 10 ^ 19" "DRBD_NODE_ID_MAX (i_headers cx) < 10 ^ 19"
  obtains w2 outs where "meta_dump_md dc cx cfg w = (Inr 0, w2)" "disk w2 = disk w1"
    and "\<forall>p<unat (max_peers (cfg_md c)). peer_dumped (i_host cx) (disk w1) off (unat (max_peers (cfg_md c))) n outs p"
    and "yylex_all (stdout w2) = dump_tokens (i_headers cx) (i_host cx) c outs"
proof -
  let ?H = "i_headers cx" and ?h = "i_host cx" and ?md = "cfg_md c"
  let ?s1 = "dump_start ?H dc (ops c) ?md" and ?s2 = "dump_offsets ''#'' c @ nl @ dump_super_block ?H (ops c) ?md" and ?s3 = "dump_sizes (ops c) ?md"
  let ?s4 = "''# bm-bytes '' @ show_nat (unat (cfg_bm_bytes c)) @ '';'' @ nl"
  let ?w = "w1\<lparr>stdout := ((?s1 @ ?s2) @ ?s3) @ ?s4\<rparr>"
  obtain s b outs where t: "printf_bm ?H ?h c ?w = (Inr (s, c\<lparr>bits_set := b\<rparr>), ?w)"
    "\<forall>p<unat (max_peers ?md). peer_dumped ?h (disk ?w) off (unat (max_peers ?md)) n outs p"
    "\<And>rest. yylex_all (s @ rest) = concat (map (peer_tokens ?h (ops c) outs) [0..<unat (max_peers ?md)]) @ yylex_all rest"
    using printf_bm_text [OF _ refl f(2), of ?H off n ?w ?h] f(1) d by (auto simp: flex_format_def)
  let ?c = "c\<lparr>bits_set := b\<rparr>" and ?s5 = "s @ ''# bits-set '' @ show_nat (unat b) @ '';'' @ nl"
  let ?w2 = "w1\<lparr>stdout := (((?s1 @ ?s2) @ ?s3) @ ?s4) @ ?s5\<rparr>"
  have hw: "healthy ?w2" using d by (simp add: dumpable_def bitmap_readable_def healthy_def)
  obtain s6 where a: "dump_al dc ?H ?h ?c ?w2 = (Inr (), ?w2\<lparr>stdout := stdout ?w2 @ s6\<rparr>)" "only_comments s6"
    by (rule dump_al_comments [OF hw, of dc ?c ?H ?h]) (use al in simp)
  let ?w3 = "w1\<lparr>stdout := ((((?s1 @ ?s2) @ ?s3) @ ?s4) @ ?s5) @ s6\<rparr>"
  have u: "ops c \<noteq> DRBD_UNKNOWN" "format_version (ops c) \<ge> format_version DRBD_V07" using f(1) by (auto simp: flex_format_def)
  have run: "meta_dump_md dc cx cfg w = md_close cx ?c ?w3"
    using opened clean t(1) u(2) a(1) by (simp add: meta_dump_md_def Let_def bind_io_def say_def ret_def dump_bitmap_def)
  obtain w2 where w2: "md_close cx ?c ?w3 = (Inr 0, w2)" using md_close_0 [of ?c ?w3 cx] f(1) nc by auto
  have "yylex_all (stdout w2) = yylex_all (?s1 @ ?s2 @ ?s3 @ ?s4 @ ?s5 @ s6 @ [])" using md_close_stdout [OF w2] by simp
  also have "\<dots> = dump_tokens ?H ?h c outs"
    using yylex_start(1) [OF dc u(1) clean] yylex_offsets yylex_super_block [OF small(2)] yylex_sizes [OF small(1)] yylex_bytes_line t(3)
      a(2) [unfolded only_comments_def, rule_format, of "[]"]
    by (simp add: dump_tokens_def)
  finally have "yylex_all (stdout w2) = dump_tokens ?H ?h c outs" .
  moreover have "disk w2 = disk w1" using md_close_keeps(1) [OF w2] by simp
  ultimately show ?thesis using that run w2 t(2) by simp
qed

section \<open>Without writing: the prepared configuration\<close>

lemma re_initialize_rest:
  assumes "re_initialize_md_offsets H o2 x = Inr c2"
  shows "md_hard_sect_size c2 = md_hard_sect_size x" "max_usable_sectors H c2 = Inr (max_usable_sect c2)"
proof -
  obtain y s where y: "max_usable_sectors H y = Inr s" "c2 = y\<lparr>max_usable_sect := s\<rparr>"
    using assms by (auto simp: re_initialize_md_offsets_def Let_def bind_res_Inr_iff)
  moreover have "max_usable_sectors H (y\<lparr>max_usable_sect := s\<rparr>) = max_usable_sectors H y" by (simp add: max_usable_sectors_def)
  ultimately show "max_usable_sectors H c2 = Inr (max_usable_sect c2)" by simp
  show "md_hard_sect_size c2 = md_hard_sect_size x"
    using assms by (auto simp: re_initialize_md_offsets_def bitmap_and_al_offsets_def set_area_bm_bytes_def Let_def bind_res_Inr_iff split: if_splits)
qed

lemma prepared:
  assumes ready: "create_ready cx c n w"
  defines "f \<equiv> c\<lparr>cfg_md := fresh_md (i_headers cx) (i_options cx) n\<rparr>"
  obtains c2 where "md_initialize pvs cx c False n w = (Inr (0, c2), w)"
    and "cfg_md c2 = internal_md f" "ops c2 = DRBD_V09" "md_index c2 = md_index c" "bd_size c2 = bd_size c" "md_offset c2 = md_offset c"
    and "cfg_bm_offset c2 = of_nat (bm_start f)" "md_hard_sect_size c2 = md_hard_sect_size c" "max_usable_sect c2 = of_nat (bm_start f div 512)"
proof -
  let ?H = "i_headers cx" and ?opts = "i_options cx"
  have H: "block_sizes_ok ?H" "md_indices_ok ?H" "array_sizes_ok ?H" and ok: "internal_ok ?H f" and room: "internal_room f" and v9: "ops c = DRBD_V09"
    using ready by (simp_all add: create_ready_def Let_def f_def)
  obtain c2 where re: "re_initialize_md_offsets ?H (option_bm_block_size ?opts) (c\<lparr>cfg_md := (fresh_md ?H ?opts n)\<lparr>bm_bytes_per_bit := 0\<rparr>\<rparr>) = Inr c2"
    and o: "cfg_al_offset c2 = of_nat (al_start f)" "cfg_bm_offset c2 = of_nat (bm_start f)"
    and k: "cfg_md c2 = internal_md f" "ops c2 = ops c" "md_index c2 = md_index c" "bd_size c2 = bd_size c" "md_offset c2 = md_offset c"
    by (rule re_initialize_fresh [OF ready, folded f_def])
  note re2 = re_initialize_rest [OF re]
  have fr: "(fresh_md ?H ?opts n)\<lparr>al_nr_extents := 0, bm_bytes_per_bit := 0, al_nr_extents := 257, bm_bytes_per_bit := 0\<rparr>
      = (fresh_md ?H ?opts n)\<lparr>bm_bytes_per_bit := 0\<rparr>" by (simp add: fresh_md_def)
  have run: "md_initialize pvs cx c False n w = (Inr (0, c2), w)"
    unfolding md_initialize_def v9 md_format.case v09_initial [OF H(3) refl] md_initialize_common_def Let_def
    using re fr by (simp add: bind_io_def lift_res_def ret_def)
  have "max_usable_sect c2 = of_nat (bm_start f div 512)"
  proof -
    have "dev_size w < 2 ^ 63" "unat (md_offset c) + 4096 \<le> dev_size w" using create_geometry [OF ready] by simp_all
    then have lt: "unat (md_offset c) < 2 ^ 63" by simp
    have st: "bm_start f \<le> al_start f" "al_start f \<le> unat (md_offset f)" using area_starts [OF room] by simp_all
    have mo: "unat (md_offset f) = unat (md_offset c)" by (simp add: f_def)
    have u: "unat (of_nat (bm_start f) :: u64) = bm_start f" "unat (of_nat (al_start f) :: u64) = al_start f"
      using st lt by (intro unat_of_nat_u64; simp add: mo)+
    have "md_index c = DRBD_MD_INDEX_FLEX_INT ?H" using ok by (simp add: internal_ok_def f_def)
    then have "max_usable_sect c2 = drop_bit 9 (min (min (md_offset c) (of_nat (al_start f))) (of_nat (bm_start f)))"
      using re2(2) by (simp add: max_usable_sectors_def k o)
    also have "min (min (md_offset c) (of_nat (al_start f))) (of_nat (bm_start f)) = of_nat (bm_start f)"
    proof -
      have "(of_nat (bm_start f) :: u64) \<le> of_nat (al_start f)" "(of_nat (bm_start f) :: u64) \<le> md_offset c"
        using st mo by (simp_all add: word_le_nat_alt u)
      then show ?thesis by (simp add: min.absorb2)
    qed
    also have "drop_bit 9 (of_nat (bm_start f)) = (of_nat (bm_start f div 512) :: u64)" by (rule word_eq_of_nat) (simp add: unat_drop_bit u)
    finally show ?thesis .
  qed
  then show ?thesis using that run k o(2) re2 v9 by simp
qed

section \<open>The restored meta data\<close>

text \<open>The layout is the one computed for the target, all the rest comes from the dump.\<close>

definition restored_md :: "md_cpu \<Rightarrow> md_cpu \<Rightarrow> md_cpu" where
  "restored_md base md = base\<lparr>node_id := node_id md, current_uuid := current_uuid md, flags := flags md, members := members md,
     peers := peers md, history_uuids := history_uuids md, effective_size := effective_size md, bm_bytes_per_bit := bm_bytes_per_bit md,
     device_uuid := device_uuid md, la_peer_max_bio_size := la_peer_max_bio_size md, al_stripes := al_stripes md, al_stripe_size_4k := al_stripe_size_4k md\<rparr>"

text \<open>
  The source's meta data fits to the target: same striping and block size as a new one would
  have, slots and node id in range, and the effective size in front of the target's bitmap.
\<close>

definition restorable :: "invocation \<Rightarrow> format_cfg \<Rightarrow> md_cpu \<Rightarrow> bool" where
  "restorable cx c md \<longleftrightarrow>
    (let H = i_headers cx; x = fresh_md H (i_options cx) (max_peers md) in
     wf_md H md \<and> al_stripes md = al_stripes x \<and> al_stripe_size_4k md = al_stripe_size_4k x \<and> bm_bytes_per_bit md = bm_bytes_per_bit x \<and>
     sint (node_id md) \<in> {-1..31} \<and> (\<forall>p\<in>set (peers md). sint (bitmap_index p) \<in> {-1..31}) \<and>
     unat (effective_size md) \<le> bm_start (c\<lparr>cfg_md := x\<rparr>) div 512)"

lemma restored_internal:
  assumes rs: "restorable cx c md"
  defines "f \<equiv> c\<lparr>cfg_md := fresh_md (i_headers cx) (i_options cx) (max_peers md)\<rparr>"
  defines "m \<equiv> restored_md (internal_md f) md"
  defines "g \<equiv> c\<lparr>cfg_md := m\<rparr>"
  shows "internal_md g = m" "internal_ok H g = internal_ok H f" "internal_room g = internal_room f" "bm_start g = bm_start f" "al_start g = al_start f"
    "max_peers m = max_peers md"
proof -
  have x: "al_stripes md = al_stripes (cfg_md f)" "al_stripe_size_4k md = al_stripe_size_4k (cfg_md f)" "bm_bytes_per_bit md = bm_bytes_per_bit (cfg_md f)"
    using rs by (simp_all add: restorable_def Let_def f_def)
  have e: "al_blocks m = al_blocks (cfg_md f)" "bm_bytes_per_bit m = bm_bytes_per_bit (cfg_md f)" "max_peers m = max_peers (cfg_md f)"
    by (simp_all add: m_def restored_md_def al_blocks_def x internal_md_def)
  show "max_peers m = max_peers md" using e(3) by (simp add: f_def fresh_md_def)
  have z: "cfg_bitmap_size g = cfg_bitmap_size f" by (simp add: cfg_bitmap_size_def g_def e) (simp add: f_def)
  show "internal_ok H g = internal_ok H f" "internal_room g = internal_room f" "bm_start g = bm_start f" "al_start g = al_start f"
    using z by (simp_all add: internal_ok_def supported_def internal_room_def bm_start_def al_start_def g_def e) (simp_all add: f_def)
  show "internal_md g = m"
    using z unfolding internal_md_def by (simp add: g_def e) (simp add: m_def restored_md_def internal_md_def)
qed

lemma restored_md_ok:
  assumes ready: "create_ready cx c (max_peers md) w" and rs: "restorable cx c md"
  defines "f \<equiv> c\<lparr>cfg_md := fresh_md (i_headers cx) (i_options cx) (max_peers md)\<rparr>"
  defines "m \<equiv> restored_md (internal_md f) md"
  shows "md_rep (i_headers cx) DRBD_V09 m" and "is_valid_md (i_headers cx) DRBD_V09 m (md_index c) (bd_size c) = Inr True"
proof -
  let ?H = "i_headers cx" and ?g = "c\<lparr>cfg_md := m\<rparr>"
  have H: "block_sizes_ok ?H" "md_indices_ok ?H" "array_sizes_ok ?H" and ok: "internal_ok ?H f"
    using ready by (simp_all add: create_ready_def Let_def f_def)
  note i = restored_internal [OF rs, folded f_def, folded m_def]
  have s: "wf_md ?H md" "sint (node_id md) \<in> {-1..31}" "\<forall>p\<in>set (peers md). sint (bitmap_index p) \<in> {-1..31}"
    using rs by (simp_all add: restorable_def Let_def)
  have m: "magic m = DRBD_MD_MAGIC_09 ?H" "gc m = replicate GEN_CNT_SIZE 0" "peers m = peers md" "node_id m = node_id md" "history_uuids m = history_uuids md"
    by (simp_all add: m_def restored_md_def internal_md_def f_def fresh_md_def zero_md_def)
  have len: "length (peers md) = 32" using s(1) H(3) by (simp add: wf_md_def array_sizes_ok_def)
  have "is_valid_md ?H DRBD_V09 (internal_md ?g) (md_index ?g) (bd_size ?g) = Inr True"
    using i(2) ok H s len m by (intro is_valid_internal) (simp_all add: magic_matches_def)
  then show "is_valid_md ?H DRBD_V09 m (md_index c) (bd_size c) = Inr True" by (simp add: i(1))
  have "max_peers m \<le> 31" using ok i(6) by (simp add: internal_ok_def f_def fresh_md_def)
  then show "md_rep ?H DRBD_V09 m" using m s(1) H(3) by (simp add: md_rep_defs wf_md_def array_sizes_ok_def)
qed

lemma parse_restored:
  assumes H: "array_sizes_ok H" and wf: "wf_md H md" "wf_md H base" and sup: "supported H md s"
  shows "parse_md H DRBD_V09 base (super_tokens H DRBD_V09 md @ size_tokens DRBD_V09 md @ ts) = Inr (restored_md base md, ts)"
proof -
  have "parse_v09 H base (v09_tokens H md @ r) = Inr (base\<lparr>node_id := node_id md, current_uuid := current_uuid md, flags := flags md,
    members := members md, peers := peers md, history_uuids := history_uuids md\<rparr>, r)" for r
    using H wf by (intro parse_v09_tokens) (simp_all add: array_sizes_ok_def wf_md_def)
  moreover have "parse_sizes H DRBD_V09 x (size_tokens DRBD_V09 md @ r) = Inr (x\<lparr>effective_size := effective_size md, bm_bytes_per_bit := bm_bytes_per_bit md,
    device_uuid := device_uuid md, la_peer_max_bio_size := la_peer_max_bio_size md, al_stripes := al_stripes md, al_stripe_size_4k := al_stripe_size_4k md\<rparr>, r)" for x r
    using sup by (intro parse_sizes_tokens) (simp_all add: supported_def)
  ultimately show ?thesis by (simp add: parse_md_def super_tokens_def restored_md_def)
qed

lemma parse_dump_version_tokens: "parse_dump_version DRBD_V09 (start_tokens DRBD_V09 md @ ts) = Inr (max_peers md, ts)"
  by (simp add: parse_dump_version_def start_tokens_def)

text \<open>The size of the bitmap of a configuration that was opened.\<close>

lemma load_cfg_bytes: "load_cfg H a md = Inr c \<Longrightarrow> bm_bytes H (cfg_md c) (effective_size (cfg_md c)) = Inr (cfg_bm_bytes c)"
proof -
  assume l: "load_cfg H a md = Inr c"
  obtain e b where "bm_bytes H md e = Inr b" "cfg_md c = md\<lparr>effective_size := e\<rparr>" "cfg_bm_bytes c = b"
    using l by (auto simp: load_cfg_def clip_eq Let_def bind_res_Inr_iff)
  then show ?thesis using bm_bytes_cong [of "md\<lparr>effective_size := e\<rparr>" md H e] by simp
qed

section \<open>What restore-md writes\<close>

lemma disk_words_bytes:
  assumes "\<And>x. x < k \<Longrightarrow> disk_word h d' off' x = disk_word h d off x" and "i < 4 * k"
  shows "d' (off' + i) = d (off + i)"
proof -
  have "i div 4 < k" using assms(2) by simp
  then have "read_bytes d' (off' + 4 * (i div 4)) 4 = read_bytes d (off + 4 * (i div 4)) 4" using assms(1) by (intro disk_word_bytes) blast
  then have "read_bytes d' (off' + 4 * (i div 4)) 4 ! (i mod 4) = read_bytes d (off + 4 * (i div 4)) 4 ! (i mod 4)" by simp
  then show ?thesis by (simp add: read_bytes_def add.assoc)
qed

lemma target_geometry:
  assumes ready: "create_ready cx c (max_peers md) w" and rs: "restorable cx c md"
    and b: "bm_bytes (i_headers cx) md (effective_size md) = Inr (of_nat (4 * n))" "n < 2 ^ 32"
  defines "f \<equiv> c\<lparr>cfg_md := fresh_md (i_headers cx) (i_options cx) (max_peers md)\<rparr>"
  shows "bm_start f + 4 * n \<le> al_start f" "supported (i_headers cx) md (effective_size md)"
proof -
  let ?H = "i_headers cx"
  have H: "block_sizes_ok ?H" and ok: "internal_ok ?H f" and d: "bd_size c = of_nat (dev_size w)" "dev_size w \<le> 2 ^ 50"
    using ready by (simp_all add: create_ready_def Let_def f_def)
  note g = create_geometry [OF ready, folded f_def]
  have e: "unat (effective_size md) \<le> bm_start f div 512" "bm_bytes_per_bit md = bm_bytes_per_bit (cfg_md f)"
    using rs by (simp_all add: restorable_def Let_def f_def)
  have mp: "max_peers md = max_peers (cfg_md f)" by (simp add: f_def fresh_md_def)
  have sz: "unat (bd_size f) = dev_size w" using d by (simp add: unat_of_nat_u64 f_def)
  have "bm_start f \<le> dev_size w" using g(1-3) by linarith
  then have le: "unat (effective_size md) \<le> dev_size w div 512" using e(1) div_le_mono [of "bm_start f" "dev_size w" 512] by linarith
  show sup: "supported ?H md (effective_size md)" using b(1) bm_bytes_abort [of ?H md "effective_size md"] by fastforce
  have "max_peers md \<le> 31" using ok mp by (simp add: internal_ok_def)
  then have "unat (of_nat (4 * n) :: u64) = bitmap_size (unat (effective_size md)) (unat (bm_bytes_per_bit md)) (unat (max_peers md))"
    using bm_bytes_eq [OF sup H] b(1) by (metis sum.inject(2))
  also have "\<dots> \<le> cfg_bitmap_size f" unfolding cfg_bitmap_size_def sz e(2) mp by (rule bitmap_size_mono [OF le])
  finally show "bm_start f + 4 * n \<le> al_start f" using g(2) b(2) unat_of_nat_u64 [of "4 * n"] by simp
qed

lemma adjusted:
  assumes ready: "create_ready cx c (max_peers md) w" and rs: "restorable cx c md"
    and b: "bm_bytes (i_headers cx) md (effective_size md) = Inr (of_nat k)"
    and mx: "max_usable_sect c2 = of_nat (bm_start (c\<lparr>cfg_md := fresh_md (i_headers cx) (i_options cx) (max_peers md)\<rparr>) div 512)"
    and mp: "max_peers (restored_md base md) = max_peers md"
  shows "adjust_offsets cx used (set_md c2 (restored_md base md)) = Inr (c2\<lparr>cfg_md := restored_md base md, cfg_bm_bytes := of_nat k\<rparr>)"
proof -
  define f m where "f = c\<lparr>cfg_md := fresh_md (i_headers cx) (i_options cx) (max_peers md)\<rparr>" and "m = restored_md base md"
  have st: "al_stripes m = option_al_stripes (i_options cx)" "al_stripe_size_4k m = option_al_stripe_size_4k (i_options cx)" "effective_size m = effective_size md"
    using rs by (simp_all add: restorable_def Let_def fresh_md_def m_def restored_md_def)
  have "bm_start f < 2 ^ 63" using create_geometry [OF ready, folded f_def] by linarith
  then have "effective_size md \<le> of_nat (bm_start f div 512)"
    using rs unat_of_nat_u64 [of "bm_start f div 512"] by (simp add: restorable_def Let_def word_le_nat_alt f_def)
  then have e: "min (effective_size m) (max_usable_sect c2) = effective_size m" by (simp add: mx f_def st(3) min.absorb1)
  have bb: "bm_bytes (i_headers cx) m (effective_size m) = Inr (of_nat k)"
    using b bm_bytes_cong [of m md "i_headers cx" "effective_size md"] mp by (simp add: st(3)) (simp add: m_def restored_md_def)
  have "clip_effective_size_and_bm_bytes (i_headers cx) (c2\<lparr>cfg_md := m\<rparr>) = Inr (c2\<lparr>cfg_md := m, cfg_bm_bytes := of_nat k\<rparr>)"
    using e bb by (simp add: clip_eq Let_def)
  then show ?thesis using st by (simp add: adjust_offsets_def Let_def set_md_def m_def [symmetric])
qed

lemma writes_restored:
  assumes "ops c = DRBD_V09" and "array_sizes_ok (i_headers cx)" "layout_9_ok (i_headers cx)" "md_rep (i_headers cx) DRBD_V09 (cfg_md c)"
    and "healthy w" "\<not> dry_run (i_options cx)" "\<not> close_fails (env w)"
    and "is_valid_md (i_headers cx) DRBD_V09 (cfg_md c) (md_index c) (bd_size c) = Inr True"
    and "writable_range (i_options cx) c lo (unat (md_offset c) + 4096)" "lo \<le> unat (md_offset c)" "unat (md_offset c) + 4096 \<le> dev_size w"
  shows "writes (write_restored cx c) w (Some 0) (write_bytes (disk w) (unat (md_offset c)) (md_image (i_headers cx) DRBD_V09 (i_host cx) (cfg_md c)))"
proof -
  let ?img = "md_image (i_headers cx) DRBD_V09 (i_host cx) (cfg_md c)"
  obtain w2 where w2: "md_cpu_to_disk cx c w = (Inr (0, c\<lparr>update_lk_bdev := True\<rparr>), w2)" "disk w2 = write_bytes (disk w) (unat (md_offset c)) ?img" "same_device w w2"
    using writes_md [of c cx w lo] assms by (auto simp: writes_def flex_format_def)
  obtain w3 where w3: "md_close cx (c\<lparr>update_lk_bdev := True\<rparr>) w2 = (Inr 0, w3)" "disk w3 = disk w2" "same_device w2 w3"
    using writes_close [of "c\<lparr>update_lk_bdev := True\<rparr>" w2 cx] assms(1,7) w2(3) by (auto simp: writes_def flex_format_def same_device_def)
  have "write_restored cx c w = (Inr (Some 0), w3\<lparr>stdout := stdout w3 @ ''Successfully restored meta data'' @ nl\<rparr>)"
    using w2(1) w3(1) by (simp add: write_restored_def write_and_close_def bind_io_def ret_def say_def)
  then show ?thesis using w2 w3 by (auto simp: writes_def same_device_def)
qed

lemma restore_run:
  assumes ready: "create_ready cx c (max_peers md) w" and rs: "restorable cx c md"
    and b: "bm_bytes (i_headers cx) md (effective_size md) = Inr (of_nat (4 * n))" "1024 dvd n" "4 * n \<le> buffer_size"
    and out: "\<And>p. p < unat (max_peers md) \<Longrightarrow> peer_dumped (i_host cx) D off (unat (max_peers md)) n outs p" and buf: "length buf = buffer_size"
    and ts: "ts = super_tokens (i_headers cx) DRBD_V09 md @ size_tokens DRBD_V09 md @
      concat (map (peer_tokens (i_host cx) DRBD_V09 outs) [0..<unat (max_peers md)])"
  defines "f \<equiv> c\<lparr>cfg_md := fresh_md (i_headers cx) (i_options cx) (max_peers md)\<rparr>"
  defines "m \<equiv> restored_md (internal_md f) md"
  shows "\<exists>w'. restore_dump (Suc (Suc fuel)) pvs cx used buf c False old (max_peers md) ts w = (Inr (Some 0), w') \<and> same_device w w'
    \<and> read_bytes (disk w') (unat (md_offset c)) 4096 = md_image (i_headers cx) DRBD_V09 (i_host cx) m
    \<and> (\<forall>i<4 * restored_words (unat (max_peers md)) n. disk w' (bm_start f + i) = D (off + i))
    \<and> (\<forall>i. (i < bm_start f \<or> bm_start f + 4 * n \<le> i) \<and> (i < unat (md_offset c) \<or> unat (md_offset c) + 4096 \<le> i) \<longrightarrow> disk w' i = disk w i)"
proof -
  let ?H = "i_headers cx" and ?opts = "i_options cx" and ?h = "i_host cx" and ?mp = "unat (max_peers md)" and ?g = "c\<lparr>cfg_md := m\<rparr>"
  have H: "block_sizes_ok ?H" "md_indices_ok ?H" "array_sizes_ok ?H" "layout_9_ok ?H" and ok: "internal_ok ?H f" "internal_room f"
    and hw: "healthy w" and nd: "\<not> dry_run ?opts" and nc: "\<not> close_fails (env w)" and sect: "md_hard_sect_size c \<in> {512, 4096}"
    and blank: "69632 \<le> dev_size w" "\<forall>i<69632. disk w i = 0"
    using ready by (simp_all add: create_ready_def Let_def f_def)
  note g = create_geometry [OF ready, folded f_def] and i = restored_internal [OF rs, folded f_def, folded m_def]
    and mok = restored_md_ok [OF ready rs, folded f_def, folded m_def]
  have n32: "n < 2 ^ 32" using b(3) by (simp add: buffer_size_def)
  note tg = target_geometry [OF ready rs b(1) n32, folded f_def]
  obtain c2 where ini: "md_initialize pvs cx c False (max_peers md) w = (Inr (0, c2), w)"
    and c2: "cfg_md c2 = internal_md f" "ops c2 = DRBD_V09" "md_index c2 = md_index c" "bd_size c2 = bd_size c" "md_offset c2 = md_offset c"
      "cfg_bm_offset c2 = of_nat (bm_start f)" "md_hard_sect_size c2 = md_hard_sect_size c" "max_usable_sect c2 = of_nat (bm_start f div 512)"
    by (rule prepared [OF ready, folded f_def])
  have wf: "wf_md ?H md" "wf_md ?H (internal_md f)"
    using rs by (simp_all add: restorable_def Let_def internal_md_def f_def fresh_md_def wf_md_def zero_md_def)
  have parse: "parse_md ?H DRBD_V09 (internal_md f) ts = Inr (m, concat (map (peer_tokens ?h DRBD_V09 outs) [0..<?mp]))"
    unfolding ts m_def by (rule parse_restored [OF H(3) wf tg(2)])
  let ?c3 = "c2\<lparr>cfg_md := m, cfg_bm_bytes := of_nat (4 * n)\<rparr>"
  have adj: "adjust_offsets cx used (set_md c2 m) = Inr ?c3"
    using adjusted [OF ready rs b(1) c2(8) [unfolded f_def], of "internal_md f" used] i(6) by (simp add: m_def)
  have rd: "bitmap_readable ?c3 (bm_start f) n w"
    using hw tg(1) g(1-3) n32 sect c2 by (auto simp: bitmap_readable_def intro: exI [of _ 9] exI [of _ 12])
  have mp: "0 < ?mp" "?mp \<le> 31" using ok(1) by (auto simp: internal_ok_def f_def fresh_md_def word_le_nat_alt word_less_nat_alt)
  obtain bm' where p: "parse_bitmap_window ?h ?c3 0 False buf (concat (map (peer_tokens ?h DRBD_V09 outs) [0..<?mp]) @ []) = Inr (int (restored_words ?mp n), bm', [])"
    "length bm' = buffer_size" "\<And>x. x < restored_words ?mp n \<Longrightarrow> get_word32 ?h bm' x = disk_word ?h D off x"
    using parse_dumped [of ?c3 ?mp ?h D off n outs buf "[]"] mp out b(3) buf c2(2) i(6) by auto
  have rng: "writable_range ?opts ?c3 (bm_start f) (unat (md_offset c) + 4096)"
    using internal_writable [of ?H ?g ?c3, OF _ _ H(1,2)] ok i(1-4) g(1,5) c2 by simp
  have wr: "writable_range ?opts ?c3 (bm_start f) (bm_start f + 4 * n)" by (rule writable_range_mono [OF rng]) (use tg(1) g(3) in simp_all)
  obtain w1 where w1: "parse_bitmap (Suc (Suc fuel)) ?opts ?h ?c3 False buf (concat (map (peer_tokens ?h DRBD_V09 outs) [0..<?mp])) w = (Inr (Some []), w1)"
    "same_device w w1" "\<And>x. x < restored_words ?mp n \<Longrightarrow> disk_word ?h (disk w1) (bm_start f) x = get_word32 ?h bm' x"
    "\<forall>i. i < bm_start f \<or> bm_start f + 4 * n \<le> i \<longrightarrow> disk w1 i = disk w i"
    using parse_bitmap_words [OF p(1) _ rd _ b(2) restored_words_le b(3) p(2) nd wr, of fuel] mp i(6) by auto
  have hw1: "healthy w1" "unat (md_offset c) + 4096 \<le> dev_size w1" "\<not> close_fails (env w1)"
    using healthy_same_device [OF hw w1(2)] w1(2) g(1) nc by (simp_all add: same_device_def)
  let ?img = "md_image ?H DRBD_V09 ?h m"
  obtain w' where w': "write_restored cx ?c3 w1 = (Inr (Some 0), w')" "disk w' = write_bytes (disk w1) (unat (md_offset c)) ?img" "same_device w1 w'"
    using writes_restored [of ?c3 cx w1 "bm_start f"] H mok nd rng hw1 c2 tg(1) g(3) by (auto simp: writes_def)
  have idx: "md_index c2 = DRBD_MD_INDEX_FLEX_INT ?H" using ok(1) c2(3) by (simp add: internal_ok_def f_def)
  have "restore_bitmap (Suc (Suc fuel)) cx buf ?c3 False (concat (map (peer_tokens ?h DRBD_V09 outs) [0..<?mp])) w = (Inr (Some 0), w')"
    using w1(1) w'(1) by (simp add: restore_bitmap_def bind_io_def)
  then have run: "restore_dump (Suc (Suc fuel)) pvs cx used buf c False old (max_peers md) ts w = (Inr (Some 0), w')"
    using ini blank_passes [OF hw blank, of pvs cx c2] parse adj c2(1,2) by (simp add: restore_dump_def bind_io_def lift_res_def more_space_note_def idx ret_def)
  have len: "length ?img = 4096" using super_block.length_image [OF conjI [OF H(3,4)] mok(1)] .
  have "read_bytes (disk w') (unat (md_offset c)) 4096 = ?img" unfolding w'(2) using store.rd_wr_same [of _ "unat (md_offset c)" ?img] len by simp
  moreover have "disk w' (bm_start f + k) = D (off + k)" if k: "k < 4 * restored_words ?mp n" for k
  proof -
    have "bm_start f + k < unat (md_offset c)" using k restored_words_le [of ?mp n] tg(1) g(3) by linarith
    then have "disk w' (bm_start f + k) = disk w1 (bm_start f + k)" unfolding w'(2) by (intro write_bytes_outside) simp
    also have "\<dots> = D (off + k)" by (rule disk_words_bytes [OF _ k, where h = ?h]) (simp add: w1(3) p(3))
    finally show ?thesis .
  qed
  moreover have "disk w' k = disk w k" if "k < bm_start f \<or> bm_start f + 4 * n \<le> k" "k < unat (md_offset c) \<or> unat (md_offset c) + 4096 \<le> k" for k
    using that w1(4) write_bytes_outside [of k "unat (md_offset c)" ?img "disk w1"] len by (simp only: w'(2))
  ultimately show ?thesis using run same_device_trans [OF w1(2) w'(3)] by blast
qed

section \<open>Both commands\<close>

lemma opened_source:
  assumes "flex_format (ops cfg)" "opens cfg w" "md_open cx cfg w = (Inr (VALID_MD_FOUND, c), w1)"
  shows "w1 = w" "ops c = ops cfg" "bm_bytes (i_headers cx) (cfg_md c) (effective_size (cfg_md c)) = Inr (cfg_bm_bytes c)"
proof -
  obtain c1 buf where dev: "v07_style_md_open_device cx cfg w = (Inr c1, w)" and ld: "loads cx (at_offset (i_headers cx) c1) buf c" and "w1 = w"
    using assms md_open_found_iff [OF assms(1)] v07_open_found_iff [OF assms(1,2)] by auto
  then show "w1 = w" "ops c = ops cfg" "bm_bytes (i_headers cx) (cfg_md c) (effective_size (cfg_md c)) = Inr (cfg_bm_bytes c)"
    using open_device_keeps [OF assms(2) dev] by (auto simp: loads_def Let_def at_offset_def dest: load_cfg_keeps load_cfg_bytes)
qed

text \<open>The next invocation finds the super block that was restored.\<close>

lemma restored_found:
  assumes v9: "ops cfg = DRBD_V09" "opens cfg w" and opened: "md_open cx cfg w = (Inr (NO_VALID_MD_FOUND, c), w)"
    and ready: "create_ready cx c (max_peers md) w" and rs: "restorable cx c md" and sd: "same_device w w'"
  defines "f \<equiv> c\<lparr>cfg_md := fresh_md (i_headers cx) (i_options cx) (max_peers md)\<rparr>"
  defines "m \<equiv> restored_md (internal_md f) md"
  assumes img: "read_bytes (disk w') (unat (md_offset c)) 4096 = md_image (i_headers cx) DRBD_V09 (i_host cx) m"
  shows "stored_md cx cfg w' = Some m"
proof -
  let ?H = "i_headers cx" and ?g = "c\<lparr>cfg_md := m\<rparr>"
  have H: "block_sizes_ok ?H" "md_indices_ok ?H" "array_sizes_ok ?H" "layout_9_ok ?H" and ok: "internal_ok ?H f" "internal_room f"
    and hw: "healthy w" and pib: "dev_size w \<le> 2 ^ 50"
    using ready by (simp_all add: create_ready_def Let_def f_def)
  note g = create_geometry [OF ready, folded f_def] and i = restored_internal [OF rs, folded f_def, folded m_def]
    and mok = restored_md_ok [OF ready rs, folded f_def, folded m_def]
  have fc: "flex_format (ops cfg)" using v9(1) by (simp add: flex_format_def)
  obtain c1 bd m1 where dev: "v07_style_md_open_device cx cfg w = (Inr c1, w)" and c: "c = (at_offset ?H c1)\<lparr>lk_bd := bd, cfg_md := m1\<rparr>"
    and big: "large_enough (at_offset ?H c1)"
    by (rule unfound_open [OF fc v9(2) opened]) auto
  have kc: "md_index c = md_index cfg" "bd_size c1 = bd_size c" "md_offset (at_offset ?H c1) = md_offset c" "md_index (at_offset ?H c1) = md_index c"
    using open_device_keeps [OF v9(2) dev] by (simp_all add: c at_offset_def)
  have "md_read ?H (ops cfg) (i_host cx) (read_bytes (disk w') (unat (md_offset c)) 4096) = m"
    using super_block.read_image [OF conjI [OF H(3,4)] mok(1)] by (simp add: img v9(1))
  moreover obtain c5 where c5: "load_cfg ?H (at_offset ?H c1) m = Inr c5" "cfg_md c5 = clipped_md ?g"
  proof -
    have "unat (md_offset c) \<le> 2 ^ 50" using g(1) pib by simp
    then show ?thesis using that internal_loads [of ?H ?g "at_offset ?H c1", OF _ _ H(1,2)] ok i(1-3) kc(3,4) by auto
  qed
  ultimately have "md_open cx cfg w' = (Inr (VALID_MD_FOUND, c5), w')"
    using reopened [OF fc v9(2) sd dev big _ hw, of m c5] g(1) mok(2) by (simp add: kc v9(1))
  moreover have "clipped_md ?g = m"
  proof -
    have "bm_start f < 2 ^ 63" using g(1-3,5) by linarith
    then have "unat (of_nat (bm_start f div 512) :: u64) = bm_start f div 512" by (intro unat_of_nat_u64) simp
    then have "effective_size m \<le> of_nat (bm_start f div 512)"
      using rs by (simp add: restorable_def Let_def word_le_nat_alt f_def m_def restored_md_def)
    then show ?thesis by (simp add: clipped_md_def i(1,4) min.absorb1)
  qed
  ultimately show ?thesis using c5(2) by (simp add: stored_md_def)
qed


section \<open>A concrete pair of devices\<close>

definition intact_md :: md_cpu where
  "intact_md = example_stored\<lparr>flags := 145, effective_size := 262144\<rparr>"

definition intact_device :: world where
  "intact_device = example_world\<lparr>disk := write_bytes (\<lambda>_. 7) 0 (md_image example_headers DRBD_V09 LittleEndian intact_md)\<rparr>"

definition intact_open :: format_cfg where
  "intact_open = example_ext_cfg\<lparr>cfg_md := intact_md, bits_set := 0xFFFFFFFF, cfg_bm_bytes := 4096, max_usable_sect := 8587575296\<rparr>"

lemma intact_rep: "md_rep example_headers DRBD_V09 intact_md"
  using example_rep by (simp add: md_rep_defs intact_md_def)

lemma intact_found: "md_open example_cx example_fresh intact_device = (Inr (VALID_MD_FOUND, intact_open), intact_device)"
proof -
  have valid: "is_valid_md example_headers DRBD_V09 intact_md 0 134217728 = Inr True"
    using example_valid by (subst is_valid_cong [where md = example_stored]) (simp_all add: intact_md_def)
  have load: "load_cfg example_headers (at_offset example_headers (example_fresh\<lparr>md_hard_sect_size := 512, bd_size := 134217728\<rparr>)) intact_md = Inr intact_open"
    by (simp add: load_cfg_def at_offset_def v07_style_md_get_byte_offset_def example_fresh_def example_stored_def
        example_ext_cfg_def example_cfg_def zero_md_def Let_def max_usable_sectors_def clip_eq bm_bytes_def intact_md_def
        is_power_of_2_def intact_open_def assert_res_def ALIGN_def min_def)
  have len: "length (md_image example_headers DRBD_V09 LittleEndian intact_md) = 4096" by (rule super_block.length_image) (simp_all add: intact_rep)
  have "read_bytes (disk intact_device) 0 4096 = md_image example_headers DRBD_V09 LittleEndian intact_md"
    using store.rd_wr_same [of "\<lambda>_. 7" 0 "md_image example_headers DRBD_V09 LittleEndian intact_md"] len by (simp add: intact_device_def)
  then show ?thesis
    using example_finds [OF intact_rep valid load, of intact_device] by (simp add: same_device_def example_device_def intact_device_def)
qed

lemma intact_fields: "ops intact_open = DRBD_V09" "cfg_md intact_open = intact_md" "max_peers intact_md = 1" "effective_size intact_md = 262144"
  by (simp_all add: intact_open_def intact_md_def example_stored_def example_ext_cfg_def example_cfg_def)

lemma intact_dumpable: "dumpable example_headers intact_open 36864 1024 intact_device"
proof -
  have "\<exists>j\<le>12. md_hard_sect_size intact_open = 2 ^ j"
    by (intro exI [of _ 9]) (simp add: intact_open_def example_ext_cfg_def example_cfg_def)
  then show ?thesis
    by (simp add: dumpable_def bitmap_readable_def healthy_def intact_fields) (simp add: intact_open_def example_ext_cfg_def example_cfg_def intact_device_def example_world_def)
qed

lemma one_peer:
  defines "m \<equiv> fresh_md example_headers (i_options example_cx) 1"
  shows "bm_bytes_per_bit m = 4096" "max_peers m = 1" "al_blocks m = 8" "al_stripes m = 1" "al_stripe_size_4k m = 8"
    "cfg_bitmap_size (blank_open\<lparr>cfg_md := m\<rparr>) = 32768"
proof -
  show m: "bm_bytes_per_bit m = 4096" "max_peers m = 1" "al_blocks m = 8" "al_stripes m = 1" "al_stripe_size_4k m = 8"
    by (simp_all add: m_def fresh_md_def al_blocks_def example_cx_def example_options_def DEFAULT_BM_BLOCK_SIZE_def)
  show "cfg_bitmap_size (blank_open\<lparr>cfg_md := m\<rparr>) = 32768"
    by (simp add: cfg_bitmap_size_def m blank_fields bitmap_size_def bits_needed_def align_up_def)
qed

lemma blank_ready_one: "create_ready example_cx blank_open 1 blank_device"
proof -
  let ?m = "fresh_md example_headers (i_options example_cx) 1"
  have "supported example_headers ?m 2097152" by (simp add: supported_def one_peer is_power_of_2_def)
  then have "internal_ok example_headers (blank_open\<lparr>cfg_md := ?m\<rparr>)"
    by (simp add: internal_ok_def one_peer blank_fields drop_bit_eq_div)
  moreover have "internal_room (blank_open\<lparr>cfg_md := ?m\<rparr>)" by (simp add: internal_room_def one_peer blank_fields)
  ultimately show ?thesis using blank_ready one_peer(3) by (simp add: create_ready_def Let_def buffer_size_def)
qed

lemma blank_restorable: "restorable example_cx blank_open intact_md"
proof -
  let ?m = "fresh_md example_headers (i_options example_cx) 1"
  have "262144 \<le> bm_start (blank_open\<lparr>cfg_md := ?m\<rparr>) div 512" by (simp add: bm_start_def one_peer blank_fields)
  moreover have "wf_md example_headers intact_md" using intact_rep by (simp add: md_rep_defs wf_md_def)
  moreover have "al_stripes intact_md = 1" "al_stripe_size_4k intact_md = 8" "bm_bytes_per_bit intact_md = 4096" "sint (node_id intact_md) \<in> {-1..31}"
    "\<forall>p\<in>set (peers intact_md). sint (bitmap_index p) \<in> {-1..31}"
    by (auto simp: intact_md_def example_stored_def example_ext_cfg_def example_cfg_def zero_peer_def dest!: set_update_subset_insert [THEN subsetD])
  moreover have "i_headers example_cx = example_headers" by (simp add: example_cx_def)
  ultimately show ?thesis by (simp add: restorable_def Let_def intact_fields one_peer)
qed


end
