(* ===== verification/Spec2Isabelle.thy ===== *)
theory Spec2Isabelle
  imports Crc32c Version Replay_07 Apply_Al_Cmd Dump_Restored
begin

text \<open>
  A verification library for \<^verbatim>\<open>drbd-utils\<close>, the user space tools of DRBD. Its centre is
  \<^verbatim>\<open>drbdmeta\<close> (\<^verbatim>\<open>user/shared/drbdmeta.c\<close>), the program that creates, checks, moves,
  converts and changes the meta data DRBD keeps on its backing devices; a mistake there loses
  the record of which blocks differ between the nodes, or overwrites the data itself.

  \<^bold>\<open>The program.\<close> An invocation names a minor number, a meta data format (v06, v07, v08 or
  v09), a meta data device and an index that says where on the device the meta data is, and a
  command. The meta data consists of a super block of 4 KiB, an activity log (a ring of
  transactions that names the extents with recent writes) and a bitmap per peer. For internal
  meta data the three areas are at the end of the device, bitmap first and super block last;
  for external meta data they have a slot or a device of their own. \<^verbatim>\<open>f_ops\<close> is a table of
  functions per format; the commands are written against this table. All tools share
  \<^verbatim>\<open>user/shared/shared_tool.c\<close> (quoting, sizes, printing of generation identifiers, the file
  with the last known place of internal meta data).

  \<^bold>\<open>How the code is modelled.\<close> Integers keep their width (\<open>u16\<close>, \<open>u32\<close>, \<open>u64\<close> are
  words, so that \<^verbatim>\<open>+\<close> wraps as in C; signed readings are written with \<open>sint\<close> and \<open>scast\<close>);
  structures are records with the names of the source; \<^verbatim>\<open>exit\<close>, failing assertions and accesses
  out of bounds are values of \<open>stop\<close>. Code without effects returns \<open>'a res\<close>, a sum of such a
  stop and a result; code with effects is a function of type \<open>'a io\<close> on the state \<open>world\<close> of
  theory \<open>Device\<close>: the contents of the device, the files, the answers of the user, and the
  answers of the kernel to system calls (which reads fail, what kind of file the device is).
  Both orders of bytes are covered: the argument \<open>host\<close> is the order of the machine.
  The headers of the kernel module (\<^verbatim>\<open>drbd-headers\<close>, not part of the sources) are the parameter
  record \<open>headers\<close>; what the code relies on of their values is stated by the predicates
  \<open>array_sizes_ok\<close>, \<open>layout_9_ok\<close>, \<open>block_sizes_ok\<close>, \<open>md_indices_ok\<close>, and every
  property that assumes them is applied to \<open>example_headers\<close>, an instance that has them.

  \<^bold>\<open>Foundations.\<close>
  \<^item> \<open>Prelude\<close>: word types, results, \<^verbatim>\<open>ALIGN\<close>, generic lemmas and the collections of simp rules.
  \<^item> \<open>Endian\<close>, \<open>Hamming\<close> (\<^verbatim>\<open>drbd_endian.h\<close>): byte swaps and conversion macros, with the locale
    \<open>byte_order\<close> interpreted for each pair; counting of bits.
  \<^item> \<open>Memory\<close>: buffers as lists of bytes, integers and packed structures in them.
  \<^item> \<open>Crc32c\<close> (\<^verbatim>\<open>v9/drbdtool_common.c\<close>): the check sum equals bit-serial polynomial division.
  \<^item> \<open>Cstring\<close>: what the code uses of \<^verbatim>\<open>strtoul\<close>, \<^verbatim>\<open>sscanf\<close>, \<^verbatim>\<open>printf\<close>.
  \<^item> \<open>Escape\<close>, \<open>Shared_Tool\<close>, \<open>Version\<close> (\<^verbatim>\<open>shared_tool.c\<close>, \<^verbatim>\<open>v9/drbdtool_common.c\<close>): quoting with
    its inverse (locales \<open>quoting\<close> and \<open>buffered_quoting\<close>), sizes with units, device names, hex
    dumps, version strings and the choice of a driver version.

  \<^bold>\<open>Meta data.\<close>
  \<^item> \<open>Md_Types\<close>, \<open>Md_Disk\<close>: the structures, the packed super blocks of the four formats and the
    conversions; locale \<open>md_codec\<close> says that reading what was written gives the same meta
    data, and is interpreted for every format.
  \<^item> \<open>Md_Layout\<close>: \<^verbatim>\<open>bm_bytes\<close>, \<^verbatim>\<open>is_valid_md\<close>, \<^verbatim>\<open>re_initialize_md_offsets\<close>. The three areas are
    adjacent, do not overlap, hold a bit per block and peer, and the result is valid.
  \<^item> \<open>Device\<close> (\<^verbatim>\<open>drbdmeta.c\<close>, \<^verbatim>\<open>drbdmeta_linux.c\<close>): reading and writing with the range check
    \<^verbatim>\<open>validate_offsets_or_die\<close>, initialisation of the bitmap; locale \<open>byte_store\<close>.
  \<^item> \<open>Activity_Log\<close>, \<open>Replay_07\<close>, \<open>Apply_Al\<close>: decoding, scan and replay of the log; the old v07
    log with every access to its arrays checked; marking in the bitmap the blocks of hot extents.
  \<^item> \<open>Gen_Info\<close>, \<open>Last_Known\<close>, \<open>Md_Args\<close>: the generation identifiers as text and back, the file
    with the last known place, arguments of options.

  \<^bold>\<open>Operations and commands.\<close>
  \<^item> \<open>Md_Ops\<close>: the table \<^verbatim>\<open>f_ops\<close>: opening, reading, writing and closing in all formats.
  \<^item> \<open>Md_Commands\<close>, \<open>Command_Runs\<close>: \<^verbatim>\<open>get-gi\<close>, \<^verbatim>\<open>dstate\<close>, \<^verbatim>\<open>set-gi\<close>, \<^verbatim>\<open>outdate\<close>,
    \<^verbatim>\<open>invalidate\<close>, \<^verbatim>\<open>read-dev-uuid\<close>, \<^verbatim>\<open>write-dev-uuid\<close>, \<^verbatim>\<open>forget-peer\<close>, \<^verbatim>\<open>repair-md\<close>. The
    predicate \<open>implements\<close> relates a command to a function on the stored meta data: after a
    successful run the meta data that is found is its image and no other byte changed. The
    locale \<open>in_place_update\<close> proves this once for all functions that keep the layout. The second
    theory shows that the commands succeed on a device that works.
  \<^item> \<open>Apply_Al_Cmd\<close>: \<^verbatim>\<open>apply-al\<close> from the log on disk to the bitmap on disk.
  \<^item> \<open>Md_Move\<close>, \<open>Md_Moved\<close>, \<open>Md_Resize\<close>, \<open>Check_Resize\<close>: meta data of a device that grew is found at
    its last known place and \<^verbatim>\<open>check-resize\<close> moves it; the areas overlap, so the copy loops are
    proved against a copy of the original contents.
  \<^item> \<open>Existing_Data\<close>, \<open>Md_Convert\<close>, \<open>Md_Create\<close>, \<open>Md_Created\<close>: the check for file systems, the
    conversion between formats, \<^verbatim>\<open>create-md\<close> and \<^verbatim>\<open>wipe-md\<close>.
  \<^item> \<open>Dump_Scanner\<close> (\<^verbatim>\<open>drbdmeta_scanner.fl\<close>), \<open>Bitmap_Dump\<close>, \<open>Bitmap_Restore\<close>, \<open>Bitmap_Roundtrip\<close>: the
    scanner for dumps with the longest match of flex; the bitmap as text with its repeat
    counts, and how it is read again. What was printed is scanned and written back exactly, as
    far as the words that all peers have.
  \<^item> \<open>Al_Dump\<close>, \<open>Dump_Md\<close>, \<open>Restore_Md\<close>, \<open>Dump_Restored\<close>: \<^verbatim>\<open>dump-md\<close>, \<^verbatim>\<open>restore-md\<close> and
    \<^verbatim>\<open>verify-dump\<close>. Each part of a dump is scanned into the tokens the parser expects, a dump of
    the activity log is nothing but comments, a dump of unclean meta data is never restored, and
    clean v09 meta data moves from one device to another by way of its dump.

  \<^bold>\<open>Bounds.\<close> Loops are recursive functions with a termination proof; only the loop over the
  windows of a dumped bitmap has fuel, and two windows are proved to be enough for every input.
  The buffer for reads and writes has the 32 MiB of the source. Properties about whole commands
  assume a device below \<open>2 ^ 63\<close> bytes (offsets are signed there) or, for layouts, of at most
  1 PiB, the limit of the kernel module; the hypotheses say so. The predicates \<open>internal_ok\<close>,
  \<open>convertible\<close>, \<open>move_ready\<close> and \<open>create_ready\<close> are about flexible internal meta data;
  \<open>move_ready\<close> asks for a device that grew into another block of 4 KiB.

  \<^bold>\<open>Not modelled.\<close> Messages to the user, locking of minors, \<^verbatim>\<open>getopt\<close> and its tables; the
  Windows variants (\<^verbatim>\<open>*_windrbd.c\<close>); \<^verbatim>\<open>drbdmon\<close> (C++, a separate program); \<^verbatim>\<open>user/v84\<close>, an
  older copy of the tools; the configuration front end \<^verbatim>\<open>drbdadm\<close> and the netlink front end
  \<^verbatim>\<open>drbdsetup\<close>, which are programs of their own. A regular file does not grow when it is written
  behind its end. Differences of transaction numbers wrap, where C leaves the overflow of \<^verbatim>\<open>int\<close>
  undefined. The text that a command prints counts when the command returns.
\<close>

end
